(* ===== verification/Prelude.thy ===== *)
theory Prelude
  imports Main "HOL-Library.Word"
begin

text \<open>
  Shared vocabulary of the development: the fixed-width integer types of the C sources, the
  error numbers, the encoding of \<open>ERR_PTR\<close> results, and the generic facts on lists, words
  and disjoint ranges that the component theories use.

  Conventions.  A C function that returns \<open>int\<close> is modelled with result type \<open>int\<close> (0 for
  success, a negative error number for failure, and whatever a callback returns otherwise), so
  that the tests \<open>if (err)\<close> and \<open>if (err < 0)\<close> of the sources stay different tests.  A
  function that returns a pointer or \<open>ERR_PTR(e)\<close> has a result of the sum type
  \<open>int + 'a\<close>.  State is passed explicitly and returned updated.
\<close>

unbundle bit_operations_syntax

section \<open>Types and error numbers\<close>

type_synonym u8 = "8 word"
type_synonym u16 = "16 word"
type_synonym u32 = "32 word"
type_synonym u64 = "64 word"

type_synonym 'a err_ptr = "int + 'a"

abbreviation (input) ENOENT :: int where "ENOENT \<equiv> 2"
abbreviation (input) EIO :: int where "EIO \<equiv> 5"
abbreviation (input) ENOMEM :: int where "ENOMEM \<equiv> 12"
abbreviation (input) EBUSY :: int where "EBUSY \<equiv> 16"
abbreviation (input) EEXIST :: int where "EEXIST \<equiv> 17"
abbreviation (input) ENODEV :: int where "ENODEV \<equiv> 19"
abbreviation (input) EINVAL :: int where "EINVAL \<equiv> 22"
abbreviation (input) ENOSPC :: int where "ENOSPC \<equiv> 28"
abbreviation (input) ERANGE :: int where "ERANGE \<equiv> 34"
abbreviation (input) ENOSYS :: int where "ENOSYS \<equiv> 38"
abbreviation (input) ETIME :: int where "ETIME \<equiv> 62"
abbreviation (input) ENOTSUPP :: int where "ENOTSUPP \<equiv> 524"
abbreviation (input) EPROBE_DEFER :: int where "EPROBE_DEFER \<equiv> 517"

named_theorems regs_simps \<open>bit-level facts about the register masks of the sources\<close>
named_theorems inv_intros \<open>preservation facts of the component invariants\<close>

section \<open>Single-bit masks\<close>

text \<open>The C expression \<open>1UL << k\<close> (the macro \<open>BIT(k)\<close>) on a 32-bit \<open>unsigned long\<close>.\<close>

definition BIT :: "nat \<Rightarrow> 32 word" where
  "BIT k = push_bit k 1"

lemma bit_BIT [regs_simps]: "bit (BIT k) n \<longleftrightarrow> n = k \<and> k < 32"
  unfolding BIT_def bit_push_bit_iff bit_1_iff by auto

lemma and_BIT_eq_0 [regs_simps]:
  assumes "k < 32"
  shows "w AND BIT k = 0 \<longleftrightarrow> \<not> bit w k"
proof
  assume "w AND BIT k = 0"
  then have "\<not> bit (w AND BIT k) k" by simp
  with assms show "\<not> bit w k" by (simp add: bit_and_iff bit_BIT)
next
  assume "\<not> bit w k"
  then show "w AND BIT k = 0"
    by (intro bit_word_eqI) (auto simp only: bit_and_iff bit_BIT bit_0_eq)
qed

section \<open>Casts between 32 and 64 bits\<close>

lemma unat_ucast_32_64 [simp]: "unat (ucast (w :: u32) :: u64) = unat w"
  using unsigned_less [of w, where 'a = nat] by (simp add: unsigned_ucast_eq take_bit_nat_eq_self)

lemma unat_ucast_64_32: "unat (ucast (w :: u64) :: u32) = unat w mod 2 ^ 32"
  by (simp add: unsigned_ucast_eq take_bit_nat_def)

lemma unat_lt_32: "unat (w :: u32) < 2 ^ 32"
  using unsigned_less [of w, where 'a = nat] by simp

section \<open>Lists\<close>

lemma find_Some_in: "find P xs = Some x \<Longrightarrow> x \<in> set xs \<and> P x"
  by (induction xs) (auto split: if_splits)

lemma find_None_all: "find P xs = None \<longleftrightarrow> (\<forall>x \<in> set xs. \<not> P x)"
  by (induction xs) auto

text \<open>A search whose answer is unique does not depend on the order of the list.\<close>

lemma find_unique:
  assumes "x \<in> set xs" and "P x" and "\<And>y. y \<in> set xs \<Longrightarrow> P y \<Longrightarrow> y = x"
  shows "find P xs = Some x"
proof (cases "find P xs")
  case None
  with assms(1,2) show ?thesis by (auto simp: find_None_all)
next
  case (Some y)
  with assms(3) show ?thesis by (auto dest: find_Some_in)
qed

lemma nth_update_cases:
  "i < length xs \<Longrightarrow> (xs[j := v]) ! i = (if i = j then v else xs ! i)"
  by (simp add: nth_list_update)

text \<open>Splitting a pointwise relation along the second list.\<close>

lemma list_all2_splitE:
  assumes "list_all2 R xs (ys @ zs)"
  obtains us vs where "xs = us @ vs" and "list_all2 R us ys" and "list_all2 R vs zs"
  using assms by (auto simp only: list_all2_append2)

lemma list_all2_headE:
  assumes "list_all2 R xs (y # ys)"
  obtains u us where "xs = u # us" and "R u y" and "list_all2 R us ys"
  using assms by (auto simp only: list_all2_Cons2)

end
