(* ===== verification/Sbi_Redirect.thy ===== *)
theory Sbi_Redirect
  imports Prelude
begin

text \<open>
  The machine state the OpenSBI trap code works on, and the redirection of a trap to a lower
  privilege mode (\<open>sbi_trap_redirect\<close> of opensbi/lib/sbi/sbi_trap.c).  The hart is an RV32
  one (\<open>riscv,isa = "rv32imacfd"\<close> in rts3923_fpga.dts), so \<open>unsigned long\<close> is a 32-bit
  word and the \<open>__riscv_xlen == 32\<close> branches of the sources apply.
\<close>

type_synonym ulong = "32 word"

section \<open>Register state\<close>

text \<open>The general registers that the modelled code reads or writes.\<close>

record sbi_trap_regs =
  a0 :: ulong
  a1 :: ulong
  a6 :: ulong
  a7 :: ulong
  mepc :: ulong
  mstatus :: ulong
  mstatusH :: ulong

record sbi_trap_info =
  epc :: ulong
  cause :: ulong
  tval :: ulong
  tval2 :: ulong
  tinst :: ulong

text \<open>The CSRs the code accesses; \<open>misa_H\<close> is \<open>misa_extension('H')\<close>.\<close>

record hart_csrs =
  misa_H :: bool
  mcause :: ulong
  mtval :: ulong
  mtval2 :: ulong
  mtinst :: ulong
  mvendorid :: ulong
  marchid :: ulong
  mimpid :: ulong
  hstatus :: ulong
  htval :: ulong
  htinst :: ulong
  vstval :: ulong
  vsepc :: ulong
  vscause :: ulong
  vstvec :: ulong
  vsstatus :: ulong
  stval :: ulong
  sepc :: ulong
  scause :: ulong
  stvec :: ulong

section \<open>Status register fields\<close>

definition MSTATUS_SIE :: ulong where "MSTATUS_SIE = BIT 1"
definition MSTATUS_SPIE :: ulong where "MSTATUS_SPIE = BIT 5"
definition MSTATUS_SPP :: ulong where "MSTATUS_SPP = BIT 8"
definition MSTATUS_MPP :: ulong where "MSTATUS_MPP = push_bit 11 3"
definition MSTATUSH_MPV :: ulong where "MSTATUSH_MPV = BIT 7"
definition HSTATUS_SPVP :: ulong where "HSTATUS_SPVP = BIT 8"
definition HSTATUS_SPV :: ulong where "HSTATUS_SPV = BIT 7"

definition PRV_U :: ulong where "PRV_U = 0"
definition PRV_S :: ulong where "PRV_S = 1"
definition PRV_M :: ulong where "PRV_M = 3"

definition CAUSE_FETCH_PAGE_FAULT :: ulong where "CAUSE_FETCH_PAGE_FAULT = 0xc"
definition CAUSE_LOAD_PAGE_FAULT :: ulong where "CAUSE_LOAD_PAGE_FAULT = 0xd"
definition CAUSE_STORE_PAGE_FAULT :: ulong where "CAUSE_STORE_PAGE_FAULT = 0xf"

lemmas status_defs =
  MSTATUS_SIE_def MSTATUS_SPIE_def MSTATUS_SPP_def MSTATUS_MPP_def MSTATUSH_MPV_def
  HSTATUS_SPVP_def HSTATUS_SPV_def PRV_U_def PRV_S_def PRV_M_def

definition is_page_fault :: "ulong \<Rightarrow> bool" where
  "is_page_fault c \<longleftrightarrow>
     c = CAUSE_FETCH_PAGE_FAULT \<or> c = CAUSE_LOAD_PAGE_FAULT \<or> c = CAUSE_STORE_PAGE_FAULT"

definition prev_mode :: "sbi_trap_regs \<Rightarrow> ulong" where
  "prev_mode regs = drop_bit 11 (mstatus regs AND MSTATUS_MPP)"

definition prev_virt :: "sbi_trap_regs \<Rightarrow> bool" where
  "prev_virt regs \<longleftrightarrow> mstatusH regs AND MSTATUSH_MPV \<noteq> 0"

section \<open>Trap redirection\<close>

text \<open>
  The stacking of the interrupt-enable and privilege bits that both branches of the function
  perform, in the order of the sources: SPP takes the previous mode, SPIE takes the old SIE,
  and SIE is cleared.  The masks of \<open>sstatus\<close> are those of \<open>mstatus\<close>.
\<close>

definition stack_status :: "ulong \<Rightarrow> ulong \<Rightarrow> ulong" where
  "stack_status mode st =
     (let st1 = st AND NOT MSTATUS_SPP;
          st2 = (if mode = PRV_S then st1 OR BIT 8 else st1);
          st3 = st2 AND NOT MSTATUS_SPIE;
          st4 = (if st3 AND MSTATUS_SIE \<noteq> 0 then st3 OR BIT 5 else st3)
      in st4 AND NOT MSTATUS_SIE)"

definition set_mpp_S :: "ulong \<Rightarrow> ulong" where
  "set_mpp_S st = (st AND NOT MSTATUS_MPP) OR push_bit 11 PRV_S"

definition sbi_trap_redirect ::
  "int \<Rightarrow> sbi_trap_regs \<Rightarrow> sbi_trap_info \<Rightarrow> hart_csrs \<Rightarrow> int \<times> sbi_trap_regs \<times> hart_csrs"
where
  "sbi_trap_redirect SBI_ENOTSUPP regs trap c =
     (let pm = prev_mode regs; pv = prev_virt regs in
      if pm \<noteq> PRV_S \<and> pm \<noteq> PRV_U then (SBI_ENOTSUPP, regs, c)
      else
        let next_virt = (misa_H c \<and> pv \<and> is_page_fault (cause trap));
            regs1 = regs\<lparr>mstatusH := (mstatusH regs AND NOT MSTATUSH_MPV)
                           OR (if next_virt then MSTATUSH_MPV else 0)\<rparr>;
            c1 = (if misa_H c \<and> pv \<and> \<not> next_virt then
                    let h1 = hstatus c AND NOT HSTATUS_SPVP;
                        h2 = h1 OR (if pm = PRV_S then HSTATUS_SPVP else 0);
                        h3 = h2 AND NOT HSTATUS_SPV;
                        h4 = h3 OR (if pv then HSTATUS_SPV else 0)
                    in c\<lparr>hstatus := h4, htval := tval2 trap, htinst := tinst trap\<rparr>
                  else c)
        in
        if next_virt then
          let c2 = c1\<lparr>vstval := tval trap, vsepc := epc trap, vscause := cause trap\<rparr>;
              regs2 = regs1\<lparr>mepc := vstvec c2, mstatus := set_mpp_S (mstatus regs1)\<rparr>
          in (0, regs2, c2\<lparr>vsstatus := stack_status pm (vsstatus c2)\<rparr>)
        else
          let c2 = c1\<lparr>stval := tval trap, sepc := epc trap, scause := cause trap\<rparr>;
              regs2 = regs1\<lparr>mepc := stvec c2,
                            mstatus := stack_status pm (set_mpp_S (mstatus regs1))\<rparr>
          in (0, regs2, c2))"

section \<open>Facts\<close>

lemma bit_MSTATUS_MPP [regs_simps]: "bit MSTATUS_MPP n \<longleftrightarrow> n = 11 \<or> n = 12"
proof -
  have "MSTATUS_MPP = BIT 11 OR BIT 12"
    by (simp add: MSTATUS_MPP_def BIT_def)
  then have "bit MSTATUS_MPP n = bit (BIT 11 OR BIT 12) n" by simp
  also have "\<dots> \<longleftrightarrow> n = 11 \<or> n = 12" by (auto simp: bit_or_iff bit_BIT)
  finally show ?thesis .
qed

lemma push_bit_PRV_S: "push_bit 11 PRV_S = BIT 11"
  by (simp add: PRV_S_def BIT_def)

lemma bit_stack_status [regs_simps]:
  "bit (stack_status mode st) n \<longleftrightarrow>
     (if n = 8 then mode = PRV_S
      else if n = 5 then bit st 1
      else if n = 1 then False
      else bit st n)"
  by (cases "n < 32")
    (auto simp: stack_status_def Let_def MSTATUS_SPP_def MSTATUS_SPIE_def MSTATUS_SIE_def
       and_BIT_eq_0 bit_BIT bit_and_iff bit_or_iff bit_not_iff dest: bit_imp_le_length)

lemma bit_set_mpp_S [regs_simps]:
  "bit (set_mpp_S st) n \<longleftrightarrow> (if n = 11 then True else if n = 12 then False else bit st n)"
  by (cases "n < 32")
    (auto simp: set_mpp_S_def push_bit_PRV_S bit_MSTATUS_MPP bit_BIT bit_and_iff bit_or_iff
       bit_not_iff dest: bit_imp_le_length)

lemma prev_mode_bits:
  "bit (prev_mode regs) n \<longleftrightarrow> (n = 0 \<or> n = 1) \<and> bit (mstatus regs) (11 + n)"
  by (auto simp: prev_mode_def bit_MSTATUS_MPP bit_and_iff bit_drop_bit_eq)

lemma prev_mode_set_mpp_S:
  "mstatus regs = set_mpp_S st \<Longrightarrow> prev_mode regs = PRV_S"
  by (rule bit_word_eqI) (auto simp: prev_mode_bits bit_set_mpp_S PRV_S_def bit_1_iff)

lemma prev_virt_bit: "prev_virt regs \<longleftrightarrow> bit (mstatusH regs) 7"
  by (simp add: prev_virt_def MSTATUSH_MPV_def and_BIT_eq_0)

end
