(* ===== verification/Sbi_Ecall.thy ===== *)
theory Sbi_Ecall
  imports Sbi_Redirect
begin

text \<open>
  The SBI call layer: the registry of ecall extensions and the dispatch of an ecall
  (opensbi/lib/sbi/sbi_ecall.c), and the base extension (opensbi/lib/sbi/sbi_ecall_base.c).

  The extension objects live in memory; \<open>ext_at\<close> is that memory and the registry list holds
  their addresses, so that the pointer comparison of the unregister function is an address
  comparison.  A function pointer is a code address: the base handler is modelled here, every
  other handler or probe function is code of other files and is given by the parameter
  \<open>ecall_code\<close>.  The error numbers of sbi_error.h and the firmware version are fields of the
  parameter \<open>sbi_config\<close>.
\<close>

section \<open>State\<close>

record sbi_config =
  SBI_EINVAL :: int
  SBI_ENOTSUPP :: int
  SBI_ETRAP :: int
  OPENSBI_VERSION :: ulong

datatype handle_fn = Fn_base_handler | Fn_external nat

record sbi_ecall_extension =
  extid_start :: ulong
  extid_end :: ulong
  probe :: "nat option"
  handle :: "handle_fn option"

record 'w sbi_state =
  ext_at :: "nat \<Rightarrow> sbi_ecall_extension"
  ecall_exts_list :: "nat list"
  ecall_impid :: ulong
  csrs :: hart_csrs
  world :: 'w

record 'w ecall_code =
  ext_probe :: "nat \<Rightarrow> ulong \<Rightarrow> ulong \<Rightarrow> 'w sbi_state \<Rightarrow> int \<times> ulong \<times> 'w sbi_state"
  ext_handle :: "nat \<Rightarrow> ulong \<Rightarrow> ulong \<Rightarrow> sbi_trap_regs \<Rightarrow> ulong \<Rightarrow> sbi_trap_info \<Rightarrow> 'w sbi_state
    \<Rightarrow> int \<times> ulong \<times> sbi_trap_info \<times> 'w sbi_state"

section \<open>Constants of the call interface\<close>

definition SBI_ECALL_VERSION_MAJOR :: ulong where "SBI_ECALL_VERSION_MAJOR = 0"
definition SBI_ECALL_VERSION_MINOR :: ulong where "SBI_ECALL_VERSION_MINOR = 2"
definition SBI_OPENSBI_IMPID :: ulong where "SBI_OPENSBI_IMPID = 1"
definition SBI_EXT_0_1_SET_TIMER :: ulong where "SBI_EXT_0_1_SET_TIMER = 0x0"
definition SBI_EXT_0_1_SHUTDOWN :: ulong where "SBI_EXT_0_1_SHUTDOWN = 0x8"
definition SBI_EXT_BASE :: ulong where "SBI_EXT_BASE = 0x10"

definition SBI_EXT_BASE_GET_SPEC_VERSION :: ulong where "SBI_EXT_BASE_GET_SPEC_VERSION = 0"
definition SBI_EXT_BASE_GET_IMP_ID :: ulong where "SBI_EXT_BASE_GET_IMP_ID = 1"
definition SBI_EXT_BASE_GET_IMP_VERSION :: ulong where "SBI_EXT_BASE_GET_IMP_VERSION = 2"
definition SBI_EXT_BASE_PROBE_EXT :: ulong where "SBI_EXT_BASE_PROBE_EXT = 3"
definition SBI_EXT_BASE_GET_MVENDORID :: ulong where "SBI_EXT_BASE_GET_MVENDORID = 4"
definition SBI_EXT_BASE_GET_MARCHID :: ulong where "SBI_EXT_BASE_GET_MARCHID = 5"
definition SBI_EXT_BASE_GET_MIMPID :: ulong where "SBI_EXT_BASE_GET_MIMPID = 6"

definition SBI_SPEC_VERSION_MAJOR_OFFSET :: nat where "SBI_SPEC_VERSION_MAJOR_OFFSET = 24"
definition SBI_SPEC_VERSION_MAJOR_MASK :: ulong where "SBI_SPEC_VERSION_MAJOR_MASK = 0x7f"

definition SBI_ERR_FAILED :: int where "SBI_ERR_FAILED = -1"
definition SBI_LAST_ERR :: int where "SBI_LAST_ERR = -6"

lemmas sbi_const_defs =
  SBI_ECALL_VERSION_MAJOR_def SBI_ECALL_VERSION_MINOR_def SBI_OPENSBI_IMPID_def
  SBI_EXT_0_1_SET_TIMER_def SBI_EXT_0_1_SHUTDOWN_def SBI_EXT_BASE_def
  SBI_EXT_BASE_GET_SPEC_VERSION_def SBI_EXT_BASE_GET_IMP_ID_def
  SBI_EXT_BASE_GET_IMP_VERSION_def SBI_EXT_BASE_PROBE_EXT_def
  SBI_EXT_BASE_GET_MVENDORID_def SBI_EXT_BASE_GET_MARCHID_def SBI_EXT_BASE_GET_MIMPID_def
  SBI_SPEC_VERSION_MAJOR_OFFSET_def SBI_SPEC_VERSION_MAJOR_MASK_def
  SBI_ERR_FAILED_def SBI_LAST_ERR_def

section \<open>The extension registry\<close>

definition sbi_ecall_get_impid :: "'w sbi_state \<Rightarrow> ulong" where
  "sbi_ecall_get_impid s = ecall_impid s"

definition sbi_ecall_set_impid :: "ulong \<Rightarrow> 'w sbi_state \<Rightarrow> 'w sbi_state" where
  "sbi_ecall_set_impid impid s = s\<lparr>ecall_impid := impid\<rparr>"

definition ext_covers :: "sbi_ecall_extension \<Rightarrow> ulong \<Rightarrow> bool" where
  "ext_covers t extid \<longleftrightarrow> extid_start t \<le> extid \<and> extid \<le> extid_end t"

definition sbi_ecall_find_extension :: "ulong \<Rightarrow> 'w sbi_state \<Rightarrow> nat option" where
  "sbi_ecall_find_extension extid s = find (\<lambda>t. ext_covers (ext_at s t) extid) (ecall_exts_list s)"

definition no_overlap :: "sbi_ecall_extension \<Rightarrow> sbi_ecall_extension \<Rightarrow> bool" where
  "no_overlap t e \<longleftrightarrow> extid_end t < extid_start e \<or> extid_end e < extid_start t"

definition sbi_ecall_register_extension ::
  "sbi_config \<Rightarrow> nat option \<Rightarrow> 'w sbi_state \<Rightarrow> int \<times> 'w sbi_state"
where
  "sbi_ecall_register_extension cfg ext s =
     (case ext of
        None \<Rightarrow> (SBI_EINVAL cfg, s)
      | Some p \<Rightarrow>
          if extid_end (ext_at s p) < extid_start (ext_at s p) \<or> handle (ext_at s p) = None
          then (SBI_EINVAL cfg, s)
          else if list_all (\<lambda>t. no_overlap (ext_at s t) (ext_at s p)) (ecall_exts_list s)
          then (0, s\<lparr>ecall_exts_list := ecall_exts_list s @ [p]\<rparr>)
          else (SBI_EINVAL cfg, s))"

definition sbi_ecall_unregister_extension :: "nat option \<Rightarrow> 'w sbi_state \<Rightarrow> 'w sbi_state" where
  "sbi_ecall_unregister_extension ext s =
     (case ext of
        None \<Rightarrow> s
      | Some p \<Rightarrow>
          if p \<in> set (ecall_exts_list s)
          then s\<lparr>ecall_exts_list := remove1 p (ecall_exts_list s)\<rparr>
          else s)"

section \<open>The base extension\<close>

definition sbi_ecall_base_probe ::
  "'w ecall_code \<Rightarrow> ulong \<Rightarrow> ulong \<Rightarrow> 'w sbi_state \<Rightarrow> int \<times> ulong \<times> 'w sbi_state"
where
  "sbi_ecall_base_probe code extid out_val s =
     (case sbi_ecall_find_extension extid s of
        None \<Rightarrow> (0, 0, s)
      | Some p \<Rightarrow>
          (case probe (ext_at s p) of
             Some f \<Rightarrow> ext_probe code f extid out_val s
           | None \<Rightarrow> (0, 1, s)))"

definition sbi_ecall_base_handler ::
  "sbi_config \<Rightarrow> 'w ecall_code \<Rightarrow> ulong \<Rightarrow> ulong \<Rightarrow> sbi_trap_regs \<Rightarrow> ulong \<Rightarrow> sbi_trap_info \<Rightarrow> 'w sbi_state
    \<Rightarrow> int \<times> ulong \<times> sbi_trap_info \<times> 'w sbi_state"
where
  "sbi_ecall_base_handler cfg code extid funcid regs out_val out_trap s =
     (if funcid = SBI_EXT_BASE_GET_SPEC_VERSION then
        (0, (push_bit SBI_SPEC_VERSION_MAJOR_OFFSET SBI_ECALL_VERSION_MAJOR AND
             push_bit SBI_SPEC_VERSION_MAJOR_OFFSET SBI_SPEC_VERSION_MAJOR_MASK)
            OR SBI_ECALL_VERSION_MINOR, out_trap, s)
      else if funcid = SBI_EXT_BASE_GET_IMP_ID then (0, sbi_ecall_get_impid s, out_trap, s)
      else if funcid = SBI_EXT_BASE_GET_IMP_VERSION then (0, OPENSBI_VERSION cfg, out_trap, s)
      else if funcid = SBI_EXT_BASE_GET_MVENDORID then (0, mvendorid (csrs s), out_trap, s)
      else if funcid = SBI_EXT_BASE_GET_MARCHID then (0, marchid (csrs s), out_trap, s)
      else if funcid = SBI_EXT_BASE_GET_MIMPID then (0, mimpid (csrs s), out_trap, s)
      else if funcid = SBI_EXT_BASE_PROBE_EXT then
        (case sbi_ecall_base_probe code (a0 regs) out_val s of
           (ret, v, s') \<Rightarrow> (ret, v, out_trap, s'))
      else (SBI_ENOTSUPP cfg, out_val, out_trap, s))"

text \<open>The extension object \<open>ecall_base\<close>.\<close>

definition ecall_base :: sbi_ecall_extension where
  "ecall_base = \<lparr>extid_start = SBI_EXT_BASE, extid_end = SBI_EXT_BASE,
                 probe = None, handle = Some Fn_base_handler\<rparr>"

section \<open>Dispatch of an ecall\<close>

definition call_handle ::
  "sbi_config \<Rightarrow> 'w ecall_code \<Rightarrow> handle_fn \<Rightarrow> ulong \<Rightarrow> ulong \<Rightarrow> sbi_trap_regs \<Rightarrow> ulong \<Rightarrow> sbi_trap_info
    \<Rightarrow> 'w sbi_state \<Rightarrow> int \<times> ulong \<times> sbi_trap_info \<times> 'w sbi_state"
where
  "call_handle cfg code f = (case f of
      Fn_base_handler \<Rightarrow> sbi_ecall_base_handler cfg code
    | Fn_external k \<Rightarrow> ext_handle code k)"

definition zero_trap :: sbi_trap_info where
  "zero_trap = \<lparr>epc = 0, cause = 0, tval = 0, tval2 = 0, tinst = 0\<rparr>"

text \<open>
  First half: the extension is looked up and its handler called.  The result is the return
  code, \<open>out_val\<close>, \<open>trap\<close>, \<open>is_0_1_spec\<close> and the new state.
\<close>

definition ecall_dispatch ::
  "sbi_config \<Rightarrow> 'w ecall_code \<Rightarrow> sbi_trap_regs \<Rightarrow> 'w sbi_state
    \<Rightarrow> int \<times> ulong \<times> sbi_trap_info \<times> bool \<times> 'w sbi_state"
where
  "ecall_dispatch cfg code regs s =
     (let extension_id = a7 regs; func_id = a6 regs in
      case sbi_ecall_find_extension extension_id s of
        None \<Rightarrow> (SBI_ENOTSUPP cfg, 0, zero_trap, False, s)
      | Some p \<Rightarrow>
          (case handle (ext_at s p) of
             None \<Rightarrow> (SBI_ENOTSUPP cfg, 0, zero_trap, False, s)
           | Some f \<Rightarrow>
               (case call_handle cfg code f extension_id func_id regs 0 zero_trap s of
                  (ret, out_val, trap, s') \<Rightarrow>
                    (ret, out_val, trap,
                     SBI_EXT_0_1_SET_TIMER \<le> extension_id \<and> extension_id \<le> SBI_EXT_0_1_SHUTDOWN,
                     s'))))"

definition sbi_ecall_handler ::
  "sbi_config \<Rightarrow> 'w ecall_code \<Rightarrow> sbi_trap_regs \<Rightarrow> 'w sbi_state
    \<Rightarrow> int \<times> sbi_trap_regs \<times> 'w sbi_state"
where
  "sbi_ecall_handler cfg code regs s =
     (case ecall_dispatch cfg code regs s of
        (ret, out_val, trap, is_0_1_spec, s') \<Rightarrow>
          if ret = SBI_ETRAP cfg then
            (case sbi_trap_redirect (SBI_ENOTSUPP cfg) regs (trap\<lparr>epc := mepc regs\<rparr>) (csrs s') of
               (_, regs', c) \<Rightarrow> (0, regs', s'\<lparr>csrs := c\<rparr>))
          else
            let ret' = (if ret < SBI_LAST_ERR then SBI_ERR_FAILED else ret);
                regs1 = regs\<lparr>mepc := mepc regs + 4, a0 := word_of_int ret'\<rparr>;
                regs2 = (if is_0_1_spec then regs1 else regs1\<lparr>a1 := out_val\<rparr>)
            in (0, regs2, s'))"

section \<open>Initialisation\<close>

text \<open>
  The eight extension objects that \<open>sbi_ecall_init\<close> registers, by address; the objects other
  than \<open>ecall_base\<close> are defined in files outside the repository.
\<close>

record ecall_objects =
  p_ecall_time :: nat
  p_ecall_rfence :: nat
  p_ecall_ipi :: nat
  p_ecall_base :: nat
  p_ecall_hsm :: nat
  p_ecall_srst :: nat
  p_ecall_legacy :: nat
  p_ecall_vendor :: nat

fun register_seq :: "sbi_config \<Rightarrow> nat list \<Rightarrow> 'w sbi_state \<Rightarrow> int \<times> 'w sbi_state" where
  "register_seq cfg [] s = (0, s)"
| "register_seq cfg (p # ps) s =
     (case sbi_ecall_register_extension cfg (Some p) s of
        (ret, s') \<Rightarrow> if ret \<noteq> 0 then (ret, s') else register_seq cfg ps s')"

definition init_order :: "ecall_objects \<Rightarrow> nat list" where
  "init_order ob = [p_ecall_time ob, p_ecall_rfence ob, p_ecall_ipi ob, p_ecall_base ob,
                    p_ecall_hsm ob, p_ecall_srst ob, p_ecall_legacy ob, p_ecall_vendor ob]"

definition sbi_ecall_init :: "sbi_config \<Rightarrow> ecall_objects \<Rightarrow> 'w sbi_state \<Rightarrow> int \<times> 'w sbi_state" where
  "sbi_ecall_init cfg ob s = register_seq cfg (init_order ob) s"

section \<open>The registry as an interface\<close>

text \<open>
  What the dispatcher and the probe function rely on: looking an identifier up finds exactly
  the member that covers it, registering an acceptable object adds it, anything else leaves
  the registry as it was, and unregistering removes one member.  Which lookups change is
  derived from these laws once.
\<close>

locale id_registry =
  fixes invar :: "'s \<Rightarrow> bool"
    and members :: "'s \<Rightarrow> 'p set"
    and covers :: "'s \<Rightarrow> 'p \<Rightarrow> 'i \<Rightarrow> bool"
    and accepts :: "'s \<Rightarrow> 'p \<Rightarrow> bool"
    and lookup :: "'i \<Rightarrow> 's \<Rightarrow> 'p option"
    and register :: "'p \<Rightarrow> 's \<Rightarrow> 's"
    and unregister :: "'p \<Rightarrow> 's \<Rightarrow> 's"
  assumes lookup_iff: "invar s \<Longrightarrow> lookup i s = Some p \<longleftrightarrow> p \<in> members s \<and> covers s p i"
    and register_invar: "invar s \<Longrightarrow> invar (register p s)"
    and register_members: "accepts s p \<Longrightarrow> members (register p s) = insert p (members s)"
    and register_refused: "\<not> accepts s p \<Longrightarrow> register p s = s"
    and register_covers: "covers (register p s) = covers s"
    and accepts_fresh: "invar s \<Longrightarrow> accepts s p \<Longrightarrow> covers s p i \<Longrightarrow> lookup i s = None"
    and accepts_new: "invar s \<Longrightarrow> accepts s p \<Longrightarrow> p \<notin> members s"
    and unregister_invar: "invar s \<Longrightarrow> invar (unregister p s)"
    and unregister_members: "invar s \<Longrightarrow> members (unregister p s) = members s - {p}"
    and unregister_covers: "covers (unregister p s) = covers s"
begin

lemma lookup_eqI:
  assumes "invar s" and "invar t" and "\<And>p. p \<in> members s \<and> covers s p i \<longleftrightarrow> p \<in> members t \<and> covers t p i"
  shows "lookup i s = lookup i t"
proof -
  have "lookup i s = Some p \<longleftrightarrow> lookup i t = Some p" for p
    by (simp add: lookup_iff assms)
  then show ?thesis by (metis not_Some_eq)
qed

lemma lookup_register:
  assumes "invar s" and "accepts s p"
  shows "lookup i (register p s) = (if covers s p i then Some p else lookup i s)"
proof (cases "covers s p i")
  case True
  then show ?thesis
    using lookup_iff [OF register_invar [OF assms(1)]] register_members [OF assms(2)]
    by (simp add: register_covers)
next
  case False
  then have "lookup i (register p s) = lookup i s"
    by (intro lookup_eqI register_invar assms(1))
      (auto simp: register_members [OF assms(2)] register_covers)
  with False show ?thesis by simp
qed

lemma lookup_unregister:
  assumes "invar s"
  shows "lookup i (unregister p s) = (if lookup i s = Some p then None else lookup i s)"
proof (cases "lookup i s")
  case None
  then have "\<And>q. \<not> (q \<in> members s \<and> covers s q i)"
    using lookup_iff [OF assms] by (metis option.distinct(1))
  then have "\<And>q. lookup i (unregister p s) \<noteq> Some q"
    using lookup_iff [OF unregister_invar [OF assms]]
    by (auto simp: unregister_members [OF assms] unregister_covers)
  with None show ?thesis by (metis not_Some_eq)
next
  case (Some q)
  then have q: "q \<in> members s" "covers s q i"
    using lookup_iff [OF assms] by auto
  have uniq: "r = q" if "r \<in> members s" "covers s r i" for r
    using lookup_iff [OF assms, of i r] that Some by simp
  show ?thesis
  proof (cases "q = p")
    case True
    have "lookup i (unregister p s) \<noteq> Some r" for r
      using lookup_iff [OF unregister_invar [OF assms], of i p r] uniq [of r] True
      by (auto simp: unregister_members [OF assms] unregister_covers)
    with Some True show ?thesis by (metis not_Some_eq)
  next
    case False
    then have "lookup i (unregister p s) = Some q"
      using lookup_iff [OF unregister_invar [OF assms], of i p q] q
      by (auto simp: unregister_members [OF assms] unregister_covers)
    with Some False show ?thesis by simp
  qed
qed

lemma unregister_register:
  assumes "invar s" and "accepts s p"
  shows "lookup i (unregister p (register p s)) = lookup i s"
  using assms accepts_fresh [OF assms] lookup_iff [OF assms(1), of i p] accepts_new [OF assms]
  by (auto simp: lookup_unregister [OF register_invar] lookup_register)

end

section \<open>The extension list is a registry\<close>

definition valid_ext :: "sbi_ecall_extension \<Rightarrow> bool" where
  "valid_ext e \<longleftrightarrow> extid_start e \<le> extid_end e \<and> handle e \<noteq> None"

text \<open>
  The invariant of the list: every member is valid, and the identifier ranges of two members
  never overlap.
\<close>

definition registry_inv :: "'w sbi_state \<Rightarrow> bool" where
  "registry_inv s \<longleftrightarrow>
     list_all (\<lambda>p. valid_ext (ext_at s p)) (ecall_exts_list s) \<and>
     sorted_wrt (\<lambda>p q. no_overlap (ext_at s p) (ext_at s q)) (ecall_exts_list s)"

definition registrable :: "'w sbi_state \<Rightarrow> nat \<Rightarrow> bool" where
  "registrable s p \<longleftrightarrow>
     valid_ext (ext_at s p) \<and>
     list_all (\<lambda>t. no_overlap (ext_at s t) (ext_at s p)) (ecall_exts_list s)"

lemma no_overlap_sym: "no_overlap a b \<longleftrightarrow> no_overlap b a"
  by (auto simp: no_overlap_def)

lemma no_overlap_covers:
  "no_overlap a b \<Longrightarrow> ext_covers a i \<Longrightarrow> \<not> ext_covers b i"
  by (auto simp: no_overlap_def ext_covers_def)

lemma not_no_overlap_self: "valid_ext a \<Longrightarrow> \<not> no_overlap a a"
  by (auto simp: no_overlap_def valid_ext_def)

lemma register_cases:
  "sbi_ecall_register_extension cfg (Some p) s =
     (if registrable s p then (0, s\<lparr>ecall_exts_list := ecall_exts_list s @ [p]\<rparr>)
      else (SBI_EINVAL cfg, s))"
  by (auto simp: sbi_ecall_register_extension_def registrable_def valid_ext_def not_le)

lemma registry_unique:
  assumes "registry_inv s" and "p \<in> set (ecall_exts_list s)" and "q \<in> set (ecall_exts_list s)"
    and "ext_covers (ext_at s p) i" and "ext_covers (ext_at s q) i"
  shows "p = q"
proof (rule ccontr)
  assume "p \<noteq> q"
  from assms(2,3) obtain m n where mn: "m < length (ecall_exts_list s)" "ecall_exts_list s ! m = p"
      "n < length (ecall_exts_list s)" "ecall_exts_list s ! n = q"
    by (auto simp: in_set_conv_nth)
  have "no_overlap (ext_at s p) (ext_at s q)"
  proof (cases "m < n")
    case True
    with mn assms(1) show ?thesis by (auto simp: registry_inv_def dest: sorted_wrt_nth_less)
  next
    case False
    with mn \<open>p \<noteq> q\<close> have "n < m" by (cases "m = n") auto
    with mn assms(1) have "no_overlap (ext_at s q) (ext_at s p)"
      by (auto simp: registry_inv_def dest: sorted_wrt_nth_less)
    then show ?thesis by (simp add: no_overlap_sym)
  qed
  with assms(4,5) show False by (auto dest: no_overlap_covers)
qed

lemma find_extension_iff:
  assumes "registry_inv s"
  shows "sbi_ecall_find_extension i s = Some p \<longleftrightarrow>
    p \<in> set (ecall_exts_list s) \<and> ext_covers (ext_at s p) i"
proof
  assume "sbi_ecall_find_extension i s = Some p"
  then show "p \<in> set (ecall_exts_list s) \<and> ext_covers (ext_at s p) i"
    unfolding sbi_ecall_find_extension_def by (rule find_Some_in)
next
  assume p: "p \<in> set (ecall_exts_list s) \<and> ext_covers (ext_at s p) i"
  show "sbi_ecall_find_extension i s = Some p"
    unfolding sbi_ecall_find_extension_def
    by (rule find_unique) (use p registry_unique [OF assms] in blast)+
qed

lemma registry_inv_register [inv_intros]:
  "registry_inv s \<Longrightarrow> registry_inv (snd (sbi_ecall_register_extension cfg (Some p) s))"
  by (auto simp: register_cases registry_inv_def registrable_def sorted_wrt_append list_all_iff)

lemma sorted_wrt_remove1: "sorted_wrt R xs \<Longrightarrow> sorted_wrt R (remove1 x xs)"
  by (induction xs) (auto dest: notin_set_remove1 set_mp [OF set_remove1_subset])

lemma registry_inv_distinct: "registry_inv s \<Longrightarrow> distinct (ecall_exts_list s)"
  unfolding registry_inv_def
proof (induction "ecall_exts_list s" arbitrary: s)
  case Nil
  then show ?case by simp
next
  case (Cons p ps)
  let ?t = "s\<lparr>ecall_exts_list := ps\<rparr>"
  have "distinct ps"
    using Cons.hyps(1) [of ?t] Cons.hyps(2) Cons.prems by (auto simp: Cons.hyps(2) [symmetric])
  moreover have "p \<notin> set ps"
    using Cons.prems not_no_overlap_self by (fastforce simp: Cons.hyps(2) [symmetric] list_all_iff)
  ultimately show ?case by (simp add: Cons.hyps(2) [symmetric])
qed

lemma registry_inv_unregister [inv_intros]:
  "registry_inv s \<Longrightarrow> registry_inv (sbi_ecall_unregister_extension (Some p) s)"
  by (auto simp: sbi_ecall_unregister_extension_def registry_inv_def list_all_iff sorted_wrt_remove1
      dest: set_mp [OF set_remove1_subset])

interpretation ereg: id_registry
  registry_inv "\<lambda>s. set (ecall_exts_list s)" "\<lambda>s p. ext_covers (ext_at s p)" registrable
  sbi_ecall_find_extension "\<lambda>p s. snd (sbi_ecall_register_extension cfg (Some p) s)"
  "\<lambda>p. sbi_ecall_unregister_extension (Some p)"
  for cfg :: sbi_config
proof (unfold_locales, goal_cases)
  case (1 s i p)
  then show ?case by (rule find_extension_iff)
next
  case (2 s p)
  then show ?case by (rule registry_inv_register)
next
  case (3 s p)
  then show ?case by (simp add: register_cases)
next
  case (4 s p)
  then show ?case by (simp add: register_cases)
next
  case (5 p s)
  then show ?case by (auto simp: register_cases)
next
  case (6 s p i)
  then show ?case
    by (auto simp: sbi_ecall_find_extension_def find_None_all registrable_def list_all_iff
        dest: no_overlap_covers)
next
  case (7 s p)
  then show ?case by (auto simp: registrable_def list_all_iff dest: not_no_overlap_self)
next
  case (8 s p)
  then show ?case by (rule registry_inv_unregister)
next
  case (9 s p)
  then show ?case
    by (auto simp: sbi_ecall_unregister_extension_def dest: registry_inv_distinct)
next
  case (10 p s)
  then show ?case by (auto simp: sbi_ecall_unregister_extension_def)
qed

section \<open>Shared facts\<close>

lemma register_seq_ok:
  assumes "list_all (\<lambda>p. valid_ext (ext_at s p)) ps"
    and "sorted_wrt (\<lambda>p q. no_overlap (ext_at s p) (ext_at s q)) (ecall_exts_list s @ ps)"
  shows "register_seq cfg ps s = (0, s\<lparr>ecall_exts_list := ecall_exts_list s @ ps\<rparr>)"
  using assms
proof (induction ps arbitrary: s)
  case Nil
  then show ?case by simp
next
  case (Cons p ps)
  let ?t = "s\<lparr>ecall_exts_list := ecall_exts_list s @ [p]\<rparr>"
  from Cons.prems have "registrable s p"
    by (auto simp: registrable_def sorted_wrt_append list_all_iff)
  moreover have "register_seq cfg ps ?t = (0, ?t\<lparr>ecall_exts_list := ecall_exts_list ?t @ ps\<rparr>)"
    by (rule Cons.IH) (use Cons.prems in \<open>simp_all\<close>)
  ultimately show ?case by (simp add: register_cases)
qed

lemma register_seq_success:
  assumes "SBI_EINVAL cfg \<noteq> 0" and "register_seq cfg ps s = (0, s')" and "registry_inv s"
  shows "registry_inv s' \<and> s' = s\<lparr>ecall_exts_list := ecall_exts_list s @ ps\<rparr>"
  using assms
proof (induction ps arbitrary: s)
  case Nil
  then show ?case by simp
next
  case (Cons p ps)
  from Cons.prems(1,2) have r: "registrable s p"
    by (auto simp: register_cases split: if_splits)
  with Cons.prems have "register_seq cfg ps (s\<lparr>ecall_exts_list := ecall_exts_list s @ [p]\<rparr>) = (0, s')"
    by (simp add: register_cases)
  moreover have "registry_inv (s\<lparr>ecall_exts_list := ecall_exts_list s @ [p]\<rparr>)"
    using registry_inv_register [OF Cons.prems(3), of cfg p] r by (simp add: register_cases)
  ultimately show ?case using Cons.IH [OF Cons.prems(1)] by fastforce
qed

lemma ecall_handler_returns_0: "fst (sbi_ecall_handler cfg code regs s) = 0"
  by (simp add: sbi_ecall_handler_def Let_def split: prod.splits)

lemma find_extension_perm:
  assumes "registry_inv s" and "registry_inv t" and "ext_at t = ext_at s"
    and "set (ecall_exts_list t) = set (ecall_exts_list s)"
  shows "sbi_ecall_find_extension i t = sbi_ecall_find_extension i s"
proof -
  have "sbi_ecall_find_extension i t = Some p \<longleftrightarrow> sbi_ecall_find_extension i s = Some p" for p
    by (simp add: find_extension_iff assms)
  then show ?thesis by (metis not_Some_eq)
qed

section \<open>Properties\<close>

text \<open>C5: On a registry whose members are valid and pairwise disjoint, registering an extension
  object succeeds exactly when the object has a handler and a non-empty range that overlaps no
  member; then every identifier of its range is dispatched to it and no other identifier is
  affected.  A refused registration returns the error code and changes nothing.  Both keep the
  invariant, and unregistering the object again restores every lookup.\<close>

theorem register_extension_spec:
  assumes "registry_inv s" and "sbi_ecall_register_extension cfg (Some p) s = (ret, s')"
  shows "registry_inv s'
    \<and> (if registrable s p
       then ret = 0
         \<and> (\<forall>i. sbi_ecall_find_extension i s' =
                 (if ext_covers (ext_at s p) i then Some p else sbi_ecall_find_extension i s))
         \<and> (\<forall>i. sbi_ecall_find_extension i (sbi_ecall_unregister_extension (Some p) s') =
                 sbi_ecall_find_extension i s)
       else ret = SBI_EINVAL cfg \<and> s' = s)"
proof -
  have s': "s' = snd (sbi_ecall_register_extension cfg (Some p) s)"
    using assms(2) by simp
  show ?thesis
    using ereg.lookup_register [OF assms(1), where p = p and cfg = cfg]
      ereg.unregister_register [OF assms(1), where p = p and cfg = cfg]
      ereg.register_invar [OF assms(1), where p = p and cfg = cfg] assms(2)
    by (simp add: s' [symmetric]) (auto simp: register_cases)
qed

definition example_cfg :: sbi_config where
  "example_cfg = \<lparr>SBI_EINVAL = -3, SBI_ENOTSUPP = -2, SBI_ETRAP = -1007, OPENSBI_VERSION = 9\<rparr>"

definition example_sbi :: "unit sbi_state" where
  "example_sbi = \<lparr>ext_at = (\<lambda>p. if p = 0 then ecall_base
       else \<lparr>extid_start = 0x54494D45, extid_end = 0x54494D45, probe = None,
             handle = Some (Fn_external 1)\<rparr>),
     ecall_exts_list = [1], ecall_impid = SBI_OPENSBI_IMPID,
     csrs = \<lparr>misa_H = False, mcause = 9, mtval = 0, mtval2 = 0, mtinst = 0,
       mvendorid = 0, marchid = 0, mimpid = 0, hstatus = 0, htval = 0, htinst = 0, vstval = 0,
       vsepc = 0, vscause = 0, vstvec = 0, vsstatus = 0, stval = 0, sepc = 0, scause = 0,
       stvec = 0xc0001000\<rparr>, world = ()\<rparr>"

lemma example_sbi_inv: "registry_inv example_sbi" and example_sbi_ok: "registrable example_sbi 0"
  by (simp_all add: registry_inv_def registrable_def example_sbi_def valid_ext_def no_overlap_def
      ecall_base_def SBI_EXT_BASE_def)

theorem register_extension_spec_witness:
  "sbi_ecall_find_extension 0x10 (snd (sbi_ecall_register_extension example_cfg (Some 0) example_sbi))
     = Some 0"
  using register_extension_spec [OF example_sbi_inv, of example_cfg 0
      "fst (sbi_ecall_register_extension example_cfg (Some 0) example_sbi)"
      "snd (sbi_ecall_register_extension example_cfg (Some 0) example_sbi)"]
  by (simp add: example_sbi_ok) (simp add: example_sbi_def ext_covers_def ecall_base_def SBI_EXT_BASE_def)


definition example_objects :: ecall_objects where
  "example_objects = \<lparr>p_ecall_time = 1, p_ecall_rfence = 2, p_ecall_ipi = 3, p_ecall_base = 0,
     p_ecall_hsm = 4, p_ecall_srst = 5, p_ecall_legacy = 6, p_ecall_vendor = 7\<rparr>"

text \<open>Extension objects whose ranges are the identifiers of sbi_ecall_interface.h.\<close>

definition example_boot :: "unit sbi_state" where
  "example_boot = example_sbi\<lparr>ecall_exts_list := [],
     ext_at := (\<lambda>p. if p = 0 then ecall_base else
       let r = (if p = 1 then (0x54494D45, 0x54494D45) else if p = 2 then (0x52464E43, 0x52464E43)
          else if p = 3 then (0x735049, 0x735049) else if p = 4 then (0x48534D, 0x48534D)
          else if p = 5 then (0x53525354, 0x53525354) else if p = 6 then (0, 8)
          else (0x09000000, 0x09FFFFFF))
       in \<lparr>extid_start = fst r, extid_end = snd r, probe = None, handle = Some (Fn_external p)\<rparr>)\<rparr>"




end
