(* ===== verification/Sbi_Trap.thy ===== *)
theory Sbi_Trap
  imports Sbi_Ecall
begin

text \<open>
  The top-level trap handler of the firmware (\<open>sbi_trap_handler\<close> of
  opensbi/lib/sbi/sbi_trap.c).  The handlers for timer and software interrupts, illegal
  instructions and misaligned accesses are code of other files and are fields of the parameter
  \<open>trap_ops\<close>.  \<open>sbi_trap_error\<close> prints the registers and hangs the hart, which is the outcome
  \<open>Hang\<close>; a call that returns is \<open>Return\<close>.
\<close>

record 'w trap_ops =
  sbi_timer_process :: "'w sbi_state \<Rightarrow> 'w sbi_state"
  sbi_ipi_process :: "'w sbi_state \<Rightarrow> 'w sbi_state"
  sbi_illegal_insn_handler :: "ulong \<Rightarrow> sbi_trap_regs \<Rightarrow> 'w sbi_state \<Rightarrow> int \<times> sbi_trap_regs \<times> 'w sbi_state"
  sbi_misaligned_load_handler ::
    "ulong \<Rightarrow> ulong \<Rightarrow> ulong \<Rightarrow> sbi_trap_regs \<Rightarrow> 'w sbi_state \<Rightarrow> int \<times> sbi_trap_regs \<times> 'w sbi_state"
  sbi_misaligned_store_handler ::
    "ulong \<Rightarrow> ulong \<Rightarrow> ulong \<Rightarrow> sbi_trap_regs \<Rightarrow> 'w sbi_state \<Rightarrow> int \<times> sbi_trap_regs \<times> 'w sbi_state"

datatype 'w trap_outcome =
    Return sbi_trap_regs "'w sbi_state"
  | Hang string int ulong sbi_trap_regs "'w sbi_state"

definition IRQ_M_SOFT :: ulong where "IRQ_M_SOFT = 3"
definition IRQ_M_TIMER :: ulong where "IRQ_M_TIMER = 7"
definition CAUSE_ILLEGAL_INSTRUCTION :: ulong where "CAUSE_ILLEGAL_INSTRUCTION = 2"
definition CAUSE_MISALIGNED_LOAD :: ulong where "CAUSE_MISALIGNED_LOAD = 4"
definition CAUSE_MISALIGNED_STORE :: ulong where "CAUSE_MISALIGNED_STORE = 6"
definition CAUSE_SUPERVISOR_ECALL :: ulong where "CAUSE_SUPERVISOR_ECALL = 9"
definition CAUSE_MACHINE_ECALL :: ulong where "CAUSE_MACHINE_ECALL = 0xb"

lemmas cause_defs =
  IRQ_M_SOFT_def IRQ_M_TIMER_def CAUSE_ILLEGAL_INSTRUCTION_def CAUSE_MISALIGNED_LOAD_def
  CAUSE_MISALIGNED_STORE_def CAUSE_SUPERVISOR_ECALL_def CAUSE_MACHINE_ECALL_def
  CAUSE_FETCH_PAGE_FAULT_def CAUSE_LOAD_PAGE_FAULT_def CAUSE_STORE_PAGE_FAULT_def

text \<open>The label \<open>trap_error\<close>: a non-zero code ends in \<open>sbi_trap_error\<close>.\<close>

definition trap_error :: "string \<Rightarrow> int \<Rightarrow> ulong \<Rightarrow> sbi_trap_regs \<Rightarrow> 'w sbi_state \<Rightarrow> 'w trap_outcome" where
  "trap_error msg rc mc regs s = (if rc \<noteq> 0 then Hang msg rc mc regs s else Return regs s)"

definition sbi_trap_handler ::
  "sbi_config \<Rightarrow> 'w ecall_code \<Rightarrow> 'w trap_ops \<Rightarrow> sbi_trap_regs \<Rightarrow> 'w sbi_state \<Rightarrow> 'w trap_outcome"
where
  "sbi_trap_handler cfg code ops regs s =
     (let mc = mcause (csrs s); mt = mtval (csrs s);
          mt2 = (if misa_H (csrs s) then mtval2 (csrs s) else 0);
          mi = (if misa_H (csrs s) then mtinst (csrs s) else 0)
      in
      if mc AND BIT 31 \<noteq> 0 then
        let irq = mc AND NOT (BIT 31) in
        if irq = IRQ_M_TIMER then Return regs (sbi_timer_process ops s)
        else if irq = IRQ_M_SOFT then Return regs (sbi_ipi_process ops s)
        else trap_error ''unhandled external interrupt'' (SBI_ENOTSUPP cfg) irq regs s
      else if mc = CAUSE_ILLEGAL_INSTRUCTION then
        (case sbi_illegal_insn_handler ops mt regs s of
           (rc, regs', s') \<Rightarrow> trap_error ''illegal instruction handler failed'' rc mc regs' s')
      else if mc = CAUSE_MISALIGNED_LOAD then
        (case sbi_misaligned_load_handler ops mt mt2 mi regs s of
           (rc, regs', s') \<Rightarrow> trap_error ''misaligned load handler failed'' rc mc regs' s')
      else if mc = CAUSE_MISALIGNED_STORE then
        (case sbi_misaligned_store_handler ops mt mt2 mi regs s of
           (rc, regs', s') \<Rightarrow> trap_error ''misaligned store handler failed'' rc mc regs' s')
      else if mc = CAUSE_SUPERVISOR_ECALL \<or> mc = CAUSE_MACHINE_ECALL then
        (case sbi_ecall_handler cfg code regs s of
           (rc, regs', s') \<Rightarrow> trap_error ''ecall handler failed'' rc mc regs' s')
      else
        (case sbi_trap_redirect (SBI_ENOTSUPP cfg) regs
                \<lparr>epc = mepc regs, cause = mc, tval = mt, tval2 = mt2, tinst = mi\<rparr> (csrs s) of
           (rc, regs', c) \<Rightarrow> trap_error ''trap handler failed'' rc mc regs' (s\<lparr>csrs := c\<rparr>)))"

section \<open>Shared facts about redirection\<close>

lemma redirect_refused:
  "prev_mode regs \<noteq> PRV_S \<Longrightarrow> prev_mode regs \<noteq> PRV_U \<Longrightarrow>
   sbi_trap_redirect e regs trap c = (e, regs, c)"
  by (simp add: sbi_trap_redirect_def Let_def)

lemma redirect_accepted:
  assumes "prev_mode regs = PRV_S \<or> prev_mode regs = PRV_U"
  shows "fst (sbi_trap_redirect e regs trap c) = 0"
  using assms by (auto simp: sbi_trap_redirect_def Let_def)

lemma redirect_regs:
  assumes "prev_mode regs = PRV_S \<or> prev_mode regs = PRV_U"
    and "sbi_trap_redirect e regs trap c = (rc, regs', c')"
  shows "prev_mode regs' = PRV_S"
    and "mepc regs' = (if misa_H c \<and> prev_virt regs \<and> is_page_fault (cause trap)
                       then vstvec c else stvec c)"
    and "prev_virt regs' \<longleftrightarrow> misa_H c \<and> prev_virt regs \<and> is_page_fault (cause trap)"
    and "a0 regs' = a0 regs \<and> a1 regs' = a1 regs \<and> a6 regs' = a6 regs \<and> a7 regs' = a7 regs"
proof -
  show "prev_mode regs' = PRV_S"
    using assms
    by (intro bit_word_eqI)
      (auto simp: sbi_trap_redirect_def Let_def prev_mode_bits bit_set_mpp_S bit_stack_status
        PRV_S_def bit_1_iff split: if_splits)
  show "mepc regs' = (if misa_H c \<and> prev_virt regs \<and> is_page_fault (cause trap)
                      then vstvec c else stvec c)"
    using assms by (auto simp: sbi_trap_redirect_def Let_def split: if_splits)
  show "prev_virt regs' \<longleftrightarrow> misa_H c \<and> prev_virt regs \<and> is_page_fault (cause trap)"
    using assms
    by (auto simp: sbi_trap_redirect_def Let_def prev_virt_bit MSTATUSH_MPV_def bit_BIT
        bit_and_iff bit_or_iff bit_not_iff split: if_splits)
  show "a0 regs' = a0 regs \<and> a1 regs' = a1 regs \<and> a6 regs' = a6 regs \<and> a7 regs' = a7 regs"
    using assms by (auto simp: sbi_trap_redirect_def Let_def split: if_splits)
qed

lemma trap_error_hangs [simp]:
  "(\<exists>msg' rc' mc' r t. trap_error msg rc mc regs s = Hang msg' rc' mc' r t) \<longleftrightarrow> rc \<noteq> 0"
  by (simp add: trap_error_def)

section \<open>Properties\<close>


definition example_regs :: sbi_trap_regs where
  "example_regs = \<lparr>a0 = 7, a1 = 8, a6 = 0, a7 = 0x10, mepc = 0x80000000,
                   mstatus = 0x802, mstatusH = 0\<rparr>"

definition example_csrs :: hart_csrs where
  "example_csrs = \<lparr>misa_H = False, mcause = 0xd, mtval = 0x1000, mtval2 = 0, mtinst = 0,
     mvendorid = 0, marchid = 0, mimpid = 0, hstatus = 0, htval = 0, htinst = 0, vstval = 0,
     vsepc = 0, vscause = 0, vstvec = 0, vsstatus = 0, stval = 0, sepc = 0, scause = 0,
     stvec = 0xc0001000\<rparr>"

lemma prev_mode_example: "prev_mode example_regs = PRV_S"
  by (simp add: prev_mode_def example_regs_def MSTATUS_MPP_def PRV_S_def)

lemma prev_virt_example: "\<not> prev_virt example_regs"
  by (simp add: prev_virt_bit example_regs_def)


text \<open>C4: The trap handler hangs the hart in exactly these situations: an interrupt other than
  the machine timer or software interrupt; a failing illegal-instruction or misaligned-access
  handler; or any other exception, ecalls apart, that was taken from a mode other than S and U.
  In particular an ecall never hangs the hart, whatever the extension handlers return.\<close>

theorem trap_handler_hangs_iff:
  assumes "SBI_ENOTSUPP cfg \<noteq> 0"
  shows "(\<exists>msg rc mc r t. sbi_trap_handler cfg code ops regs s = Hang msg rc mc r t) \<longleftrightarrow>
    (let mc = mcause (csrs s); mt = mtval (csrs s);
         mt2 = (if misa_H (csrs s) then mtval2 (csrs s) else 0);
         mi = (if misa_H (csrs s) then mtinst (csrs s) else 0) in
     if bit mc 31 then mc AND NOT (BIT 31) \<noteq> IRQ_M_TIMER \<and> mc AND NOT (BIT 31) \<noteq> IRQ_M_SOFT
     else if mc = CAUSE_ILLEGAL_INSTRUCTION then fst (sbi_illegal_insn_handler ops mt regs s) \<noteq> 0
     else if mc = CAUSE_MISALIGNED_LOAD
       then fst (sbi_misaligned_load_handler ops mt mt2 mi regs s) \<noteq> 0
     else if mc = CAUSE_MISALIGNED_STORE
       then fst (sbi_misaligned_store_handler ops mt mt2 mi regs s) \<noteq> 0
     else if mc = CAUSE_SUPERVISOR_ECALL \<or> mc = CAUSE_MACHINE_ECALL then False
     else prev_mode regs \<noteq> PRV_S \<and> prev_mode regs \<noteq> PRV_U)"
proof -
  have ecall: "fst (sbi_ecall_handler cfg code regs s) = 0"
    by (rule ecall_handler_returns_0)
  have redirect: "fst (sbi_trap_redirect (SBI_ENOTSUPP cfg) regs trap c) \<noteq> 0 \<longleftrightarrow>
      prev_mode regs \<noteq> PRV_S \<and> prev_mode regs \<noteq> PRV_U" for trap c
    using redirect_accepted [of regs] redirect_refused [of regs] assms by auto
  show ?thesis
    unfolding sbi_trap_handler_def Let_def
    by (simp add: and_BIT_eq_0 case_prod_beta trap_error_hangs ecall redirect assms
        del: split_paired_Ex)
qed

theorem trap_handler_hangs_iff_witness:
  "\<exists>msg rc mc r t. sbi_trap_handler
      \<lparr>SBI_EINVAL = -3, SBI_ENOTSUPP = -2, SBI_ETRAP = -1007, OPENSBI_VERSION = 9\<rparr> undefined undefined
      (example_regs\<lparr>mstatus := 0x1800\<rparr>)
      \<lparr>ext_at = (\<lambda>_. ecall_base), ecall_exts_list = [], ecall_impid = 1,
       csrs = example_csrs, world = ()\<rparr> = Hang msg rc mc r t"
  by (subst trap_handler_hangs_iff)
    (simp_all add: example_csrs_def example_regs_def cause_defs prev_mode_def
      MSTATUS_MPP_def PRV_S_def PRV_U_def)

end
