(* ===== verification/I2c_Dw_Regs.thy ===== *)
theory I2c_Dw_Regs
  imports Prelude
begin

text \<open>
  The constants of the DesignWare I2C driver: register offsets, register bits, abort codes and
  driver states (\<open>drivers/i2c/busses/i2c-designware-core.h\<close>), and the message flags, functionality
  bits and bus speeds that it takes from \<open>include/linux/i2c.h\<close> and \<open>include/uapi/linux/i2c.h\<close>.
\<close>

section \<open>Constants\<close>

definition DW_IC_CON_MASTER :: u32 where "DW_IC_CON_MASTER = 0x1"
definition DW_IC_CON_SPEED_STD :: u32 where "DW_IC_CON_SPEED_STD = 0x2"
definition DW_IC_CON_SPEED_FAST :: u32 where "DW_IC_CON_SPEED_FAST = 0x4"
definition DW_IC_CON_SPEED_HIGH :: u32 where "DW_IC_CON_SPEED_HIGH = 0x6"
definition DW_IC_CON_SPEED_MASK :: u32 where "DW_IC_CON_SPEED_MASK = 0x6"
definition DW_IC_CON_10BITADDR_MASTER :: u32 where "DW_IC_CON_10BITADDR_MASTER = 0x10"
definition DW_IC_CON_RESTART_EN :: u32 where "DW_IC_CON_RESTART_EN = 0x20"
definition DW_IC_CON_SLAVE_DISABLE :: u32 where "DW_IC_CON_SLAVE_DISABLE = 0x40"
definition DW_IC_CON_STOP_DET_IFADDRESSED :: u32 where "DW_IC_CON_STOP_DET_IFADDRESSED = 0x80"
definition DW_IC_CON_RX_FIFO_FULL_HLD_CTRL :: u32 where "DW_IC_CON_RX_FIFO_FULL_HLD_CTRL = 0x200"

definition DW_IC_CON :: nat where "DW_IC_CON = 0x0"
definition DW_IC_TAR :: nat where "DW_IC_TAR = 0x4"
definition DW_IC_SAR :: nat where "DW_IC_SAR = 0x8"
definition DW_IC_DATA_CMD :: nat where "DW_IC_DATA_CMD = 0x10"
definition DW_IC_SS_SCL_HCNT :: nat where "DW_IC_SS_SCL_HCNT = 0x14"
definition DW_IC_SS_SCL_LCNT :: nat where "DW_IC_SS_SCL_LCNT = 0x18"
definition DW_IC_FS_SCL_HCNT :: nat where "DW_IC_FS_SCL_HCNT = 0x1c"
definition DW_IC_FS_SCL_LCNT :: nat where "DW_IC_FS_SCL_LCNT = 0x20"
definition DW_IC_HS_SCL_HCNT :: nat where "DW_IC_HS_SCL_HCNT = 0x24"
definition DW_IC_HS_SCL_LCNT :: nat where "DW_IC_HS_SCL_LCNT = 0x28"
definition DW_IC_INTR_STAT :: nat where "DW_IC_INTR_STAT = 0x2c"
definition DW_IC_INTR_MASK :: nat where "DW_IC_INTR_MASK = 0x30"
definition DW_IC_RAW_INTR_STAT :: nat where "DW_IC_RAW_INTR_STAT = 0x34"
definition DW_IC_RX_TL :: nat where "DW_IC_RX_TL = 0x38"
definition DW_IC_TX_TL :: nat where "DW_IC_TX_TL = 0x3c"
definition DW_IC_CLR_INTR :: nat where "DW_IC_CLR_INTR = 0x40"
definition DW_IC_CLR_RX_UNDER :: nat where "DW_IC_CLR_RX_UNDER = 0x44"
definition DW_IC_CLR_RX_OVER :: nat where "DW_IC_CLR_RX_OVER = 0x48"
definition DW_IC_CLR_TX_OVER :: nat where "DW_IC_CLR_TX_OVER = 0x4c"
definition DW_IC_CLR_RD_REQ :: nat where "DW_IC_CLR_RD_REQ = 0x50"
definition DW_IC_CLR_TX_ABRT :: nat where "DW_IC_CLR_TX_ABRT = 0x54"
definition DW_IC_CLR_RX_DONE :: nat where "DW_IC_CLR_RX_DONE = 0x58"
definition DW_IC_CLR_ACTIVITY :: nat where "DW_IC_CLR_ACTIVITY = 0x5c"
definition DW_IC_CLR_STOP_DET :: nat where "DW_IC_CLR_STOP_DET = 0x60"
definition DW_IC_CLR_START_DET :: nat where "DW_IC_CLR_START_DET = 0x64"
definition DW_IC_CLR_GEN_CALL :: nat where "DW_IC_CLR_GEN_CALL = 0x68"
definition DW_IC_ENABLE :: nat where "DW_IC_ENABLE = 0x6c"
definition DW_IC_STATUS :: nat where "DW_IC_STATUS = 0x70"
definition DW_IC_TXFLR :: nat where "DW_IC_TXFLR = 0x74"
definition DW_IC_RXFLR :: nat where "DW_IC_RXFLR = 0x78"
definition DW_IC_SDA_HOLD :: nat where "DW_IC_SDA_HOLD = 0x7c"
definition DW_IC_TX_ABRT_SOURCE :: nat where "DW_IC_TX_ABRT_SOURCE = 0x80"
definition DW_IC_ENABLE_STATUS :: nat where "DW_IC_ENABLE_STATUS = 0x9c"
definition DW_IC_COMP_PARAM_1 :: nat where "DW_IC_COMP_PARAM_1 = 0xf4"
definition DW_IC_COMP_VERSION :: nat where "DW_IC_COMP_VERSION = 0xf8"
definition DW_IC_SDA_HOLD_MIN_VERS :: u32 where "DW_IC_SDA_HOLD_MIN_VERS = 0x3131312A"
definition DW_IC_COMP_TYPE :: nat where "DW_IC_COMP_TYPE = 0xfc"
definition DW_IC_COMP_TYPE_VALUE :: u32 where "DW_IC_COMP_TYPE_VALUE = 0x44570140"

lemmas dw_reg_defs = DW_IC_CON_def DW_IC_TAR_def DW_IC_SAR_def DW_IC_DATA_CMD_def DW_IC_SS_SCL_HCNT_def
  DW_IC_SS_SCL_LCNT_def DW_IC_FS_SCL_HCNT_def DW_IC_FS_SCL_LCNT_def DW_IC_HS_SCL_HCNT_def DW_IC_HS_SCL_LCNT_def
  DW_IC_INTR_STAT_def DW_IC_INTR_MASK_def DW_IC_RAW_INTR_STAT_def DW_IC_RX_TL_def DW_IC_TX_TL_def DW_IC_CLR_INTR_def
  DW_IC_CLR_RX_UNDER_def DW_IC_CLR_RX_OVER_def DW_IC_CLR_TX_OVER_def DW_IC_CLR_RD_REQ_def DW_IC_CLR_TX_ABRT_def
  DW_IC_CLR_RX_DONE_def DW_IC_CLR_ACTIVITY_def DW_IC_CLR_STOP_DET_def DW_IC_CLR_START_DET_def DW_IC_CLR_GEN_CALL_def
  DW_IC_ENABLE_def DW_IC_STATUS_def DW_IC_TXFLR_def DW_IC_RXFLR_def DW_IC_SDA_HOLD_def DW_IC_TX_ABRT_SOURCE_def
  DW_IC_ENABLE_STATUS_def DW_IC_COMP_PARAM_1_def DW_IC_COMP_VERSION_def DW_IC_COMP_TYPE_def

definition DW_IC_INTR_RX_UNDER :: u32 where "DW_IC_INTR_RX_UNDER = 0x001"
definition DW_IC_INTR_RX_OVER :: u32 where "DW_IC_INTR_RX_OVER = 0x002"
definition DW_IC_INTR_RX_FULL :: u32 where "DW_IC_INTR_RX_FULL = 0x004"
definition DW_IC_INTR_TX_OVER :: u32 where "DW_IC_INTR_TX_OVER = 0x008"
definition DW_IC_INTR_TX_EMPTY :: u32 where "DW_IC_INTR_TX_EMPTY = 0x010"
definition DW_IC_INTR_RD_REQ :: u32 where "DW_IC_INTR_RD_REQ = 0x020"
definition DW_IC_INTR_TX_ABRT :: u32 where "DW_IC_INTR_TX_ABRT = 0x040"
definition DW_IC_INTR_RX_DONE :: u32 where "DW_IC_INTR_RX_DONE = 0x080"
definition DW_IC_INTR_ACTIVITY :: u32 where "DW_IC_INTR_ACTIVITY = 0x100"
definition DW_IC_INTR_STOP_DET :: u32 where "DW_IC_INTR_STOP_DET = 0x200"
definition DW_IC_INTR_START_DET :: u32 where "DW_IC_INTR_START_DET = 0x400"
definition DW_IC_INTR_GEN_CALL :: u32 where "DW_IC_INTR_GEN_CALL = 0x800"

definition DW_IC_INTR_DEFAULT_MASK :: u32 where
  "DW_IC_INTR_DEFAULT_MASK = DW_IC_INTR_RX_FULL OR DW_IC_INTR_TX_ABRT OR DW_IC_INTR_STOP_DET"
definition DW_IC_INTR_MASTER_MASK :: u32 where
  "DW_IC_INTR_MASTER_MASK = DW_IC_INTR_DEFAULT_MASK OR DW_IC_INTR_TX_EMPTY"
definition DW_IC_INTR_SLAVE_MASK :: u32 where
  "DW_IC_INTR_SLAVE_MASK = DW_IC_INTR_DEFAULT_MASK OR DW_IC_INTR_RX_DONE OR DW_IC_INTR_RX_UNDER OR DW_IC_INTR_RD_REQ"

lemmas dw_intr_defs = DW_IC_INTR_RX_UNDER_def DW_IC_INTR_RX_OVER_def DW_IC_INTR_RX_FULL_def DW_IC_INTR_TX_OVER_def
  DW_IC_INTR_TX_EMPTY_def DW_IC_INTR_RD_REQ_def DW_IC_INTR_TX_ABRT_def DW_IC_INTR_RX_DONE_def DW_IC_INTR_ACTIVITY_def
  DW_IC_INTR_STOP_DET_def DW_IC_INTR_START_DET_def DW_IC_INTR_GEN_CALL_def DW_IC_INTR_DEFAULT_MASK_def
  DW_IC_INTR_MASTER_MASK_def DW_IC_INTR_SLAVE_MASK_def

definition DW_IC_STATUS_ACTIVITY :: u32 where "DW_IC_STATUS_ACTIVITY = BIT 0"
definition DW_IC_STATUS_RFNE :: u32 where "DW_IC_STATUS_RFNE = BIT 3"
definition DW_IC_STATUS_SLAVE_ACTIVITY :: u32 where "DW_IC_STATUS_SLAVE_ACTIVITY = BIT 6"
definition DW_IC_SDA_HOLD_RX_SHIFT :: nat where "DW_IC_SDA_HOLD_RX_SHIFT = 16"
definition DW_IC_SDA_HOLD_RX_MASK :: u32 where "DW_IC_SDA_HOLD_RX_MASK = 0x00ff0000"
definition DW_IC_ERR_TX_ABRT :: int where "DW_IC_ERR_TX_ABRT = 1"
definition DW_IC_TAR_10BITADDR_MASTER :: u32 where "DW_IC_TAR_10BITADDR_MASTER = BIT 12"
definition DW_IC_COMP_PARAM_1_SPEED_MODE_HIGH :: u32 where "DW_IC_COMP_PARAM_1_SPEED_MODE_HIGH = BIT 2 OR BIT 3"
definition DW_IC_COMP_PARAM_1_SPEED_MODE_MASK :: u32 where "DW_IC_COMP_PARAM_1_SPEED_MODE_MASK = 0xc"
definition STATUS_IDLE :: u32 where "STATUS_IDLE = 0x0"
definition STATUS_WRITE_IN_PROGRESS :: u32 where "STATUS_WRITE_IN_PROGRESS = 0x1"
definition STATUS_READ_IN_PROGRESS :: u32 where "STATUS_READ_IN_PROGRESS = 0x2"
definition DW_IC_MASTER :: int where "DW_IC_MASTER = 0"
definition DW_IC_SLAVE :: int where "DW_IC_SLAVE = 1"
definition DW_IC_TX_ABRT_GCALL_READ :: u32 where "DW_IC_TX_ABRT_GCALL_READ = BIT 5"
definition DW_IC_TX_ARB_LOST :: u32 where "DW_IC_TX_ARB_LOST = BIT 12"
definition DW_IC_TX_ABRT_NOACK :: u32 where
  "DW_IC_TX_ABRT_NOACK = BIT 0 OR BIT 1 OR BIT 2 OR BIT 3 OR BIT 4"
definition ACCESS_INTR_MASK :: u32 where "ACCESS_INTR_MASK = 1"
definition ACCESS_NO_IRQ_SUSPEND :: u32 where "ACCESS_NO_IRQ_SUSPEND = 2"
definition MODEL_MSCC_OCELOT :: u32 where "MODEL_MSCC_OCELOT = 0x100"
definition MODEL_BAIKAL_BT1 :: u32 where "MODEL_BAIKAL_BT1 = 0x200"
definition MODEL_MASK :: u32 where "MODEL_MASK = 0xf00"
definition I2C_SOURCE_CLK :: u32 where "I2C_SOURCE_CLK = 40000000"

definition I2C_MAX_STANDARD_MODE_FREQ :: u32 where "I2C_MAX_STANDARD_MODE_FREQ = 100000"
definition I2C_MAX_FAST_MODE_FREQ :: u32 where "I2C_MAX_FAST_MODE_FREQ = 400000"
definition I2C_MAX_FAST_MODE_PLUS_FREQ :: u32 where "I2C_MAX_FAST_MODE_PLUS_FREQ = 1000000"
definition I2C_MAX_HIGH_SPEED_MODE_FREQ :: u32 where "I2C_MAX_HIGH_SPEED_MODE_FREQ = 3400000"
definition I2C_CLIENT_PEC :: u16 where "I2C_CLIENT_PEC = 0x04"
definition I2C_CLIENT_TEN :: u16 where "I2C_CLIENT_TEN = 0x10"
definition I2C_M_RD :: u16 where "I2C_M_RD = 0x0001"
definition I2C_M_TEN :: u16 where "I2C_M_TEN = 0x0010"
definition I2C_M_RECV_LEN :: u16 where "I2C_M_RECV_LEN = 0x0400"
definition I2C_SMBUS_BLOCK_MAX :: u32 where "I2C_SMBUS_BLOCK_MAX = 32"
definition I2C_FUNC_I2C :: u32 where "I2C_FUNC_I2C = 0x00000001"
definition I2C_FUNC_10BIT_ADDR :: u32 where "I2C_FUNC_10BIT_ADDR = 0x00000002"
definition I2C_FUNC_SLAVE :: u32 where "I2C_FUNC_SLAVE = 0x00000020"
definition I2C_FUNC_SMBUS_BYTE :: u32 where "I2C_FUNC_SMBUS_BYTE = 0x00060000"
definition I2C_FUNC_SMBUS_BYTE_DATA :: u32 where "I2C_FUNC_SMBUS_BYTE_DATA = 0x00180000"
definition I2C_FUNC_SMBUS_WORD_DATA :: u32 where "I2C_FUNC_SMBUS_WORD_DATA = 0x00600000"
definition I2C_FUNC_SMBUS_BLOCK_DATA :: u32 where "I2C_FUNC_SMBUS_BLOCK_DATA = 0x03000000"
definition I2C_FUNC_SMBUS_I2C_BLOCK :: u32 where "I2C_FUNC_SMBUS_I2C_BLOCK = 0x0c000000"
definition DW_IC_DEFAULT_FUNCTIONALITY :: u32 where
  "DW_IC_DEFAULT_FUNCTIONALITY = I2C_FUNC_I2C OR I2C_FUNC_SMBUS_BYTE OR I2C_FUNC_SMBUS_BYTE_DATA OR
     I2C_FUNC_SMBUS_WORD_DATA OR I2C_FUNC_SMBUS_BLOCK_DATA OR I2C_FUNC_SMBUS_I2C_BLOCK"

abbreviation (input) EREMOTEIO :: int where "EREMOTEIO \<equiv> 121"
abbreviation (input) EAGAIN :: int where "EAGAIN \<equiv> 11"
abbreviation (input) EAFNOSUPPORT :: int where "EAFNOSUPPORT \<equiv> 97"
abbreviation (input) ESHUTDOWN :: int where "ESHUTDOWN \<equiv> 108"
abbreviation (input) ETIMEDOUT :: int where "ETIMEDOUT \<equiv> 110"

end
