(* ===== verification/I2c_Slave_Eeprom.thy ===== *)
theory I2c_Slave_Eeprom
  imports Prelude
begin

text \<open>
  The I2C slave EEPROM simulator (drivers/i2c/i2c-slave-eeprom.c).  The bus controller raises
  slave events; the callback keeps an address cursor and a byte buffer.  A buffer access outside
  the allocated bytes has no meaning in C: the model returns \<open>None\<close> for it, so that memory
  safety is a theorem and not an assumption.  Firmware loading, sysfs and the registration with
  the bus core are parameters (\<open>eeprom_env\<close>).
\<close>

section \<open>Data\<close>

datatype i2c_slave_event =
    I2C_SLAVE_READ_REQUESTED
  | I2C_SLAVE_WRITE_REQUESTED
  | I2C_SLAVE_READ_PROCESSED
  | I2C_SLAVE_WRITE_RECEIVED
  | I2C_SLAVE_STOP

record eeprom_data =
  buffer_idx :: u16
  address_mask :: u16
  num_address_bytes :: u8
  idx_write_cnt :: u8
  read_only :: bool
  bin_size :: nat
  buffer :: "u8 list"

section \<open>The slave callback\<close>

definition buffer_read :: "eeprom_data \<Rightarrow> u16 \<Rightarrow> u8 option" where
  "buffer_read e i =
     (let j = unat (i AND address_mask e) in
      if j < length (buffer e) then Some (buffer e ! j) else None)"

definition buffer_write :: "eeprom_data \<Rightarrow> u16 \<Rightarrow> u8 \<Rightarrow> u8 list option" where
  "buffer_write e i v =
     (let j = unat (i AND address_mask e) in
      if j < length (buffer e) then Some ((buffer e)[j := v]) else None)"

text \<open>The result is the return code, the value left in \<open>*val\<close> and the new state.\<close>

fun i2c_slave_eeprom_slave_cb ::
  "i2c_slave_event \<Rightarrow> u8 \<Rightarrow> eeprom_data \<Rightarrow> (int \<times> u8 \<times> eeprom_data) option"
where
  "i2c_slave_eeprom_slave_cb I2C_SLAVE_WRITE_RECEIVED val e =
     (if idx_write_cnt e < num_address_bytes e then
        let idx0 = (if idx_write_cnt e = 0 then 0 else buffer_idx e)
        in Some (0, val, e\<lparr>buffer_idx := ucast val OR push_bit 8 idx0,
                           idx_write_cnt := idx_write_cnt e + 1\<rparr>)
      else if \<not> read_only e then
        (case buffer_write e (buffer_idx e) val of
           None \<Rightarrow> None
         | Some b \<Rightarrow> Some (0, val, e\<lparr>buffer_idx := buffer_idx e + 1, buffer := b\<rparr>))
      else Some (0, val, e))"
| "i2c_slave_eeprom_slave_cb I2C_SLAVE_READ_PROCESSED val e =
     (let e1 = e\<lparr>buffer_idx := buffer_idx e + 1\<rparr> in
      case buffer_read e1 (buffer_idx e1) of
        None \<Rightarrow> None
      | Some v \<Rightarrow> Some (0, v, e1))"
| "i2c_slave_eeprom_slave_cb I2C_SLAVE_READ_REQUESTED val e =
     (case buffer_read e (buffer_idx e) of
        None \<Rightarrow> None
      | Some v \<Rightarrow> Some (0, v, e))"
| "i2c_slave_eeprom_slave_cb I2C_SLAVE_STOP val e = Some (0, val, e\<lparr>idx_write_cnt := 0\<rparr>)"
| "i2c_slave_eeprom_slave_cb I2C_SLAVE_WRITE_REQUESTED val e = Some (0, val, e\<lparr>idx_write_cnt := 0\<rparr>)"

section \<open>The binary sysfs attribute\<close>

definition i2c_slave_eeprom_bin_read :: "eeprom_data \<Rightarrow> nat \<Rightarrow> nat \<Rightarrow> (nat \<times> u8 list) option" where
  "i2c_slave_eeprom_bin_read e off count =
     (if off + count \<le> length (buffer e) then Some (count, take count (drop off (buffer e))) else None)"

definition i2c_slave_eeprom_bin_write ::
  "eeprom_data \<Rightarrow> u8 list \<Rightarrow> nat \<Rightarrow> nat \<Rightarrow> (nat \<times> eeprom_data) option"
where
  "i2c_slave_eeprom_bin_write e buf off count =
     (if off + count \<le> length (buffer e) \<and> count \<le> length buf
      then Some (count, e\<lparr>buffer := take off (buffer e) @ take count buf @ drop (off + count) (buffer e)\<rparr>)
      else None)"

section \<open>Probe and remove\<close>

definition I2C_SLAVE_BYTELEN :: u32 where "I2C_SLAVE_BYTELEN = 0xffff"
definition I2C_SLAVE_FLAG_ADDR16 :: u32 where "I2C_SLAVE_FLAG_ADDR16 = BIT 16"
definition I2C_SLAVE_FLAG_RO :: u32 where "I2C_SLAVE_FLAG_RO = BIT 17"

definition I2C_SLAVE_DEVICE_MAGIC :: "u32 \<Rightarrow> u32 \<Rightarrow> u32" where
  "I2C_SLAVE_DEVICE_MAGIC len flags = flags OR (len - 1)"

definition i2c_slave_eeprom_id :: "(string \<times> u32) list" where
  "i2c_slave_eeprom_id =
    [(''slave-24c02'', I2C_SLAVE_DEVICE_MAGIC (2048 div 8) 0),
     (''slave-24c02ro'', I2C_SLAVE_DEVICE_MAGIC (2048 div 8) I2C_SLAVE_FLAG_RO),
     (''slave-24c32'', I2C_SLAVE_DEVICE_MAGIC (32768 div 8) I2C_SLAVE_FLAG_ADDR16),
     (''slave-24c32ro'', I2C_SLAVE_DEVICE_MAGIC (32768 div 8) (I2C_SLAVE_FLAG_ADDR16 OR I2C_SLAVE_FLAG_RO)),
     (''slave-24c64'', I2C_SLAVE_DEVICE_MAGIC (65536 div 8) I2C_SLAVE_FLAG_ADDR16),
     (''slave-24c64ro'', I2C_SLAVE_DEVICE_MAGIC (65536 div 8) (I2C_SLAVE_FLAG_ADDR16 OR I2C_SLAVE_FLAG_RO)),
     (''slave-24c512'', I2C_SLAVE_DEVICE_MAGIC (524288 div 8) I2C_SLAVE_FLAG_ADDR16),
     (''slave-24c512ro'', I2C_SLAVE_DEVICE_MAGIC (524288 div 8) (I2C_SLAVE_FLAG_ADDR16 OR I2C_SLAVE_FLAG_RO))]"

text \<open>
  The calls of the probe function that leave the file: memory allocation, the firmware-name
  property (\<open>None\<close>: the property is absent), loading firmware into the buffer (its return
  code and the new buffer contents), creation of the sysfs file, and registration as a slave.
\<close>

record eeprom_env =
  kzalloc_ok :: bool
  firmware_name :: "string option"
  request_firmware_into_buf :: "string \<Rightarrow> u8 list \<Rightarrow> int \<times> u8 list"
  sysfs_create_bin_file_ret :: int
  i2c_slave_register_ret :: int

record i2c_client_state =
  clientdata :: "eeprom_data option"
  bin_file :: bool
  slave_registered :: bool

definition i2c_slave_init_eeprom_data ::
  "eeprom_env \<Rightarrow> eeprom_data \<Rightarrow> nat \<Rightarrow> int \<times> eeprom_data"
where
  "i2c_slave_init_eeprom_data env e sz =
     (case firmware_name env of
        Some fw \<Rightarrow>
          (case request_firmware_into_buf env fw (buffer e) of
             (ret, b) \<Rightarrow> (ret, e\<lparr>buffer := b\<rparr>))
      | None \<Rightarrow> (0, e\<lparr>buffer := replicate sz 0xff @ drop sz (buffer e)\<rparr>))"

definition i2c_slave_eeprom_probe ::
  "eeprom_env \<Rightarrow> u32 \<Rightarrow> i2c_client_state \<Rightarrow> int \<times> i2c_client_state"
where
  "i2c_slave_eeprom_probe env driver_data cl =
     (let sz = unat ((driver_data AND I2C_SLAVE_BYTELEN) + 1);
          flag_addr16 = (driver_data AND I2C_SLAVE_FLAG_ADDR16 \<noteq> 0)
      in
      if \<not> kzalloc_ok env then (- ENOMEM, cl)
      else
        let e0 = \<lparr>buffer_idx = 0, address_mask = word_of_nat (sz - 1),
                  num_address_bytes = (if flag_addr16 then 2 else 1), idx_write_cnt = 0,
                  read_only = (driver_data AND I2C_SLAVE_FLAG_RO \<noteq> 0), bin_size = 0,
                  buffer = replicate sz 0\<rparr>;
            (ret, e1) = i2c_slave_init_eeprom_data env e0 sz
        in
        if ret \<noteq> 0 then (ret, cl\<lparr>clientdata := Some e1\<rparr>)
        else
          let e2 = e1\<lparr>bin_size := sz\<rparr>; cl1 = cl\<lparr>clientdata := Some e2\<rparr> in
          if sysfs_create_bin_file_ret env \<noteq> 0 then (sysfs_create_bin_file_ret env, cl1)
          else if i2c_slave_register_ret env \<noteq> 0
          then (i2c_slave_register_ret env, cl1\<lparr>bin_file := False\<rparr>)
          else (0, cl1\<lparr>bin_file := True, slave_registered := True\<rparr>))"

definition i2c_slave_eeprom_remove :: "i2c_client_state \<Rightarrow> int \<times> i2c_client_state" where
  "i2c_slave_eeprom_remove cl = (0, cl\<lparr>slave_registered := False, bin_file := False\<rparr>)"

section \<open>Invariant\<close>

text \<open>
  The buffer has exactly one byte more than the mask, so a masked index is always inside, and the
  number of address bytes received never exceeds the number expected.
\<close>

definition eeprom_inv :: "eeprom_data \<Rightarrow> bool" where
  "eeprom_inv e \<longleftrightarrow>
     length (buffer e) = Suc (unat (address_mask e)) \<and> idx_write_cnt e \<le> num_address_bytes e"

definition mask_pow2 :: "eeprom_data \<Rightarrow> bool" where
  "mask_pow2 e \<longleftrightarrow> (\<exists>k \<le> 16. address_mask e = mask k)"

lemma masked_index_bound: "unat (i AND m) \<le> unat (m :: u16)"
  by (rule word_and_le1 [THEN word_le_nat_alt [THEN iffD1]])

lemma buffer_read_safe:
  "length (buffer e) = Suc (unat (address_mask e)) \<Longrightarrow>
   buffer_read e i = Some (buffer e ! unat (i AND address_mask e))"
  using masked_index_bound [of i "address_mask e"] by (simp add: buffer_read_def Let_def le_imp_less_Suc)

lemma buffer_write_safe:
  "length (buffer e) = Suc (unat (address_mask e)) \<Longrightarrow>
   buffer_write e i v = Some ((buffer e)[unat (i AND address_mask e) := v])"
  using masked_index_bound [of i "address_mask e"] by (simp add: buffer_write_def Let_def le_imp_less_Suc)

lemma cb_step:
  assumes "eeprom_inv e"
  shows "\<exists>v e'. i2c_slave_eeprom_slave_cb ev val e = Some (0, v, e') \<and> eeprom_inv e'
    \<and> address_mask e' = address_mask e \<and> num_address_bytes e' = num_address_bytes e
    \<and> read_only e' = read_only e \<and> (read_only e \<longrightarrow> buffer e' = buffer e)"
proof -
  have "x < y \<Longrightarrow> x + 1 \<le> y" for x y :: u8
    by (simp add: inc_le)
  with assms show ?thesis
    by (cases ev) (auto simp: eeprom_inv_def buffer_read_safe buffer_write_safe Let_def)
qed

section \<open>A store read and written through a wrapping cursor\<close>

text \<open>
  What a bus master relies on: \<open>put\<close> stores a byte at the cursor and advances it, \<open>peek\<close>
  delivers the byte at the cursor and leaves it, \<open>advance\<close> steps the cursor and delivers the
  byte there; the cursor wraps at the end of the cells and no call faults.
\<close>

fun put_all :: "('b \<Rightarrow> 's \<Rightarrow> 's option) \<Rightarrow> 'b list \<Rightarrow> 's \<Rightarrow> 's option" where
  "put_all put [] s = Some s"
| "put_all put (b # bs) s = (case put b s of None \<Rightarrow> None | Some s' \<Rightarrow> put_all put bs s')"

fun get_all :: "('s \<Rightarrow> ('b \<times> 's) option) \<Rightarrow> nat \<Rightarrow> 's \<Rightarrow> ('b list \<times> 's) option" where
  "get_all adv 0 s = Some ([], s)"
| "get_all adv (Suc n) s =
     (case adv s of
        None \<Rightarrow> None
      | Some (b, s') \<Rightarrow>
          (case get_all adv n s' of None \<Rightarrow> None | Some (bs, t) \<Rightarrow> Some (b # bs, t)))"

lemma wrap_distinct:
  assumes "c < n" and "0 < d" and "d < n"
  shows "(c + d) mod n \<noteq> (c :: nat)"
proof (cases "c + d < n")
  case True
  with assms show ?thesis by simp
next
  case False
  with assms have "(c + d) mod n = c + d - n"
    by (subst le_mod_geq) auto
  with assms False show ?thesis by linarith
qed

locale wrapping_store =
  fixes invar :: "'s \<Rightarrow> bool"
    and cells :: "'s \<Rightarrow> 'b list"
    and cursor :: "'s \<Rightarrow> nat"
    and writable :: "'s \<Rightarrow> bool"
    and put :: "'b \<Rightarrow> 's \<Rightarrow> 's option"
    and peek :: "'s \<Rightarrow> ('b \<times> 's) option"
    and advance :: "'s \<Rightarrow> ('b \<times> 's) option"
  assumes cursor_bound: "invar s \<Longrightarrow> cursor s < length (cells s)"
    and put_law: "invar s \<Longrightarrow> writable s \<Longrightarrow> \<exists>s'. put b s = Some s' \<and> invar s' \<and> writable s'
          \<and> cells s' = (cells s)[cursor s := b]
          \<and> cursor s' = Suc (cursor s) mod length (cells s)"
    and peek_law: "invar s \<Longrightarrow> peek s = Some (cells s ! cursor s, s)"
    and advance_law: "invar s \<Longrightarrow> \<exists>s'. advance s = Some (cells s ! cursor s', s') \<and> invar s'
          \<and> cells s' = cells s \<and> cursor s' = Suc (cursor s) mod length (cells s)"
begin

lemma put_all_spec:
  assumes "invar s" and "writable s" and "length bs \<le> length (cells s)"
  shows "\<exists>s'. put_all put bs s = Some s' \<and> invar s' \<and> length (cells s') = length (cells s)
    \<and> cursor s' = (cursor s + length bs) mod length (cells s)
    \<and> (\<forall>k < length bs. cells s' ! ((cursor s + k) mod length (cells s)) = bs ! k)
    \<and> (\<forall>j < length (cells s). (\<forall>k < length bs. j \<noteq> (cursor s + k) mod length (cells s)) \<longrightarrow>
          cells s' ! j = cells s ! j)"
  using assms
proof (induction bs arbitrary: s)
  case Nil
  then show ?case by (simp add: cursor_bound)
next
  case (Cons b bs)
  let ?n = "length (cells s)" and ?c = "cursor s"
  from put_law [OF Cons.prems(1), of b] obtain s1 where
    s1: "put b s = Some s1" "invar s1" "cells s1 = (cells s)[?c := b]" "cursor s1 = Suc ?c mod ?n"
      "writable s1"
    using Cons.prems(2) by blast
  with Cons.prems(3) have "length bs \<le> length (cells s1)" by simp
  from Cons.IH [OF s1(2,5) this] obtain s' where
    s': "put_all put bs s1 = Some s'" "invar s'" "length (cells s') = ?n"
      "cursor s' = (Suc ?c mod ?n + length bs) mod ?n"
      "\<forall>k < length bs. cells s' ! ((Suc ?c mod ?n + k) mod ?n) = bs ! k"
      "\<forall>j < ?n. (\<forall>k < length bs. j \<noteq> (Suc ?c mod ?n + k) mod ?n) \<longrightarrow> cells s' ! j = (cells s)[?c := b] ! j"
    by (auto simp: s1(3,4))
  have shift: "(Suc ?c mod ?n + k) mod ?n = (?c + Suc k) mod ?n" for k
    by (simp add: mod_add_left_eq)
  note c = cursor_bound [OF Cons.prems(1)]
  have written: "cells s' ! ((?c + k) mod ?n) = (b # bs) ! k" if "k < length (b # bs)" for k
  proof (cases k)
    case 0
    have "?c \<noteq> (?c + Suc i) mod ?n" if "i < length bs" for i
      using wrap_distinct [OF c, of "Suc i"] that Cons.prems(3) by auto
    then have "cells s' ! ?c = (cells s)[?c := b] ! ?c"
      using s'(6) c unfolding shift by blast
    with 0 c show ?thesis by simp
  next
    case (Suc i)
    with that s'(5) show ?thesis unfolding shift by simp
  qed
  have frame: "cells s' ! j = cells s ! j"
    if "j < ?n" "\<forall>k < length (b # bs). j \<noteq> (?c + k) mod ?n" for j
  proof -
    from that(2) c have "j \<noteq> ?c" by (metis add_0_right length_greater_0_conv list.distinct(1) mod_less)
    moreover have "\<forall>k < length bs. j \<noteq> (?c + Suc k) mod ?n"
      using that(2) by (metis Suc_less_eq length_Cons)
    ultimately show ?thesis using s'(6) that(1) unfolding shift by simp
  qed
  show ?case
    using s1(1) s'(1-4) written frame by (auto simp: shift simp del: length_Cons nth_Cons_Suc)
qed

lemma get_all_spec:
  assumes "invar s"
  shows "\<exists>s'. get_all advance n s = Some (map (\<lambda>k. cells s ! ((cursor s + Suc k) mod length (cells s))) [0..<n], s')
    \<and> invar s' \<and> cells s' = cells s"
  using assms
proof (induction n arbitrary: s)
  case 0
  then show ?case by simp
next
  case (Suc n)
  from advance_law [OF Suc.prems] obtain s1 where
    s1: "advance s = Some (cells s ! cursor s1, s1)" "invar s1" "cells s1 = cells s"
      "cursor s1 = Suc (cursor s) mod length (cells s)"
    by blast
  from Suc.IH [OF s1(2)] obtain s' where
    s': "get_all advance n s1 = Some (map (\<lambda>k. cells s ! ((cursor s1 + Suc k) mod length (cells s))) [0..<n], s')"
      "invar s'" "cells s' = cells s"
    unfolding s1(3) by blast
  have "(cursor s1 + Suc k) mod length (cells s) = (cursor s + Suc (Suc k)) mod length (cells s)" for k
    using mod_add_left_eq [of "Suc (cursor s)" "length (cells s)" "Suc k"] unfolding s1(4) by simp
  then show ?case
    using s1(1) s' by (simp add: s1(4) map_upt_Suc del: upt_Suc)
qed

end

section \<open>The EEPROM is such a store\<close>

definition cursor_of :: "eeprom_data \<Rightarrow> nat" where
  "cursor_of e = unat (buffer_idx e AND address_mask e)"

definition data_phase :: "eeprom_data \<Rightarrow> bool" where
  "data_phase e \<longleftrightarrow> \<not> read_only e \<and> idx_write_cnt e = num_address_bytes e"

definition send_byte :: "u8 \<Rightarrow> eeprom_data \<Rightarrow> eeprom_data option" where
  "send_byte b e = map_option (\<lambda>(_, _, e'). e') (i2c_slave_eeprom_slave_cb I2C_SLAVE_WRITE_RECEIVED b e)"

definition read_requested :: "eeprom_data \<Rightarrow> (u8 \<times> eeprom_data) option" where
  "read_requested e =
     map_option (\<lambda>(_, v, e'). (v, e')) (i2c_slave_eeprom_slave_cb I2C_SLAVE_READ_REQUESTED 0 e)"

definition read_processed :: "eeprom_data \<Rightarrow> (u8 \<times> eeprom_data) option" where
  "read_processed e =
     map_option (\<lambda>(_, v, e'). (v, e')) (i2c_slave_eeprom_slave_cb I2C_SLAVE_READ_PROCESSED 0 e)"

lemma unat_and_mask: "unat (i AND mask k) = unat (i :: u16) mod 2 ^ k"
  by (simp only: take_bit_eq_mask [symmetric] unsigned_take_bit_eq) (simp only: take_bit_eq_mod)

lemma unat_mask16:
  assumes "k \<le> 16"
  shows "Suc (unat (mask k :: u16)) = 2 ^ k"
proof -
  have "unat (mask k :: u16) = unat ((- 1 :: u16) AND mask k)" by simp
  also have "\<dots> = (2 ^ 16 - 1) mod 2 ^ k" 
    by (simp only: unat_and_mask unsigned_minus_1_eq_mask) (simp add: mask_eq_exp_minus_1)
  also have "Suc \<dots> = 2 ^ k"
  proof -
    have "2 ^ k \<le> (2 ^ 16 :: nat)" using assms by (intro power_increasing) auto
    then have "(2 ^ 16 - 1 :: nat) = 2 ^ k * (2 ^ (16 - k) - 1) + (2 ^ k - 1)"
      using assms by (simp add: algebra_simps flip: power_add)
    then have "(2 ^ 16 - 1 :: nat) mod 2 ^ k = (2 ^ k * (2 ^ (16 - k) - 1) + (2 ^ k - 1)) mod 2 ^ k"
      by (simp only:)
    also have "\<dots> = 2 ^ k - 1" by (simp only: mod_mult_self4) simp
    finally show ?thesis by simp
  qed
  finally show ?thesis .
qed

lemma cursor_succ:
  fixes i :: u16
  assumes "k \<le> 16"
  shows "unat ((i + 1) AND mask k) = Suc (unat (i AND mask k)) mod 2 ^ k"
proof -
  have "unat (i + 1) = (unat i + 1) mod 2 ^ 16"
    by (simp add: unat_word_ariths)
  then have "unat (i + 1) mod 2 ^ k = (unat i + 1) mod 2 ^ k"
    using mod_mod_cancel [OF le_imp_power_dvd [OF assms], of "unat i + 1" 2] \<open>unat (i + 1) = _\<close>
    by (simp only:)
  then show ?thesis by (simp add: unat_and_mask mod_Suc_eq)
qed

interpretation ee: wrapping_store
  "\<lambda>e. eeprom_inv e \<and> mask_pow2 e" buffer cursor_of data_phase send_byte read_requested read_processed
proof (unfold_locales, goal_cases)
  case (1 e)
  then show ?case
    using masked_index_bound [of "buffer_idx e" "address_mask e"]
    by (simp add: eeprom_inv_def cursor_of_def)
next
  case (2 e b)
  then obtain k where k: "k \<le> 16" "address_mask e = mask k" by (auto simp: mask_pow2_def)
  with 2 have n: "length (buffer e) = 2 ^ k" by (simp add: eeprom_inv_def unat_mask16)
  from 2 k show ?case
    by (auto simp: send_byte_def data_phase_def eeprom_inv_def buffer_write_safe cursor_of_def
        mask_pow2_def cursor_succ n unat_mask16)
next
  case (3 e)
  then show ?case
    by (auto simp: read_requested_def eeprom_inv_def buffer_read_safe cursor_of_def)
next
  case (4 e)
  then obtain k where k: "k \<le> 16" "address_mask e = mask k" by (auto simp: mask_pow2_def)
  with 4 have n: "length (buffer e) = 2 ^ k" by (simp add: eeprom_inv_def unat_mask16)
  from 4 k show ?case
    by (auto simp: read_processed_def eeprom_inv_def buffer_read_safe cursor_of_def Let_def
        mask_pow2_def cursor_succ n unat_mask16)
qed

section \<open>Bus transactions\<close>

fun run_events :: "(i2c_slave_event \<times> u8) list \<Rightarrow> eeprom_data \<Rightarrow> (u8 list \<times> eeprom_data) option" where
  "run_events [] e = Some ([], e)"
| "run_events ((ev, val) # evs) e =
     (case i2c_slave_eeprom_slave_cb ev val e of
        None \<Rightarrow> None
      | Some (_, v, e') \<Rightarrow>
          (case run_events evs e' of None \<Rightarrow> None | Some (vs, e'') \<Rightarrow> Some (v # vs, e'')))"

definition quiet_event :: "i2c_slave_event \<Rightarrow> eeprom_data \<Rightarrow> eeprom_data option" where
  "quiet_event ev e = map_option (\<lambda>(_, _, e'). e') (i2c_slave_eeprom_slave_cb ev 0 e)"

text \<open>A master write: start, the address bytes, the data bytes, stop.\<close>

definition bus_write :: "u8 list \<Rightarrow> u8 list \<Rightarrow> eeprom_data \<Rightarrow> eeprom_data option" where
  "bus_write addr data e =
     Option.bind (Option.bind (quiet_event I2C_SLAVE_WRITE_REQUESTED e) (put_all send_byte addr))
       (\<lambda>e1. Option.bind (put_all send_byte data e1) (quiet_event I2C_SLAVE_STOP))"

text \<open>A master read of \<open>Suc n\<close> bytes: the first byte is requested, each further one follows the
  acknowledgement of its predecessor.\<close>

definition bus_read :: "nat \<Rightarrow> eeprom_data \<Rightarrow> (u8 list \<times> eeprom_data) option" where
  "bus_read n e =
     Option.bind (read_requested e) (\<lambda>(b, e1).
     Option.bind (get_all read_processed n e1) (\<lambda>(bs, e2).
     map_option (Pair (b # bs)) (quiet_event I2C_SLAVE_STOP e2)))"

definition addr_of :: "u8 list \<Rightarrow> u16" where
  "addr_of bs = fold (\<lambda>b i. ucast b OR push_bit 8 i) bs 0"

lemma send_address:
  assumes "unat (idx_write_cnt e) + length bs \<le> unat (num_address_bytes e)"
  shows "\<exists>e'. put_all send_byte bs e = Some e'
    \<and> e' = e\<lparr>buffer_idx := fold (\<lambda>b i. ucast b OR push_bit 8 i) bs
                (if idx_write_cnt e = 0 \<and> bs \<noteq> [] then 0 else buffer_idx e),
             idx_write_cnt := idx_write_cnt e + of_nat (length bs)\<rparr>"
  using assms
proof (induction bs arbitrary: e)
  case Nil
  then show ?case by simp
next
  case (Cons b bs)
  let ?i = "if idx_write_cnt e = 0 then 0 else buffer_idx e"
  let ?e1 = "e\<lparr>buffer_idx := ucast b OR push_bit 8 ?i, idx_write_cnt := idx_write_cnt e + 1\<rparr>"
  have lt: "idx_write_cnt e < num_address_bytes e"
    using Cons.prems by (simp add: word_less_nat_alt)
  then have send: "send_byte b e = Some ?e1" by (simp add: send_byte_def Let_def)
  have cnt: "unat (idx_write_cnt e + 1) = Suc (unat (idx_write_cnt e))"
    using lt by unat_arith
  then have nz: "idx_write_cnt e + 1 \<noteq> 0" by auto
  have pre: "unat (idx_write_cnt ?e1) + length bs \<le> unat (num_address_bytes ?e1)"
    using Cons.prems cnt by simp
  show ?case
    using Cons.IH [OF pre] send nz by (auto simp: add.assoc)
qed

lemma set_address:
  assumes "eeprom_inv e" and "length addr = unat (num_address_bytes e)" and "addr \<noteq> []"
  shows "Option.bind (quiet_event I2C_SLAVE_WRITE_REQUESTED e) (put_all send_byte addr) =
     Some (e\<lparr>buffer_idx := addr_of addr, idx_write_cnt := num_address_bytes e\<rparr>)"
  using send_address [of "e\<lparr>idx_write_cnt := 0\<rparr>" addr] assms
  by (simp add: quiet_event_def addr_of_def)

lemma put_all_frame:
  "put_all send_byte bs e = Some e' \<Longrightarrow> eeprom_inv e \<Longrightarrow>
   num_address_bytes e' = num_address_bytes e \<and> address_mask e' = address_mask e"
proof (induction bs arbitrary: e)
  case Nil
  then show ?case by simp
next
  case (Cons b bs)
  from cb_step [OF Cons.prems(2), of I2C_SLAVE_WRITE_RECEIVED b] obtain v e1 where
    "i2c_slave_eeprom_slave_cb I2C_SLAVE_WRITE_RECEIVED b e = Some (0, v, e1)" "eeprom_inv e1"
    "address_mask e1 = address_mask e" "num_address_bytes e1 = num_address_bytes e"
    by blast
  with Cons show ?case by (simp add: send_byte_def)
qed

lemma run_events_safe:
  assumes "eeprom_inv e"
  shows "\<exists>vs e'. run_events evs e = Some (vs, e') \<and> length vs = length evs \<and> eeprom_inv e'
     \<and> address_mask e' = address_mask e \<and> (read_only e \<longrightarrow> buffer e' = buffer e)"
  using assms
proof (induction evs arbitrary: e)
  case Nil
  then show ?case by simp
next
  case (Cons x evs)
  obtain ev val where x: "x = (ev, val)" by (cases x)
  from cb_step [OF Cons.prems, of ev val] obtain v e1 where
    e1: "i2c_slave_eeprom_slave_cb ev val e = Some (0, v, e1)" "eeprom_inv e1"
      "address_mask e1 = address_mask e" "read_only e1 = read_only e" "read_only e \<longrightarrow> buffer e1 = buffer e"
    by blast
  from Cons.IH [OF e1(2)] show ?case using e1 by (auto simp: x)
qed

text \<open>A write followed by setting the address again and reading.\<close>

lemma write_then_read:
  assumes "eeprom_inv e" and "mask_pow2 e" and "\<not> read_only e" and "addr \<noteq> []"
    and "length addr = unat (num_address_bytes e)"
    and "data \<noteq> []" and "length data \<le> length (buffer e)"
  shows "\<exists>e1 e2 e3. bus_write addr data e = Some e1 \<and> bus_write addr [] e1 = Some e2
    \<and> bus_read (length data - 1) e2 = Some (data, e3)
    \<and> (\<forall>j < length (buffer e).
          (\<forall>k < length data. j \<noteq> (unat (addr_of addr AND address_mask e) + k) mod length (buffer e)) \<longrightarrow>
          buffer e1 ! j = buffer e ! j)"
proof -
  let ?n = "length (buffer e)" and ?c = "unat (addr_of addr AND address_mask e)"
  let ?ea = "e\<lparr>buffer_idx := addr_of addr, idx_write_cnt := num_address_bytes e\<rparr>"
  have a: "Option.bind (quiet_event I2C_SLAVE_WRITE_REQUESTED x) (put_all send_byte addr) =
      Some (x\<lparr>buffer_idx := addr_of addr, idx_write_cnt := num_address_bytes x\<rparr>)"
    if "eeprom_inv x" "num_address_bytes x = num_address_bytes e" for x
    by (rule set_address) (use that assms in simp_all)
  have inv_a: "(eeprom_inv ?ea \<and> mask_pow2 ?ea) \<and> data_phase ?ea"
    using assms by (simp add: eeprom_inv_def mask_pow2_def data_phase_def)
  then obtain ed where ed: "put_all send_byte data ?ea = Some ed" "eeprom_inv ed" "mask_pow2 ed"
      "length (buffer ed) = ?n" "\<forall>k < length data. buffer ed ! ((?c + k) mod ?n) = data ! k"
      "\<forall>j < ?n. (\<forall>k < length data. j \<noteq> (?c + k) mod ?n) \<longrightarrow> buffer ed ! j = buffer e ! j"
    using ee.put_all_spec [of ?ea data] assms(7) by (auto simp: cursor_of_def)
  have frame: "num_address_bytes ed = num_address_bytes e" "address_mask ed = address_mask e"
    using put_all_frame [OF ed(1)] inv_a by simp_all
  let ?e1 = "ed\<lparr>idx_write_cnt := 0\<rparr>"
  have w1: "bus_write addr data e = Some ?e1"
    unfolding bus_write_def a [OF assms(1) refl] by (simp add: ed(1) quiet_event_def)
  have inv1: "eeprom_inv ?e1" using ed(2) by (simp add: eeprom_inv_def)
  define e2 where "e2 = ?e1\<lparr>buffer_idx := addr_of addr, idx_write_cnt := 0\<rparr>"
  have w2: "bus_write addr [] ?e1 = Some e2"
    using a [OF inv1] by (simp add: bus_write_def frame quiet_event_def e2_def)
  have inv2: "eeprom_inv e2 \<and> mask_pow2 e2" using ed(2,3) by (simp add: eeprom_inv_def mask_pow2_def e2_def)
  have cur: "cursor_of e2 = ?c" and buf: "buffer e2 = buffer ed"
    by (simp_all add: cursor_of_def frame e2_def)
  from ee.get_all_spec [OF inv2, of "length data - 1"] obtain e3 where
    e3: "get_all read_processed (length data - 1) e2 =
      Some (map (\<lambda>k. buffer ed ! ((?c + Suc k) mod ?n)) [0..<length data - 1], e3)"
    by (auto simp only: cur ed(4) buf)
  have "buffer ed ! ?c = data ! 0"
    using ed(5) assms(6) ee.cursor_bound [OF inv2] by (auto simp: cur buf ed(4) dest: spec [of _ 0])
  moreover have "map (\<lambda>k. buffer ed ! ((?c + Suc k) mod ?n)) [0..<length data - 1] = tl data"
  proof (rule nth_equalityI)
    fix i
    assume "i < length (map (\<lambda>k. buffer ed ! ((?c + Suc k) mod ?n)) [0..<length data - 1])"
    then show "map (\<lambda>k. buffer ed ! ((?c + Suc k) mod ?n)) [0..<length data - 1] ! i = tl data ! i"
      using ed(5) [rule_format, of "Suc i"] by (simp add: nth_tl)
  qed simp
  ultimately have "bus_read (length data - 1) e2 = Some (data, e3\<lparr>idx_write_cnt := 0\<rparr>)"
    using ee.peek_law [OF inv2] e3 assms(6)
    by (simp add: bus_read_def cur buf quiet_event_def) (cases data; simp)
  with w1 w2 ed(6) show ?thesis by auto
qed

section \<open>Properties\<close>

lemma table_sizes:
  assumes "(name, d) \<in> set i2c_slave_eeprom_id"
  shows "\<exists>k \<le> 16. (d AND I2C_SLAVE_BYTELEN) + 1 = 2 ^ k"
proof -
  have "list_all (\<lambda>(_, d). (d AND I2C_SLAVE_BYTELEN) + 1 \<in> {2 ^ 8, 2 ^ 12, 2 ^ 13, 2 ^ 16})
          i2c_slave_eeprom_id"
    by (simp add: i2c_slave_eeprom_id_def I2C_SLAVE_DEVICE_MAGIC_def I2C_SLAVE_BYTELEN_def
        I2C_SLAVE_FLAG_RO_def I2C_SLAVE_FLAG_ADDR16_def BIT_def)
  with assms have "(d AND I2C_SLAVE_BYTELEN) + 1 \<in> {2 ^ 8, 2 ^ 12, 2 ^ 13, 2 ^ 16}"
    by (auto simp: list_all_iff)
  then show ?thesis
  proof (elim insertE emptyE)
    assume "(d AND I2C_SLAVE_BYTELEN) + 1 = 2 ^ 8" then show ?thesis by (intro exI [of _ 8]) simp
  next
    assume "(d AND I2C_SLAVE_BYTELEN) + 1 = 2 ^ 12" then show ?thesis by (intro exI [of _ 12]) simp
  next
    assume "(d AND I2C_SLAVE_BYTELEN) + 1 = 2 ^ 13" then show ?thesis by (intro exI [of _ 13]) simp
  next
    assume "(d AND I2C_SLAVE_BYTELEN) + 1 = 2 ^ 16" then show ?thesis by (intro exI [of _ 16]) simp
  qed
qed

lemma unat_2p32: "k \<le> 16 \<Longrightarrow> unat (2 ^ k :: u32) = 2 ^ k"
proof -
  assume "k \<le> 16"
  then have lt: "(2 ^ k :: nat) < 2 ^ 32" by (intro power_strict_increasing) auto
  have "unat (2 ^ k :: u32) = unat (word_of_nat (2 ^ k) :: u32)" by simp
  also have "\<dots> = 2 ^ k" using lt by (simp only: unsigned_of_nat take_bit_eq_mod) simp
  finally show ?thesis .
qed

lemma init_data_buffer:
  assumes "\<And>f b. length (snd (request_firmware_into_buf env f b)) = length b"
    and "i2c_slave_init_eeprom_data env e sz = (ret, e')" and "length (buffer e) = sz"
  shows "length (buffer e') = sz \<and> e' = e\<lparr>buffer := buffer e'\<rparr>"
  using assms(2,3) assms(1) [of "the (firmware_name env)" "buffer e"]
  by (auto simp: i2c_slave_init_eeprom_data_def split: option.splits prod.splits)

lemma probe_success:
  assumes "\<And>f b. length (snd (request_firmware_into_buf env f b)) = length b"
    and "(d AND I2C_SLAVE_BYTELEN) + 1 = 2 ^ k" and "k \<le> 16"
    and "i2c_slave_eeprom_probe env d cl = (0, cl')"
  shows "\<exists>e. clientdata cl' = Some e \<and> eeprom_inv e \<and> mask_pow2 e \<and> length (buffer e) = 2 ^ k
     \<and> bin_size e = 2 ^ k \<and> bin_file cl' \<and> slave_registered cl'"
proof -
  define e0 where "e0 = \<lparr>buffer_idx = 0, address_mask = mask k :: u16,
    num_address_bytes = (if d AND I2C_SLAVE_FLAG_ADDR16 \<noteq> 0 then 2 else 1 :: u8), idx_write_cnt = 0,
    read_only = (d AND I2C_SLAVE_FLAG_RO \<noteq> 0), bin_size = 0, buffer = replicate (2 ^ k) 0\<rparr>"
  obtain ret e1 where i: "i2c_slave_init_eeprom_data env e0 (2 ^ k) = (ret, e1)"
    by (cases "i2c_slave_init_eeprom_data env e0 (2 ^ k)")
  have e1: "length (buffer e1) = 2 ^ k" "e1 = e0\<lparr>buffer := buffer e1\<rparr>"
    using init_data_buffer [OF assms(1) i] by (simp_all add: e0_def)
  have "clientdata cl' = Some (e1\<lparr>bin_size := 2 ^ k\<rparr>) \<and> bin_file cl' \<and> slave_registered cl'"
    using assms(4) i
    by (simp add: i2c_slave_eeprom_probe_def assms(2,3) unat_2p32 e0_def Let_def
        split: if_splits flip: mask_eq_exp_minus_1) auto
  moreover have "address_mask e1 = mask k" "idx_write_cnt e1 = 0"
    by (subst e1(2), simp add: e0_def)+
  then have "eeprom_inv (e1\<lparr>bin_size := 2 ^ k\<rparr>) \<and> mask_pow2 (e1\<lparr>bin_size := 2 ^ k\<rparr>)"
    using e1(1) assms(3) by (auto simp: eeprom_inv_def mask_pow2_def unat_mask16)
  ultimately show ?thesis using e1(1) by auto
qed

text \<open>C12: After a successful probe of any device of the id table, the buffer has the size the
  table announces, and no sequence of slave events whatsoever makes the callback access the
  buffer outside its bounds; the buffer of a read-only device never changes.\<close>

theorem eeprom_memory_safe:
  assumes "\<And>f b. length (snd (request_firmware_into_buf env f b)) = length b"
    and "(name, d) \<in> set i2c_slave_eeprom_id"
    and "i2c_slave_eeprom_probe env d cl = (0, cl')"
  shows "\<exists>e. clientdata cl' = Some e \<and> length (buffer e) = unat ((d AND I2C_SLAVE_BYTELEN) + 1)
    \<and> (\<forall>evs. \<exists>vs e'. run_events evs e = Some (vs, e') \<and> eeprom_inv e'
          \<and> (read_only e \<longrightarrow> buffer e' = buffer e))"
proof -
  obtain k where k: "k \<le> 16" "(d AND I2C_SLAVE_BYTELEN) + 1 = 2 ^ k"
    using table_sizes [OF assms(2)] by blast
  from probe_success [OF assms(1) k(2,1) assms(3)] obtain e where
    e: "clientdata cl' = Some e" "eeprom_inv e" "length (buffer e) = 2 ^ k"
    by blast
  with k run_events_safe [OF e(2)] show ?thesis by (auto simp: unat_2p32) blast
qed

definition example_env :: eeprom_env where
  "example_env = \<lparr>kzalloc_ok = True, firmware_name = None,
     request_firmware_into_buf = (\<lambda>_ b. (0, b)),
     sysfs_create_bin_file_ret = 0, i2c_slave_register_ret = 0\<rparr>"

theorem eeprom_memory_safe_witness:
  "\<exists>e. clientdata (snd (i2c_slave_eeprom_probe example_env 0xff
        \<lparr>clientdata = None, bin_file = False, slave_registered = False\<rparr>)) = Some e
     \<and> length (buffer e) = 256"
proof -
  let ?cl = "\<lparr>clientdata = None, bin_file = False, slave_registered = False\<rparr>"
  have p: "i2c_slave_eeprom_probe example_env 0xff ?cl =
      (0, snd (i2c_slave_eeprom_probe example_env 0xff ?cl))"
    by (simp add: i2c_slave_eeprom_probe_def i2c_slave_init_eeprom_data_def example_env_def Let_def)
  have t: "(''slave-24c02'', 0xff) \<in> set i2c_slave_eeprom_id"
    by (simp add: i2c_slave_eeprom_id_def I2C_SLAVE_DEVICE_MAGIC_def)
  have "\<And>f b. length (snd (request_firmware_into_buf example_env f b)) = length b"
    by (simp add: example_env_def)
  from eeprom_memory_safe [OF this t p] show ?thesis
    by (auto simp: I2C_SLAVE_BYTELEN_def)
qed

text \<open>Bytes written over the bus read back over the bus.  For a writable device, writing at
  an address (wrapping at the end of the memory), then addressing the same place and reading as
  many bytes, delivers the bytes that were written; and every byte outside the written area keeps
  its value.\<close>

theorem eeprom_bus_roundtrip:
  assumes "eeprom_inv e" and "mask_pow2 e" and "\<not> read_only e" and "addr \<noteq> []"
    and "length addr = unat (num_address_bytes e)"
    and "data \<noteq> []" and "length data \<le> length (buffer e)"
  shows "\<exists>e1 e2 e3. bus_write addr data e = Some e1 \<and> bus_write addr [] e1 = Some e2
    \<and> bus_read (length data - 1) e2 = Some (data, e3)
    \<and> (\<forall>j < length (buffer e).
          (\<forall>k < length data. j \<noteq> (unat (addr_of addr AND address_mask e) + k) mod length (buffer e)) \<longrightarrow>
          buffer e1 ! j = buffer e ! j)"
  using assms by (rule write_then_read)

definition example_eeprom :: eeprom_data where
  "example_eeprom = \<lparr>buffer_idx = 0, address_mask = mask 8, num_address_bytes = 1, idx_write_cnt = 0,
     read_only = False, bin_size = 256, buffer = replicate 256 0xff\<rparr>"

theorem eeprom_bus_roundtrip_witness:
  "\<exists>e1 e2 e3. bus_write [0xfe] [1, 2, 3] example_eeprom = Some e1 \<and> bus_write [0xfe] [] e1 = Some e2
     \<and> bus_read 2 e2 = Some ([1, 2, 3], e3)"
proof -
  have inv: "eeprom_inv example_eeprom" "mask_pow2 example_eeprom" "\<not> read_only example_eeprom"
    using unat_mask16 [of 8]
    by (auto simp: example_eeprom_def eeprom_inv_def mask_pow2_def intro!: exI [of _ 8])
  show ?thesis
    using eeprom_bus_roundtrip [OF inv, of "[0xfe]" "[1, 2, 3]"]
    by (simp add: example_eeprom_def numeral_2_eq_2) blast
qed

end
