(* ===== verification/I2c_Dw_Common.thy ===== *)
theory I2c_Dw_Common
  imports I2c_Dw_Regs I2c_Slave_Eeprom
begin

text \<open>
  The part of the DesignWare I2C driver that the master and the slave mode share
  (\<open>drivers/i2c/busses/i2c-designware-core.h\<close> and \<open>i2c-designware-common.c\<close>).

  The hardware, with everything else outside the driver, is a type parameter \<open>'b\<close>.  Memory-mapped
  accesses and the register maps of the regmap library are records of functions on it: a read may
  have side effects, so it returns the new hardware state.  \<open>'s\<close> is the state of the slave backend
  behind the bus callback.
\<close>

section \<open>Registers\<close>

record 'b mmio =
  readl :: "nat \<Rightarrow> 'b \<Rightarrow> u32 \<times> 'b"
  writel :: "u32 \<Rightarrow> nat \<Rightarrow> 'b \<Rightarrow> 'b"
  readw :: "nat \<Rightarrow> 'b \<Rightarrow> u16 \<times> 'b"
  writew :: "u16 \<Rightarrow> nat \<Rightarrow> 'b \<Rightarrow> 'b"

text \<open>The accessors of a register map configuration: return code, value read, new state.\<close>

record 'b regmap_config =
  reg_read :: "nat \<Rightarrow> 'b \<Rightarrow> int \<times> u32 \<times> 'b"
  reg_write :: "nat \<Rightarrow> u32 \<Rightarrow> 'b \<Rightarrow> int \<times> 'b"

text \<open>The operations of a register map that the regmap library makes from a configuration.\<close>

record 'b regmap =
  rm_read :: "nat \<Rightarrow> 'b \<Rightarrow> int \<times> u32 \<times> 'b"
  rm_write :: "nat \<Rightarrow> u32 \<Rightarrow> 'b \<Rightarrow> int \<times> 'b"
  rm_update_bits :: "nat \<Rightarrow> u32 \<Rightarrow> u32 \<Rightarrow> 'b \<Rightarrow> int \<times> 'b"
  rm_poll :: "nat \<Rightarrow> (u32 \<Rightarrow> bool) \<Rightarrow> 'b \<Rightarrow> int \<times> u32 \<times> 'b"

definition swab32 :: "u32 \<Rightarrow> u32" where
  "swab32 x = (push_bit 24 (x AND 0xff)) OR (push_bit 8 (x AND 0xff00)) OR (drop_bit 8 (x AND 0xff0000)) OR (drop_bit 24 (x AND 0xff000000))"

definition dw_reg_read :: "'b mmio \<Rightarrow> nat \<Rightarrow> 'b \<Rightarrow> int \<times> u32 \<times> 'b" where
  "dw_reg_read base reg h = (case readl base reg h of (v, h1) \<Rightarrow> (0, v, h1))"

definition dw_reg_write :: "'b mmio \<Rightarrow> nat \<Rightarrow> u32 \<Rightarrow> 'b \<Rightarrow> int \<times> 'b" where
  "dw_reg_write base reg val h = (0, writel base val reg h)"

definition dw_reg_read_swab :: "'b mmio \<Rightarrow> nat \<Rightarrow> 'b \<Rightarrow> int \<times> u32 \<times> 'b" where
  "dw_reg_read_swab base reg h = (case readl base reg h of (v, h1) \<Rightarrow> (0, swab32 v, h1))"

definition dw_reg_write_swab :: "'b mmio \<Rightarrow> nat \<Rightarrow> u32 \<Rightarrow> 'b \<Rightarrow> int \<times> 'b" where
  "dw_reg_write_swab base reg val h = (0, writel base (swab32 val) reg h)"

definition dw_reg_read_word :: "'b mmio \<Rightarrow> nat \<Rightarrow> 'b \<Rightarrow> int \<times> u32 \<times> 'b" where
  "dw_reg_read_word base reg h =
     (case readw base reg h of (lo, h1) \<Rightarrow>
        (case readw base (reg + 2) h1 of (hi, h2) \<Rightarrow> (0, ucast lo OR push_bit 16 (ucast hi), h2)))"

definition dw_reg_write_word :: "'b mmio \<Rightarrow> nat \<Rightarrow> u32 \<Rightarrow> 'b \<Rightarrow> int \<times> 'b" where
  "dw_reg_write_word base reg val h =
     (0, writew base (ucast (drop_bit 16 val)) (reg + 2) (writew base (ucast val) reg h))"

section \<open>Messages, clients and the device\<close>

text \<open>The list \<open>msg_buf\<close> is the memory behind the buffer pointer of a message: an access behind its
  end has no meaning in C and is \<open>None\<close> below.\<close>

record i2c_msg =
  msg_addr :: u16
  msg_flags :: u16
  msg_len :: u16
  msg_buf :: "u8 list"

record 's i2c_client =
  client_flags :: u16
  client_addr :: u16
  slave_cb :: "i2c_slave_event \<Rightarrow> u8 \<Rightarrow> 's \<Rightarrow> (int \<times> u8 \<times> 's) option"
  client_data :: 's

record i2c_timings =
  bus_freq_hz :: u32
  scl_fall_ns :: u32
  sda_fall_ns :: u32

datatype dw_init_fn = Init_master | Init_slave

datatype dw_algo = Algo_master | Algo_slave

record i2c_adapter =
  adap_retries :: int
  adap_algo :: "dw_algo option"
  adap_no_zero_len :: bool
  recovery_info :: bool
  adap_added :: bool

text \<open>The buffer pointers \<open>tx_buf\<close> and \<open>rx_buf\<close> are the index of a message and an offset into its
  buffer.  \<open>cmd_complete\<close> counts the completions, \<open>pm_usage\<close> the runtime power management references.
  The number of messages \<open>msgs_num\<close> is the length of \<open>msgs\<close>.\<close>

record ('b, 's) dw_i2c_dev =
  reg_map :: "'b regmap option"
  base :: "'b mmio"
  hw :: 'b
  cmd_complete :: nat
  slave :: "'s i2c_client option"
  get_clk_rate_khz :: "('b \<Rightarrow> u32 \<times> 'b) option"
  cmd_err :: int
  msgs :: "i2c_msg list"
  msg_write_idx :: nat
  tx_buf_len :: u32
  tx_buf :: "nat \<times> nat"
  msg_read_idx :: nat
  rx_buf_len :: u32
  rx_buf :: "nat \<times> nat"
  msg_err :: int
  dw_status :: u32
  abort_source :: u32
  dw_irq :: int
  dw_flags :: u32
  adapter :: i2c_adapter
  functionality :: u32
  master_cfg :: u32
  slave_cfg :: u32
  tx_fifo_depth :: u32
  rx_fifo_depth :: u32
  rx_outstanding :: int
  timings :: i2c_timings
  sda_hold_time :: u32
  ss_hcnt :: u16
  ss_lcnt :: u16
  fs_hcnt :: u16
  fs_lcnt :: u16
  fp_hcnt :: u16
  fp_lcnt :: u16
  hs_hcnt :: u16
  hs_lcnt :: u16
  acquire_lock :: "('b \<Rightarrow> int \<times> 'b) option"
  release_lock :: "('b \<Rightarrow> 'b) option"
  shared_with_punit :: bool
  dw_init :: "dw_init_fn option"
  set_sda_hold_time :: "(u32 \<Rightarrow> 'b \<Rightarrow> int \<times> 'b) option"
  dw_mode :: int
  suspended :: bool
  pm_usage :: int
  pm_enabled :: bool
  irq_requested :: bool

text \<open>The zeroed structure that the probe function of the platform driver allocates.\<close>

definition zero_dev :: "'b mmio \<Rightarrow> 'b \<Rightarrow> ('b, 's) dw_i2c_dev" where
  "zero_dev b h =
     \<lparr>reg_map = None, base = b, hw = h, cmd_complete = 0, slave = None, get_clk_rate_khz = None, cmd_err = 0, msgs = [],
      msg_write_idx = 0, tx_buf_len = 0, tx_buf = (0, 0), msg_read_idx = 0, rx_buf_len = 0, rx_buf = (0, 0), msg_err = 0,
      dw_status = 0, abort_source = 0, dw_irq = 0, dw_flags = 0,
      adapter = \<lparr>adap_retries = 0, adap_algo = None, adap_no_zero_len = False, recovery_info = False, adap_added = False\<rparr>,
      functionality = 0, master_cfg = 0, slave_cfg = 0, tx_fifo_depth = 0, rx_fifo_depth = 0, rx_outstanding = 0,
      timings = \<lparr>bus_freq_hz = 0, scl_fall_ns = 0, sda_fall_ns = 0\<rparr>, sda_hold_time = 0, ss_hcnt = 0, ss_lcnt = 0,
      fs_hcnt = 0, fs_lcnt = 0, fp_hcnt = 0, fp_lcnt = 0, hs_hcnt = 0, hs_lcnt = 0, acquire_lock = None, release_lock = None,
      shared_with_punit = False, dw_init = None, set_sda_hold_time = None, dw_mode = 0, suspended = False, pm_usage = 0,
      pm_enabled = False, irq_requested = False\<rparr>"

abbreviation msgs_num :: "('b, 's) dw_i2c_dev \<Rightarrow> nat" where "msgs_num d \<equiv> length (msgs d)"

text \<open>What the driver calls outside the repository, apart from register accesses: delays, the clock
  and reset frameworks, the regmap library, runtime power management (taking a reference may resume the
  device, dropping the last one may suspend it), bus recovery, the registration of interrupts and
  adapters, and the GPIO lines of the recovery.\<close>

datatype dw_clk = Clk | Pclk

datatype dw_irq_flags = No_suspend | Shared_cond_suspend | Shared

record ('b, 's) dw_env =
  usleep :: "'b \<Rightarrow> 'b"
  devm_regmap_init :: "'b regmap_config \<Rightarrow> int + 'b regmap"
  pm_runtime_get_sync :: "('b, 's) dw_i2c_dev \<Rightarrow> ('b, 's) dw_i2c_dev"
  pm_runtime_put_sync :: "('b, 's) dw_i2c_dev \<Rightarrow> ('b, 's) dw_i2c_dev"
  i2c_recover_bus :: "('b, 's) dw_i2c_dev \<Rightarrow> int \<times> ('b, 's) dw_i2c_dev"
  clk_set_rate :: "dw_clk \<Rightarrow> u32 \<Rightarrow> 'b \<Rightarrow> int \<times> 'b"
  clk_prepare_enable :: "dw_clk \<Rightarrow> 'b \<Rightarrow> int \<times> 'b"
  clk_disable_unprepare :: "dw_clk \<Rightarrow> 'b \<Rightarrow> 'b"
  reset_control_assert :: "'b \<Rightarrow> 'b"
  reset_control_deassert :: "'b \<Rightarrow> 'b"
  request_irq :: "dw_irq_flags \<Rightarrow> 'b \<Rightarrow> int \<times> 'b"
  add_numbered_adapter :: "'b \<Rightarrow> int \<times> 'b"
  gpio_scl :: "int + bool"
  gpio_sda :: "int + bool"

text \<open>Register access through the map of the device, which every caller has set up before.\<close>

definition regmap_read :: "nat \<Rightarrow> ('b, 's) dw_i2c_dev \<Rightarrow> int \<times> u32 \<times> ('b, 's) dw_i2c_dev" where
  "regmap_read reg d = (case rm_read (the (reg_map d)) reg (hw d) of (ret, v, h) \<Rightarrow> (ret, v, d\<lparr>hw := h\<rparr>))"

definition regmap_write :: "nat \<Rightarrow> u32 \<Rightarrow> ('b, 's) dw_i2c_dev \<Rightarrow> ('b, 's) dw_i2c_dev" where
  "regmap_write reg v d = d\<lparr>hw := snd (rm_write (the (reg_map d)) reg v (hw d))\<rparr>"

definition regmap_update_bits :: "nat \<Rightarrow> u32 \<Rightarrow> u32 \<Rightarrow> ('b, 's) dw_i2c_dev \<Rightarrow> ('b, 's) dw_i2c_dev" where
  "regmap_update_bits reg m v d = d\<lparr>hw := snd (rm_update_bits (the (reg_map d)) reg m v (hw d))\<rparr>"

text \<open>A read whose return code the caller does not look at.\<close>

definition reg_value :: "nat \<Rightarrow> ('b, 's) dw_i2c_dev \<Rightarrow> u32 \<times> ('b, 's) dw_i2c_dev" where
  "reg_value reg d = snd (regmap_read reg d)"

definition reg_touch :: "nat \<Rightarrow> ('b, 's) dw_i2c_dev \<Rightarrow> ('b, 's) dw_i2c_dev" where
  "reg_touch reg d = snd (reg_value reg d)"

text \<open>Both interrupt handlers clear an interrupt bit that is set by a read of its clear register.\<close>

definition clear_if :: "u32 \<Rightarrow> u32 \<Rightarrow> nat \<Rightarrow> ('b, 's) dw_i2c_dev \<Rightarrow> ('b, 's) dw_i2c_dev" where
  "clear_if stat intr reg d = (if stat AND intr \<noteq> 0 then reg_touch reg d else d)"

section \<open>Bus lock and register map\<close>

definition i2c_dw_acquire_lock :: "('b, 's) dw_i2c_dev \<Rightarrow> int \<times> ('b, 's) dw_i2c_dev" where
  "i2c_dw_acquire_lock d =
     (case acquire_lock d of
        None \<Rightarrow> (0, d)
      | Some f \<Rightarrow> (case f (hw d) of (ret, h) \<Rightarrow> (ret, d\<lparr>hw := h\<rparr>)))"

definition i2c_dw_release_lock :: "('b, 's) dw_i2c_dev \<Rightarrow> ('b, 's) dw_i2c_dev" where
  "i2c_dw_release_lock d = (case release_lock d of None \<Rightarrow> d | Some f \<Rightarrow> d\<lparr>hw := f (hw d)\<rparr>)"

definition dw_regmap_config :: "u32 \<Rightarrow> 'b mmio \<Rightarrow> 'b regmap_config option" where
  "dw_regmap_config reg b =
     (if reg = swab32 DW_IC_COMP_TYPE_VALUE then
        Some \<lparr>reg_read = dw_reg_read_swab b, reg_write = dw_reg_write_swab b\<rparr>
      else if reg = DW_IC_COMP_TYPE_VALUE AND 0x0000ffff then
        Some \<lparr>reg_read = dw_reg_read_word b, reg_write = dw_reg_write_word b\<rparr>
      else if reg \<noteq> DW_IC_COMP_TYPE_VALUE then None
      else Some \<lparr>reg_read = dw_reg_read b, reg_write = dw_reg_write b\<rparr>)"

definition i2c_dw_init_regmap :: "('b, 's) dw_env \<Rightarrow> ('b, 's) dw_i2c_dev \<Rightarrow> int \<times> ('b, 's) dw_i2c_dev" where
  "i2c_dw_init_regmap e d =
     (if reg_map d \<noteq> None then (0, d)
      else
        case i2c_dw_acquire_lock d of (ret, d1) \<Rightarrow>
          if ret \<noteq> 0 then (ret, d1)
          else
            case readl (base d1) DW_IC_COMP_TYPE (hw d1) of (reg, h) \<Rightarrow>
              let d2 = i2c_dw_release_lock (d1\<lparr>hw := h\<rparr>) in
              case dw_regmap_config reg (base d2) of
                None \<Rightarrow> (- ENODEV, d2)
              | Some cfg \<Rightarrow>
                  (case devm_regmap_init e cfg of
                     Inl err \<Rightarrow> (err, d2)
                   | Inr rm \<Rightarrow> (0, d2\<lparr>reg_map := Some rm\<rparr>)))"

section \<open>Bus speed and timing parameters\<close>

definition supported_speeds :: "u32 list" where
  "supported_speeds =
     [I2C_MAX_HIGH_SPEED_MODE_FREQ, I2C_MAX_FAST_MODE_PLUS_FREQ, I2C_MAX_FAST_MODE_FREQ, I2C_MAX_STANDARD_MODE_FREQ]"

definition i2c_dw_validate_speed :: "('b, 's) dw_i2c_dev \<Rightarrow> int" where
  "i2c_dw_validate_speed d =
     (if list_ex (\<lambda>s. bus_freq_hz (timings d) = s) supported_speeds then 0 else - EINVAL)"

definition i2c_dw_acpi_round_bus_speed :: u32 where "i2c_dw_acpi_round_bus_speed = 0"

definition i2c_dw_adjust_bus_speed :: "('b, 's) dw_i2c_dev \<Rightarrow> ('b, 's) dw_i2c_dev" where
  "i2c_dw_adjust_bus_speed d =
     (let acpi_speed = i2c_dw_acpi_round_bus_speed;
          t = timings d;
          f = (if acpi_speed \<noteq> 0 \<and> bus_freq_hz t \<noteq> 0 then min (bus_freq_hz t) acpi_speed
               else if acpi_speed \<noteq> 0 \<or> bus_freq_hz t \<noteq> 0 then max (bus_freq_hz t) acpi_speed
               else I2C_MAX_FAST_MODE_FREQ)
      in d\<lparr>timings := t\<lparr>bus_freq_hz := f\<rparr>\<rparr>)"

definition i2c_dw_scl_hcnt :: "u32 \<Rightarrow> u32 \<Rightarrow> u32 \<Rightarrow> int \<Rightarrow> int \<Rightarrow> u32" where
  "i2c_dw_scl_hcnt ic_clk tSYMBOL tf cnd offset =
     (if cnd \<noteq> 0 then (ic_clk * tSYMBOL + 500000) div 1000000 - 8 + word_of_int offset
      else (ic_clk * (tSYMBOL + tf) + 500000) div 1000000 - 3 + word_of_int offset)"

definition i2c_dw_scl_lcnt :: "u32 \<Rightarrow> u32 \<Rightarrow> u32 \<Rightarrow> int \<Rightarrow> u32" where
  "i2c_dw_scl_lcnt ic_clk tLOW tf offset =
     ((ic_clk * (tLOW + tf) + 500000) div 1000000) - 1 + word_of_int offset"

definition i2c_dw_set_sda_hold :: "('b, 's) dw_i2c_dev \<Rightarrow> int \<times> ('b, 's) dw_i2c_dev" where
  "i2c_dw_set_sda_hold d =
     (case i2c_dw_acquire_lock d of (ret, d1) \<Rightarrow>
        if ret \<noteq> 0 then (ret, d1)
        else
          case regmap_read DW_IC_COMP_VERSION d1 of (ret, reg, d2) \<Rightarrow>
            if ret \<noteq> 0 then (ret, i2c_dw_release_lock d2)
            else if DW_IC_SDA_HOLD_MIN_VERS \<le> reg then
              case (if sda_hold_time d2 = 0
                    then (case regmap_read DW_IC_SDA_HOLD d2 of (r, v, d3) \<Rightarrow>
                            (r, if r = 0 then d3\<lparr>sda_hold_time := v\<rparr> else d3))
                    else (0, d2)) of (ret, d3) \<Rightarrow>
                if ret \<noteq> 0 then (ret, i2c_dw_release_lock d3)
                else if sda_hold_time d3 AND DW_IC_SDA_HOLD_RX_MASK = 0
                then (0, i2c_dw_release_lock (d3\<lparr>sda_hold_time := sda_hold_time d3 OR push_bit DW_IC_SDA_HOLD_RX_SHIFT 1\<rparr>))
                else (0, i2c_dw_release_lock d3)
            else
              (case set_sda_hold_time d2 of
                 Some f \<Rightarrow> (0, i2c_dw_release_lock (d2\<lparr>hw := snd (f (sda_hold_time d2) (hw d2))\<rparr>))
               | None \<Rightarrow> (0, i2c_dw_release_lock (if sda_hold_time d2 \<noteq> 0 then d2\<lparr>sda_hold_time := 0\<rparr> else d2))))"

section \<open>Enabling, disabling and waiting\<close>

definition i2c_dw_enable :: "('b, 's) dw_i2c_dev \<Rightarrow> ('b, 's) dw_i2c_dev" where
  "i2c_dw_enable d = regmap_write DW_IC_ENABLE 1 d"

definition i2c_dw_disable_nowait :: "('b, 's) dw_i2c_dev \<Rightarrow> ('b, 's) dw_i2c_dev" where
  "i2c_dw_disable_nowait d = regmap_write DW_IC_ENABLE 0 d"

text \<open>The loop of \<open>__i2c_dw_disable\<close>: its test \<open>timeout--\<close> lets the body run once more after it
  reached 0.\<close>

fun disable_loop :: "('b, 's) dw_env \<Rightarrow> nat \<Rightarrow> ('b, 's) dw_i2c_dev \<Rightarrow> ('b, 's) dw_i2c_dev" where
  "disable_loop e timeout d =
     (case reg_value DW_IC_ENABLE_STATUS (i2c_dw_disable_nowait d) of (st, d1) \<Rightarrow>
        if st AND 1 = 0 then d1
        else
          let d2 = d1\<lparr>hw := usleep e (hw d1)\<rparr> in
          (case timeout of 0 \<Rightarrow> d2 | Suc t \<Rightarrow> disable_loop e t d2))"

definition do_i2c_dw_disable :: "('b, 's) dw_env \<Rightarrow> ('b, 's) dw_i2c_dev \<Rightarrow> ('b, 's) dw_i2c_dev" where
  "do_i2c_dw_disable e d = disable_loop e 100 d"

definition i2c_dw_disable :: "('b, 's) dw_env \<Rightarrow> ('b, 's) dw_i2c_dev \<Rightarrow> ('b, 's) dw_i2c_dev" where
  "i2c_dw_disable e d = reg_touch DW_IC_CLR_INTR (regmap_write DW_IC_INTR_MASK 0 (do_i2c_dw_disable e d))"

definition i2c_dw_disable_int :: "('b, 's) dw_i2c_dev \<Rightarrow> ('b, 's) dw_i2c_dev" where
  "i2c_dw_disable_int d = regmap_write DW_IC_INTR_MASK 0 d"

definition i2c_dw_clk_rate :: "('b, 's) dw_i2c_dev \<Rightarrow> u32 \<times> ('b, 's) dw_i2c_dev" where
  "i2c_dw_clk_rate d =
     (case get_clk_rate_khz d of
        None \<Rightarrow> (0, d)
      | Some f \<Rightarrow> (case f (hw d) of (r, h) \<Rightarrow> (r, d\<lparr>hw := h\<rparr>)))"

definition i2c_dw_prepare_clk :: "('b, 's) dw_env \<Rightarrow> bool \<Rightarrow> ('b, 's) dw_i2c_dev \<Rightarrow> int \<times> ('b, 's) dw_i2c_dev" where
  "i2c_dw_prepare_clk e prepare d =
     (let h0 = snd (clk_set_rate e Clk I2C_SOURCE_CLK (hw d)) in
      if prepare then
        (case clk_prepare_enable e Pclk h0 of (ret, h1) \<Rightarrow>
           if ret \<noteq> 0 then (ret, d\<lparr>hw := h1\<rparr>)
           else
             (case clk_prepare_enable e Clk h1 of (ret, h2) \<Rightarrow>
                (ret, d\<lparr>hw := if ret \<noteq> 0 then clk_disable_unprepare e Pclk h2 else h2\<rparr>)))
      else (0, d\<lparr>hw := clk_disable_unprepare e Pclk (clk_disable_unprepare e Clk h0)\<rparr>))"

definition i2c_dw_wait_bus_not_busy :: "('b, 's) dw_env \<Rightarrow> ('b, 's) dw_i2c_dev \<Rightarrow> int \<times> ('b, 's) dw_i2c_dev" where
  "i2c_dw_wait_bus_not_busy e d =
     (case rm_poll (the (reg_map d)) DW_IC_STATUS (\<lambda>st. st AND DW_IC_STATUS_ACTIVITY = 0) (hw d) of
        (ret, _, h) \<Rightarrow>
          let d1 = d\<lparr>hw := h\<rparr> in
          if ret \<noteq> 0 then
            (case reg_value DW_IC_STATUS (snd (i2c_recover_bus e d1)) of (st, d2) \<Rightarrow>
               (if st AND DW_IC_STATUS_ACTIVITY = 0 then 0 else ret, d2))
          else (0, d1))"

definition i2c_dw_handle_tx_abort :: "('b, 's) dw_i2c_dev \<Rightarrow> int" where
  "i2c_dw_handle_tx_abort d =
     (let src = abort_source d in
      if src AND DW_IC_TX_ABRT_NOACK \<noteq> 0 then - EREMOTEIO
      else if src AND DW_IC_TX_ARB_LOST \<noteq> 0 then - EAGAIN
      else if src AND DW_IC_TX_ABRT_GCALL_READ \<noteq> 0 then - EINVAL
      else - EIO)"

definition i2c_dw_set_fifo_size :: "('b, 's) dw_i2c_dev \<Rightarrow> int \<times> ('b, 's) dw_i2c_dev" where
  "i2c_dw_set_fifo_size d =
     (case regmap_read DW_IC_COMP_PARAM_1 d of (ret, param, d1) \<Rightarrow>
        if ret \<noteq> 0 then (ret, d1)
        else
          let tx = (drop_bit 16 param AND 0xff) + 1;
              rx = (drop_bit 8 param AND 0xff) + 1
          in (0, if tx_fifo_depth d1 = 0 then d1\<lparr>tx_fifo_depth := tx, rx_fifo_depth := rx\<rparr>
                 else if 2 \<le> tx then
                   d1\<lparr>tx_fifo_depth := min (tx_fifo_depth d1) tx, rx_fifo_depth := min (rx_fifo_depth d1) rx\<rparr>
                 else d1))"

definition i2c_dw_func :: "('b, 's) dw_i2c_dev \<Rightarrow> u32" where
  "i2c_dw_func d = functionality d"

end
