(* ===== verification/I2c_Dw_Slave.thy ===== *)
theory I2c_Dw_Slave
  imports I2c_Dw_Common
begin

text \<open>
  The slave mode of the DesignWare I2C driver (\<open>drivers/i2c/busses/i2c-designware-slave.c\<close>) and its
  composition with the EEPROM backend: registration of a backend, the interrupt handler, which turns
  interrupt bits and received bytes into slave events, and the probe function.

  A function that can call the backend returns \<open>None\<close> where the backend accesses memory outside its
  buffer.  The loop that empties the receive FIFO has fuel; with a receive FIFO that behaves as
  documented (\<open>rx_fifo_ok\<close>) the number of queued bytes plus one is enough.
\<close>

section \<open>Initialisation and registration\<close>

definition i2c_dw_configure_fifo_slave :: "('b, 's) dw_i2c_dev \<Rightarrow> ('b, 's) dw_i2c_dev" where
  "i2c_dw_configure_fifo_slave d =
     (let d1 = regmap_write DW_IC_TX_TL 0 d;
          d2 = regmap_write DW_IC_RX_TL 0 d1;
          d3 = regmap_write DW_IC_CON (slave_cfg d2) d2
      in regmap_write DW_IC_INTR_MASK DW_IC_INTR_SLAVE_MASK d3)"

definition i2c_dw_init_slave :: "('b, 's) dw_env \<Rightarrow> ('b, 's) dw_i2c_dev \<Rightarrow> int \<times> ('b, 's) dw_i2c_dev" where
  "i2c_dw_init_slave e d =
     (case i2c_dw_acquire_lock d of (ret, d1) \<Rightarrow>
        if ret \<noteq> 0 then (ret, d1)
        else
          let d2 = do_i2c_dw_disable e d1;
              d3 = (if sda_hold_time d2 \<noteq> 0 then regmap_write DW_IC_SDA_HOLD (sda_hold_time d2) d2 else d2);
              d4 = regmap_write DW_IC_SDA_HOLD 20 d3
          in (0, i2c_dw_release_lock (i2c_dw_configure_fifo_slave d4)))"

definition i2c_dw_reg_slave :: "('b, 's) dw_env \<Rightarrow> 's i2c_client \<Rightarrow> ('b, 's) dw_i2c_dev \<Rightarrow> int \<times> ('b, 's) dw_i2c_dev" where
  "i2c_dw_reg_slave e cl d =
     (if slave d \<noteq> None then (- EBUSY, d)
      else if client_flags cl AND I2C_CLIENT_TEN \<noteq> 0 then (- EAFNOSUPPORT, d)
      else
        let d1 = i2c_dw_disable_nowait (pm_runtime_get_sync e d);
            d2 = regmap_write DW_IC_SAR (ucast (client_addr cl)) d1;
            d3 = i2c_dw_enable (d2\<lparr>slave := Some cl\<rparr>)
        in (0, d3\<lparr>cmd_err := 0, msg_write_idx := 0, msg_read_idx := 0, msg_err := 0, dw_status := STATUS_IDLE,
                  abort_source := 0, rx_outstanding := 0\<rparr>))"

definition i2c_dw_unreg_slave :: "('b, 's) dw_env \<Rightarrow> ('b, 's) dw_i2c_dev \<Rightarrow> int \<times> ('b, 's) dw_i2c_dev" where
  "i2c_dw_unreg_slave e d =
     (let d1 = i2c_dw_disable e (i2c_dw_disable_int d)
      in (0, d1\<lparr>slave := None, pm_usage := pm_usage d1 - 1\<rparr>))"

section \<open>The interrupt handler\<close>

definition i2c_dw_read_clear_intrbits_slave :: "('b, 's) dw_i2c_dev \<Rightarrow> u32 \<times> ('b, 's) dw_i2c_dev" where
  "i2c_dw_read_clear_intrbits_slave d =
     (case reg_value DW_IC_INTR_STAT d of (stat, d0) \<Rightarrow>
        let d1 = clear_if stat DW_IC_INTR_TX_ABRT DW_IC_CLR_TX_ABRT d0;
            d2 = clear_if stat DW_IC_INTR_RX_UNDER DW_IC_CLR_RX_UNDER d1;
            d3 = clear_if stat DW_IC_INTR_RX_OVER DW_IC_CLR_RX_OVER d2;
            d4 = clear_if stat DW_IC_INTR_TX_OVER DW_IC_CLR_TX_OVER d3;
            d5 = clear_if stat DW_IC_INTR_RX_DONE DW_IC_CLR_RX_DONE d4;
            d6 = clear_if stat DW_IC_INTR_ACTIVITY DW_IC_CLR_ACTIVITY d5;
            d7 = clear_if stat DW_IC_INTR_STOP_DET DW_IC_CLR_STOP_DET d6;
            d8 = clear_if stat DW_IC_INTR_START_DET DW_IC_CLR_START_DET d7;
            d9 = clear_if stat DW_IC_INTR_GEN_CALL DW_IC_CLR_GEN_CALL d8
        in (stat, d9))"

text \<open>The inline function of \<open>include/linux/i2c.h\<close>: calls the callback of the client, whose value comes
  back through the pointer.\<close>

definition i2c_slave_event_fn :: "i2c_slave_event \<Rightarrow> u8 \<Rightarrow> ('b, 's) dw_i2c_dev \<Rightarrow> (u8 \<times> ('b, 's) dw_i2c_dev) option" where
  "i2c_slave_event_fn ev val d =
     (case slave d of
        None \<Rightarrow> None
      | Some cl \<Rightarrow>
          (case slave_cb cl ev val (client_data cl) of
             None \<Rightarrow> None
           | Some (_, v, s) \<Rightarrow> Some (v, d\<lparr>slave := Some (cl\<lparr>client_data := s\<rparr>)\<rparr>)))"

fun rx_loop :: "nat \<Rightarrow> ('b, 's) dw_i2c_dev \<Rightarrow> (u8 \<times> ('b, 's) dw_i2c_dev) option" where
  "rx_loop 0 d = None"
| "rx_loop (Suc n) d =
     (case reg_value DW_IC_DATA_CMD d of (tmp, d1) \<Rightarrow>
        (case i2c_slave_event_fn I2C_SLAVE_WRITE_RECEIVED (ucast tmp) d1 of
           None \<Rightarrow> None
         | Some (val, d2) \<Rightarrow>
             (case reg_value DW_IC_STATUS d2 of (tmp, d3) \<Rightarrow>
                if tmp AND DW_IC_STATUS_RFNE \<noteq> 0 then rx_loop n d3 else Some (val, d3))))"

definition rx_full_part :: "nat \<Rightarrow> u8 \<Rightarrow> ('b, 's) dw_i2c_dev \<Rightarrow> (u8 \<times> ('b, 's) dw_i2c_dev) option" where
  "rx_full_part fuel val d =
     (case (if dw_status d AND STATUS_WRITE_IN_PROGRESS = 0
            then i2c_slave_event_fn I2C_SLAVE_WRITE_REQUESTED val
                   (d\<lparr>dw_status := (dw_status d OR STATUS_WRITE_IN_PROGRESS) AND NOT STATUS_READ_IN_PROGRESS\<rparr>)
            else Some (val, d)) of
        None \<Rightarrow> None
      | Some (_, d1) \<Rightarrow> rx_loop fuel d1)"

definition rd_req_part :: "u8 \<Rightarrow> ('b, 's) dw_i2c_dev \<Rightarrow> (u8 \<times> ('b, 's) dw_i2c_dev) option" where
  "rd_req_part val d =
     (let d1 = reg_touch DW_IC_CLR_RD_REQ d in
      case (if dw_status d1 AND STATUS_READ_IN_PROGRESS = 0
            then map_option (\<lambda>(v, d2). (v, d2\<lparr>dw_status := (dw_status d2 OR STATUS_READ_IN_PROGRESS) AND NOT STATUS_WRITE_IN_PROGRESS\<rparr>))
                   (i2c_slave_event_fn I2C_SLAVE_READ_REQUESTED val d1)
            else i2c_slave_event_fn I2C_SLAVE_READ_PROCESSED val d1) of
        None \<Rightarrow> None
      | Some (v, d2) \<Rightarrow> Some (v, regmap_write DW_IC_DATA_CMD (ucast v) d2))"

text \<open>What the handler does with the interrupt bits \<open>stat\<close>: received bytes first, then the request of a
  master that reads, then the stop condition.\<close>

definition slave_serve :: "nat \<Rightarrow> u32 \<Rightarrow> u8 \<Rightarrow> ('b, 's) dw_i2c_dev \<Rightarrow> ('b, 's) dw_i2c_dev option" where
  "slave_serve fuel stat slave_activity d =
     (case (if stat AND DW_IC_INTR_RX_FULL \<noteq> 0 then rx_full_part fuel 0 d else Some (0, d)) of
        None \<Rightarrow> None
      | Some (val1, d1) \<Rightarrow>
          (case (if stat AND DW_IC_INTR_RD_REQ \<noteq> 0 then (if slave_activity \<noteq> 0 then rd_req_part val1 d1 else Some (val1, d1))
                 else Some (val1, d1)) of
             None \<Rightarrow> None
           | Some (val2, d2) \<Rightarrow>
               if stat AND DW_IC_INTR_STOP_DET \<noteq> 0 then map_option snd (i2c_slave_event_fn I2C_SLAVE_STOP val2 d2)
               else Some d2))"

text \<open>The result says whether the interrupt was handled (\<open>IRQ_HANDLED\<close>).\<close>

definition i2c_dw_irq_handler_slave :: "nat \<Rightarrow> ('b, 's) dw_i2c_dev \<Rightarrow> (bool \<times> ('b, 's) dw_i2c_dev) option" where
  "i2c_dw_irq_handler_slave fuel d =
     (case reg_value DW_IC_ENABLE d of (enabled, d1) \<Rightarrow>
      case reg_value DW_IC_RAW_INTR_STAT d1 of (raw_stat, d2) \<Rightarrow>
      case reg_value DW_IC_STATUS d2 of (tmp, d3) \<Rightarrow>
      if enabled = 0 \<or> raw_stat AND NOT DW_IC_INTR_ACTIVITY = 0 \<or> slave d3 = None then Some (False, d3)
      else
        case i2c_dw_read_clear_intrbits_slave d3 of (stat, d4) \<Rightarrow>
          map_option (Pair True)
            (slave_serve fuel stat (ucast (drop_bit 6 (tmp AND DW_IC_STATUS_SLAVE_ACTIVITY))) d4))"

definition i2c_dw_isr_slave :: "nat \<Rightarrow> ('b, 's) dw_i2c_dev \<Rightarrow> (bool \<times> ('b, 's) dw_i2c_dev) option" where
  "i2c_dw_isr_slave fuel d =
     (case i2c_dw_irq_handler_slave fuel d of
        None \<Rightarrow> None
      | Some (ret, d1) \<Rightarrow> Some (ret, if ret then d1\<lparr>cmd_complete := cmd_complete d1 + 1\<rparr> else d1))"

section \<open>Configuration and probe\<close>

definition i2c_dw_configure_slave :: "('b, 's) dw_i2c_dev \<Rightarrow> ('b, 's) dw_i2c_dev" where
  "i2c_dw_configure_slave d =
     d\<lparr>functionality := I2C_FUNC_SLAVE OR DW_IC_DEFAULT_FUNCTIONALITY,
       slave_cfg := DW_IC_CON_RX_FIFO_FULL_HLD_CTRL OR DW_IC_CON_RESTART_EN OR DW_IC_CON_STOP_DET_IFADDRESSED,
       dw_mode := DW_IC_SLAVE\<rparr>"

definition i2c_dw_probe_slave :: "('b, 's) dw_env \<Rightarrow> ('b, 's) dw_i2c_dev \<Rightarrow> int \<times> ('b, 's) dw_i2c_dev" where
  "i2c_dw_probe_slave e d =
     (case i2c_dw_init_regmap e (d\<lparr>cmd_complete := 0, dw_init := Some Init_slave\<rparr>) of (ret, d1) \<Rightarrow>
      if ret \<noteq> 0 then (ret, d1) else
      case i2c_dw_set_sda_hold d1 of (ret, d2) \<Rightarrow>
      if ret \<noteq> 0 then (ret, d2) else
      case i2c_dw_set_fifo_size d2 of (ret, d3) \<Rightarrow>
      if ret \<noteq> 0 then (ret, d3) else
      case i2c_dw_init_slave e d3 of (ret, d4) \<Rightarrow>
      if ret \<noteq> 0 then (ret, d4) else
      let d5 = d4\<lparr>adapter := (adapter d4)\<lparr>adap_retries := 3, adap_algo := Some Algo_slave\<rparr>\<rparr> in
      case request_irq e Shared (hw d5) of (ret, h) \<Rightarrow>
      let d6 = d5\<lparr>hw := h, irq_requested := (ret = 0)\<rparr> in
      if ret \<noteq> 0 then (ret, d6) else
      case add_numbered_adapter e (hw d6) of (ret, h) \<Rightarrow>
      (ret, d6\<lparr>hw := h, adapter := (adapter d6)\<lparr>adap_added := (ret = 0)\<rparr>\<rparr>))"

section \<open>What the slave side of the hardware promises\<close>

text \<open>Observations of the hardware: whether it is enabled, the enabled interrupts that are pending,
  whether a master addresses it, the bytes received but not read, and the values pushed for
  transmission.\<close>

record 'b slave_view =
  v_on :: "'b \<Rightarrow> bool"
  v_stat :: "'b \<Rightarrow> u32"
  v_act :: "'b \<Rightarrow> bool"
  v_rx :: "'b \<Rightarrow> u8 list"
  v_tx :: "'b \<Rightarrow> u32 list"

definition slave_read_law :: "'b regmap \<Rightarrow> 'b slave_view \<Rightarrow> nat \<Rightarrow> 'b \<Rightarrow> bool" where
  "slave_read_law rm o' r h \<longleftrightarrow>
     (case rm_read rm r h of (_, v, h') \<Rightarrow>
        v_on o' h' = v_on o' h \<and> v_act o' h' = v_act o' h \<and> v_tx o' h' = v_tx o' h \<and>
        v_rx o' h' = (if r = DW_IC_DATA_CMD then tl (v_rx o' h) else v_rx o' h) \<and>
        (r \<in> {DW_IC_ENABLE, DW_IC_RAW_INTR_STAT, DW_IC_STATUS} \<longrightarrow> v_stat o' h' = v_stat o' h) \<and>
        (r = DW_IC_DATA_CMD \<and> v_rx o' h \<noteq> [] \<longrightarrow> ucast v = hd (v_rx o' h)) \<and>
        (r = DW_IC_STATUS \<longrightarrow> (v AND DW_IC_STATUS_RFNE \<noteq> 0 \<longleftrightarrow> v_rx o' h \<noteq> []) \<and>
                            (v AND DW_IC_STATUS_SLAVE_ACTIVITY \<noteq> 0 \<longleftrightarrow> v_act o' h)) \<and>
        (r = DW_IC_INTR_STAT \<longrightarrow> v = v_stat o' h) \<and>
        (r = DW_IC_ENABLE \<longrightarrow> (v \<noteq> 0 \<longleftrightarrow> v_on o' h)) \<and>
        (r = DW_IC_RAW_INTR_STAT \<and> v_stat o' h AND NOT DW_IC_INTR_ACTIVITY \<noteq> 0 \<longrightarrow> v AND NOT DW_IC_INTR_ACTIVITY \<noteq> 0))"

definition slave_write_law :: "'b regmap \<Rightarrow> 'b slave_view \<Rightarrow> nat \<Rightarrow> u32 \<Rightarrow> 'b \<Rightarrow> bool" where
  "slave_write_law rm o' r w h \<longleftrightarrow>
     (let h' = snd (rm_write rm r w h) in
        v_act o' h' = v_act o' h \<and> v_rx o' h' = v_rx o' h \<and> (r \<noteq> DW_IC_ENABLE \<longrightarrow> v_on o' h' = v_on o' h) \<and>
        v_tx o' h' = (if r = DW_IC_DATA_CMD then v_tx o' h @ [w] else v_tx o' h))"

definition slave_port :: "'b regmap \<Rightarrow> 'b slave_view \<Rightarrow> bool" where
  "slave_port rm o' \<longleftrightarrow> (\<forall>r h. slave_read_law rm o' r h) \<and> (\<forall>r w h. slave_write_law rm o' r w h)"

text \<open>What register accesses leave alone in the device.\<close>

definition same_client :: "('b, 's) dw_i2c_dev \<Rightarrow> ('b, 's) dw_i2c_dev \<Rightarrow> bool" where
  "same_client d d' \<longleftrightarrow> reg_map d' = reg_map d \<and> slave d' = slave d \<and> dw_status d' = dw_status d
     \<and> cmd_complete d' = cmd_complete d"

lemma same_client_refl [simp]: "same_client d d"
  by (simp add: same_client_def)

lemma same_client_trans [trans]: "same_client a b \<Longrightarrow> same_client b c \<Longrightarrow> same_client a c"
  by (simp add: same_client_def)

definition calm :: "'b slave_view \<Rightarrow> ('b, 's) dw_i2c_dev \<Rightarrow> ('b, 's) dw_i2c_dev \<Rightarrow> bool" where
  "calm o' d d' \<longleftrightarrow> same_client d d' \<and> v_on o' (hw d') = v_on o' (hw d) \<and> v_act o' (hw d') = v_act o' (hw d)
     \<and> v_tx o' (hw d') = v_tx o' (hw d) \<and> v_rx o' (hw d') = v_rx o' (hw d)"

lemma calm_refl [simp]: "calm o' d d"
  by (simp add: calm_def)

lemma calm_trans [trans]: "calm o' a b \<Longrightarrow> calm o' b c \<Longrightarrow> calm o' a c"
  by (simp add: calm_def same_client_def)

lemma reg_value_split:
  assumes "reg_value r d = (v, d')" and "reg_map d = Some rm"
  obtains ret h' where "rm_read rm r (hw d) = (ret, v, h')" and "d' = d\<lparr>hw := h'\<rparr>"
  using assms by (cases "rm_read rm r (hw d)") (auto simp: reg_value_def regmap_read_def)

lemma slave_read:
  assumes "slave_port rm o'" and "reg_map d = Some rm" and "reg_value r d = (v, d')" and "r \<noteq> DW_IC_DATA_CMD"
  shows "calm o' d d'"
proof -
  from reg_value_split [OF assms(3,2)] obtain ret h' where
    h': "rm_read rm r (hw d) = (ret, v, h')" "d' = d\<lparr>hw := h'\<rparr>" .
  moreover have "slave_read_law rm o' r (hw d)" using assms(1) by (simp add: slave_port_def)
  ultimately show ?thesis using assms(4) by (simp add: slave_read_law_def calm_def same_client_def)
qed

lemma slave_read_stat:
  assumes "slave_port rm o'" and "reg_map d = Some rm" and "reg_value r d = (v, d')"
    and "r \<in> {DW_IC_ENABLE, DW_IC_RAW_INTR_STAT, DW_IC_STATUS}"
  shows "v_stat o' (hw d') = v_stat o' (hw d)"
proof -
  from reg_value_split [OF assms(3,2)] obtain ret h' where
    h': "rm_read rm r (hw d) = (ret, v, h')" "d' = d\<lparr>hw := h'\<rparr>" .
  moreover have "slave_read_law rm o' r (hw d)" using assms(1) by (simp add: slave_port_def)
  ultimately show ?thesis using assms(4) by (auto simp: slave_read_law_def)
qed

lemma slave_read_value:
  assumes "slave_port rm o'" and "reg_map d = Some rm" and "reg_value r d = (v, d')"
  shows "r = DW_IC_STATUS \<Longrightarrow> v AND DW_IC_STATUS_RFNE \<noteq> 0 \<longleftrightarrow> v_rx o' (hw d) \<noteq> []"
    and "r = DW_IC_STATUS \<Longrightarrow> v AND DW_IC_STATUS_SLAVE_ACTIVITY \<noteq> 0 \<longleftrightarrow> v_act o' (hw d)"
    and "r = DW_IC_INTR_STAT \<Longrightarrow> v = v_stat o' (hw d)"
    and "r = DW_IC_ENABLE \<Longrightarrow> v \<noteq> 0 \<longleftrightarrow> v_on o' (hw d)"
    and "r = DW_IC_RAW_INTR_STAT \<Longrightarrow> v_stat o' (hw d) AND NOT DW_IC_INTR_ACTIVITY \<noteq> 0 \<Longrightarrow> v AND NOT DW_IC_INTR_ACTIVITY \<noteq> 0"
proof -
  from reg_value_split [OF assms(3,2)] obtain ret h' where h': "rm_read rm r (hw d) = (ret, v, h')" .
  have law: "slave_read_law rm o' r (hw d)" using assms(1) by (simp add: slave_port_def)
  show "r = DW_IC_STATUS \<Longrightarrow> v AND DW_IC_STATUS_RFNE \<noteq> 0 \<longleftrightarrow> v_rx o' (hw d) \<noteq> []"
    and "r = DW_IC_STATUS \<Longrightarrow> v AND DW_IC_STATUS_SLAVE_ACTIVITY \<noteq> 0 \<longleftrightarrow> v_act o' (hw d)"
    and "r = DW_IC_INTR_STAT \<Longrightarrow> v = v_stat o' (hw d)"
    and "r = DW_IC_ENABLE \<Longrightarrow> v \<noteq> 0 \<longleftrightarrow> v_on o' (hw d)"
    and "r = DW_IC_RAW_INTR_STAT \<Longrightarrow> v_stat o' (hw d) AND NOT DW_IC_INTR_ACTIVITY \<noteq> 0 \<Longrightarrow> v AND NOT DW_IC_INTR_ACTIVITY \<noteq> 0"
    using law unfolding slave_read_law_def h' by simp_all
qed

lemma slave_read_data:
  assumes "slave_port rm o'" and "reg_map d = Some rm" and "reg_value DW_IC_DATA_CMD d = (v, d')"
  shows "same_client d d' \<and> v_on o' (hw d') = v_on o' (hw d) \<and> v_act o' (hw d') = v_act o' (hw d)
    \<and> v_tx o' (hw d') = v_tx o' (hw d) \<and> v_rx o' (hw d') = tl (v_rx o' (hw d))
    \<and> (v_rx o' (hw d) \<noteq> [] \<longrightarrow> ucast v = hd (v_rx o' (hw d)))"
proof -
  from reg_value_split [OF assms(3,2)] obtain ret h' where
    h': "rm_read rm DW_IC_DATA_CMD (hw d) = (ret, v, h')" "d' = d\<lparr>hw := h'\<rparr>" .
  moreover have "slave_read_law rm o' DW_IC_DATA_CMD (hw d)" using assms(1) by (simp add: slave_port_def)
  ultimately show ?thesis by (simp add: slave_read_law_def same_client_def)
qed

lemma slave_touch:
  assumes "slave_port rm o'" and "reg_map d = Some rm" and "r \<noteq> DW_IC_DATA_CMD"
  shows "calm o' d (reg_touch r d)"
  using slave_read [OF assms(1,2) _ assms(3)] by (cases "reg_value r d") (auto simp: reg_touch_def)

lemma calm_map: "calm o' d d' \<Longrightarrow> reg_map d' = reg_map d"
  by (simp add: calm_def same_client_def)

lemma slave_clear_if:
  assumes "slave_port rm o'" and "reg_map d = Some rm" and "r \<noteq> DW_IC_DATA_CMD"
  shows "calm o' d (clear_if stat i r d)"
  using slave_touch [OF assms] by (simp add: clear_if_def)

lemma slave_clear_chain:
  assumes "slave_port rm o'" and "reg_map a = Some rm" and "calm o' a d" and "r \<noteq> DW_IC_DATA_CMD"
  shows "calm o' a (clear_if stat i r d)"
  using slave_clear_if [OF assms(1) _ assms(4), of d stat i] assms(2,3) calm_trans
  by (auto simp: calm_map)

lemma read_clear_calm:
  assumes "slave_port rm o'" and "reg_map d = Some rm" and "i2c_dw_read_clear_intrbits_slave d = (stat, d')"
  shows "calm o' d d' \<and> stat = v_stat o' (hw d)"
proof -
  obtain v d0 where d0: "reg_value DW_IC_INTR_STAT d = (v, d0)" by (cases "reg_value DW_IC_INTR_STAT d")
  have c: "calm o' d d0"
    by (rule slave_read [OF assms(1,2) d0]) (simp add: dw_reg_defs)
  have v: "v = v_stat o' (hw d)" by (rule slave_read_value(3) [OF assms(1,2) d0 refl])
  note step = slave_clear_chain [OF assms(1,2)]
  have "calm o' d d'"
    using assms(3) unfolding i2c_dw_read_clear_intrbits_slave_def d0 Let_def prod.case prod.inject
    by (elim conjE, hypsubst, intro step c) (simp_all add: dw_reg_defs)
  moreover have "stat = v"
    using assms(3) unfolding i2c_dw_read_clear_intrbits_slave_def d0 Let_def prod.case prod.inject by simp
  ultimately show ?thesis using v by simp
qed

section \<open>What an interrupt does to the backend\<close>

text \<open>A run of the backend over a list of events; the value that a callback leaves behind the pointer
  is what the next callback finds there, except where the handler stores a received byte first.\<close>

fun run_cb :: "(i2c_slave_event \<Rightarrow> u8 \<Rightarrow> 's \<Rightarrow> (int \<times> u8 \<times> 's) option) \<Rightarrow> (i2c_slave_event \<times> u8 option) list
  \<Rightarrow> u8 \<Rightarrow> 's \<Rightarrow> (u8 \<times> 's) option" where
  "run_cb cb [] v s = Some (v, s)"
| "run_cb cb ((ev, w) # evs) v s =
     (case cb ev (case w of None \<Rightarrow> v | Some b \<Rightarrow> b) s of
        None \<Rightarrow> None
      | Some (_, v', s') \<Rightarrow> run_cb cb evs v' s')"

definition rx_events :: "u32 \<Rightarrow> u8 list \<Rightarrow> (i2c_slave_event \<times> u8 option) list" where
  "rx_events st bytes =
     (if st AND STATUS_WRITE_IN_PROGRESS = 0 then [(I2C_SLAVE_WRITE_REQUESTED, None)] else [])
       @ map (\<lambda>b. (I2C_SLAVE_WRITE_RECEIVED, Some b)) bytes"

definition rx_status :: "u32 \<Rightarrow> u32" where
  "rx_status st = (if st AND STATUS_WRITE_IN_PROGRESS = 0
     then (st OR STATUS_WRITE_IN_PROGRESS) AND NOT STATUS_READ_IN_PROGRESS else st)"

definition rd_event :: "u32 \<Rightarrow> i2c_slave_event \<times> u8 option" where
  "rd_event st = (if st AND STATUS_READ_IN_PROGRESS = 0 then I2C_SLAVE_READ_REQUESTED else I2C_SLAVE_READ_PROCESSED, None)"

definition rd_status :: "u32 \<Rightarrow> u32" where
  "rd_status st = (if st AND STATUS_READ_IN_PROGRESS = 0
     then (st OR STATUS_READ_IN_PROGRESS) AND NOT STATUS_WRITE_IN_PROGRESS else st)"

text \<open>The device after a part of the handler: register map and completions as before, the backend in
  state \<open>s\<close>, and the given driver status, unread bytes and pushed values.\<close>

definition moved :: "'b slave_view \<Rightarrow> 's i2c_client \<Rightarrow> ('b, 's) dw_i2c_dev \<Rightarrow> 's \<Rightarrow> u32 \<Rightarrow> u8 list \<Rightarrow> u32 list
  \<Rightarrow> ('b, 's) dw_i2c_dev \<Rightarrow> bool" where
  "moved o' cl d s st rx tx d' \<longleftrightarrow>
     reg_map d' = reg_map d \<and> cmd_complete d' = cmd_complete d \<and> slave d' = Some (cl\<lparr>client_data := s\<rparr>) \<and> dw_status d' = st \<and>
     v_on o' (hw d') = v_on o' (hw d) \<and> v_act o' (hw d') = v_act o' (hw d) \<and>
     v_rx o' (hw d') = rx \<and> v_tx o' (hw d') = tx"

lemma moved_trans:
  "moved o' cl d s st rx tx d1 \<Longrightarrow> moved o' cl d1 s' st' rx' tx' d2 \<Longrightarrow> moved o' cl d s' st' rx' tx' d2"
  by (simp add: moved_def)

lemma moved_calm:
  "moved o' cl d s st rx tx d1 \<Longrightarrow> calm o' d1 d2 \<Longrightarrow> moved o' cl d s st rx tx d2"
  by (simp add: moved_def calm_def same_client_def)

lemma calm_moved:
  "calm o' d d1 \<Longrightarrow> moved o' cl d1 s st rx tx d2 \<Longrightarrow> moved o' cl d s st rx tx d2"
  by (simp add: moved_def calm_def same_client_def)

lemma moved_refl:
  "slave d = Some (cl\<lparr>client_data := s\<rparr>) \<Longrightarrow> moved o' cl d s (dw_status d) (v_rx o' (hw d)) (v_tx o' (hw d)) d"
  by (simp add: moved_def)

lemma slave_event_moved:
  assumes "slave d = Some (cl\<lparr>client_data := s\<rparr>)" and "slave_cb cl ev v s = Some (r, v', s')"
  shows "\<exists>d'. i2c_slave_event_fn ev v d = Some (v', d')
    \<and> moved o' cl d s' (dw_status d) (v_rx o' (hw d)) (v_tx o' (hw d)) d'"
  using assms by (simp add: i2c_slave_event_fn_def moved_def)

lemma rx_loop_run:
  assumes "slave_port rm o'" and "reg_map d = Some rm" and "slave d = Some (cl\<lparr>client_data := s\<rparr>)"
    and "v_rx o' (hw d) = b # bs" and "length (b # bs) \<le> fuel"
    and "run_cb (slave_cb cl) (map (\<lambda>b. (I2C_SLAVE_WRITE_RECEIVED, Some b)) (b # bs)) v s = Some (v', s')"
  shows "\<exists>d'. rx_loop fuel d = Some (v', d') \<and> moved o' cl d s' (dw_status d) [] (v_tx o' (hw d)) d'"
  using assms
proof (induction fuel arbitrary: d s b bs v)
  case 0
  then show ?case by simp
next
  case (Suc n)
  obtain tmp d1 where d1: "reg_value DW_IC_DATA_CMD d = (tmp, d1)" by (cases "reg_value DW_IC_DATA_CMD d")
  have r1: "ucast tmp = b" "v_rx o' (hw d1) = bs" "reg_map d1 = Some rm" "slave d1 = Some (cl\<lparr>client_data := s\<rparr>)"
    and m1: "moved o' cl d s (dw_status d) bs (v_tx o' (hw d)) d1"
    using slave_read_data [OF Suc.prems(1,2) d1] Suc.prems by (auto simp: same_client_def moved_def)
  obtain r v1 s1 where cb: "slave_cb cl I2C_SLAVE_WRITE_RECEIVED b s = Some (r, v1, s1)"
    and rest: "run_cb (slave_cb cl) (map (\<lambda>b. (I2C_SLAVE_WRITE_RECEIVED, Some b)) bs) v1 s1 = Some (v', s')"
    using Suc.prems(6) by (auto split: option.splits)
  from slave_event_moved [OF r1(4) cb, where o' = o'] obtain d2 where
    d2: "i2c_slave_event_fn I2C_SLAVE_WRITE_RECEIVED b d1 = Some (v1, d2)"
      "moved o' cl d1 s1 (dw_status d1) (v_rx o' (hw d1)) (v_tx o' (hw d1)) d2" by blast
  have map2: "reg_map d2 = Some rm" using d2(2) r1(3) by (simp add: moved_def)
  obtain st d3 where d3: "reg_value DW_IC_STATUS d2 = (st, d3)" by (cases "reg_value DW_IC_STATUS d2")
  have c3: "calm o' d2 d3" by (rule slave_read [OF Suc.prems(1) map2 d3]) (simp add: dw_reg_defs)
  have m3: "moved o' cl d s1 (dw_status d) bs (v_tx o' (hw d)) d3"
    using moved_calm [OF moved_trans [OF m1 d2(2)] c3] m1 by (simp add: moved_def)
  have ne: "st AND DW_IC_STATUS_RFNE \<noteq> 0 \<longleftrightarrow> bs \<noteq> []"
    using slave_read_value(1) [OF Suc.prems(1) map2 d3 refl] d2(2) r1(2) by (simp add: moved_def)
  have step: "rx_loop (Suc n) d = (if bs \<noteq> [] then rx_loop n d3 else Some (v1, d3))"
    using ne by (simp add: d1 r1(1) d2(1) d3)
  show ?case
  proof (cases bs)
    case Nil
    with rest step m3 show ?thesis by auto
  next
    case (Cons b' bs')
    have pre: "reg_map d3 = Some rm" "slave d3 = Some (cl\<lparr>client_data := s1\<rparr>)" "v_rx o' (hw d3) = b' # bs'"
      "length (b' # bs') \<le> n"
      using m3 Suc.prems(2,5) Cons by (simp_all add: moved_def)
    from Suc.IH [OF Suc.prems(1) pre(1-4) rest [unfolded Cons]] obtain d' where
      d': "rx_loop n d3 = Some (v', d')" "moved o' cl d3 s' (dw_status d3) [] (v_tx o' (hw d3)) d'" by blast
    with m3 step Cons moved_trans [OF m3 d'(2)] show ?thesis by (auto simp: moved_def)
  qed
qed

lemma run_cb_append:
  "run_cb cb (xs @ ys) v s = (case run_cb cb xs v s of None \<Rightarrow> None | Some (v', s') \<Rightarrow> run_cb cb ys v' s')"
  by (induction xs arbitrary: v s rule: list.induct) (auto split: option.splits prod.splits)

lemma rx_full_run:
  assumes "slave_port rm o'" and "reg_map d = Some rm" and "slave d = Some (cl\<lparr>client_data := s\<rparr>)"
    and "v_rx o' (hw d) \<noteq> []" and "length (v_rx o' (hw d)) \<le> fuel"
    and "run_cb (slave_cb cl) (rx_events (dw_status d) (v_rx o' (hw d))) v s = Some (v', s')"
  shows "\<exists>d'. rx_full_part fuel v d = Some (v', d') \<and> moved o' cl d s' (rx_status (dw_status d)) [] (v_tx o' (hw d)) d'"
proof -
  obtain b bs where rx: "v_rx o' (hw d) = b # bs" using assms(4) by (cases "v_rx o' (hw d)") auto
  define d0 where "d0 = (if dw_status d AND STATUS_WRITE_IN_PROGRESS = 0
     then d\<lparr>dw_status := (dw_status d OR STATUS_WRITE_IN_PROGRESS) AND NOT STATUS_READ_IN_PROGRESS\<rparr> else d)"
  have m0: "moved o' cl d s (rx_status (dw_status d)) (b # bs) (v_tx o' (hw d)) d0" "slave d0 = slave d"
    using assms(3) rx by (simp_all add: moved_def d0_def rx_status_def)
  obtain v0 s0 d1 where
    first: "(if dw_status d AND STATUS_WRITE_IN_PROGRESS = 0
        then i2c_slave_event_fn I2C_SLAVE_WRITE_REQUESTED v
               (d\<lparr>dw_status := (dw_status d OR STATUS_WRITE_IN_PROGRESS) AND NOT STATUS_READ_IN_PROGRESS\<rparr>)
        else Some (v, d)) = Some (v0, d1)"
    and m1: "moved o' cl d s0 (rx_status (dw_status d)) (b # bs) (v_tx o' (hw d)) d1"
    and rest: "run_cb (slave_cb cl) (map (\<lambda>b. (I2C_SLAVE_WRITE_RECEIVED, Some b)) (b # bs)) v0 s0 = Some (v', s')"
  proof (cases "dw_status d AND STATUS_WRITE_IN_PROGRESS = 0")
    case True
    with assms(6) rx obtain r v1 s1 where
      cb: "slave_cb cl I2C_SLAVE_WRITE_REQUESTED v s = Some (r, v1, s1)"
      and rs: "run_cb (slave_cb cl) (map (\<lambda>b. (I2C_SLAVE_WRITE_RECEIVED, Some b)) (b # bs)) v1 s1 = Some (v', s')"
      by (simp add: rx_events_def split: option.splits prod.splits)
    from slave_event_moved [of d0, OF _ cb, where o' = o'] m0 assms(3) obtain d1 where
      "i2c_slave_event_fn I2C_SLAVE_WRITE_REQUESTED v d0 = Some (v1, d1)"
      "moved o' cl d0 s1 (dw_status d0) (v_rx o' (hw d0)) (v_tx o' (hw d0)) d1" by auto
    with True m0 rs show thesis
      by (intro that [of v1 d1 s1]) (auto simp: d0_def moved_def)
  next
    case False
    with assms(6) rx m0 show thesis
      by (intro that [of v d s]) (auto simp: d0_def rx_events_def)
  qed
  have pre: "reg_map d1 = Some rm" "slave d1 = Some (cl\<lparr>client_data := s0\<rparr>)" "v_rx o' (hw d1) = b # bs"
    "length (b # bs) \<le> fuel"
    using m1 assms(2,5) rx by (simp_all add: moved_def)
  from rx_loop_run [OF assms(1) pre rest] obtain d' where
    d': "rx_loop fuel d1 = Some (v', d')" "moved o' cl d1 s' (dw_status d1) [] (v_tx o' (hw d1)) d'" by blast
  with m1 moved_trans [OF m1 d'(2)] show ?thesis
    by (auto simp: rx_full_part_def first moved_def)
qed

lemma rd_req_run:
  assumes "slave_port rm o'" and "reg_map d = Some rm" and "slave d = Some (cl\<lparr>client_data := s\<rparr>)"
    and "run_cb (slave_cb cl) [rd_event (dw_status d)] v s = Some (v', s')"
  shows "\<exists>d'. rd_req_part v d = Some (v', d')
    \<and> moved o' cl d s' (rd_status (dw_status d)) (v_rx o' (hw d)) (v_tx o' (hw d) @ [ucast v']) d'"
proof -
  let ?d1 = "reg_touch DW_IC_CLR_RD_REQ d"
  have c1: "calm o' d ?d1" by (rule slave_touch [OF assms(1,2)]) (simp add: dw_reg_defs)
  then have sl: "slave ?d1 = Some (cl\<lparr>client_data := s\<rparr>)" "dw_status ?d1 = dw_status d"
    using assms(3) by (simp_all add: calm_def same_client_def)
  obtain ev where ev: "rd_event (dw_status d) = (ev, None)"
    "ev = (if dw_status d AND STATUS_READ_IN_PROGRESS = 0 then I2C_SLAVE_READ_REQUESTED else I2C_SLAVE_READ_PROCESSED)"
    by (simp add: rd_event_def)
  from assms(4) ev obtain r where cb: "slave_cb cl ev v s = Some (r, v', s')"
    by (auto split: option.splits)
  from slave_event_moved [OF sl(1) cb, where o' = o'] obtain d2 where
    d2: "i2c_slave_event_fn ev v ?d1 = Some (v', d2)"
      "moved o' cl ?d1 s' (dw_status ?d1) (v_rx o' (hw ?d1)) (v_tx o' (hw ?d1)) d2" by blast
  have m2: "moved o' cl d s' (dw_status d) (v_rx o' (hw d)) (v_tx o' (hw d)) d2"
    using calm_moved [OF c1 d2(2)] c1 by (simp add: calm_def same_client_def)
  define d3 where "d3 = (if dw_status d AND STATUS_READ_IN_PROGRESS = 0
    then d2\<lparr>dw_status := (dw_status d2 OR STATUS_READ_IN_PROGRESS) AND NOT STATUS_WRITE_IN_PROGRESS\<rparr> else d2)"
  have part: "rd_req_part v d = Some (v', regmap_write DW_IC_DATA_CMD (ucast v') d3)"
    using d2(1) ev(2)
    by (cases "dw_status d AND STATUS_READ_IN_PROGRESS = 0") (simp_all add: rd_req_part_def Let_def sl(2) d3_def)
  have m3: "moved o' cl d s' (rd_status (dw_status d)) (v_rx o' (hw d)) (v_tx o' (hw d)) d3"
    using m2 by (simp add: d3_def rd_status_def moved_def)
  have law: "slave_write_law rm o' DW_IC_DATA_CMD (ucast v') (hw d3)" using assms(1) by (simp add: slave_port_def)
  have "moved o' cl d s' (rd_status (dw_status d)) (v_rx o' (hw d)) (v_tx o' (hw d) @ [ucast v'])
      (regmap_write DW_IC_DATA_CMD (ucast v') d3)"
    using m3 law assms(2) by (simp add: moved_def regmap_write_def slave_write_law_def Let_def dw_reg_defs)
  with part show ?thesis by blast
qed

definition rx_part :: "u32 \<Rightarrow> u32 \<Rightarrow> u8 list \<Rightarrow> (i2c_slave_event \<times> u8 option) list" where
  "rx_part stat st bytes = (if stat AND DW_IC_INTR_RX_FULL \<noteq> 0 then rx_events st bytes else [])"

definition after_rx :: "u32 \<Rightarrow> u32 \<Rightarrow> u32" where
  "after_rx stat st = (if stat AND DW_IC_INTR_RX_FULL \<noteq> 0 then rx_status st else st)"

definition rd_pending :: "u32 \<Rightarrow> bool \<Rightarrow> bool" where
  "rd_pending stat act \<longleftrightarrow> stat AND DW_IC_INTR_RD_REQ \<noteq> 0 \<and> act"

definition rd_part :: "u32 \<Rightarrow> bool \<Rightarrow> u32 \<Rightarrow> (i2c_slave_event \<times> u8 option) list" where
  "rd_part stat act st = (if rd_pending stat act then [rd_event (after_rx stat st)] else [])"

definition after_rd :: "u32 \<Rightarrow> bool \<Rightarrow> u32 \<Rightarrow> u32" where
  "after_rd stat act st = (if rd_pending stat act then rd_status (after_rx stat st) else after_rx stat st)"

definition stop_part :: "u32 \<Rightarrow> (i2c_slave_event \<times> u8 option) list" where
  "stop_part stat = (if stat AND DW_IC_INTR_STOP_DET \<noteq> 0 then [(I2C_SLAVE_STOP, None)] else [])"

lemma activity_bit: "(ucast (drop_bit 6 (w AND DW_IC_STATUS_SLAVE_ACTIVITY)) :: u8) = 0 \<longleftrightarrow> w AND DW_IC_STATUS_SLAVE_ACTIVITY = 0"
proof -
  have "bit (ucast (drop_bit 6 (w AND DW_IC_STATUS_SLAVE_ACTIVITY)) :: u8) n \<longleftrightarrow> n = 0 \<and> bit w 6" for n
    by (auto simp: DW_IC_STATUS_SLAVE_ACTIVITY_def bit_unsigned_iff bit_drop_bit_eq bit_and_iff bit_BIT)
  then have "(ucast (drop_bit 6 (w AND DW_IC_STATUS_SLAVE_ACTIVITY)) :: u8) = 0 \<longleftrightarrow> \<not> bit w 6"
    by (metis bit_0_eq bit_eqI bot_apply bot_bool_def)
  then show ?thesis by (simp add: DW_IC_STATUS_SLAVE_ACTIVITY_def and_BIT_eq_0)
qed

lemma slave_serve_run:
  assumes "slave_port rm o'" and "reg_map d = Some rm" and "slave d = Some (cl\<lparr>client_data := s\<rparr>)"
    and "stat AND DW_IC_INTR_RX_FULL \<noteq> 0 \<Longrightarrow> v_rx o' (hw d) \<noteq> []" and "length (v_rx o' (hw d)) \<le> fuel"
    and "run_cb (slave_cb cl) (rx_part stat (dw_status d) (v_rx o' (hw d)) @ rd_part stat (act \<noteq> 0) (dw_status d)) 0 s = Some (v2, s2)"
    and "run_cb (slave_cb cl) (stop_part stat) v2 s2 = Some (v3, s3)"
  shows "\<exists>d'. slave_serve fuel stat act d = Some d'
    \<and> moved o' cl d s3 (after_rd stat (act \<noteq> 0) (dw_status d))
        (if stat AND DW_IC_INTR_RX_FULL \<noteq> 0 then [] else v_rx o' (hw d))
        (v_tx o' (hw d) @ (if rd_pending stat (act \<noteq> 0) then [ucast v2] else [])) d'"
proof -
  let ?rx = "v_rx o' (hw d)" and ?tx = "v_tx o' (hw d)"
  let ?rx5 = "if stat AND DW_IC_INTR_RX_FULL \<noteq> 0 then [] else ?rx"
  let ?tx6 = "?tx @ (if rd_pending stat (act \<noteq> 0) then [ucast v2] else [])"
  note port = assms(1)
  obtain v1 s1 where run1: "run_cb (slave_cb cl) (rx_part stat (dw_status d) ?rx) 0 s = Some (v1, s1)"
    and run2: "run_cb (slave_cb cl) (rd_part stat (act \<noteq> 0) (dw_status d)) v1 s1 = Some (v2, s2)"
    using assms(6) by (auto simp: run_cb_append split: option.splits)
  obtain d5 where d5: "(if stat AND DW_IC_INTR_RX_FULL \<noteq> 0 then rx_full_part fuel 0 d else Some (0, d)) = Some (v1, d5)"
    and m5: "moved o' cl d s1 (after_rx stat (dw_status d)) ?rx5 ?tx d5"
  proof (cases "stat AND DW_IC_INTR_RX_FULL \<noteq> 0")
    case True
    then show thesis
      using rx_full_run [OF port assms(2,3), of fuel 0 v1 s1] run1 assms(4,5) that
      by (auto simp: after_rx_def rx_part_def)
  next
    case False
    then show thesis
      using run1 moved_refl [OF assms(3), of o'] by (intro that [of d]) (auto simp: rx_part_def after_rx_def)
  qed
  have at5: "reg_map d5 = Some rm" "slave d5 = Some (cl\<lparr>client_data := s1\<rparr>)" "dw_status d5 = after_rx stat (dw_status d)"
    "v_rx o' (hw d5) = ?rx5" "v_tx o' (hw d5) = ?tx"
    using m5 assms(2) by (simp_all add: moved_def)
  obtain d6 where d6: "(if stat AND DW_IC_INTR_RD_REQ \<noteq> 0 then (if act \<noteq> 0 then rd_req_part v1 d5 else Some (v1, d5)) else Some (v1, d5)) = Some (v2, d6)"
    and m6: "moved o' cl d5 s2 (after_rd stat (act \<noteq> 0) (dw_status d)) ?rx5 ?tx6 d6"
  proof (cases "rd_pending stat (act \<noteq> 0)")
    case True
    then have "run_cb (slave_cb cl) [rd_event (dw_status d5)] v1 s1 = Some (v2, s2)"
      using run2 by (simp add: rd_part_def at5(3))
    from rd_req_run [OF port at5(1,2) this] True that show thesis
      unfolding at5 after_rd_def by (auto simp: rd_pending_def)
  next
    case False
    then show thesis
      using run2 moved_refl [OF at5(2), of o'] by (intro that [of d5]) (auto simp: rd_part_def after_rd_def at5 rd_pending_def)
  qed
  have m6': "moved o' cl d s2 (after_rd stat (act \<noteq> 0) (dw_status d)) ?rx5 ?tx6 d6"
    by (rule moved_trans [OF m5 m6])
  obtain d7 where d7: "(if stat AND DW_IC_INTR_STOP_DET \<noteq> 0 then map_option snd (i2c_slave_event_fn I2C_SLAVE_STOP v2 d6) else Some d6) = Some d7"
    and m7: "moved o' cl d s3 (after_rd stat (act \<noteq> 0) (dw_status d)) ?rx5 ?tx6 d7"
  proof (cases "stat AND DW_IC_INTR_STOP_DET \<noteq> 0")
    case True
    with assms(7) obtain r where cb: "slave_cb cl I2C_SLAVE_STOP v2 s2 = Some (r, v3, s3)"
      by (auto simp: stop_part_def split: option.splits)
    have sl6: "slave d6 = Some (cl\<lparr>client_data := s2\<rparr>)" using m6 by (simp add: moved_def)
    have at6: "dw_status d6 = after_rd stat (act \<noteq> 0) (dw_status d)" "v_rx o' (hw d6) = ?rx5" "v_tx o' (hw d6) = ?tx6"
      using m6' unfolding moved_def by blast+
    from slave_event_moved [OF sl6 cb, where o' = o'] obtain d7 where
      e7: "i2c_slave_event_fn I2C_SLAVE_STOP v2 d6 = Some (v3, d7)"
      and m7: "moved o' cl d6 s3 (after_rd stat (act \<noteq> 0) (dw_status d)) ?rx5 ?tx6 d7" unfolding at6 by blast
    have "map_option snd (i2c_slave_event_fn I2C_SLAVE_STOP v2 d6) = Some d7" by (simp add: e7)
    with True show thesis by (intro that [OF _ moved_trans [OF m6' m7]]) simp
  next
    case False
    with assms(7) m6' show thesis by (intro that [of d6]) (auto simp: stop_part_def)
  qed
  have "slave_serve fuel stat act d = Some d7"
    unfolding slave_serve_def d5 option.case prod.case d6 d7 ..
  with m7 show ?thesis by blast
qed

lemma slave_handler_run:
  assumes "slave_port rm o'" and "reg_map d = Some rm" and "slave d = Some (cl\<lparr>client_data := s\<rparr>)"
    and "v_on o' (hw d)" and "v_stat o' (hw d) AND NOT DW_IC_INTR_ACTIVITY \<noteq> 0"
    and "v_stat o' (hw d) AND DW_IC_INTR_RX_FULL \<noteq> 0 \<Longrightarrow> v_rx o' (hw d) \<noteq> []"
    and "length (v_rx o' (hw d)) \<le> fuel"
    and "run_cb (slave_cb cl) (rx_part (v_stat o' (hw d)) (dw_status d) (v_rx o' (hw d))
            @ rd_part (v_stat o' (hw d)) (v_act o' (hw d)) (dw_status d)) 0 s = Some (v2, s2)"
    and "run_cb (slave_cb cl) (stop_part (v_stat o' (hw d))) v2 s2 = Some (v3, s3)"
  shows "\<exists>d'. i2c_dw_irq_handler_slave fuel d = Some (True, d')
    \<and> moved o' cl d s3 (after_rd (v_stat o' (hw d)) (v_act o' (hw d)) (dw_status d))
        (if v_stat o' (hw d) AND DW_IC_INTR_RX_FULL \<noteq> 0 then [] else v_rx o' (hw d))
        (v_tx o' (hw d) @ (if rd_pending (v_stat o' (hw d)) (v_act o' (hw d)) then [ucast v2] else [])) d'"
proof -
  let ?stat = "v_stat o' (hw d)" and ?act = "v_act o' (hw d)"
  note port = assms(1)
  obtain en d1 where d1: "reg_value DW_IC_ENABLE d = (en, d1)" by (cases "reg_value DW_IC_ENABLE d")
  have c1: "calm o' d d1" by (rule slave_read [OF port assms(2) d1]) (simp add: dw_reg_defs)
  have s1: "v_stat o' (hw d1) = ?stat" by (rule slave_read_stat [OF port assms(2) d1]) simp
  have en: "en \<noteq> 0" using slave_read_value(4) [OF port assms(2) d1 refl] assms(4) by simp
  have map1: "reg_map d1 = Some rm" using calm_map [OF c1] assms(2) by simp
  obtain raw d2 where d2: "reg_value DW_IC_RAW_INTR_STAT d1 = (raw, d2)" by (cases "reg_value DW_IC_RAW_INTR_STAT d1")
  have c2: "calm o' d1 d2" by (rule slave_read [OF port map1 d2]) (simp add: dw_reg_defs)
  have s2: "v_stat o' (hw d2) = ?stat" using slave_read_stat [OF port map1 d2] s1 by simp
  have raw: "raw AND NOT DW_IC_INTR_ACTIVITY \<noteq> 0"
    by (rule slave_read_value(5) [OF port map1 d2 refl]) (simp add: s1 assms(5))
  have map2: "reg_map d2 = Some rm" using calm_map [OF c2] map1 by simp
  obtain tmp d3 where d3: "reg_value DW_IC_STATUS d2 = (tmp, d3)" by (cases "reg_value DW_IC_STATUS d2")
  have c3: "calm o' d2 d3" by (rule slave_read [OF port map2 d3]) (simp add: dw_reg_defs)
  have s3: "v_stat o' (hw d3) = ?stat" using slave_read_stat [OF port map2 d3] s2 by simp
  have map3: "reg_map d3 = Some rm" using calm_map [OF c3] map2 by simp
  have c03: "calm o' d d3" by (rule calm_trans [OF calm_trans [OF c1 c2] c3])
  have act: "(ucast (drop_bit 6 (tmp AND DW_IC_STATUS_SLAVE_ACTIVITY)) :: u8) \<noteq> 0 \<longleftrightarrow> ?act"
    using slave_read_value(2) [OF port map2 d3 refl] calm_trans [OF c1 c2] unfolding activity_bit by (simp add: calm_def)
  obtain d4 where d4: "i2c_dw_read_clear_intrbits_slave d3 = (?stat, d4)" and c34: "calm o' d3 d4"
    using read_clear_calm [OF port map3] s3 by (cases "i2c_dw_read_clear_intrbits_slave d3") auto
  have c4: "calm o' d d4" by (rule calm_trans [OF c03 c34])
  have at4: "reg_map d4 = Some rm" "slave d4 = Some (cl\<lparr>client_data := s\<rparr>)" "dw_status d4 = dw_status d"
    "v_rx o' (hw d4) = v_rx o' (hw d)" "v_tx o' (hw d4) = v_tx o' (hw d)"
    using c4 assms(2,3) by (simp_all add: calm_def same_client_def)
  obtain d' where d': "slave_serve fuel ?stat (ucast (drop_bit 6 (tmp AND DW_IC_STATUS_SLAVE_ACTIVITY))) d4 = Some d'"
    and m': "moved o' cl d4 s3 (after_rd ?stat ?act (dw_status d))
        (if ?stat AND DW_IC_INTR_RX_FULL \<noteq> 0 then [] else v_rx o' (hw d))
        (v_tx o' (hw d) @ (if rd_pending ?stat ?act then [ucast v2] else [])) d'"
    using slave_serve_run [OF port at4(1,2), of ?stat fuel "ucast (drop_bit 6 (tmp AND DW_IC_STATUS_SLAVE_ACTIVITY))" v2 s2 v3 s3]
      assms(6-9) unfolding act at4 by blast
  have sl3: "slave d3 \<noteq> None" using c03 assms(3) by (simp add: calm_def same_client_def)
  have "i2c_dw_irq_handler_slave fuel d = Some (True, d')"
    unfolding i2c_dw_irq_handler_slave_def d1 d2 d3 prod.case d4 d'
    using en raw sl3 by (simp only: simp_thms if_False option.map)
  with calm_moved [OF c4 m'] show ?thesis by blast
qed

section \<open>Backends that never fault\<close>

text \<open>What the handler needs of a backend: in every state that its invariant allows, the callback
  returns, and the invariant holds again.\<close>

locale slave_backend =
  fixes cb :: "i2c_slave_event \<Rightarrow> u8 \<Rightarrow> 's \<Rightarrow> (int \<times> u8 \<times> 's) option"
    and inv :: "'s \<Rightarrow> bool"
  assumes cb_total: "inv s \<Longrightarrow> \<exists>r v' s'. cb ev v s = Some (r, v', s') \<and> inv s'"
begin

lemma run_total:
  "inv s \<Longrightarrow> \<exists>v' s'. run_cb cb evs v s = Some (v', s') \<and> inv s'"
proof (induction evs arbitrary: v s)
  case Nil
  then show ?case by simp
next
  case (Cons x evs)
  obtain ev w where x: "x = (ev, w)" by (cases x)
  from cb_total [OF Cons.prems, of ev "case w of None \<Rightarrow> v | Some b \<Rightarrow> b"] obtain r v1 s1 where
    "cb ev (case w of None \<Rightarrow> v | Some b \<Rightarrow> b) s = Some (r, v1, s1)" "inv s1" by blast
  with Cons.IH [of s1 v1] show ?case by (simp add: x)
qed

lemma handler_total:
  assumes "slave_port rm o'" and "reg_map d = Some rm" and "slave d = Some cl" and "slave_cb cl = cb"
    and "inv (client_data cl)" and "v_on o' (hw d)" and "v_stat o' (hw d) AND NOT DW_IC_INTR_ACTIVITY \<noteq> 0"
    and "v_stat o' (hw d) AND DW_IC_INTR_RX_FULL \<noteq> 0 \<Longrightarrow> v_rx o' (hw d) \<noteq> []"
    and "length (v_rx o' (hw d)) \<le> fuel"
  shows "\<exists>d' s'. i2c_dw_irq_handler_slave fuel d = Some (True, d') \<and> slave d' = Some (cl\<lparr>client_data := s'\<rparr>) \<and> inv s'"
proof -
  have sl: "slave d = Some (cl\<lparr>client_data := client_data cl\<rparr>)" using assms(3) by simp
  obtain v2 s2 where r1: "run_cb (slave_cb cl) (rx_part (v_stat o' (hw d)) (dw_status d) (v_rx o' (hw d))
            @ rd_part (v_stat o' (hw d)) (v_act o' (hw d)) (dw_status d)) 0 (client_data cl) = Some (v2, s2)" "inv s2"
    using run_total [OF assms(5)] assms(4) by blast
  obtain v3 s3 where r2: "run_cb (slave_cb cl) (stop_part (v_stat o' (hw d))) v2 s2 = Some (v3, s3)" "inv s3"
    using run_total [OF r1(2)] assms(4) by blast
  from slave_handler_run [OF assms(1,2) sl assms(6-9) r1(1) r2(1)] r2(2)
  show ?thesis unfolding moved_def by blast
qed

end

interpretation eb: slave_backend i2c_slave_eeprom_slave_cb eeprom_inv
  by unfold_locales (use cb_step in blast)

section \<open>Sequences of interrupts\<close>

text \<open>Before each interrupt the world moves on: bytes arrive, interrupt bits change.\<close>

fun slave_run :: "nat \<Rightarrow> ('b \<Rightarrow> 'b) list \<Rightarrow> ('b, 's) dw_i2c_dev \<Rightarrow> ('b, 's) dw_i2c_dev option" where
  "slave_run fuel [] d = Some d"
| "slave_run fuel (f # fs) d =
     (case i2c_dw_isr_slave fuel (d\<lparr>hw := f (hw d)\<rparr>) of
        None \<Rightarrow> None
      | Some (_, d') \<Rightarrow> slave_run fuel fs d')"

text \<open>A move that makes \<open>stat\<close> pending, with the master addressing the slave or not, after \<open>bytes\<close> were received.\<close>

definition feeds :: "'b slave_view \<Rightarrow> ('b \<Rightarrow> 'b) \<Rightarrow> u32 \<times> u8 list \<Rightarrow> bool" where
  "feeds o' f x \<longleftrightarrow> (\<forall>h. v_on o' (f h) = v_on o' h \<and> v_stat o' (f h) = fst x \<and> v_act o' (f h)
     \<and> v_rx o' (f h) = v_rx o' h @ snd x \<and> v_tx o' (f h) = v_tx o' h)"

definition ready :: "'b regmap \<Rightarrow> 'b slave_view \<Rightarrow> 's i2c_client \<Rightarrow> 's \<Rightarrow> u32 \<Rightarrow> u32 list \<Rightarrow> ('b, 's) dw_i2c_dev \<Rightarrow> bool" where
  "ready rm o' cl s st tx d \<longleftrightarrow> reg_map d = Some rm \<and> slave d = Some (cl\<lparr>client_data := s\<rparr>) \<and> dw_status d = st
     \<and> v_on o' (hw d) \<and> v_rx o' (hw d) = [] \<and> v_tx o' (hw d) = tx"

lemma slave_run_append:
  "slave_run fuel (fs @ gs) d = (case slave_run fuel fs d of None \<Rightarrow> None | Some d' \<Rightarrow> slave_run fuel gs d')"
  by (induction fs arbitrary: d) (auto split: option.splits prod.splits)

lemma isr_step:
  assumes "slave_port rm o'" and "ready rm o' cl s st tx d" and "feeds o' f (stat, bytes)"
    and "stat AND NOT DW_IC_INTR_ACTIVITY \<noteq> 0" and "stat AND DW_IC_INTR_RX_FULL \<noteq> 0 \<longleftrightarrow> bytes \<noteq> []"
    and "length bytes \<le> fuel"
    and "run_cb (slave_cb cl) (rx_part stat st bytes @ rd_part stat True st) 0 s = Some (v2, s2)"
    and "run_cb (slave_cb cl) (stop_part stat) v2 s2 = Some (v3, s3)"
  shows "\<exists>d'. slave_run fuel [f] d = Some d' \<and>
    ready rm o' cl s3 (after_rd stat True st) (tx @ (if rd_pending stat True then [ucast v2] else [])) d'"
proof -
  let ?d = "d\<lparr>hw := f (hw d)\<rparr>"
  have pre: "reg_map ?d = Some rm" "slave ?d = Some (cl\<lparr>client_data := s\<rparr>)" "dw_status ?d = st" "v_on o' (hw ?d)"
    "v_stat o' (hw ?d) = stat" "v_act o' (hw ?d)" "v_rx o' (hw ?d) = bytes" "v_tx o' (hw ?d) = tx"
    using assms(2,3) by (simp_all add: ready_def feeds_def)
  have act: "v_act o' (hw ?d) = True" using pre(6) by simp
  from slave_handler_run [OF assms(1) pre(1,2,4), of fuel v2 s2 v3 s3, unfolded pre(3,5,7,8) act] assms(4-8)
  obtain d' where "i2c_dw_irq_handler_slave fuel ?d = Some (True, d')"
    and "moved o' cl ?d s3 (after_rd stat True st) (if stat AND DW_IC_INTR_RX_FULL \<noteq> 0 then [] else bytes)
        (tx @ (if rd_pending stat True then [ucast v2] else [])) d'" by auto
  with pre assms(5) show ?thesis by (auto simp: i2c_dw_isr_slave_def moved_def ready_def)
qed

section \<open>The EEPROM behind the controller\<close>

abbreviation eeprom_cb :: "i2c_slave_event \<Rightarrow> u8 \<Rightarrow> eeprom_data \<Rightarrow> (int \<times> u8 \<times> eeprom_data) option" where
  "eeprom_cb \<equiv> i2c_slave_eeprom_slave_cb"

lemma run_received:
  "put_all send_byte bs e = Some e' \<Longrightarrow>
   \<exists>v'. run_cb eeprom_cb (map (\<lambda>b. (I2C_SLAVE_WRITE_RECEIVED, Some b)) bs) v e = Some (v', e')"
proof (induction bs arbitrary: v e)
  case Nil
  then show ?case by simp
next
  case (Cons b bs)
  then obtain e1 where sb: "send_byte b e = Some e1" and rest: "put_all send_byte bs e1 = Some e'"
    by (auto split: option.splits)
  from sb obtain r v1 where "eeprom_cb I2C_SLAVE_WRITE_RECEIVED b e = Some (r, v1, e1)"
    by (auto simp: send_byte_def simp del: i2c_slave_eeprom_slave_cb.simps)
  with Cons.IH [OF rest, of v1] show ?case by (simp del: i2c_slave_eeprom_slave_cb.simps)
qed

lemma run_rx_events:
  assumes "put_all send_byte bs e = Some e'" and "st AND STATUS_WRITE_IN_PROGRESS \<noteq> 0 \<or> idx_write_cnt e = 0"
  shows "\<exists>v'. run_cb eeprom_cb (rx_events st bs) v e = Some (v', e')"
proof -
  have eq: "e\<lparr>idx_write_cnt := 0\<rparr> = e" if "idx_write_cnt e = 0" using that by simp
  from run_received [OF assms(1), of v] assms(2) show ?thesis
    by (cases "st AND STATUS_WRITE_IN_PROGRESS = 0") (simp_all add: rx_events_def eq)
qed

lemma run_read_requested:
  "read_requested e = Some (b, e') \<Longrightarrow> run_cb eeprom_cb [(I2C_SLAVE_READ_REQUESTED, None)] v e = Some (b, e')"
  by (auto simp: read_requested_def split: option.splits)

lemma run_read_processed:
  "read_processed e = Some (b, e') \<Longrightarrow> run_cb eeprom_cb [(I2C_SLAVE_READ_PROCESSED, None)] v e = Some (b, e')"
  by (auto simp: read_processed_def Let_def split: option.splits)

definition driver_state :: "u32 \<Rightarrow> bool" where
  "driver_state st \<longleftrightarrow> st \<in> {STATUS_IDLE, STATUS_WRITE_IN_PROGRESS, STATUS_READ_IN_PROGRESS}"

lemma driver_state_simps:
  "driver_state st \<Longrightarrow> rx_status st = STATUS_WRITE_IN_PROGRESS"
  "driver_state st \<Longrightarrow> rd_status st = STATUS_READ_IN_PROGRESS"
  "driver_state STATUS_WRITE_IN_PROGRESS" "driver_state STATUS_READ_IN_PROGRESS"
  by (auto simp: driver_state_def rx_status_def rd_status_def STATUS_IDLE_def STATUS_WRITE_IN_PROGRESS_def
      STATUS_READ_IN_PROGRESS_def)

lemma intr_bits:
  "DW_IC_INTR_RX_FULL \<noteq> 0" "DW_IC_INTR_RX_FULL AND DW_IC_INTR_RD_REQ = 0"
  "DW_IC_INTR_RX_FULL AND DW_IC_INTR_STOP_DET = 0" "DW_IC_INTR_RX_FULL AND NOT DW_IC_INTR_ACTIVITY \<noteq> 0"
  "DW_IC_INTR_RD_REQ AND DW_IC_INTR_RX_FULL = 0" "DW_IC_INTR_RD_REQ \<noteq> 0"
  "DW_IC_INTR_RD_REQ AND DW_IC_INTR_STOP_DET = 0" "DW_IC_INTR_RD_REQ AND NOT DW_IC_INTR_ACTIVITY \<noteq> 0"
  "DW_IC_INTR_STOP_DET AND DW_IC_INTR_RX_FULL = 0" "DW_IC_INTR_STOP_DET AND DW_IC_INTR_RD_REQ = 0"
  "DW_IC_INTR_STOP_DET \<noteq> 0" "DW_IC_INTR_STOP_DET AND NOT DW_IC_INTR_ACTIVITY \<noteq> 0"
  by (simp_all add: DW_IC_INTR_RX_FULL_def DW_IC_INTR_RD_REQ_def DW_IC_INTR_STOP_DET_def DW_IC_INTR_ACTIVITY_def)

lemmas irq_part_defs = rx_part_def rd_part_def stop_part_def after_rx_def after_rd_def rd_pending_def

lemma chunk_step:
  assumes "slave_port rm o'" and "ready rm o' cl e st tx d" and "slave_cb cl = eeprom_cb" and "driver_state st"
    and "st = STATUS_WRITE_IN_PROGRESS \<or> idx_write_cnt e = 0" and "bs \<noteq> []" and "length bs \<le> fuel"
    and "feeds o' f (DW_IC_INTR_RX_FULL, bs)" and "put_all send_byte bs e = Some e'"
  shows "\<exists>d'. slave_run fuel [f] d = Some d' \<and> ready rm o' cl e' STATUS_WRITE_IN_PROGRESS tx d'"
proof -
  have "st AND STATUS_WRITE_IN_PROGRESS \<noteq> 0 \<or> idx_write_cnt e = 0"
    using assms(5) by (auto simp: STATUS_WRITE_IN_PROGRESS_def)
  from run_rx_events [OF assms(9) this, of 0] obtain v' where
    r: "run_cb (slave_cb cl) (rx_part DW_IC_INTR_RX_FULL st bs @ rd_part DW_IC_INTR_RX_FULL True st) 0 e = Some (v', e')"
    by (auto simp: irq_part_defs intr_bits assms(3))
  have q: "run_cb (slave_cb cl) (stop_part DW_IC_INTR_RX_FULL) v' e' = Some (v', e')"
    by (simp add: irq_part_defs intr_bits)
  from isr_step [OF assms(1,2,8) _ _ assms(7) r q] assms(4,6) show ?thesis
    by (simp add: irq_part_defs intr_bits driver_state_simps)
qed

lemma put_all_append:
  "put_all g (xs @ ys) s = Option.bind (put_all g xs s) (put_all g ys)"
  by (induction xs arbitrary: s) (auto split: option.splits)

lemma chunks_run:
  assumes "slave_port rm o'" and "ready rm o' cl e st tx d" and "slave_cb cl = eeprom_cb" and "driver_state st"
    and "st = STATUS_WRITE_IN_PROGRESS \<or> idx_write_cnt e = 0" and "\<forall>c \<in> set cs. c \<noteq> [] \<and> length c \<le> fuel" and "cs \<noteq> []"
    and "list_all2 (feeds o') fs (map (Pair DW_IC_INTR_RX_FULL) cs)" and "put_all send_byte (concat cs) e = Some e'"
  shows "\<exists>d'. slave_run fuel fs d = Some d' \<and> ready rm o' cl e' STATUS_WRITE_IN_PROGRESS tx d'"
  using assms(2,4-9)
proof (induction cs arbitrary: fs d e st)
  case Nil
  then show ?case by simp
next
  case (Cons c cs)
  obtain f fs' where fs: "fs = f # fs'" and f: "feeds o' f (DW_IC_INTR_RX_FULL, c)"
    and fs': "list_all2 (feeds o') fs' (map (Pair DW_IC_INTR_RX_FULL) cs)"
    using Cons.prems(6) by (auto simp: list_all2_Cons2)
  obtain e1 where e1: "put_all send_byte c e = Some e1" and rest: "put_all send_byte (concat cs) e1 = Some e'"
    using Cons.prems(7) by (auto simp: put_all_append bind_eq_Some_conv)
  have c: "c \<noteq> []" "length c \<le> fuel" using Cons.prems(4) by simp_all
  from chunk_step [OF assms(1) Cons.prems(1) assms(3) Cons.prems(2,3) c f e1] obtain d1 where
    d1: "slave_run fuel [f] d = Some d1" "ready rm o' cl e1 STATUS_WRITE_IN_PROGRESS tx d1" by blast
  show ?case
  proof (cases "cs = []")
    case True
    with d1 rest fs fs' show ?thesis by auto
  next
    case False
    from Cons.IH [OF d1(2) driver_state_simps(3) disjI1 [OF refl] _ False fs' rest] Cons.prems(4) obtain d' where
      "slave_run fuel fs' d1 = Some d'" "ready rm o' cl e' STATUS_WRITE_IN_PROGRESS tx d'" by auto
    then show ?thesis using d1(1) slave_run_append [of fuel "[f]" fs' d] fs by auto
  qed
qed

lemma stop_step:
  assumes "slave_port rm o'" and "ready rm o' cl e st tx d" and "slave_cb cl = eeprom_cb"
    and "feeds o' f (DW_IC_INTR_STOP_DET, [])"
  shows "\<exists>d'. slave_run fuel [f] d = Some d' \<and> ready rm o' cl (e\<lparr>idx_write_cnt := 0\<rparr>) st tx d'"
proof -
  have r: "run_cb (slave_cb cl) (rx_part DW_IC_INTR_STOP_DET st [] @ rd_part DW_IC_INTR_STOP_DET True st) 0 e = Some (0, e)"
    by (simp add: irq_part_defs intr_bits)
  have q: "run_cb (slave_cb cl) (stop_part DW_IC_INTR_STOP_DET) 0 e = Some (0, e\<lparr>idx_write_cnt := 0\<rparr>)"
    by (simp add: irq_part_defs intr_bits assms(3))
  from isr_step [OF assms(1,2,4) _ _ _ r q] show ?thesis by (simp add: irq_part_defs intr_bits)
qed

lemma read_step:
  assumes "slave_port rm o'" and "ready rm o' cl e st tx d" and "slave_cb cl = eeprom_cb" and "driver_state st"
    and "feeds o' f (DW_IC_INTR_RD_REQ, [])"
    and "(if st = STATUS_READ_IN_PROGRESS then read_processed e else read_requested e) = Some (b, e')"
  shows "\<exists>d'. slave_run fuel [f] d = Some d' \<and> ready rm o' cl e' STATUS_READ_IN_PROGRESS (tx @ [ucast b]) d'"
proof -
  have ev: "rd_event st = (if st = STATUS_READ_IN_PROGRESS then I2C_SLAVE_READ_PROCESSED else I2C_SLAVE_READ_REQUESTED, None)"
    using assms(4) by (auto simp: driver_state_def rd_event_def STATUS_IDLE_def STATUS_WRITE_IN_PROGRESS_def STATUS_READ_IN_PROGRESS_def)
  have "run_cb eeprom_cb [rd_event st] 0 e = Some (b, e')"
  proof (cases "st = STATUS_READ_IN_PROGRESS")
    case True
    with ev have "rd_event st = (I2C_SLAVE_READ_PROCESSED, None)" by simp
    moreover have "read_processed e = Some (b, e')" using assms(6) True by simp
    ultimately show ?thesis by (simp only: run_read_processed)
  next
    case False
    with ev have "rd_event st = (I2C_SLAVE_READ_REQUESTED, None)" by simp
    moreover have "read_requested e = Some (b, e')" using assms(6) False by simp
    ultimately show ?thesis by (simp only: run_read_requested)
  qed
  then have r: "run_cb (slave_cb cl) (rx_part DW_IC_INTR_RD_REQ st [] @ rd_part DW_IC_INTR_RD_REQ True st) 0 e = Some (b, e')"
    by (simp add: irq_part_defs intr_bits assms(3))
  have q: "run_cb (slave_cb cl) (stop_part DW_IC_INTR_RD_REQ) b e' = Some (b, e')"
    by (simp add: irq_part_defs intr_bits)
  from isr_step [OF assms(1,2,5) _ _ _ r q] assms(4) show ?thesis
    by (simp add: irq_part_defs intr_bits driver_state_simps)
qed

lemma reads_run:
  assumes "slave_port rm o'" and "ready rm o' cl e STATUS_READ_IN_PROGRESS tx d" and "slave_cb cl = eeprom_cb"
    and "list_all2 (feeds o') fs (replicate n (DW_IC_INTR_RD_REQ, []))" and "get_all read_processed n e = Some (bs, e')"
  shows "\<exists>d'. slave_run fuel fs d = Some d' \<and> ready rm o' cl e' STATUS_READ_IN_PROGRESS (tx @ map ucast bs) d'"
  using assms(2,4,5)
proof (induction n arbitrary: fs d e tx bs)
  case 0
  then show ?case by simp
next
  case (Suc n)
  obtain f fs' where fs: "fs = f # fs'" and f: "feeds o' f (DW_IC_INTR_RD_REQ, [])"
    and fs': "list_all2 (feeds o') fs' (replicate n (DW_IC_INTR_RD_REQ, []))"
    using Suc.prems(2) by (auto simp: list_all2_Cons2)
  obtain b e1 bs' where b: "read_processed e = Some (b, e1)" "get_all read_processed n e1 = Some (bs', e')" "bs = b # bs'"
    using Suc.prems(3) by (auto split: option.splits prod.splits)
  from read_step [OF assms(1) Suc.prems(1) assms(3) driver_state_simps(4) f, of b e1] b(1) obtain d1 where
    d1: "slave_run fuel [f] d = Some d1" "ready rm o' cl e1 STATUS_READ_IN_PROGRESS (tx @ [ucast b]) d1" by auto
  from Suc.IH [OF d1(2) fs' b(2)] d1(1) slave_run_append [of fuel "[f]" fs' d] show ?case
    by (auto simp: fs b(3))
qed

lemma read_requested_cnt:
  "read_requested e = Some (b, e') \<Longrightarrow> read_requested (e\<lparr>idx_write_cnt := k\<rparr>) = Some (b, e'\<lparr>idx_write_cnt := k\<rparr>)"
  by (auto simp: read_requested_def buffer_read_def Let_def split: option.splits if_splits)

lemma cnt_idx_order: "e\<lparr>idx_write_cnt := k, buffer_idx := i\<rparr> = e\<lparr>buffer_idx := i, idx_write_cnt := k\<rparr>"
  by simp

lemma read_processed_cnt:
  "read_processed e = Some (b, e') \<Longrightarrow> read_processed (e\<lparr>idx_write_cnt := k\<rparr>) = Some (b, e'\<lparr>idx_write_cnt := k\<rparr>)"
  by (auto simp: read_processed_def buffer_read_def Let_def split: option.splits if_splits)

lemma get_all_cnt:
  "get_all read_processed n e = Some (bs, e') \<Longrightarrow>
   get_all read_processed n (e\<lparr>idx_write_cnt := k\<rparr>) = Some (bs, e'\<lparr>idx_write_cnt := k\<rparr>)"
proof (induction n arbitrary: e bs)
  case 0
  then show ?case by simp
next
  case (Suc n)
  obtain b e1 bs' where b: "read_processed e = Some (b, e1)" "get_all read_processed n e1 = Some (bs', e')" "bs = b # bs'"
    using Suc.prems by (auto split: option.splits prod.splits)
  with Suc.IH [OF b(2)] read_processed_cnt [OF b(1), of k] show ?case by simp
qed

lemma stop_of_quiet: "quiet_event I2C_SLAVE_STOP e = Some (e\<lparr>idx_write_cnt := 0\<rparr>)"
  by (simp add: quiet_event_def)

lemma transfers_of_roundtrip:
  assumes "eeprom_inv e" and "mask_pow2 e" and "\<not> read_only e" and "addr \<noteq> []" and "idx_write_cnt e = 0"
    and "length addr = unat (num_address_bytes e)" and "data \<noteq> []" and "length data \<le> length (buffer e)"
  obtains ew ea b ef bs eg where "put_all send_byte (addr @ data) e = Some ew"
    and "put_all send_byte addr (ew\<lparr>idx_write_cnt := 0\<rparr>) = Some ea"
    and "read_requested ea = Some (b, ef)" and "get_all read_processed (length data - 1) ef = Some (bs, eg)"
    and "data = b # bs"
proof -
  from write_then_read [OF assms(1-4,6-8)] obtain e1 e2 e3 where
    w: "bus_write addr data e = Some e1" "bus_write addr [] e1 = Some e2" "bus_read (length data - 1) e2 = Some (data, e3)"
    by blast
  have start: "quiet_event I2C_SLAVE_WRITE_REQUESTED x = Some x" if "idx_write_cnt x = 0" for x
    using that by (simp add: quiet_event_def)
  obtain ew where ew: "put_all send_byte (addr @ data) e = Some ew" "e1 = ew\<lparr>idx_write_cnt := 0\<rparr>"
    using w(1) start [OF assms(5)] by (auto simp: bus_write_def stop_of_quiet put_all_append bind_eq_Some_conv)
  obtain ea where ea: "put_all send_byte addr e1 = Some ea" "e2 = ea\<lparr>idx_write_cnt := 0\<rparr>"
    using w(2) start [of e1] ew(2) by (auto simp: bus_write_def stop_of_quiet bind_eq_Some_conv)
  obtain b ef bs eg where rd: "read_requested e2 = Some (b, ef)" "get_all read_processed (length data - 1) ef = Some (bs, eg)"
    "data = b # bs"
    using w(3) by (auto simp: bus_read_def stop_of_quiet bind_eq_Some_conv)
  have ea2: "ea = e2\<lparr>idx_write_cnt := idx_write_cnt ea\<rparr>" by (simp add: ea(2))
  have r1: "read_requested ea = Some (b, ef\<lparr>idx_write_cnt := idx_write_cnt ea\<rparr>)"
    by (subst ea2) (rule read_requested_cnt [OF rd(1)])
  show thesis
    by (rule that [OF ew(1) ea(1) [unfolded ew(2)] r1 get_all_cnt [OF rd(2)] rd(3)])
qed

text \<open>The interrupts of the two transfers, part by part.\<close>

lemma split_interrupts:
  assumes "list_all2 (feeds o') moves
           (map (Pair DW_IC_INTR_RX_FULL) wbursts @ [(DW_IC_INTR_STOP_DET, [])] @ map (Pair DW_IC_INTR_RX_FULL) abursts
             @ replicate (Suc n) (DW_IC_INTR_RD_REQ, []) @ [(DW_IC_INTR_STOP_DET, [])])"
  obtains m1 m2 m3 m4 m5 m6 where "moves = m1 @ [m2] @ m3 @ [m4] @ m5 @ [m6]"
    and "list_all2 (feeds o') m1 (map (Pair DW_IC_INTR_RX_FULL) wbursts)" and "feeds o' m2 (DW_IC_INTR_STOP_DET, [])"
    and "list_all2 (feeds o') m3 (map (Pair DW_IC_INTR_RX_FULL) abursts)" and "feeds o' m4 (DW_IC_INTR_RD_REQ, [])"
    and "list_all2 (feeds o') m5 (replicate n (DW_IC_INTR_RD_REQ, []))" and "feeds o' m6 (DW_IC_INTR_STOP_DET, [])"
proof -
  obtain m1 r1 where m1: "moves = m1 @ r1" "list_all2 (feeds o') m1 (map (Pair DW_IC_INTR_RX_FULL) wbursts)"
    and r1: "list_all2 (feeds o') r1 ([(DW_IC_INTR_STOP_DET, [])] @ map (Pair DW_IC_INTR_RX_FULL) abursts
             @ replicate (Suc n) (DW_IC_INTR_RD_REQ, []) @ [(DW_IC_INTR_STOP_DET, [])])"
    by (rule list_all2_splitE [OF assms])
  obtain m2 r2 where m2: "r1 = m2 # r2" "feeds o' m2 (DW_IC_INTR_STOP_DET, [])"
    and r2: "list_all2 (feeds o') r2 (map (Pair DW_IC_INTR_RX_FULL) abursts
             @ replicate (Suc n) (DW_IC_INTR_RD_REQ, []) @ [(DW_IC_INTR_STOP_DET, [])])"
    by (rule list_all2_headE [OF r1 [unfolded append_Cons append_Nil]])
  obtain m3 r3 where m3: "r2 = m3 @ r3" "list_all2 (feeds o') m3 (map (Pair DW_IC_INTR_RX_FULL) abursts)"
    and r3: "list_all2 (feeds o') r3 (replicate (Suc n) (DW_IC_INTR_RD_REQ, []) @ [(DW_IC_INTR_STOP_DET, [])])"
    by (rule list_all2_splitE [OF r2])
  obtain m4 r4 where m4: "r3 = m4 # r4" "feeds o' m4 (DW_IC_INTR_RD_REQ, [])"
    and r4: "list_all2 (feeds o') r4 (replicate n (DW_IC_INTR_RD_REQ, []) @ [(DW_IC_INTR_STOP_DET, [])])"
    by (rule list_all2_headE [OF r3 [unfolded replicate_Suc append_Cons]])
  obtain m5 r5 where m5: "r4 = m5 @ r5" "list_all2 (feeds o') m5 (replicate n (DW_IC_INTR_RD_REQ, []))"
    and l5: "list_all2 (feeds o') r5 [(DW_IC_INTR_STOP_DET, [])]"
    by (rule list_all2_splitE [OF r4])
  obtain m6 where r5: "r5 = [m6]" and m6: "feeds o' m6 (DW_IC_INTR_STOP_DET, [])"
    by (rule list_all2_headE [OF l5]) (simp only: list_all2_Nil2)
  show thesis
    by (rule that [OF _ m1(2) m2(2) m3(2) m4(2) m5(2) m6]) (simp add: m1(1) m2(1) m3(1) m4(1) m5(1) r5)
qed

section \<open>Properties\<close>

text \<open>C11: What one slave interrupt does, for every backend and every hardware with a documented receive
  FIFO.  A backend sees exactly: a start event if a write was not in progress, each received byte in
  order, one read event if the master reads (the first of a read or a following one, by the state of
  the driver), and last the stop event.  The FIFO is emptied (the loop ends), the byte that the backend
  left is pushed for the master, and the driver status follows.\<close>

theorem slave_interrupt_events:
  assumes "slave_port rm o'" and "reg_map d = Some rm" and "slave d = Some cl" and "v_on o' (hw d)"
    and "v_stat o' (hw d) AND NOT DW_IC_INTR_ACTIVITY \<noteq> 0"
    and "v_stat o' (hw d) AND DW_IC_INTR_RX_FULL \<noteq> 0 \<longrightarrow> v_rx o' (hw d) \<noteq> []" and "length (v_rx o' (hw d)) \<le> fuel"
    and "run_cb (slave_cb cl) (rx_part (v_stat o' (hw d)) (dw_status d) (v_rx o' (hw d))
            @ rd_part (v_stat o' (hw d)) (v_act o' (hw d)) (dw_status d)) 0 (client_data cl) = Some (v2, s2)"
    and "run_cb (slave_cb cl) (stop_part (v_stat o' (hw d))) v2 s2 = Some (v3, s3)"
  shows "\<exists>d'. i2c_dw_irq_handler_slave fuel d = Some (True, d') \<and> slave d' = Some (cl\<lparr>client_data := s3\<rparr>)
    \<and> dw_status d' = after_rd (v_stat o' (hw d)) (v_act o' (hw d)) (dw_status d)
    \<and> v_rx o' (hw d') = (if v_stat o' (hw d) AND DW_IC_INTR_RX_FULL \<noteq> 0 then [] else v_rx o' (hw d))
    \<and> v_tx o' (hw d') = v_tx o' (hw d) @ (if rd_pending (v_stat o' (hw d)) (v_act o' (hw d)) then [ucast v2] else [])"
proof -
  have sl: "slave d = Some (cl\<lparr>client_data := client_data cl\<rparr>)" using assms(3) by simp
  from slave_handler_run [OF assms(1,2) sl assms(4,5) _ assms(7,8,9)] assms(6) show ?thesis
    unfolding moved_def by blast
qed


section \<open>A concrete controller\<close>

record demo_slave_hw =
  dh_stat :: u32
  dh_rx :: "u8 list"
  dh_tx :: "u32 list"

definition demo_readl :: "nat \<Rightarrow> demo_slave_hw \<Rightarrow> u32 \<times> demo_slave_hw" where
  "demo_readl r h =
     (if r = DW_IC_DATA_CMD then ((case dh_rx h of [] \<Rightarrow> 0 | b # _ \<Rightarrow> ucast b), h\<lparr>dh_rx := tl (dh_rx h)\<rparr>)
      else if r = DW_IC_STATUS then (if dh_rx h \<noteq> [] then 0x48 else 0x40, h)
      else if r = DW_IC_INTR_STAT \<or> r = DW_IC_RAW_INTR_STAT then (dh_stat h, h)
      else (1, h))"

definition demo_writel :: "u32 \<Rightarrow> nat \<Rightarrow> demo_slave_hw \<Rightarrow> demo_slave_hw" where
  "demo_writel v r h = (if r = DW_IC_DATA_CMD then h\<lparr>dh_tx := dh_tx h @ [v]\<rparr> else h)"

definition demo_slave_mmio :: "demo_slave_hw mmio" where
  "demo_slave_mmio = \<lparr>readl = demo_readl, writel = demo_writel, readw = \<lambda>_ h. (0, h), writew = \<lambda>_ _ h. h\<rparr>"

definition demo_slave_rm :: "demo_slave_hw regmap" where
  "demo_slave_rm = \<lparr>rm_read = dw_reg_read demo_slave_mmio, rm_write = dw_reg_write demo_slave_mmio,
     rm_update_bits = \<lambda>_ _ _ h. (0, h), rm_poll = \<lambda>_ _ h. (0, 0, h)\<rparr>"

definition demo_slave_view :: "demo_slave_hw slave_view" where
  "demo_slave_view = \<lparr>v_on = \<lambda>_. True, v_stat = dh_stat, v_act = \<lambda>_. True, v_rx = dh_rx, v_tx = dh_tx\<rparr>"

lemma ucast_8_32: "(ucast (ucast (b :: u8) :: u32) :: u8) = b"
  by (intro bit_word_eqI) (auto simp: bit_unsigned_iff)

lemma demo_slave_port: "slave_port demo_slave_rm demo_slave_view"
  by (auto simp: slave_port_def slave_read_law_def slave_write_law_def demo_slave_rm_def demo_slave_view_def
      dw_reg_read_def dw_reg_write_def demo_slave_mmio_def demo_readl_def demo_writel_def Let_def dw_reg_defs
      DW_IC_STATUS_RFNE_def DW_IC_STATUS_SLAVE_ACTIVITY_def BIT_def ucast_8_32 split: list.split)

definition demo_slave_dev :: "demo_slave_hw \<Rightarrow> (demo_slave_hw, eeprom_data) dw_i2c_dev" where
  "demo_slave_dev h = (zero_dev demo_slave_mmio h)\<lparr>reg_map := Some demo_slave_rm,
     slave := Some \<lparr>client_flags = 0, client_addr = 0x50, slave_cb = i2c_slave_eeprom_slave_cb, client_data = example_eeprom\<rparr>\<rparr>"

text \<open>Two bytes and a stop: the address 0x10, and 7 written there.\<close>

theorem slave_interrupt_events_witness:
  "\<exists>d'. i2c_dw_irq_handler_slave 2 (demo_slave_dev \<lparr>dh_stat = 0x204, dh_rx = [0x10, 7], dh_tx = []\<rparr>) = Some (True, d')
     \<and> map_option (\<lambda>c. buffer (client_data c) ! 0x10) (slave d') = Some 7 \<and> dh_rx (hw d') = []"
proof -
  let ?d = "demo_slave_dev \<lparr>dh_stat = 0x204, dh_rx = [0x10, 7], dh_tx = []\<rparr>"
  let ?v = demo_slave_view
  let ?cl = "\<lparr>client_flags = 0, client_addr = 0x50, slave_cb = i2c_slave_eeprom_slave_cb, client_data = example_eeprom\<rparr>"
  have at: "v_stat ?v (hw ?d) = 0x204" "v_act ?v (hw ?d)" "v_rx ?v (hw ?d) = [0x10, 7]" "dw_status ?d = 0"
    "reg_map ?d = Some demo_slave_rm" "slave ?d = Some ?cl" "v_on ?v (hw ?d)"
    by (simp_all add: demo_slave_dev_def zero_dev_def demo_slave_view_def)
  let ?e = "example_eeprom\<lparr>buffer_idx := 0x11, idx_write_cnt := 1, buffer := (buffer example_eeprom)[16 := 7]\<rparr>"
  have r1: "run_cb (slave_cb ?cl) (rx_part (v_stat ?v (hw ?d)) (dw_status ?d) (v_rx ?v (hw ?d))
            @ rd_part (v_stat ?v (hw ?d)) (v_act ?v (hw ?d)) (dw_status ?d)) 0 (client_data ?cl) = Some (7, ?e)"
    unfolding at
    by (simp add: irq_part_defs rx_events_def example_eeprom_def buffer_write_def mask_eq_exp_minus_1
        DW_IC_INTR_RX_FULL_def DW_IC_INTR_RD_REQ_def STATUS_WRITE_IN_PROGRESS_def)
  have r2: "run_cb (slave_cb ?cl) (stop_part (v_stat ?v (hw ?d))) 7 ?e = Some (7, ?e\<lparr>idx_write_cnt := 0\<rparr>)"
    unfolding at by (simp add: stop_part_def DW_IC_INTR_STOP_DET_def)
  have pend: "v_stat ?v (hw ?d) AND NOT DW_IC_INTR_ACTIVITY \<noteq> 0" unfolding at by (simp add: DW_IC_INTR_ACTIVITY_def)
  have ne: "v_stat ?v (hw ?d) AND DW_IC_INTR_RX_FULL \<noteq> 0 \<longrightarrow> v_rx ?v (hw ?d) \<noteq> []" unfolding at by simp
  have len: "length (v_rx ?v (hw ?d)) \<le> 2" unfolding at by simp
  from slave_interrupt_events [OF demo_slave_port at(5-7) pend ne len r1 r2] obtain d' where
    d': "i2c_dw_irq_handler_slave 2 ?d = Some (True, d')" "slave d' = Some (?cl\<lparr>client_data := ?e\<lparr>idx_write_cnt := 0\<rparr>\<rparr>)"
    "v_rx ?v (hw d') = (if v_stat ?v (hw ?d) AND DW_IC_INTR_RX_FULL \<noteq> 0 then [] else v_rx ?v (hw ?d))" by blast
  have "dh_rx (hw d') = []" using d'(3) unfolding at by (simp add: demo_slave_view_def DW_IC_INTR_RX_FULL_def)
  with d'(1,2) show ?thesis by (simp add: example_eeprom_def)
qed

definition demo_feed :: "u32 \<times> u8 list \<Rightarrow> demo_slave_hw \<Rightarrow> demo_slave_hw" where
  "demo_feed x h = h\<lparr>dh_stat := fst x, dh_rx := dh_rx h @ snd x\<rparr>"

lemma demo_feeds: "list_all2 (feeds demo_slave_view) (map demo_feed xs) xs"
  by (simp add: list_all2_map1 list_all2_same feeds_def demo_feed_def demo_slave_view_def)


end
