(* ===== verification/I2c_Dw_Master.thy ===== *)
theory I2c_Dw_Master
  imports I2c_Dw_Common
begin

text \<open>
  The master mode of the DesignWare I2C driver (\<open>drivers/i2c/busses/i2c-designware-master.c\<close>):
  timing parameters, initialisation, the interrupt handler that feeds the transmit FIFO and drains
  the receive FIFO, and the transfer function that waits for it.

  A function is \<open>None\<close> where the C code would access the message array or a message buffer outside
  its bounds.  The interrupts that arrive while a transfer waits are an explicit list of moves of
  the world, each followed by the interrupt service routine; the end of the list is the timeout.
\<close>

section \<open>Timing and initialisation\<close>

definition i2c_dw_configure_fifo_master :: "('b, 's) dw_i2c_dev \<Rightarrow> ('b, 's) dw_i2c_dev" where
  "i2c_dw_configure_fifo_master d =
     (let d1 = regmap_write DW_IC_TX_TL (tx_fifo_depth d div 2) d;
          d2 = regmap_write DW_IC_RX_TL 0 d1
      in regmap_write DW_IC_CON (master_cfg d2) d2)"

text \<open>High and low counts for a bus mode: the periods in nanoseconds and the falling times.\<close>

definition scl_counts :: "u32 \<Rightarrow> u32 \<Rightarrow> u32 \<Rightarrow> u32 \<Rightarrow> ('b, 's) dw_i2c_dev \<Rightarrow> u16 \<times> u16 \<times> ('b, 's) dw_i2c_dev" where
  "scl_counts thigh tlow sda_f scl_f d =
     (case i2c_dw_clk_rate d of (ic_clk, d1) \<Rightarrow>
        (ucast (i2c_dw_scl_hcnt ic_clk thigh sda_f 0 0), ucast (i2c_dw_scl_lcnt ic_clk tlow scl_f 0), d1))"

definition i2c_dw_set_timings_master :: "('b, 's) dw_i2c_dev \<Rightarrow> int \<times> ('b, 's) dw_i2c_dev" where
  "i2c_dw_set_timings_master d =
     (case i2c_dw_acquire_lock d of (ret, d0) \<Rightarrow>
      if ret \<noteq> 0 then (ret, d0) else
      case regmap_read DW_IC_COMP_PARAM_1 d0 of (ret, comp_param1, d0') \<Rightarrow>
      let d1 = i2c_dw_release_lock d0' in
      if ret \<noteq> 0 then (ret, d1) else
      let sda_f = (if sda_fall_ns (timings d1) \<noteq> 0 then sda_fall_ns (timings d1) else 300);
          scl_f = (if scl_fall_ns (timings d1) \<noteq> 0 then scl_fall_ns (timings d1) else 300);
          d2 = (if ss_hcnt d1 = 0 \<or> ss_lcnt d1 = 0 then
                  (case scl_counts 4000 4700 sda_f scl_f d1 of (h, l, d') \<Rightarrow> d'\<lparr>ss_hcnt := h, ss_lcnt := l\<rparr>)
                else d1);
          d3 = (if bus_freq_hz (timings d2) = 1000000 then
                  (if fp_hcnt d2 \<noteq> 0 \<and> fp_lcnt d2 \<noteq> 0 then d2\<lparr>fs_hcnt := fp_hcnt d2, fs_lcnt := fp_lcnt d2\<rparr>
                   else (case scl_counts 260 500 sda_f scl_f d2 of (h, l, d') \<Rightarrow> d'\<lparr>fs_hcnt := h, fs_lcnt := l\<rparr>))
                else d2);
          d4 = (if fs_hcnt d3 = 0 \<or> fs_lcnt d3 = 0 then
                  (case scl_counts 600 1300 sda_f scl_f d3 of (h, l, d') \<Rightarrow> d'\<lparr>fs_hcnt := h, fs_lcnt := l\<rparr>)
                else d3);
          d5 = (if master_cfg d4 AND DW_IC_CON_SPEED_MASK = DW_IC_CON_SPEED_HIGH then
                  (if comp_param1 AND DW_IC_COMP_PARAM_1_SPEED_MODE_MASK \<noteq> DW_IC_COMP_PARAM_1_SPEED_MODE_HIGH then
                     d4\<lparr>timings := (timings d4)\<lparr>bus_freq_hz := I2C_MAX_FAST_MODE_FREQ\<rparr>,
                        master_cfg := (master_cfg d4 AND NOT DW_IC_CON_SPEED_MASK) OR DW_IC_CON_SPEED_FAST,
                        hs_hcnt := 0, hs_lcnt := 0\<rparr>
                   else if hs_hcnt d4 = 0 \<or> hs_lcnt d4 = 0 then
                     (case scl_counts 160 320 sda_f scl_f d4 of (h, l, d') \<Rightarrow> d'\<lparr>hs_hcnt := h, hs_lcnt := l\<rparr>)
                   else d4)
                else d4)
      in i2c_dw_set_sda_hold d5)"

definition i2c_dw_init_master :: "('b, 's) dw_env \<Rightarrow> ('b, 's) dw_i2c_dev \<Rightarrow> int \<times> ('b, 's) dw_i2c_dev" where
  "i2c_dw_init_master e d =
     (case i2c_dw_acquire_lock d of (ret, d0) \<Rightarrow>
      if ret \<noteq> 0 then (ret, d0) else
      let d1 = do_i2c_dw_disable e d0;
          d2 = regmap_write DW_IC_SS_SCL_HCNT (ucast (ss_hcnt d1)) d1;
          d3 = regmap_write DW_IC_SS_SCL_LCNT (ucast (ss_lcnt d2)) d2;
          d4 = regmap_write DW_IC_FS_SCL_HCNT (ucast (fs_hcnt d3)) d3;
          d5 = regmap_write DW_IC_FS_SCL_LCNT (ucast (fs_lcnt d4)) d4;
          d6 = (if hs_hcnt d5 \<noteq> 0 \<and> hs_lcnt d5 \<noteq> 0 then
                  regmap_write DW_IC_HS_SCL_LCNT (ucast (hs_lcnt d5)) (regmap_write DW_IC_HS_SCL_HCNT (ucast (hs_hcnt d5)) d5)
                else d5);
          d7 = (if sda_hold_time d6 \<noteq> 0 then regmap_write DW_IC_SDA_HOLD (sda_hold_time d6) d6 else d6);
          d8 = regmap_write DW_IC_SDA_HOLD 20 d7
      in (0, i2c_dw_release_lock (i2c_dw_configure_fifo_master d8)))"

section \<open>Feeding the transmit FIFO\<close>

definition msg_at :: "nat \<Rightarrow> ('b, 's) dw_i2c_dev \<Rightarrow> i2c_msg" where
  "msg_at i d = msgs d ! i"

definition i2c_dw_xfer_init :: "('b, 's) dw_env \<Rightarrow> ('b, 's) dw_i2c_dev \<Rightarrow> ('b, 's) dw_i2c_dev option" where
  "i2c_dw_xfer_init e d =
     (let d1 = do_i2c_dw_disable e d in
      if msgs_num d1 \<le> msg_write_idx d1 then None
      else
        let m = msg_at (msg_write_idx d1) d1;
            ten = (msg_flags m AND I2C_M_TEN \<noteq> 0);
            ic_con = (if ten then DW_IC_CON_10BITADDR_MASTER else 0);
            ic_tar = (if ten then DW_IC_TAR_10BITADDR_MASTER else 0);
            d2 = regmap_update_bits DW_IC_CON DW_IC_CON_10BITADDR_MASTER ic_con d1;
            d3 = regmap_write DW_IC_TAR (ucast (msg_addr m) OR ic_tar) d2;
            d4 = i2c_dw_enable (i2c_dw_disable_int d3);
            d5 = reg_touch DW_IC_CLR_INTR (reg_touch DW_IC_ENABLE_STATUS d4)
        in Some (regmap_write DW_IC_INTR_MASK DW_IC_INTR_MASTER_MASK d5))"

definition load_byte :: "nat \<times> nat \<Rightarrow> ('b, 's) dw_i2c_dev \<Rightarrow> u8 option" where
  "load_byte p d =
     (if fst p < msgs_num d \<and> snd p < length (msg_buf (msg_at (fst p) d))
      then Some (msg_buf (msg_at (fst p) d) ! snd p) else None)"

definition store_byte :: "nat \<times> nat \<Rightarrow> u8 \<Rightarrow> ('b, 's) dw_i2c_dev \<Rightarrow> ('b, 's) dw_i2c_dev option" where
  "store_byte p b d =
     (if fst p < msgs_num d \<and> snd p < length (msg_buf (msg_at (fst p) d))
      then Some (d\<lparr>msgs := (msgs d)[fst p := (msg_at (fst p) d)\<lparr>msg_buf := (msg_buf (msg_at (fst p) d))[snd p := b]\<rparr>]\<rparr>)
      else None)"

text \<open>The command word apart from its data: the stop bit on the last byte of the last message, the
  restart bit when a new message has begun.\<close>

definition cmd_bits :: "u16 \<Rightarrow> u32 \<Rightarrow> bool \<Rightarrow> ('b, 's) dw_i2c_dev \<Rightarrow> u32" where
  "cmd_bits flags buf_len need_restart d =
     (if Suc (msg_write_idx d) = msgs_num d \<and> buf_len = 1 \<and> flags AND I2C_M_RECV_LEN = 0 then BIT 9 else 0)
       OR (if need_restart then BIT 10 else 0)"

definition reads_now :: "('b, 's) dw_i2c_dev \<Rightarrow> bool" where
  "reads_now d \<longleftrightarrow> msg_flags (msg_at (msg_write_idx d) d) AND I2C_M_RD \<noteq> 0"

definition push_read :: "u32 \<Rightarrow> ('b, 's) dw_i2c_dev \<Rightarrow> ('b, 's) dw_i2c_dev" where
  "push_read cmd d = (regmap_write DW_IC_DATA_CMD (cmd OR 0x100) d)\<lparr>rx_outstanding := rx_outstanding d + 1\<rparr>"

text \<open>The loop that pushes commands of one message: \<open>flags\<close> are the flags read at its start.  The limits
  are C \<open>int\<close>s, the comparison of \<open>rx_outstanding\<close> with the depth is unsigned.\<close>

function pump :: "u16 \<Rightarrow> nat \<times> nat \<Rightarrow> u32 \<Rightarrow> int \<Rightarrow> int \<Rightarrow> bool \<Rightarrow> ('b, 's) dw_i2c_dev
  \<Rightarrow> ((nat \<times> nat) \<times> u32 \<times> bool \<times> ('b, 's) dw_i2c_dev) option" where
  "pump flags buf buf_len tx_limit rx_limit need_restart d =
     (if buf_len = 0 \<or> tx_limit \<le> 0 \<or> rx_limit \<le> 0 then Some (buf, buf_len, need_restart, d)
      else if reads_now d then
        if rx_fifo_depth d \<le> word_of_int (rx_outstanding d) then Some (buf, buf_len, False, d)
        else pump flags buf (buf_len - 1) (tx_limit - 1) (rx_limit - 1) False
               (push_read (cmd_bits flags buf_len need_restart d) d)
      else
        case load_byte buf d of
          None \<Rightarrow> None
        | Some b \<Rightarrow> pump flags (fst buf, Suc (snd buf)) (buf_len - 1) (tx_limit - 1) rx_limit False
                     (regmap_write DW_IC_DATA_CMD (cmd_bits flags buf_len need_restart d OR ucast b) d))"
  by pat_completeness auto

termination
  by (relation "measure (\<lambda>(_, _, _, tx_limit, _). nat tx_limit)") auto

declare pump.simps [simp del]

text \<open>Everything of the device that pushing commands leaves alone.\<close>

definition same_xfer :: "('b, 's) dw_i2c_dev \<Rightarrow> ('b, 's) dw_i2c_dev \<Rightarrow> bool" where
  "same_xfer d d' \<longleftrightarrow> (\<exists>h k. d' = d\<lparr>hw := h, rx_outstanding := k\<rparr>)"

lemma same_xfer_simps:
  "same_xfer d d' \<Longrightarrow> msgs d' = msgs d" "same_xfer d d' \<Longrightarrow> msg_write_idx d' = msg_write_idx d"
  "same_xfer d d' \<Longrightarrow> dw_status d' = dw_status d" "same_xfer d d' \<Longrightarrow> reg_map d' = reg_map d"
  "same_xfer d d' \<Longrightarrow> msg_err d' = msg_err d" "same_xfer d d' \<Longrightarrow> tx_fifo_depth d' = tx_fifo_depth d"
  "same_xfer d d' \<Longrightarrow> acquire_lock d' = acquire_lock d" "same_xfer d d' \<Longrightarrow> release_lock d' = release_lock d"
  "same_xfer d d' \<Longrightarrow> rx_fifo_depth d' = rx_fifo_depth d" "same_xfer d d' \<Longrightarrow> master_cfg d' = master_cfg d"
  by (auto simp: same_xfer_def)

lemma same_xfer_refl: "same_xfer d d"
  unfolding same_xfer_def by (rule exI [of _ "hw d"], rule exI [of _ "rx_outstanding d"]) simp

lemma same_xfer_trans: "same_xfer a b \<Longrightarrow> same_xfer b c \<Longrightarrow> same_xfer a c"
  unfolding same_xfer_def by fastforce

lemma same_xfer_write: "same_xfer d (regmap_write r v d)"
  unfolding same_xfer_def regmap_write_def
  by (rule exI, rule exI [of _ "rx_outstanding d"]) simp

lemma same_xfer_read: "reg_value r d = (v, d') \<Longrightarrow> same_xfer d d'"
  unfolding same_xfer_def reg_value_def regmap_read_def
  by (rule exI [of _ "hw d'"], rule exI [of _ "rx_outstanding d"]) (auto split: prod.splits)

lemma same_xfer_outstanding: "same_xfer d (d\<lparr>rx_outstanding := k\<rparr>)"
  unfolding same_xfer_def by (rule exI [of _ "hw d"], rule exI [of _ k]) simp

lemma same_xfer_push: "same_xfer d (push_read c d)"
  unfolding push_read_def by (rule same_xfer_trans [OF same_xfer_write same_xfer_outstanding])

text \<open>Induction over the commands pushed.\<close>

lemma pump_induct [consumes 1, case_names stop rd wr]:
  assumes "pump flags buf n txl rxl nr d = Some (buf', n', nr', d')"
    and stop: "\<And>buf n txl rxl nr nr' d. n = 0 \<or> txl \<le> 0 \<or> rxl \<le> 0 \<or> reads_now d \<and> rx_fifo_depth d \<le> word_of_int (rx_outstanding d)
      \<Longrightarrow> P buf n txl rxl nr d buf n nr' d"
    and rd: "\<And>buf n txl rxl nr d buf' n' nr' d'. n \<noteq> 0 \<Longrightarrow> 0 < txl \<Longrightarrow> 0 < rxl \<Longrightarrow> reads_now d
      \<Longrightarrow> word_of_int (rx_outstanding d) < rx_fifo_depth d
      \<Longrightarrow> P buf (n - 1) (txl - 1) (rxl - 1) False (push_read (cmd_bits flags n nr d) d) buf' n' nr' d'
      \<Longrightarrow> P buf n txl rxl nr d buf' n' nr' d'"
    and wr: "\<And>buf n txl rxl nr d b buf' n' nr' d'. n \<noteq> 0 \<Longrightarrow> 0 < txl \<Longrightarrow> 0 < rxl \<Longrightarrow> \<not> reads_now d \<Longrightarrow> load_byte buf d = Some b
      \<Longrightarrow> P (fst buf, Suc (snd buf)) (n - 1) (txl - 1) rxl False
            (regmap_write DW_IC_DATA_CMD (cmd_bits flags n nr d OR ucast b) d) buf' n' nr' d'
      \<Longrightarrow> P buf n txl rxl nr d buf' n' nr' d'"
  shows "P buf n txl rxl nr d buf' n' nr' d'"
  using assms
proof (induction flags buf n txl rxl nr d rule: pump.induct)
  case (1 flags buf n txl rxl nr d)
  note stop = "1.prems"(2) and rd = "1.prems"(3) and wr = "1.prems"(4)
  show ?case
  proof (cases "n = 0 \<or> txl \<le> 0 \<or> rxl \<le> 0")
    case True
    with "1.prems"(1) have eq: "buf' = buf" "n' = n" "d' = d" by (subst (asm) pump.simps, simp)+
    show ?thesis unfolding eq by (rule stop) (use True in blast)
  next
    case False
    note go = False
    show ?thesis
    proof (cases "reads_now d")
      case True
      note now = True
      show ?thesis
      proof (cases "rx_fifo_depth d \<le> word_of_int (rx_outstanding d)")
        case True
        with now go "1.prems"(1) have eq: "buf' = buf" "n' = n" "d' = d" by (subst (asm) pump.simps, simp)+
        show ?thesis unfolding eq by (rule stop) (use now True in blast)
      next
        case False
        with now go "1.prems"(1) have eq: "pump flags buf (n - 1) (txl - 1) (rxl - 1) False
            (push_read (cmd_bits flags n nr d) d) = Some (buf', n', nr', d')" by (subst (asm) pump.simps) simp
        have "P buf (n - 1) (txl - 1) (rxl - 1) False (push_read (cmd_bits flags n nr d) d) buf' n' nr' d'"
          by (rule "1.IH"(1) [OF go now False eq stop rd wr])
        with rd [of n txl rxl d buf nr] now go False show ?thesis by simp
      qed
    next
      case False
      with go "1.prems"(1) obtain b where b: "load_byte buf d = Some b"
        and eq: "pump flags (fst buf, Suc (snd buf)) (n - 1) (txl - 1) rxl False
            (regmap_write DW_IC_DATA_CMD (cmd_bits flags n nr d OR ucast b) d) = Some (buf', n', nr', d')"
        by (subst (asm) pump.simps) (auto split: option.splits)
      have "P (fst buf, Suc (snd buf)) (n - 1) (txl - 1) rxl False
            (regmap_write DW_IC_DATA_CMD (cmd_bits flags n nr d OR ucast b) d) buf' n' nr' d'"
        by (rule "1.IH"(2) [OF go False b eq stop rd wr])
      with wr [of n txl rxl d buf b nr] go False b show ?thesis by simp
    qed
  qed
qed

lemma pump_same:
  "pump flags buf n txl rxl nr d = Some (buf', n', nr', d') \<Longrightarrow> same_xfer d d'"
proof (induction rule: pump_induct)
  case (stop buf n txl rxl nr nr' d)
  show ?case by (rule same_xfer_refl)
next
  case (rd buf n txl rxl nr d buf' n' nr' d')
  from same_xfer_push rd(6) show ?case by (rule same_xfer_trans)
next
  case (wr buf n txl rxl nr d b buf' n' nr' d')
  from same_xfer_write wr(6) show ?case by (rule same_xfer_trans)
qed

section \<open>The transfer loops\<close>

text \<open>The loop of \<open>i2c_dw_xfer_msg\<close> over the messages.\<close>

definition limit :: "u32 \<Rightarrow> u32 \<Rightarrow> int" where
  "limit depth flr = sint (depth - flr)"

definition pump_msg :: "nat \<times> nat \<Rightarrow> u32 \<Rightarrow> bool \<Rightarrow> ('b, 's) dw_i2c_dev
  \<Rightarrow> ((nat \<times> nat) \<times> u32 \<times> bool \<times> ('b, 's) dw_i2c_dev) option" where
  "pump_msg buf buf_len need_restart d =
     (let m = msg_at (msg_write_idx d) d;
          new_msg = (dw_status d AND STATUS_WRITE_IN_PROGRESS = 0);
          buf1 = (if new_msg then (msg_write_idx d, 0) else buf);
          len1 = (if new_msg then ucast (msg_len m) else buf_len);
          nr1 = (if new_msg \<and> master_cfg d AND DW_IC_CON_RESTART_EN \<noteq> 0 \<and> 0 < msg_write_idx d then True else need_restart)
      in case reg_value DW_IC_TXFLR d of (tx_flr, d1) \<Rightarrow>
         case reg_value DW_IC_RXFLR d1 of (rx_flr, d2) \<Rightarrow>
           pump (msg_flags m) buf1 len1 (limit (tx_fifo_depth d1) tx_flr) (limit (rx_fifo_depth d2) rx_flr) nr1 d2)"

lemma pump_msg_same:
  "pump_msg buf n nr d = Some (buf', n', nr', d') \<Longrightarrow> same_xfer d d'"
  unfolding pump_msg_def Let_def
  by (auto split: prod.splits dest!: same_xfer_read pump_same intro: same_xfer_trans)

function xfer_loop :: "u16 \<Rightarrow> nat \<times> nat \<Rightarrow> u32 \<Rightarrow> bool \<Rightarrow> ('b, 's) dw_i2c_dev \<Rightarrow> ('b, 's) dw_i2c_dev option" where
  "xfer_loop addr buf buf_len need_restart d =
     (if msgs_num d \<le> msg_write_idx d then Some d
      else if msg_addr (msg_at (msg_write_idx d) d) \<noteq> addr then Some (d\<lparr>msg_err := - EINVAL\<rparr>)
      else
        case pump_msg buf buf_len need_restart d of
          None \<Rightarrow> None
        | Some (buf1, len1, nr1, d1) \<Rightarrow>
            let d2 = d1\<lparr>tx_buf := buf1, tx_buf_len := len1\<rparr> in
            if len1 \<noteq> 0 \<or> msg_flags (msg_at (msg_write_idx d) d) AND I2C_M_RECV_LEN \<noteq> 0
            then Some (d2\<lparr>dw_status := dw_status d2 OR STATUS_WRITE_IN_PROGRESS\<rparr>)
            else xfer_loop addr buf1 len1 nr1
                   (d2\<lparr>dw_status := dw_status d2 AND NOT STATUS_WRITE_IN_PROGRESS, msg_write_idx := Suc (msg_write_idx d2)\<rparr>))"
  by pat_completeness auto

termination
  by (relation "measure (\<lambda>(_, _, _, _, d). msgs_num d - msg_write_idx d)")
     (auto dest!: pump_msg_same simp: same_xfer_simps)

declare xfer_loop.simps [simp del]

definition i2c_dw_xfer_msg :: "('b, 's) dw_i2c_dev \<Rightarrow> ('b, 's) dw_i2c_dev option" where
  "i2c_dw_xfer_msg d =
     (if msgs_num d \<le> msg_write_idx d then None
      else
        case xfer_loop (msg_addr (msg_at (msg_write_idx d) d)) (tx_buf d) (tx_buf_len d) False d of
          None \<Rightarrow> None
        | Some d1 \<Rightarrow>
            let intr_mask = (if msg_write_idx d1 = msgs_num d1 then DW_IC_INTR_MASTER_MASK AND NOT DW_IC_INTR_TX_EMPTY
                             else DW_IC_INTR_MASTER_MASK)
            in Some (regmap_write DW_IC_INTR_MASK (if msg_err d1 \<noteq> 0 then 0 else intr_mask) d1))"

section \<open>Draining the receive FIFO\<close>

definition i2c_dw_recv_len :: "u8 \<Rightarrow> ('b, 's) dw_i2c_dev \<Rightarrow> u8 \<times> ('b, 's) dw_i2c_dev" where
  "i2c_dw_recv_len n d =
     (let m = msg_at (msg_read_idx d) d;
          n1 = n + (if msg_flags m AND I2C_CLIENT_PEC \<noteq> 0 then 2 else 1)
      in (n1, d\<lparr>tx_buf_len := ucast n1 - ucast (min n1 (word_of_int (rx_outstanding d))),
                msgs := (msgs d)[msg_read_idx d := m\<lparr>msg_len := ucast n1, msg_flags := msg_flags m AND NOT I2C_M_RECV_LEN\<rparr>]\<rparr>))"

lemma reg_value_frame:
  "reg_value r d = (v, d') \<Longrightarrow> msgs d' = msgs d \<and> msg_read_idx d' = msg_read_idx d \<and> rx_outstanding d' = rx_outstanding d"
  by (auto simp: reg_value_def regmap_read_def split: prod.splits)

text \<open>One byte: its message index is that of the reader.\<close>

definition take_byte :: "nat \<times> nat \<Rightarrow> u32 \<Rightarrow> ('b, 's) dw_i2c_dev \<Rightarrow> (u32 \<times> ('b, 's) dw_i2c_dev) option" where
  "take_byte buf n d =
     (case reg_value DW_IC_DATA_CMD d of (tmp, d1) \<Rightarrow>
      case (if msg_flags (msg_at (msg_read_idx d) d) AND I2C_M_RECV_LEN \<noteq> 0 \<and> tmp \<le> I2C_SMBUS_BLOCK_MAX \<and> 0 < tmp
            then (case i2c_dw_recv_len (ucast tmp) d1 of (l, d') \<Rightarrow> (ucast l, d'))
            else (n, d1)) of (n1, d2) \<Rightarrow>
      case store_byte buf (ucast tmp) d2 of
        None \<Rightarrow> None
      | Some d3 \<Rightarrow> Some (n1, d3\<lparr>rx_outstanding := rx_outstanding d3 - 1\<rparr>))"

function drain :: "nat \<times> nat \<Rightarrow> u32 \<Rightarrow> u32 \<Rightarrow> ('b, 's) dw_i2c_dev \<Rightarrow> ((nat \<times> nat) \<times> u32 \<times> ('b, 's) dw_i2c_dev) option" where
  "drain buf n rx_valid d =
     (if n = 0 \<or> rx_valid = 0 then Some (buf, n, d)
      else
        case take_byte buf n d of
          None \<Rightarrow> None
        | Some (n1, d1) \<Rightarrow> drain (fst buf, Suc (snd buf)) (n1 - 1) (rx_valid - 1) d1)"
  by pat_completeness auto

termination
  by (relation "measure (\<lambda>(_, _, rx_valid, _). unat rx_valid)")
     (auto simp: unat_minus_one unat_gt_0)

declare drain.simps [simp del]

lemma take_byte_frame:
  "take_byte buf n d = Some (n1, d1) \<Longrightarrow> msg_read_idx d1 = msg_read_idx d \<and> msgs_num d1 = msgs_num d"
  by (auto simp: take_byte_def store_byte_def i2c_dw_recv_len_def reg_value_def regmap_read_def Let_def
      split: prod.splits if_splits)

lemma drain_frame:
  "drain buf n v d = Some (buf', n', d') \<Longrightarrow> msg_read_idx d' = msg_read_idx d \<and> msgs_num d' = msgs_num d"
proof (induction buf n v d rule: drain.induct)
  case (1 buf n v d)
  then show ?case
    by (subst (asm) (2) drain.simps) (auto split: if_splits option.splits dest: take_byte_frame)
qed

function read_loop :: "('b, 's) dw_i2c_dev \<Rightarrow> ('b, 's) dw_i2c_dev option" where
  "read_loop d =
     (if msgs_num d \<le> msg_read_idx d then Some d
      else if msg_flags (msg_at (msg_read_idx d) d) AND I2C_M_RD = 0 then read_loop (d\<lparr>msg_read_idx := Suc (msg_read_idx d)\<rparr>)
      else
        let fresh = (dw_status d AND STATUS_READ_IN_PROGRESS = 0);
            n = (if fresh then ucast (msg_len (msg_at (msg_read_idx d) d)) else rx_buf_len d);
            buf = (if fresh then (msg_read_idx d, 0) else rx_buf d)
        in case reg_value DW_IC_RXFLR d of (rx_valid, d1) \<Rightarrow>
             case drain buf n rx_valid d1 of
               None \<Rightarrow> None
             | Some (buf1, n1, d2) \<Rightarrow>
                 if n1 \<noteq> 0 then
                   Some (d2\<lparr>dw_status := dw_status d2 OR STATUS_READ_IN_PROGRESS, rx_buf_len := n1, rx_buf := buf1\<rparr>)
                 else read_loop (d2\<lparr>dw_status := dw_status d2 AND NOT STATUS_READ_IN_PROGRESS, msg_read_idx := Suc (msg_read_idx d2)\<rparr>))"
  by pat_completeness auto

termination
  by (relation "measure (\<lambda>d. msgs_num d - msg_read_idx d)")
     (auto dest!: drain_frame reg_value_frame reg_value_frame [OF sym])

declare read_loop.simps [simp del]

definition i2c_dw_read :: "('b, 's) dw_i2c_dev \<Rightarrow> ('b, 's) dw_i2c_dev option" where
  "i2c_dw_read d = read_loop d"

section \<open>Interrupts\<close>

definition i2c_dw_read_clear_intrbits :: "('b, 's) dw_i2c_dev \<Rightarrow> u32 \<times> ('b, 's) dw_i2c_dev" where
  "i2c_dw_read_clear_intrbits d =
     (case reg_value DW_IC_INTR_STAT d of (stat, d0) \<Rightarrow>
        let d1 = clear_if stat DW_IC_INTR_RX_UNDER DW_IC_CLR_RX_UNDER d0;
            d2 = clear_if stat DW_IC_INTR_RX_OVER DW_IC_CLR_RX_OVER d1;
            d3 = clear_if stat DW_IC_INTR_TX_OVER DW_IC_CLR_TX_OVER d2;
            d4 = clear_if stat DW_IC_INTR_RD_REQ DW_IC_CLR_RD_REQ d3;
            d5 = (if stat AND DW_IC_INTR_TX_ABRT \<noteq> 0 then
                    (case reg_value DW_IC_TX_ABRT_SOURCE d4 of (src, d') \<Rightarrow>
                       reg_touch DW_IC_CLR_TX_ABRT (d'\<lparr>abort_source := src\<rparr>))
                  else d4);
            d6 = clear_if stat DW_IC_INTR_RX_DONE DW_IC_CLR_RX_DONE d5;
            d7 = clear_if stat DW_IC_INTR_ACTIVITY DW_IC_CLR_ACTIVITY d6;
            d8 = clear_if stat DW_IC_INTR_STOP_DET DW_IC_CLR_STOP_DET d7;
            d9 = clear_if stat DW_IC_INTR_START_DET DW_IC_CLR_START_DET d8;
            d10 = clear_if stat DW_IC_INTR_GEN_CALL DW_IC_CLR_GEN_CALL d9
        in (stat, d10))"

definition tx_abort :: "('b, 's) dw_i2c_dev \<Rightarrow> ('b, 's) dw_i2c_dev" where
  "tx_abort d = regmap_write DW_IC_INTR_MASK 0 (d\<lparr>cmd_err := cmd_err d OR DW_IC_ERR_TX_ABRT, dw_status := STATUS_IDLE\<rparr>)"

text \<open>The end of the handler: completion, or the workaround that triggers pending interrupts.\<close>

definition finish_irq :: "u32 \<Rightarrow> ('b, 's) dw_i2c_dev \<Rightarrow> ('b, 's) dw_i2c_dev" where
  "finish_irq stat d =
     (if stat AND (DW_IC_INTR_TX_ABRT OR DW_IC_INTR_STOP_DET) \<noteq> 0 \<or> msg_err d \<noteq> 0
      then d\<lparr>cmd_complete := cmd_complete d + 1\<rparr>
      else if dw_flags d AND ACCESS_INTR_MASK \<noteq> 0 then
        (case reg_value DW_IC_INTR_MASK d of (v, d1) \<Rightarrow> regmap_write DW_IC_INTR_MASK v (i2c_dw_disable_int d1))
      else d)"

definition i2c_dw_irq_handler_master :: "('b, 's) dw_i2c_dev \<Rightarrow> ('b, 's) dw_i2c_dev option" where
  "i2c_dw_irq_handler_master d =
     (case i2c_dw_read_clear_intrbits d of (stat, d1) \<Rightarrow>
        if stat AND DW_IC_INTR_TX_ABRT \<noteq> 0 then Some (finish_irq stat (tx_abort d1))
        else
          Option.bind (if stat AND DW_IC_INTR_RX_FULL \<noteq> 0 then i2c_dw_read d1 else Some d1) (\<lambda>d2.
          Option.bind (if stat AND DW_IC_INTR_TX_EMPTY \<noteq> 0 then i2c_dw_xfer_msg d2 else Some d2) (\<lambda>d3.
          Some (finish_irq stat d3))))"

definition i2c_dw_isr :: "('b, 's) dw_i2c_dev \<Rightarrow> (bool \<times> ('b, 's) dw_i2c_dev) option" where
  "i2c_dw_isr d =
     (case reg_value DW_IC_ENABLE d of (enabled, d1) \<Rightarrow>
      case reg_value DW_IC_RAW_INTR_STAT d1 of (stat, d2) \<Rightarrow>
        if enabled = 0 \<or> stat AND NOT DW_IC_INTR_ACTIVITY = 0 then Some (False, d2)
        else map_option (Pair True) (i2c_dw_irq_handler_master d2))"

section \<open>Transfers\<close>

text \<open>Waiting for the completion: the result says whether it came before the moves were used up.\<close>

fun wait_for_completion :: "('b \<Rightarrow> 'b) list \<Rightarrow> ('b, 's) dw_i2c_dev \<Rightarrow> (bool \<times> ('b, 's) dw_i2c_dev) option" where
  "wait_for_completion moves d =
     (if 0 < cmd_complete d then Some (True, d\<lparr>cmd_complete := cmd_complete d - 1\<rparr>)
      else
        case moves of
          [] \<Rightarrow> Some (False, d)
        | f # fs \<Rightarrow>
            (case i2c_dw_isr (d\<lparr>hw := f (hw d)\<rparr>) of
               None \<Rightarrow> None
             | Some (_, d') \<Rightarrow> wait_for_completion fs d'))"

declare wait_for_completion.simps [simp del]

definition start_xfer :: "i2c_msg list \<Rightarrow> ('b, 's) dw_i2c_dev \<Rightarrow> ('b, 's) dw_i2c_dev" where
  "start_xfer ms d =
     d\<lparr>cmd_complete := 0, msgs := ms, cmd_err := 0, msg_write_idx := 0, msg_read_idx := 0, msg_err := 0,
       dw_status := STATUS_IDLE, abort_source := 0, rx_outstanding := 0\<rparr>"

definition pm_put :: "('b, 's) dw_i2c_dev \<Rightarrow> ('b, 's) dw_i2c_dev" where
  "pm_put d = d\<lparr>pm_usage := pm_usage d - 1\<rparr>"

text \<open>The return value once the completion has come.\<close>

definition xfer_result :: "('b, 's) dw_i2c_dev \<Rightarrow> int" where
  "xfer_result d =
     (if msg_err d \<noteq> 0 then msg_err d
      else if cmd_err d = 0 \<and> dw_status d = 0 then int (msgs_num d)
      else if cmd_err d = DW_IC_ERR_TX_ABRT then i2c_dw_handle_tx_abort d
      else - EIO)"

definition i2c_dw_xfer :: "('b, 's) dw_env \<Rightarrow> ('b \<Rightarrow> 'b) list \<Rightarrow> i2c_msg list \<Rightarrow> ('b, 's) dw_i2c_dev
  \<Rightarrow> (int \<times> ('b, 's) dw_i2c_dev) option" where
  "i2c_dw_xfer e moves ms d =
     (let d0 = pm_runtime_get_sync e d in
      if suspended d0 then Some (- ESHUTDOWN, pm_put d0)
      else
        case i2c_dw_acquire_lock (start_xfer ms d0) of (ret, d1) \<Rightarrow>
        if ret \<noteq> 0 then Some (ret, pm_put d1)
        else
          case i2c_dw_wait_bus_not_busy e d1 of (ret, d2) \<Rightarrow>
          if ret < 0 then Some (ret, pm_put (i2c_dw_release_lock d2))
          else
            case i2c_dw_xfer_init e d2 of
              None \<Rightarrow> None
            | Some d3 \<Rightarrow>
                (case wait_for_completion moves d3 of
                   None \<Rightarrow> None
                 | Some (False, d4) \<Rightarrow>
                     Some (- ETIMEDOUT, pm_put (i2c_dw_release_lock (snd (i2c_dw_init_master e (snd (i2c_recover_bus e d4))))))
                 | Some (True, d4) \<Rightarrow>
                     let d5 = i2c_dw_disable_nowait d4
                     in Some (xfer_result d5, pm_put (i2c_dw_release_lock d5))))"

section \<open>Configuration, recovery and probe\<close>

definition i2c_dw_configure_master :: "('b, 's) dw_i2c_dev \<Rightarrow> ('b, 's) dw_i2c_dev" where
  "i2c_dw_configure_master d =
     (let cfg = DW_IC_CON_MASTER OR DW_IC_CON_SLAVE_DISABLE OR DW_IC_CON_RESTART_EN;
          f = bus_freq_hz (timings d);
          speed = (if f = I2C_MAX_STANDARD_MODE_FREQ then DW_IC_CON_SPEED_STD
                   else if f = I2C_MAX_HIGH_SPEED_MODE_FREQ then DW_IC_CON_SPEED_HIGH
                   else DW_IC_CON_SPEED_FAST)
      in d\<lparr>functionality := I2C_FUNC_10BIT_ADDR OR DW_IC_DEFAULT_FUNCTIONALITY, master_cfg := cfg OR speed, dw_mode := DW_IC_MASTER\<rparr>)"

definition i2c_dw_prepare_recovery :: "('b, 's) dw_env \<Rightarrow> ('b, 's) dw_i2c_dev \<Rightarrow> ('b, 's) dw_i2c_dev" where
  "i2c_dw_prepare_recovery e d =
     (let d1 = i2c_dw_disable e d;
          d2 = d1\<lparr>hw := reset_control_assert e (hw d1)\<rparr>
      in snd (i2c_dw_prepare_clk e False d2))"

definition i2c_dw_unprepare_recovery :: "('b, 's) dw_env \<Rightarrow> ('b, 's) dw_i2c_dev \<Rightarrow> ('b, 's) dw_i2c_dev" where
  "i2c_dw_unprepare_recovery e d =
     (let d1 = snd (i2c_dw_prepare_clk e True d);
          d2 = d1\<lparr>hw := reset_control_deassert e (hw d1)\<rparr>
      in snd (i2c_dw_init_master e d2))"

text \<open>An optional GPIO line is an error, or says whether it is there.\<close>

definition i2c_dw_init_recovery_info :: "('b, 's) dw_env \<Rightarrow> ('b, 's) dw_i2c_dev \<Rightarrow> int \<times> ('b, 's) dw_i2c_dev" where
  "i2c_dw_init_recovery_info e d =
     (case gpio_scl e of
        Inl err \<Rightarrow> (err, d)
      | Inr False \<Rightarrow> (0, d)
      | Inr True \<Rightarrow>
          (case gpio_sda e of
             Inl err \<Rightarrow> (err, d)
           | Inr _ \<Rightarrow> (0, d\<lparr>adapter := (adapter d)\<lparr>recovery_info := True\<rparr>\<rparr>)))"

definition i2c_dw_probe_master :: "('b, 's) dw_env \<Rightarrow> ('b, 's) dw_i2c_dev \<Rightarrow> int \<times> ('b, 's) dw_i2c_dev" where
  "i2c_dw_probe_master e d =
     (case i2c_dw_init_regmap e (d\<lparr>cmd_complete := 0, dw_init := Some Init_master\<rparr>) of (ret, d1) \<Rightarrow>
      if ret \<noteq> 0 then (ret, d1) else
      case i2c_dw_set_timings_master d1 of (ret, d2) \<Rightarrow>
      if ret \<noteq> 0 then (ret, d2) else
      case i2c_dw_set_fifo_size d2 of (ret, d3) \<Rightarrow>
      if ret \<noteq> 0 then (ret, d3) else
      case i2c_dw_init_master e d3 of (ret, d4) \<Rightarrow>
      if ret \<noteq> 0 then (ret, d4) else
      let d5 = i2c_dw_disable_int
                 (d4\<lparr>adapter := (adapter d4)\<lparr>adap_retries := 3, adap_algo := Some Algo_master, adap_no_zero_len := True\<rparr>\<rparr>) in
      case request_irq e (if dw_flags d5 AND ACCESS_NO_IRQ_SUSPEND \<noteq> 0 then No_suspend else Shared_cond_suspend) (hw d5) of (ret, h) \<Rightarrow>
      let d6 = d5\<lparr>hw := h, irq_requested := (ret = 0)\<rparr> in
      if ret \<noteq> 0 then (ret, d6) else
      case i2c_dw_init_recovery_info e d6 of (ret, d7) \<Rightarrow>
      if ret \<noteq> 0 then (ret, d7) else
      let d8 = d7\<lparr>pm_usage := pm_usage d7 + 1\<rparr> in
      case add_numbered_adapter e (hw d8) of (ret, h) \<Rightarrow>
      (ret, d8\<lparr>hw := h, adapter := (adapter d8)\<lparr>adap_added := (ret = 0)\<rparr>, pm_usage := pm_usage d8 - 1\<rparr>))"

section \<open>What the master side of the hardware promises\<close>

text \<open>Observations: the commands written to the transmit FIFO, the interrupt mask, the fill level of the
  FIFO, and whether a command was ever written to a full FIFO.\<close>

record 'b cmd_view =
  c_sent :: "'b \<Rightarrow> u32 list"
  c_mask :: "'b \<Rightarrow> u32"
  c_level :: "'b \<Rightarrow> nat"
  c_over :: "'b \<Rightarrow> bool"
  c_depth :: nat

definition cmd_read_law :: "'b regmap \<Rightarrow> 'b cmd_view \<Rightarrow> nat \<Rightarrow> 'b \<Rightarrow> bool" where
  "cmd_read_law rm o' r h \<longleftrightarrow>
     (case rm_read rm r h of (_, v, h') \<Rightarrow>
        c_sent o' h' = c_sent o' h \<and> c_mask o' h' = c_mask o' h \<and> c_level o' h' \<le> c_level o' h \<and> (c_over o' h' \<longrightarrow> c_over o' h) \<and>
        (r = DW_IC_TXFLR \<longrightarrow> unat v = c_level o' h') \<and>
        (r = DW_IC_INTR_STAT \<longrightarrow> v AND NOT (c_mask o' h) = 0) \<and>
        (r = DW_IC_INTR_MASK \<longrightarrow> v = c_mask o' h))"

definition cmd_write_law :: "'b regmap \<Rightarrow> 'b cmd_view \<Rightarrow> nat \<Rightarrow> u32 \<Rightarrow> 'b \<Rightarrow> bool" where
  "cmd_write_law rm o' r w h \<longleftrightarrow>
     (let h' = snd (rm_write rm r w h) in
        c_sent o' h' = (if r = DW_IC_DATA_CMD then c_sent o' h @ [w] else c_sent o' h) \<and>
        c_mask o' h' = (if r = DW_IC_INTR_MASK then w else c_mask o' h) \<and>
        c_level o' h' \<le> c_level o' h + (if r = DW_IC_DATA_CMD then 1 else 0) \<and>
        (c_over o' h' \<longrightarrow> c_over o' h \<or> r = DW_IC_DATA_CMD \<and> c_depth o' \<le> c_level o' h))"

text \<open>A function of the world that sends nothing and fills nothing.\<close>

definition cmd_quiet :: "'b cmd_view \<Rightarrow> 'b \<Rightarrow> 'b \<Rightarrow> bool" where
  "cmd_quiet o' h h' \<longleftrightarrow> c_sent o' h' = c_sent o' h \<and> c_level o' h' \<le> c_level o' h \<and> (c_over o' h' \<longrightarrow> c_over o' h)"

definition cmd_port :: "'b regmap \<Rightarrow> 'b cmd_view \<Rightarrow> bool" where
  "cmd_port rm o' \<longleftrightarrow> (\<forall>r h. cmd_read_law rm o' r h) \<and> (\<forall>r w h. cmd_write_law rm o' r w h)
     \<and> (\<forall>h. c_level o' h \<le> c_depth o') \<and> c_depth o' \<le> 256
     \<and> (\<forall>r m v h. cmd_quiet o' h (snd (rm_update_bits rm r m v h)))
     \<and> (\<forall>r p h. cmd_quiet o' h (snd (snd (rm_poll rm r p h))))"

section \<open>The command stream of a transfer\<close>

definition is_read :: "i2c_msg \<Rightarrow> bool" where
  "is_read m \<longleftrightarrow> msg_flags m AND I2C_M_RD \<noteq> 0"

text \<open>The commands of message number \<open>i\<close>, restart bit apart.\<close>

definition msg_cmds :: "i2c_msg list \<Rightarrow> nat \<Rightarrow> u32 list" where
  "msg_cmds ms i =
     map (\<lambda>j. (if Suc i = length ms \<and> Suc j = unat (msg_len (ms ! i)) then BIT 9 else 0)
              OR (if is_read (ms ! i) then 0x100 else ucast (msg_buf (ms ! i) ! j)))
       [0..<unat (msg_len (ms ! i))]"

definition cmds_from :: "i2c_msg list \<Rightarrow> nat \<Rightarrow> u32 list" where
  "cmds_from ms i = concat (map (msg_cmds ms) [i..<length ms])"

definition no_restart :: "u32 \<Rightarrow> u32" where
  "no_restart c = c AND NOT (BIT 10)"

lemma cmds_from_step: "i < length ms \<Longrightarrow> cmds_from ms i = msg_cmds ms i @ cmds_from ms (Suc i)"
  by (simp add: cmds_from_def upt_conv_Cons)

lemma cmds_from_end: "cmds_from ms (length ms) = []"
  by (simp add: cmds_from_def)

lemma length_msg_cmds: "length (msg_cmds ms i) = unat (msg_len (ms ! i))"
  by (simp add: msg_cmds_def)

lemma no_restart_simps:
  "no_restart (((if p then BIT 9 else 0) OR (if q then BIT 10 else 0)) OR 0x100) = (if p then BIT 9 else 0) OR 0x100"
  "no_restart (((if p then BIT 9 else 0) OR (if q then BIT 10 else 0)) OR ucast (b :: u8)) = (if p then BIT 9 else 0) OR ucast b"
proof -
  have 1: "BIT 9 = 0x200" "BIT 10 = 0x400" by (simp_all add: BIT_def)
  show "no_restart (((if p then BIT 9 else 0) OR (if q then BIT 10 else 0)) OR 0x100) = (if p then BIT 9 else 0) OR 0x100"
    by (simp add: no_restart_def 1)
  have "\<not> bit (ucast b :: u32) 10" by (auto simp: bit_unsigned_iff dest: bit_imp_le_length)
  then show "no_restart (((if p then BIT 9 else 0) OR (if q then BIT 10 else 0)) OR ucast (b :: u8)) = (if p then BIT 9 else 0) OR ucast b"
    unfolding no_restart_def by (intro bit_word_eqI) (auto simp: bit_or_iff bit_and_iff bit_not_iff bit_BIT)
qed

section \<open>The invariant of a transfer\<close>

text \<open>Receiving changes the buffers of read messages only.\<close>

definition same_msg :: "i2c_msg \<Rightarrow> i2c_msg \<Rightarrow> bool" where
  "same_msg m m' \<longleftrightarrow> msg_addr m' = msg_addr m \<and> msg_flags m' = msg_flags m \<and> msg_len m' = msg_len m
     \<and> length (msg_buf m') = length (msg_buf m) \<and> (\<not> is_read m \<longrightarrow> msg_buf m' = msg_buf m)"

definition good_msg :: "i2c_msg \<Rightarrow> bool" where
  "good_msg m \<longleftrightarrow> unat (msg_len m) \<le> length (msg_buf m) \<and> msg_flags m AND I2C_M_RECV_LEN = 0"

definition same_msgs :: "i2c_msg list \<Rightarrow> ('b, 's) dw_i2c_dev \<Rightarrow> bool" where
  "same_msgs ms d \<longleftrightarrow> length (msgs d) = length ms \<and> (\<forall>i < length ms. same_msg (ms ! i) (msg_at i d) \<and> good_msg (ms ! i))"

definition writing :: "('b, 's) dw_i2c_dev \<Rightarrow> bool" where
  "writing d \<longleftrightarrow> dw_status d AND STATUS_WRITE_IN_PROGRESS \<noteq> 0"

definition reading :: "('b, 's) dw_i2c_dev \<Rightarrow> bool" where
  "reading d \<longleftrightarrow> dw_status d AND STATUS_READ_IN_PROGRESS \<noteq> 0"

definition tx_pos :: "i2c_msg list \<Rightarrow> nat \<Rightarrow> u32 \<Rightarrow> nat" where
  "tx_pos ms i n = unat (msg_len (ms ! i)) - unat n"

text \<open>The transmit cursor: inside a message, \<open>n\<close> bytes before its end.  For a read message the pointer
  stays at the start of the buffer.\<close>

definition tx_cursor :: "i2c_msg list \<Rightarrow> nat \<Rightarrow> nat \<times> nat \<Rightarrow> u32 \<Rightarrow> bool" where
  "tx_cursor ms i buf n \<longleftrightarrow> i < length ms \<and> unat n \<le> unat (msg_len (ms ! i))
     \<and> buf = (i, if is_read (ms ! i) then 0 else tx_pos ms i n)"

definition todo :: "i2c_msg list \<Rightarrow> ('b, 's) dw_i2c_dev \<Rightarrow> u32 list" where
  "todo ms d = (if writing d then drop (tx_pos ms (msg_write_idx d) (tx_buf_len d)) (msg_cmds ms (msg_write_idx d))
                                  @ cmds_from ms (Suc (msg_write_idx d))
                else cmds_from ms (msg_write_idx d))"

definition rx_cursor :: "i2c_msg list \<Rightarrow> nat \<Rightarrow> nat \<times> nat \<Rightarrow> u32 \<Rightarrow> bool" where
  "rx_cursor ms i buf n \<longleftrightarrow> i < length ms \<and> is_read (ms ! i) \<and> fst buf = i \<and> snd buf + unat n \<le> unat (msg_len (ms ! i))"

record 'b xfer_spec =
  x_view :: "'b cmd_view"
  x_msgs :: "i2c_msg list"
  x_base :: "u32 list"
  x_acquire :: "('b \<Rightarrow> int \<times> 'b) option"
  x_release :: "('b \<Rightarrow> 'b) option"

text \<open>The commands sent since the transfer began, restart bits apart.\<close>

definition sent_since :: "'b xfer_spec \<Rightarrow> 'b \<Rightarrow> u32 list" where
  "sent_since x h = map no_restart (drop (length (x_base x)) (c_sent (x_view x) h))"

definition fifo_inv :: "'b xfer_spec \<Rightarrow> ('b, 's) dw_i2c_dev \<Rightarrow> bool" where
  "fifo_inv x d \<longleftrightarrow> \<not> c_over (x_view x) (hw d) \<and> rx_outstanding d \<le> int (unat (rx_fifo_depth d))
     \<and> (\<exists>s. c_sent (x_view x) (hw d) = x_base x @ s)
     \<and> unat (tx_fifo_depth d) \<le> c_depth (x_view x) \<and> unat (rx_fifo_depth d) \<le> 256"

definition tx_inv :: "'b xfer_spec \<Rightarrow> ('b, 's) dw_i2c_dev \<Rightarrow> bool" where
  "tx_inv x d \<longleftrightarrow> msg_write_idx d \<le> length (x_msgs x) \<and> msg_err d \<le> 0
     \<and> (writing d \<longrightarrow> tx_cursor (x_msgs x) (msg_write_idx d) (tx_buf d) (tx_buf_len d))
     \<and> (cmd_err d = 0 \<longrightarrow> sent_since x (hw d) @ todo (x_msgs x) d = cmds_from (x_msgs x) 0)"

text \<open>Between interrupts: a transfer without error that is not inside a message is complete or not begun.\<close>

definition settled :: "'b xfer_spec \<Rightarrow> ('b, 's) dw_i2c_dev \<Rightarrow> bool" where
  "settled x d \<longleftrightarrow> (cmd_err d = 0 \<and> msg_err d = 0 \<and> \<not> writing d \<longrightarrow> msg_write_idx d = length (x_msgs x) \<or> sent_since x (hw d) = [])"

definition rx_inv :: "'b xfer_spec \<Rightarrow> ('b, 's) dw_i2c_dev \<Rightarrow> bool" where
  "rx_inv x d \<longleftrightarrow> (reading d \<longrightarrow> rx_cursor (x_msgs x) (msg_read_idx d) (rx_buf d) (rx_buf_len d))"

text \<open>The interrupt for an empty transmit FIFO is off once all messages were written.\<close>

definition mask_inv :: "'b xfer_spec \<Rightarrow> ('b, 's) dw_i2c_dev \<Rightarrow> bool" where
  "mask_inv x d \<longleftrightarrow> (msg_write_idx d = length (x_msgs x) \<longrightarrow> c_mask (x_view x) (hw d) AND DW_IC_INTR_TX_EMPTY = 0)"

definition lock_ok :: "'b xfer_spec \<Rightarrow> ('b, 's) dw_i2c_dev \<Rightarrow> bool" where
  "lock_ok x d \<longleftrightarrow> acquire_lock d = x_acquire x \<and> release_lock d = x_release x"

definition xfer_core :: "'b regmap \<Rightarrow> 'b xfer_spec \<Rightarrow> ('b, 's) dw_i2c_dev \<Rightarrow> bool" where
  "xfer_core rm x d \<longleftrightarrow> reg_map d = Some rm \<and> same_msgs (x_msgs x) d \<and> fifo_inv x d \<and> tx_inv x d \<and> rx_inv x d \<and> lock_ok x d"

definition xfer_inv :: "'b regmap \<Rightarrow> 'b xfer_spec \<Rightarrow> ('b, 's) dw_i2c_dev \<Rightarrow> bool" where
  "xfer_inv rm x d \<longleftrightarrow> xfer_core rm x d \<and> settled x d \<and> mask_inv x d"

text \<open>Steps of the world that send nothing.\<close>

lemma core_quiet:
  assumes "xfer_core rm x d" and "cmd_quiet (x_view x) (hw d) h"
  shows "xfer_core rm x (d\<lparr>hw := h\<rparr>)"
  using assms by (auto simp: xfer_core_def lock_ok_def same_msgs_def msg_at_def fifo_inv_def tx_inv_def rx_inv_def cmd_quiet_def
      sent_since_def todo_def writing_def reading_def)

lemma read_quiet:
  assumes "cmd_port rm o'" and "reg_map d = Some rm" and "reg_value r d = (v, d')"
  obtains h where "d' = d\<lparr>hw := h\<rparr>" and "cmd_quiet o' (hw d) h" and "c_mask o' h = c_mask o' (hw d)"
    and "r = DW_IC_TXFLR \<Longrightarrow> unat v = c_level o' h" and "r = DW_IC_INTR_STAT \<Longrightarrow> v AND NOT (c_mask o' (hw d)) = 0"
    and "r = DW_IC_INTR_MASK \<Longrightarrow> v = c_mask o' (hw d)"
proof -
  obtain ret h where h: "rm_read rm r (hw d) = (ret, v, h)" and d': "d' = d\<lparr>hw := h\<rparr>"
    using assms(2,3) by (auto simp: reg_value_def regmap_read_def split: prod.splits)
  have law: "cmd_read_law rm o' r (hw d)" using assms(1) by (simp add: cmd_port_def)
  show thesis
    by (rule that [OF d']) (use law h in \<open>auto simp: cmd_read_law_def cmd_quiet_def\<close>)
qed

lemma write_quiet:
  assumes "cmd_port rm o'" and "reg_map d = Some rm" and "r \<noteq> DW_IC_DATA_CMD"
  obtains h where "regmap_write r v d = d\<lparr>hw := h\<rparr>" and "cmd_quiet o' (hw d) h"
    and "c_mask o' h = (if r = DW_IC_INTR_MASK then v else c_mask o' (hw d))"
proof -
  have law: "cmd_write_law rm o' r v (hw d)" using assms(1) by (simp add: cmd_port_def)
  show thesis
    by (rule that [of "snd (rm_write rm r v (hw d))"])
       (use law assms(2,3) in \<open>auto simp: regmap_write_def cmd_write_law_def cmd_quiet_def Let_def\<close>)
qed

section \<open>Pushing commands\<close>

lemma unat_pred: "n \<noteq> 0 \<Longrightarrow> unat (n - 1) = unat n - 1"
  by (simp add: unat_minus_one)

lemma tx_pos_pred:
  assumes "n \<noteq> 0" and "unat n \<le> unat (msg_len (ms ! i))"
  shows "tx_pos ms i (n - 1) = Suc (tx_pos ms i n)" and "tx_pos ms i n < unat (msg_len (ms ! i))"
proof -
  have "0 < unat n" using assms(1) by (simp add: unat_gt_0)
  with assms show "tx_pos ms i (n - 1) = Suc (tx_pos ms i n)" "tx_pos ms i n < unat (msg_len (ms ! i))"
    by (simp_all add: tx_pos_def unat_pred)
qed

lemma same_msgs_reads:
  "same_msgs ms d \<Longrightarrow> msg_write_idx d < length ms \<Longrightarrow> reads_now d \<longleftrightarrow> is_read (ms ! msg_write_idx d)"
  by (auto simp: same_msgs_def same_msg_def reads_now_def is_read_def)

lemma load_byte_ok:
  assumes "same_msgs ms d" and "tx_cursor ms (msg_write_idx d) buf n" and "n \<noteq> 0" and "\<not> is_read (ms ! msg_write_idx d)"
  shows "load_byte buf d = Some (msg_buf (ms ! msg_write_idx d) ! tx_pos ms (msg_write_idx d) n)"
proof -
  let ?i = "msg_write_idx d"
  have i: "?i < length ms" "buf = (?i, tx_pos ms ?i n)" "unat n \<le> unat (msg_len (ms ! ?i))"
    using assms(2,4) by (simp_all add: tx_cursor_def)
  have m: "same_msg (ms ! ?i) (msg_at ?i d)" "good_msg (ms ! ?i)" "length (msgs d) = length ms"
    using assms(1) i(1) by (simp_all add: same_msgs_def)
  have "tx_pos ms ?i n < length (msg_buf (ms ! ?i))"
    using tx_pos_pred(2) [OF assms(3) i(3)] m(2) by (simp add: good_msg_def)
  with m i(1) assms(4) show ?thesis by (simp add: load_byte_def i(2) same_msg_def)
qed

text \<open>The command word for the byte at the cursor is the next command of the stream.\<close>

lemma next_cmd:
  assumes "same_msgs ms d" and "tx_cursor ms (msg_write_idx d) buf n" and "n \<noteq> 0"
    and "flags = msg_flags (ms ! msg_write_idx d)"
    and "x = (if is_read (ms ! msg_write_idx d) then 0x100 else ucast (msg_buf (ms ! msg_write_idx d) ! tx_pos ms (msg_write_idx d) n))"
  shows "drop (tx_pos ms (msg_write_idx d) n) (msg_cmds ms (msg_write_idx d)) =
     no_restart (cmd_bits flags n nr d OR x) # drop (tx_pos ms (msg_write_idx d) (n - 1)) (msg_cmds ms (msg_write_idx d))"
proof -
  let ?i = "msg_write_idx d" and ?p = "tx_pos ms (msg_write_idx d) n"
  have i: "?i < length ms" "unat n \<le> unat (msg_len (ms ! ?i))" using assms(2) by (simp_all add: tx_cursor_def)
  have len: "length (msgs d) = length ms" and g: "flags AND I2C_M_RECV_LEN = 0"
    using assms(1,4) i(1) by (simp_all add: same_msgs_def good_msg_def)
  have p: "?p < unat (msg_len (ms ! ?i))" "tx_pos ms ?i (n - 1) = Suc ?p"
    using tx_pos_pred [OF assms(3) i(2)] by simp_all
  have one: "n = 1 \<longleftrightarrow> unat n = 1" by (metis unsigned_1 word_unat_eq_iff)
  have last: "n = 1 \<longleftrightarrow> Suc ?p = unat (msg_len (ms ! ?i))"
    using i(2) p(1) assms(3) by (auto simp: one tx_pos_def)
  have "no_restart (cmd_bits flags n nr d OR x) = msg_cmds ms ?i ! ?p"
    using p(1) by (cases "is_read (ms ! ?i)") (simp_all add: cmd_bits_def no_restart_simps msg_cmds_def assms(5) len g last)
  then show ?thesis
    using Cons_nth_drop_Suc [of ?p "msg_cmds ms ?i"] p by (simp add: length_msg_cmds)
qed

lemma cursor_read:
  assumes "tx_cursor ms i buf n" and "n \<noteq> 0" and "is_read (ms ! i)"
  shows "tx_cursor ms i buf (n - 1)"
  using assms by (auto simp: tx_cursor_def unat_pred)

lemma cursor_write:
  assumes "tx_cursor ms i buf n" and "n \<noteq> 0" and "\<not> is_read (ms ! i)"
  shows "tx_cursor ms i (fst buf, Suc (snd buf)) (n - 1)"
  using assms tx_pos_pred(1) [OF assms(2), of ms i] by (auto simp: tx_cursor_def unat_pred)

lemma push_read_map: "reg_map (push_read c d) = reg_map d" "msg_write_idx (push_read c d) = msg_write_idx d"
  "msgs (push_read c d) = msgs d" "rx_fifo_depth (push_read c d) = rx_fifo_depth d"
  by (simp_all add: push_read_def regmap_write_def)

lemma regmap_write_map: "reg_map (regmap_write r c d) = reg_map d" "msg_write_idx (regmap_write r c d) = msg_write_idx d"
  "msgs (regmap_write r c d) = msgs d" "rx_fifo_depth (regmap_write r c d) = rx_fifo_depth d"
  "rx_outstanding (regmap_write r c d) = rx_outstanding d"
  by (simp_all add: regmap_write_def)

lemma same_msgs_cong: "msgs d' = msgs d \<Longrightarrow> same_msgs ms d' = same_msgs ms d"
  by (simp add: same_msgs_def msg_at_def)

lemma pump_total:
  assumes "same_msgs ms d" and "tx_cursor ms (msg_write_idx d) buf n"
  shows "\<exists>r. pump flags buf n txl rxl nr d = Some r"
  using assms
proof (induction flags buf n txl rxl nr d rule: pump.induct)
  case (1 flags buf n txl rxl nr d)
  have i: "msg_write_idx d < length ms" using "1.prems"(2) by (simp add: tx_cursor_def)
  note rd = same_msgs_reads [OF "1.prems"(1) i]
  show ?case
  proof (cases "n = 0 \<or> txl \<le> 0 \<or> rxl \<le> 0")
    case True
    then show ?thesis by (subst pump.simps) simp
  next
    case False
    note go = False
    then have n: "n \<noteq> 0" by simp
    show ?thesis
    proof (cases "reads_now d")
      case True
      note r = True
      show ?thesis
      proof (cases "rx_fifo_depth d \<le> word_of_int (rx_outstanding d)")
        case True
        with r go show ?thesis by (subst pump.simps) auto
      next
        case False
        have "\<exists>r. pump flags buf (n - 1) (txl - 1) (rxl - 1) False (push_read (cmd_bits flags n nr d) d) = Some r"
          by (rule "1.IH"(1) [OF go r False])
             (simp_all add: same_msgs_cong [OF push_read_map(3)] push_read_map "1.prems" cursor_read n rd [symmetric] r)
        with r go False show ?thesis by (subst pump.simps) simp
      qed
    next
      case False
      note b = load_byte_ok [OF "1.prems" n] False
      then have b: "load_byte buf d = Some (msg_buf (ms ! msg_write_idx d) ! tx_pos ms (msg_write_idx d) n)" by (simp add: rd)
      have "\<exists>r. pump flags (fst buf, Suc (snd buf)) (n - 1) (txl - 1) rxl False
          (regmap_write DW_IC_DATA_CMD (cmd_bits flags n nr d OR ucast (msg_buf (ms ! msg_write_idx d) ! tx_pos ms (msg_write_idx d) n)) d) = Some r"
        by (rule "1.IH"(2) [OF go False b])
           (use "1.prems" n False in \<open>simp_all add: same_msgs_cong [OF regmap_write_map(3)] regmap_write_map cursor_write rd\<close>)
      with False go b show ?thesis by (subst pump.simps) simp
    qed
  qed
qed

text \<open>What one push does to the observations.\<close>

lemma push_obs:
  assumes "cmd_port rm o'" and "reg_map d = Some rm" and "c_level o' (hw d) < c_depth o'" and "\<not> c_over o' (hw d)"
  shows "c_sent o' (hw (regmap_write DW_IC_DATA_CMD w d)) = c_sent o' (hw d) @ [w]
    \<and> c_mask o' (hw (regmap_write DW_IC_DATA_CMD w d)) = c_mask o' (hw d)
    \<and> c_level o' (hw (regmap_write DW_IC_DATA_CMD w d)) \<le> Suc (c_level o' (hw d))
    \<and> \<not> c_over o' (hw (regmap_write DW_IC_DATA_CMD w d))"
proof -
  have "cmd_write_law rm o' DW_IC_DATA_CMD w (hw d)" using assms(1) by (simp add: cmd_port_def)
  with assms(2-4) show ?thesis
    by (auto simp: cmd_write_law_def regmap_write_def Let_def dw_reg_defs)
qed

lemma outstanding_bound:
  assumes "word_of_int k < (D :: u32)" and "k \<le> int (unat D)"
  shows "k + 1 \<le> int (unat D)"
proof (cases "0 \<le> k")
  case True
  have "k < 2 ^ 32" using assms(2) uint_lt2p [of D] by simp
  with True have "uint (word_of_int k :: u32) = k" by (simp add: uint_word_of_int)
  with assms(1) show ?thesis by (simp add: word_less_def)
next
  case False
  then have "k + 1 \<le> 0" by simp
  then show ?thesis by (rule order_trans) simp
qed

lemma pump_spec:
  assumes "pump flags buf n txl rxl nr d = Some (buf', n', nr', d')"
    and "cmd_port rm o'" and "reg_map d = Some rm" and "same_msgs ms d" and "tx_cursor ms (msg_write_idx d) buf n"
    and "flags = msg_flags (ms ! msg_write_idx d)" and "txl \<le> int (c_depth o') - int (c_level o' (hw d))"
    and "\<not> c_over o' (hw d)" and "rx_outstanding d \<le> int (unat (rx_fifo_depth d))"
  shows "tx_cursor ms (msg_write_idx d) buf' n' \<and> \<not> c_over o' (hw d') \<and> rx_outstanding d' \<le> int (unat (rx_fifo_depth d))
    \<and> c_mask o' (hw d') = c_mask o' (hw d)
    \<and> (\<exists>s. c_sent o' (hw d') = c_sent o' (hw d) @ s \<and>
         map no_restart s @ drop (tx_pos ms (msg_write_idx d) n') (msg_cmds ms (msg_write_idx d))
           = drop (tx_pos ms (msg_write_idx d) n) (msg_cmds ms (msg_write_idx d)))"
  using assms
proof (induction rule: pump_induct)
  case (stop buf n txl rxl nr nr' d)
  then show ?case by auto
next
  case (rd buf n txl rxl nr d buf' n' nr' d')
  let ?i = "msg_write_idx d" and ?c = "cmd_bits flags n nr d OR 0x100"
  let ?d = "push_read (cmd_bits flags n nr d) d"
  note pre = rd.prems
  have i: "?i < length ms" using pre(4) by (simp add: tx_cursor_def)
  have r: "is_read (ms ! ?i)" using same_msgs_reads [OF pre(3) i] rd(4) by simp
  have lt: "c_level o' (hw d) < c_depth o'" using pre(6) rd(2) by simp
  have hw: "hw ?d = hw (regmap_write DW_IC_DATA_CMD ?c d)" by (simp add: push_read_def)
  note obs = push_obs [OF pre(1,2) lt pre(7), of ?c, folded hw]
  have IH: "tx_cursor ms ?i buf' n' \<and> \<not> c_over o' (hw d') \<and> rx_outstanding d' \<le> int (unat (rx_fifo_depth d))
    \<and> c_mask o' (hw d') = c_mask o' (hw ?d)
    \<and> (\<exists>s. c_sent o' (hw d') = c_sent o' (hw ?d) @ s \<and>
         map no_restart s @ drop (tx_pos ms ?i n') (msg_cmds ms ?i) = drop (tx_pos ms ?i (n - 1)) (msg_cmds ms ?i))"
  proof (rule rd(6) [unfolded push_read_map])
    show "txl - 1 \<le> int (c_depth o') - int (c_level o' (hw ?d))" using pre(6) obs by simp
    show "rx_outstanding ?d \<le> int (unat (rx_fifo_depth d))"
      using outstanding_bound [OF rd(5) pre(8)] by (simp add: push_read_def)
  qed (use pre rd(1) obs cursor_read [OF pre(4) rd(1) r] in \<open>simp_all add: same_msgs_cong [OF push_read_map(3)]\<close>)
  then obtain s where s: "c_sent o' (hw d') = c_sent o' (hw ?d) @ s"
    "map no_restart s @ drop (tx_pos ms ?i n') (msg_cmds ms ?i) = drop (tx_pos ms ?i (n - 1)) (msg_cmds ms ?i)" by blast
  have "drop (tx_pos ms ?i n) (msg_cmds ms ?i) = no_restart ?c # drop (tx_pos ms ?i (n - 1)) (msg_cmds ms ?i)"
    by (rule next_cmd [OF pre(3,4) rd(1) pre(5)]) (simp add: r)
  with s obs IH show ?case by (intro conjI exI [of _ "?c # s"]) simp_all
next
  case (wr buf n txl rxl nr d b buf' n' nr' d')
  let ?i = "msg_write_idx d" and ?c = "cmd_bits flags n nr d OR ucast b"
  let ?d = "regmap_write DW_IC_DATA_CMD ?c d"
  note pre = wr.prems
  have i: "?i < length ms" using pre(4) by (simp add: tx_cursor_def)
  have r: "\<not> is_read (ms ! ?i)" using same_msgs_reads [OF pre(3) i] wr(4) by simp
  have lt: "c_level o' (hw d) < c_depth o'" using pre(6) wr(2) by simp
  note obs = push_obs [OF pre(1,2) lt pre(7), of ?c]
  have b: "b = msg_buf (ms ! ?i) ! tx_pos ms ?i n" using load_byte_ok [OF pre(3,4) wr(1) r] wr(5) by simp
  have IH: "tx_cursor ms ?i buf' n' \<and> \<not> c_over o' (hw d') \<and> rx_outstanding d' \<le> int (unat (rx_fifo_depth d))
    \<and> c_mask o' (hw d') = c_mask o' (hw ?d)
    \<and> (\<exists>s. c_sent o' (hw d') = c_sent o' (hw ?d) @ s \<and>
         map no_restart s @ drop (tx_pos ms ?i n') (msg_cmds ms ?i) = drop (tx_pos ms ?i (n - 1)) (msg_cmds ms ?i))"
  proof (rule wr(6) [unfolded regmap_write_map])
    show "txl - 1 \<le> int (c_depth o') - int (c_level o' (hw ?d))" using pre(6) obs by simp
  qed (use pre wr(1) obs cursor_write [OF pre(4) wr(1) r] in \<open>simp_all add: same_msgs_cong [OF regmap_write_map(3)]\<close>)
  then obtain s where s: "c_sent o' (hw d') = c_sent o' (hw ?d) @ s"
    "map no_restart s @ drop (tx_pos ms ?i n') (msg_cmds ms ?i) = drop (tx_pos ms ?i (n - 1)) (msg_cmds ms ?i)" by blast
  have "drop (tx_pos ms ?i n) (msg_cmds ms ?i) = no_restart ?c # drop (tx_pos ms ?i (n - 1)) (msg_cmds ms ?i)"
    by (rule next_cmd [OF pre(3,4) wr(1) pre(5)]) (simp add: r b)
  with s obs IH show ?case by (intro conjI exI [of _ "?c # s"]) simp_all
qed

section \<open>The transmit interrupt\<close>

lemma limit_eq:
  assumes "unat depth \<le> 256" and "unat flr \<le> 256"
  shows "limit depth flr = int (unat depth) - int (unat flr)"
proof -
  let ?k = "int (unat depth) - int (unat flr)"
  have eq: "depth - flr = word_of_int ?k" by simp
  have "signed_take_bit 31 ?k = ?k"
    using assms by (intro signed_take_bit_int_eq_self) (auto simp del: of_nat_unat)
  moreover have "sint (word_of_int ?k :: u32) = signed_take_bit 31 ?k"
    by (subst sint_sbintrunc') simp
  ultimately show ?thesis unfolding limit_def eq by (simp only:)
qed

lemma pump_msg_spec:
  assumes "cmd_port rm (x_view x)" and "reg_map d = Some rm" and "same_msgs (x_msgs x) d" and "fifo_inv x d"
    and "msg_write_idx d < length (x_msgs x)" and "writing d \<longrightarrow> tx_cursor (x_msgs x) (msg_write_idx d) buf n"
  shows "\<exists>buf' n' nr' d' s. pump_msg buf n nr d = Some (buf', n', nr', d') \<and> same_xfer d d'
    \<and> tx_cursor (x_msgs x) (msg_write_idx d) buf' n' \<and> fifo_inv x d' \<and> c_mask (x_view x) (hw d') = c_mask (x_view x) (hw d)
    \<and> c_sent (x_view x) (hw d') = c_sent (x_view x) (hw d) @ s
    \<and> map no_restart s @ drop (tx_pos (x_msgs x) (msg_write_idx d) n') (msg_cmds (x_msgs x) (msg_write_idx d))
        = (if writing d then drop (tx_pos (x_msgs x) (msg_write_idx d) n) (msg_cmds (x_msgs x) (msg_write_idx d))
           else msg_cmds (x_msgs x) (msg_write_idx d))"
proof -
  let ?o = "x_view x" and ?ms = "x_msgs x" and ?i = "msg_write_idx d"
  let ?m = "msg_at ?i d"
  have m: "same_msg (?ms ! ?i) ?m" using assms(3,5) by (simp add: same_msgs_def)
  define buf1 where "buf1 = (if writing d then buf else (?i, 0))"
  define n1 where "n1 = (if writing d then n else (ucast (msg_len (?ms ! ?i)) :: u32))"
  have un: "unat (ucast (msg_len (?ms ! ?i)) :: u32) = unat (msg_len (?ms ! ?i))"
    by (simp add: unsigned_ucast_eq take_bit_nat_eq_self unsigned_less [where 'a = nat, THEN order_less_trans])
  have cur: "tx_cursor ?ms ?i buf1 n1"
    using assms(5,6) un by (simp add: buf1_def n1_def tx_cursor_def tx_pos_def)
  have start: "drop (tx_pos ?ms ?i n1) (msg_cmds ?ms ?i) =
      (if writing d then drop (tx_pos ?ms ?i n) (msg_cmds ?ms ?i) else msg_cmds ?ms ?i)"
    using un by (simp add: n1_def tx_pos_def)
  obtain flr d1 where d1: "reg_value DW_IC_TXFLR d = (flr, d1)" by (cases "reg_value DW_IC_TXFLR d")
  obtain h1 where h1: "d1 = d\<lparr>hw := h1\<rparr>" "cmd_quiet ?o (hw d) h1" "c_mask ?o h1 = c_mask ?o (hw d)" "unat flr = c_level ?o h1"
    by (rule read_quiet [OF assms(1,2) d1]) blast
  have map1: "reg_map d1 = Some rm" using h1(1) assms(2) by simp
  obtain rflr d2 where d2: "reg_value DW_IC_RXFLR d1 = (rflr, d2)" by (cases "reg_value DW_IC_RXFLR d1")
  obtain h2 where h2: "d2 = d1\<lparr>hw := h2\<rparr>" "cmd_quiet ?o (hw d1) h2" "c_mask ?o h2 = c_mask ?o (hw d1)"
    by (rule read_quiet [OF assms(1) map1 d2]) blast
  have eq2: "d2 = d\<lparr>hw := h2\<rparr>" using h1(1) h2(1) by simp
  have q2: "c_sent ?o h2 = c_sent ?o (hw d)" "c_over ?o h2 \<longrightarrow> c_over ?o (hw d)" "c_level ?o h2 \<le> unat flr"
    "c_mask ?o h2 = c_mask ?o (hw d)"
    using h1 h2 by (auto simp: cmd_quiet_def)
  have dep: "c_depth ?o \<le> 256" "c_level ?o h1 \<le> c_depth ?o" using assms(1) by (simp_all add: cmd_port_def)
  have f: "unat (tx_fifo_depth d) \<le> c_depth ?o" "\<not> c_over ?o (hw d)" "rx_outstanding d \<le> int (unat (rx_fifo_depth d))"
    "unat (rx_fifo_depth d) \<le> 256" using assms(4) by (simp_all add: fifo_inv_def)
  have lim: "limit (tx_fifo_depth d) flr \<le> int (c_depth ?o) - int (c_level ?o h2)"
    using limit_eq [of "tx_fifo_depth d" flr] f(1) dep q2(3) h1(4) by (simp del: of_nat_unat)
  let ?nr = "if \<not> writing d \<and> master_cfg d AND DW_IC_CON_RESTART_EN \<noteq> 0 \<and> 0 < ?i then True else nr"
  let ?rxl = "limit (rx_fifo_depth d) rflr"
  have body: "pump_msg buf n nr d = pump (msg_flags (?ms ! ?i)) buf1 n1 (limit (tx_fifo_depth d) flr) ?rxl ?nr (d\<lparr>hw := h2\<rparr>)"
    using m by (simp add: pump_msg_def d1 d2 [unfolded h1(1)] h1(1) h2(1) Let_def buf1_def n1_def writing_def same_msg_def)
  have pre: "same_msgs ?ms (d\<lparr>hw := h2\<rparr>)" "tx_cursor ?ms (msg_write_idx (d\<lparr>hw := h2\<rparr>)) buf1 n1" "reg_map (d\<lparr>hw := h2\<rparr>) = Some rm"
    "\<not> c_over ?o (hw (d\<lparr>hw := h2\<rparr>))"
    using assms(2,3) cur q2(2) f(2) by (simp_all add: same_msgs_def msg_at_def)
  obtain buf' n' nr' d' where p: "pump (msg_flags (?ms ! ?i)) buf1 n1 (limit (tx_fifo_depth d) flr) ?rxl ?nr (d\<lparr>hw := h2\<rparr>)
      = Some (buf', n', nr', d')"
    using pump_total [OF pre(1,2)] by (metis prod.exhaust)
  have sx: "same_xfer d d'"
    using same_xfer_trans [OF same_xfer_read [OF d1] same_xfer_trans [OF same_xfer_read [OF d2] pump_same [OF p [folded eq2]]]] .
  have sp: "tx_cursor ?ms ?i buf' n' \<and> \<not> c_over ?o (hw d') \<and> rx_outstanding d' \<le> int (unat (rx_fifo_depth d))
    \<and> c_mask ?o (hw d') = c_mask ?o h2
    \<and> (\<exists>s. c_sent ?o (hw d') = c_sent ?o h2 @ s \<and>
         map no_restart s @ drop (tx_pos ?ms ?i n') (msg_cmds ?ms ?i) = drop (tx_pos ?ms ?i n1) (msg_cmds ?ms ?i))"
    using pump_spec [OF p assms(1) pre(3,1,2) _ _ pre(4)] lim f(3) by simp
  then obtain s where s: "c_sent ?o (hw d') = c_sent ?o (hw d) @ s"
    "map no_restart s @ drop (tx_pos ?ms ?i n') (msg_cmds ?ms ?i) = drop (tx_pos ?ms ?i n1) (msg_cmds ?ms ?i)"
    using q2(1) by auto
  obtain s0 where "c_sent ?o (hw d) = x_base x @ s0" using assms(4) by (auto simp: fifo_inv_def)
  then have "c_sent ?o (hw d') = x_base x @ (s0 @ s)" by (simp add: s(1))
  then have "fifo_inv x d'"
    using f sp same_xfer_simps [OF sx] unfolding fifo_inv_def by auto
  with p body sx sp s start q2(4) show ?thesis by (intro exI [of _ buf'] exI [of _ n'] exI [of _ nr'] exI [of _ d'] exI [of _ s]) simp
qed

lemma write_bit:
  "(st OR STATUS_WRITE_IN_PROGRESS) AND STATUS_WRITE_IN_PROGRESS \<noteq> 0"
  "(st AND NOT STATUS_WRITE_IN_PROGRESS) AND STATUS_WRITE_IN_PROGRESS = 0"
  "(st OR STATUS_WRITE_IN_PROGRESS) AND STATUS_READ_IN_PROGRESS = st AND STATUS_READ_IN_PROGRESS"
  "(st AND NOT STATUS_WRITE_IN_PROGRESS) AND STATUS_READ_IN_PROGRESS = st AND STATUS_READ_IN_PROGRESS"
  "(st OR STATUS_READ_IN_PROGRESS) AND STATUS_WRITE_IN_PROGRESS = st AND STATUS_WRITE_IN_PROGRESS"
  "(st AND NOT STATUS_READ_IN_PROGRESS) AND STATUS_WRITE_IN_PROGRESS = st AND STATUS_WRITE_IN_PROGRESS"
  "(st AND NOT STATUS_READ_IN_PROGRESS) AND STATUS_READ_IN_PROGRESS = 0"
  for st :: u32
proof -
  have w: "STATUS_WRITE_IN_PROGRESS = BIT 0" "STATUS_READ_IN_PROGRESS = BIT 1"
    by (simp_all add: STATUS_WRITE_IN_PROGRESS_def STATUS_READ_IN_PROGRESS_def BIT_def)
  show "(st OR STATUS_WRITE_IN_PROGRESS) AND STATUS_WRITE_IN_PROGRESS \<noteq> 0"
    "(st AND NOT STATUS_WRITE_IN_PROGRESS) AND STATUS_WRITE_IN_PROGRESS = 0"
    "(st AND NOT STATUS_READ_IN_PROGRESS) AND STATUS_READ_IN_PROGRESS = 0"
    unfolding w by (subst and_BIT_eq_0; simp add: bit_or_iff bit_and_iff bit_not_iff bit_BIT)+
  show "(st OR STATUS_WRITE_IN_PROGRESS) AND STATUS_READ_IN_PROGRESS = st AND STATUS_READ_IN_PROGRESS"
    "(st AND NOT STATUS_WRITE_IN_PROGRESS) AND STATUS_READ_IN_PROGRESS = st AND STATUS_READ_IN_PROGRESS"
    "(st OR STATUS_READ_IN_PROGRESS) AND STATUS_WRITE_IN_PROGRESS = st AND STATUS_WRITE_IN_PROGRESS"
    "(st AND NOT STATUS_READ_IN_PROGRESS) AND STATUS_WRITE_IN_PROGRESS = st AND STATUS_WRITE_IN_PROGRESS"
    by (intro bit_word_eqI; auto simp: w bit_or_iff bit_and_iff bit_not_iff bit_BIT)+
qed

text \<open>The loop over the messages.\<close>

lemma sent_since_append:
  assumes "fifo_inv x d" and "c_sent (x_view x) h = c_sent (x_view x) (hw d) @ s"
  shows "sent_since x h = sent_since x (hw d) @ map no_restart s"
  using assms by (auto simp: sent_since_def fifo_inv_def)

lemma writing_simps:
  "writing (d\<lparr>dw_status := dw_status d' OR STATUS_WRITE_IN_PROGRESS\<rparr>)"
  "\<not> writing (d\<lparr>dw_status := dw_status d' AND NOT STATUS_WRITE_IN_PROGRESS\<rparr>)"
proof -
  show "writing (d\<lparr>dw_status := dw_status d' OR STATUS_WRITE_IN_PROGRESS\<rparr>)"
    unfolding writing_def by simp (simp add: STATUS_WRITE_IN_PROGRESS_def)
  show "\<not> writing (d\<lparr>dw_status := dw_status d' AND NOT STATUS_WRITE_IN_PROGRESS\<rparr>)"
    by (simp add: writing_def write_bit)
qed

lemma xfer_loop_spec:
  assumes "cmd_port rm (x_view x)" and "xfer_core rm x d" and "msg_err d = 0"
    and "writing d \<longrightarrow> buf = tx_buf d \<and> n = tx_buf_len d"
  shows "\<exists>d'. xfer_loop addr buf n nr d = Some d' \<and> xfer_core rm x d'
    \<and> (msg_err d' \<noteq> 0 \<or> writing d' \<or> msg_write_idx d' = length (x_msgs x))"
  using assms(2-4)
proof (induction addr buf n nr d rule: xfer_loop.induct)
  case (1 addr buf n nr d)
  let ?o = "x_view x" and ?ms = "x_msgs x" and ?i = "msg_write_idx d"
  have core: "reg_map d = Some rm" "same_msgs ?ms d" "fifo_inv x d" "tx_inv x d" "rx_inv x d" and lock: "lock_ok x d"
    using "1.prems"(1) by (simp_all add: xfer_core_def)
  have len: "msgs_num d = length ?ms" using core(2) by (simp add: same_msgs_def)
  have le: "?i \<le> length ?ms" using core(4) by (simp add: tx_inv_def)
  show ?case
  proof (cases "msgs_num d \<le> ?i")
    case True
    with le len "1.prems"(1) show ?thesis by (subst xfer_loop.simps) simp
  next
    case False
    then have i: "?i < length ?ms" by (simp add: len)
    show ?thesis
    proof (cases "msg_addr (msg_at ?i d) \<noteq> addr")
      case True
      have "xfer_core rm x (d\<lparr>msg_err := - EINVAL\<rparr>)"
        using core lock by (auto simp: xfer_core_def lock_ok_def same_msgs_def msg_at_def fifo_inv_def tx_inv_def rx_inv_def todo_def writing_def reading_def)
      with True False show ?thesis by (subst xfer_loop.simps) simp
    next
      case False
      note addr = False
      have cur: "writing d \<longrightarrow> tx_cursor ?ms ?i buf n"
        using core(4) "1.prems"(3) by (auto simp: tx_inv_def)
      from pump_msg_spec [OF assms(1) core(1-3) i cur] obtain buf' n' nr' d1 s where
        p: "pump_msg buf n nr d = Some (buf', n', nr', d1)" and sx: "same_xfer d d1" and cur': "tx_cursor ?ms ?i buf' n'"
        and fi: "fifo_inv x d1" and mask: "c_mask ?o (hw d1) = c_mask ?o (hw d)"
        and s: "c_sent ?o (hw d1) = c_sent ?o (hw d) @ s"
          "map no_restart s @ drop (tx_pos ?ms ?i n') (msg_cmds ?ms ?i)
           = (if writing d then drop (tx_pos ?ms ?i n) (msg_cmds ?ms ?i) else msg_cmds ?ms ?i)" by metis
      have idx: "msg_write_idx d1 = ?i" "msgs d1 = msgs d" "dw_status d1 = dw_status d" "msg_err d1 = 0" "reg_map d1 = Some rm"
        using same_xfer_simps [OF sx] "1.prems"(2) core(1) by simp_all
      obtain h k where d1: "d1 = d\<lparr>hw := h, rx_outstanding := k\<rparr>" using sx by (auto simp: same_xfer_def)
      have shape: "same_msgs ?ms d1" using core(2) idx(2) by (simp add: same_msgs_def msg_at_def)
      have rx: "rx_inv x d1" using core(5) by (simp add: rx_inv_def reading_def d1)
      have total: "cmd_err d = 0 \<Longrightarrow> sent_since x (hw d1) @ drop (tx_pos ?ms ?i n') (msg_cmds ?ms ?i) @ cmds_from ?ms (Suc ?i)
          = cmds_from ?ms 0"
      proof -
        assume c0: "cmd_err d = 0"
        have "sent_since x (hw d1) @ drop (tx_pos ?ms ?i n') (msg_cmds ?ms ?i) @ cmds_from ?ms (Suc ?i)
            = sent_since x (hw d) @ (map no_restart s @ drop (tx_pos ?ms ?i n') (msg_cmds ?ms ?i)) @ cmds_from ?ms (Suc ?i)"
          by (simp add: sent_since_append [OF core(3) s(1)])
        also have "\<dots> = sent_since x (hw d) @ todo ?ms d"
          using s(2) "1.prems"(3) cmds_from_step [OF i] by (simp add: todo_def)
        also have "\<dots> = cmds_from ?ms 0" using core(4) c0 by (simp add: tx_inv_def)
        finally show ?thesis .
      qed
      have recv: "msg_flags (msg_at ?i d) AND I2C_M_RECV_LEN = 0"
        using core(2) i by (simp add: same_msgs_def good_msg_def same_msg_def)
      let ?d2 = "d1\<lparr>tx_buf := buf', tx_buf_len := n'\<rparr>"
      show ?thesis
      proof (cases "n' = 0")
        case False
        let ?e = "?d2\<lparr>dw_status := dw_status ?d2 OR STATUS_WRITE_IN_PROGRESS\<rparr>"
        have w: "writing ?e" by (rule writing_simps)
        have "tx_inv x ?e"
          using core(4) cur' total w le idx by (simp add: tx_inv_def todo_def) (simp add: d1)
        moreover have "rx_inv x ?e" using rx by (simp add: rx_inv_def reading_def write_bit)
        ultimately have "xfer_core rm x ?e"
          using shape fi idx lock same_xfer_simps [OF sx] by (simp add: xfer_core_def lock_ok_def same_msgs_def msg_at_def fifo_inv_def)
        with p addr i len False w show ?thesis by (subst xfer_loop.simps) (simp add: Let_def)
      next
        case True
        let ?e = "?d2\<lparr>dw_status := dw_status ?d2 AND NOT STATUS_WRITE_IN_PROGRESS, msg_write_idx := Suc (msg_write_idx ?d2)\<rparr>"
        have w: "\<not> writing ?e" by (simp add: writing_def write_bit)
        have "drop (tx_pos ?ms ?i n') (msg_cmds ?ms ?i) = []"
          using True by (simp add: tx_pos_def length_msg_cmds)
        then have tot: "cmd_err d = 0 \<Longrightarrow> sent_since x (hw d1) @ cmds_from ?ms (Suc ?i) = cmds_from ?ms 0"
          using total by simp
        have "tx_inv x ?e" using tot w i idx core(4) by (simp add: tx_inv_def todo_def) (simp add: d1)
        moreover have "rx_inv x ?e" using rx by (simp add: rx_inv_def reading_def write_bit)
        ultimately have ce: "xfer_core rm x ?e"
          using shape fi idx lock same_xfer_simps [OF sx] by (simp add: xfer_core_def lock_ok_def same_msgs_def msg_at_def fifo_inv_def)
        have "\<exists>d'. xfer_loop addr buf' n' nr' ?e = Some d' \<and> xfer_core rm x d'
            \<and> (msg_err d' \<noteq> 0 \<or> writing d' \<or> msg_write_idx d' = length (x_msgs x))"
          by (rule "1.IH") (use addr i len p ce w idx True recv in simp_all)
        then show ?thesis
          using p addr i len True recv by (subst xfer_loop.simps) (simp add: Let_def)
      qed
    qed
  qed
qed

lemma mask_bits:
  "(DW_IC_INTR_MASTER_MASK AND NOT DW_IC_INTR_TX_EMPTY) AND DW_IC_INTR_TX_EMPTY = 0"
  by (simp add: dw_intr_defs)

lemma xfer_msg_spec:
  assumes "cmd_port rm (x_view x)" and "xfer_core rm x d" and "msg_err d = 0" and "msg_write_idx d < length (x_msgs x)"
  shows "\<exists>d'. i2c_dw_xfer_msg d = Some d' \<and> xfer_inv rm x d'"
proof -
  have len: "msgs_num d = length (x_msgs x)" using assms(2) by (simp add: xfer_core_def lock_ok_def same_msgs_def)
  from xfer_loop_spec [OF assms(1-3), of "tx_buf d" "tx_buf_len d" "msg_addr (msg_at (msg_write_idx d) d)" False]
  obtain d1 where d1: "xfer_loop (msg_addr (msg_at (msg_write_idx d) d)) (tx_buf d) (tx_buf_len d) False d = Some d1"
    and core: "xfer_core rm x d1" and fin: "msg_err d1 \<noteq> 0 \<or> writing d1 \<or> msg_write_idx d1 = length (x_msgs x)" by blast
  have len1: "msgs_num d1 = length (x_msgs x)" and map1: "reg_map d1 = Some rm"
    using core by (simp_all add: xfer_core_def lock_ok_def same_msgs_def)
  define v where "v = (if msg_err d1 \<noteq> 0 then 0 else if msg_write_idx d1 = msgs_num d1
     then DW_IC_INTR_MASTER_MASK AND NOT DW_IC_INTR_TX_EMPTY else DW_IC_INTR_MASTER_MASK)"
  have msg: "i2c_dw_xfer_msg d = Some (regmap_write DW_IC_INTR_MASK v d1)"
    using assms(4) by (simp add: i2c_dw_xfer_msg_def len d1 v_def Let_def)
  obtain h where h: "regmap_write DW_IC_INTR_MASK v d1 = d1\<lparr>hw := h\<rparr>" "cmd_quiet (x_view x) (hw d1) h" "c_mask (x_view x) h = v"
    by (rule write_quiet [OF assms(1) map1, of DW_IC_INTR_MASK v]) (auto simp: dw_reg_defs)
  have "xfer_core rm x (d1\<lparr>hw := h\<rparr>)" by (rule core_quiet [OF core h(2)])
  moreover have "settled x (d1\<lparr>hw := h\<rparr>)" using fin by (auto simp: settled_def writing_def)
  moreover have "mask_inv x (d1\<lparr>hw := h\<rparr>)" by (simp add: mask_inv_def h(3) v_def len1 mask_bits)
  ultimately show ?thesis using msg h(1) by (simp add: xfer_inv_def)
qed

section \<open>The receive interrupt\<close>

definition rx_same :: "'b cmd_view \<Rightarrow> ('b, 's) dw_i2c_dev \<Rightarrow> ('b, 's) dw_i2c_dev \<Rightarrow> bool" where
  "rx_same o' d d' \<longleftrightarrow> msg_write_idx d' = msg_write_idx d \<and> writing d' = writing d \<and> msg_err d' = msg_err d
     \<and> cmd_err d' = cmd_err d \<and> cmd_complete d' = cmd_complete d \<and> c_mask o' (hw d') = c_mask o' (hw d)
     \<and> c_sent o' (hw d') = c_sent o' (hw d)"

lemma rx_same_refl: "rx_same o' d d"
  by (simp add: rx_same_def)

lemma rx_same_trans: "rx_same o' a b \<Longrightarrow> rx_same o' b c \<Longrightarrow> rx_same o' a c"
  by (simp add: rx_same_def)

lemma rx_same_inv: "rx_same (x_view x) d d' \<Longrightarrow> settled x d \<and> mask_inv x d \<Longrightarrow> settled x d' \<and> mask_inv x d'"
  by (simp add: rx_same_def settled_def mask_inv_def sent_since_def)

lemma take_byte_spec:
  assumes "cmd_port rm (x_view x)" and "xfer_core rm x d" and "rx_cursor (x_msgs x) (msg_read_idx d) buf n" and "n \<noteq> 0"
  shows "\<exists>d'. take_byte buf n d = Some (n, d') \<and> xfer_core rm x d' \<and> rx_same (x_view x) d d' \<and> msg_read_idx d' = msg_read_idx d
    \<and> dw_status d' = dw_status d"
proof -
  let ?ms = "x_msgs x" and ?i = "msg_read_idx d"
  have core: "reg_map d = Some rm" "same_msgs ?ms d" "fifo_inv x d" "tx_inv x d" "rx_inv x d" and lock: "lock_ok x d"
    using assms(2) by (simp_all add: xfer_core_def)
  have i: "?i < length ?ms" "is_read (?ms ! ?i)" "fst buf = ?i" "snd buf + unat n \<le> unat (msg_len (?ms ! ?i))"
    using assms(3) by (simp_all add: rx_cursor_def)
  have m: "same_msg (?ms ! ?i) (msg_at ?i d)" "good_msg (?ms ! ?i)" "length (msgs d) = length ?ms"
    using core(2) i(1) by (simp_all add: same_msgs_def)
  have "0 < unat n" using assms(4) by (simp add: unat_gt_0)
  then have off: "snd buf < length (msg_buf (msg_at ?i d))"
    using i(4) m by (simp add: same_msg_def good_msg_def)
  obtain tmp d1 where t: "reg_value DW_IC_DATA_CMD d = (tmp, d1)" by (cases "reg_value DW_IC_DATA_CMD d")
  obtain h where h: "d1 = d\<lparr>hw := h\<rparr>" "cmd_quiet (x_view x) (hw d) h" "c_mask (x_view x) h = c_mask (x_view x) (hw d)"
    by (rule read_quiet [OF assms(1) core(1) t]) blast
  have core1: "xfer_core rm x (d\<lparr>hw := h\<rparr>)" by (rule core_quiet [OF assms(2) h(2)])
  let ?m' = "(msg_at ?i d)\<lparr>msg_buf := (msg_buf (msg_at ?i d))[snd buf := ucast tmp]\<rparr>"
  let ?d = "d\<lparr>hw := h, msgs := (msgs d)[?i := ?m'], rx_outstanding := rx_outstanding d - 1\<rparr>"
  have recv: "msg_flags (msg_at ?i d) AND I2C_M_RECV_LEN = 0" using m by (simp add: same_msg_def good_msg_def)
  have take: "take_byte buf n d = Some (n, ?d)"
    using off i m(3) recv by (simp add: take_byte_def t h(1) store_byte_def msg_at_def)
  have "same_msg (?ms ! k) (msg_at k ?d)" if "k < length ?ms" for k
  proof (cases "k = ?i")
    case True
    with m i(1,2) show ?thesis by (simp add: msg_at_def same_msg_def)
  next
    case False
    with core(2) that show ?thesis by (simp add: msg_at_def same_msgs_def)
  qed
  then have "same_msgs ?ms ?d" using core(2) by (simp add: same_msgs_def)
  then have "xfer_core rm x ?d"
    using core1 by (auto simp: xfer_core_def lock_ok_def fifo_inv_def tx_inv_def rx_inv_def todo_def writing_def reading_def)
  moreover have "rx_same (x_view x) d ?d" using h(2,3) by (simp add: rx_same_def writing_def cmd_quiet_def)
  ultimately show ?thesis using take by (intro exI [of _ ?d]) simp
qed

lemma rx_cursor_next:
  "rx_cursor ms i buf n \<Longrightarrow> n \<noteq> 0 \<Longrightarrow> rx_cursor ms i (fst buf, Suc (snd buf)) (n - 1)"
  by (auto simp: rx_cursor_def unat_pred unat_gt_0 [symmetric])

lemma drain_spec:
  assumes "cmd_port rm (x_view x)" and "xfer_core rm x d" and "rx_cursor (x_msgs x) (msg_read_idx d) buf n"
  shows "\<exists>buf' n' d'. drain buf n v d = Some (buf', n', d') \<and> xfer_core rm x d' \<and> rx_same (x_view x) d d' \<and> msg_read_idx d' = msg_read_idx d
    \<and> dw_status d' = dw_status d \<and> rx_cursor (x_msgs x) (msg_read_idx d) buf' n'"
  using assms(2,3)
proof (induction buf n v d rule: drain.induct)
  case (1 buf n v d)
  show ?case
  proof (cases "n = 0 \<or> v = 0")
    case True
    with "1.prems" show ?thesis by (subst drain.simps) (simp add: rx_same_refl)
  next
    case False
    then have n: "n \<noteq> 0" by simp
    from take_byte_spec [OF assms(1) "1.prems" n] obtain d1 where
      d1: "take_byte buf n d = Some (n, d1)" "xfer_core rm x d1" "rx_same (x_view x) d d1" "msg_read_idx d1 = msg_read_idx d"
        "dw_status d1 = dw_status d" by blast
    have cur: "rx_cursor (x_msgs x) (msg_read_idx d1) (fst buf, Suc (snd buf)) (n - 1)"
      unfolding d1(4) by (rule rx_cursor_next [OF "1.prems"(2) n])
    from "1.IH" [OF False d1(1) refl d1(2) cur] obtain buf' n' d' where
      r: "drain (fst buf, Suc (snd buf)) (n - 1) (v - 1) d1 = Some (buf', n', d')" "xfer_core rm x d'" "rx_same (x_view x) d1 d'"
        "msg_read_idx d' = msg_read_idx d1" "dw_status d' = dw_status d1" "rx_cursor (x_msgs x) (msg_read_idx d1) buf' n'" by blast
    with d1 False rx_same_trans [OF d1(3) r(3)] show ?thesis by (subst drain.simps) simp
  qed
qed

lemma read_loop_spec:
  assumes "cmd_port rm (x_view x)" and "xfer_core rm x d"
  shows "\<exists>d'. read_loop d = Some d' \<and> xfer_core rm x d' \<and> rx_same (x_view x) d d'"
  using assms(2)
proof (induction d rule: read_loop.induct)
  case (1 d)
  let ?ms = "x_msgs x" and ?i = "msg_read_idx d"
  have core: "reg_map d = Some rm" "same_msgs ?ms d" "fifo_inv x d" "tx_inv x d" "rx_inv x d" and lock: "lock_ok x d"
    using "1.prems" by (simp_all add: xfer_core_def)
  have len: "msgs_num d = length ?ms" using core(2) by (simp add: same_msgs_def)
  show ?case
  proof (cases "msgs_num d \<le> ?i")
    case True
    with "1.prems" show ?thesis by (subst read_loop.simps) (simp add: rx_same_refl)
  next
    case False
    then have i: "?i < length ?ms" by (simp add: len)
    have m: "same_msg (?ms ! ?i) (msg_at ?i d)" using core(2) i by (simp add: same_msgs_def)
    show ?thesis
    proof (cases "msg_flags (msg_at ?i d) AND I2C_M_RD = 0")
      case True
      let ?d = "d\<lparr>msg_read_idx := Suc ?i\<rparr>"
      have nr: "\<not> reading d" using core(5) True m by (auto simp: rx_inv_def rx_cursor_def is_read_def same_msg_def)
      have "xfer_core rm x ?d"
        using core nr lock by (auto simp: xfer_core_def lock_ok_def same_msgs_def msg_at_def fifo_inv_def tx_inv_def rx_inv_def todo_def writing_def reading_def)
      from "1.IH"(1) [OF False True this] obtain d' where "read_loop ?d = Some d'" "xfer_core rm x d'" "rx_same (x_view x) ?d d'" by blast
      moreover have "rx_same (x_view x) d ?d" by (simp add: rx_same_def writing_def)
      ultimately show ?thesis using False True rx_same_trans by (subst read_loop.simps) auto
    next
      case rd: False
      define n where "n = (if dw_status d AND STATUS_READ_IN_PROGRESS = 0 then ucast (msg_len (msg_at ?i d)) else rx_buf_len d)"
      define buf where "buf = (if dw_status d AND STATUS_READ_IN_PROGRESS = 0 then (?i, 0) else rx_buf d)"
      have isr: "is_read (?ms ! ?i)" using rd m by (simp add: is_read_def same_msg_def)
      have "unat (ucast (msg_len (?ms ! ?i)) :: u32) = unat (msg_len (?ms ! ?i))"
        by (simp add: unsigned_ucast_eq take_bit_nat_eq_self unsigned_less [where 'a = nat, THEN order_less_trans])
      then have cur: "rx_cursor ?ms ?i buf n"
        using core(5) i isr m by (auto simp: n_def buf_def rx_cursor_def rx_inv_def reading_def same_msg_def)
      obtain v d1 where d1: "reg_value DW_IC_RXFLR d = (v, d1)" by (cases "reg_value DW_IC_RXFLR d")
      obtain h where h: "d1 = d\<lparr>hw := h\<rparr>" "cmd_quiet (x_view x) (hw d) h" "c_mask (x_view x) h = c_mask (x_view x) (hw d)"
        by (rule read_quiet [OF assms(1) core(1) d1]) blast
      have core1: "xfer_core rm x d1" unfolding h(1) by (rule core_quiet [OF "1.prems" h(2)])
      have s1: "rx_same (x_view x) d d1" using h by (simp add: rx_same_def writing_def cmd_quiet_def)
      have cur1: "rx_cursor ?ms (msg_read_idx d1) buf n" using cur by (simp add: h(1))
      from drain_spec [OF assms(1) core1 cur1, of v] obtain buf' n' d2 where
        d2: "drain buf n v d1 = Some (buf', n', d2)" "xfer_core rm x d2" "rx_same (x_view x) d1 d2" "msg_read_idx d2 = ?i"
          "dw_status d2 = dw_status d" "rx_cursor ?ms ?i buf' n'"
        unfolding h(1) by auto
      show ?thesis
      proof (cases "n' = 0")
        case nz: False
        let ?d = "d2\<lparr>dw_status := dw_status d2 OR STATUS_READ_IN_PROGRESS, rx_buf_len := n', rx_buf := buf'\<rparr>"
        have "xfer_core rm x ?d"
          using d2(2,4,6) by (auto simp: xfer_core_def lock_ok_def same_msgs_def msg_at_def fifo_inv_def tx_inv_def rx_inv_def todo_def writing_def write_bit)
        moreover have "rx_same (x_view x) d2 ?d" by (simp add: rx_same_def writing_def write_bit)
        moreover have "read_loop d = Some ?d"
          using False rd d1 d2(1) nz by (subst read_loop.simps) (simp add: Let_def n_def buf_def)
        ultimately show ?thesis using rx_same_trans [OF rx_same_trans [OF s1 d2(3)]] by blast
      next
        case z: True
        let ?d = "d2\<lparr>dw_status := dw_status d2 AND NOT STATUS_READ_IN_PROGRESS, msg_read_idx := Suc (msg_read_idx d2)\<rparr>"
        have ce: "xfer_core rm x ?d"
          using d2(2) by (auto simp: xfer_core_def lock_ok_def same_msgs_def msg_at_def fifo_inv_def tx_inv_def rx_inv_def todo_def writing_def reading_def write_bit)
        have se: "rx_same (x_view x) d2 ?d" by (simp add: rx_same_def writing_def write_bit)
        have "\<exists>d'. read_loop ?d = Some d' \<and> xfer_core rm x d' \<and> rx_same (x_view x) ?d d'"
          by (rule "1.IH"(2)) (use False rd d1 d2(1) z ce in \<open>simp_all add: n_def buf_def\<close>)
        then obtain d' where d': "read_loop ?d = Some d'" "xfer_core rm x d'" "rx_same (x_view x) ?d d'" by blast
        have "read_loop d = Some d'"
          using False rd d1 d2(1) z d'(1) by (subst read_loop.simps) (simp add: Let_def n_def buf_def)
        with d'(2) rx_same_trans [OF rx_same_trans [OF s1 d2(3)] rx_same_trans [OF se d'(3)]] show ?thesis by blast
      qed
    qed
  qed
qed

section \<open>The interrupt handler\<close>

definition m_calm :: "'b cmd_view \<Rightarrow> ('b, 's) dw_i2c_dev \<Rightarrow> ('b, 's) dw_i2c_dev \<Rightarrow> bool" where
  "m_calm o' d d' \<longleftrightarrow> (\<exists>h a. d' = d\<lparr>hw := h, abort_source := a\<rparr> \<and> cmd_quiet o' (hw d) h \<and> c_mask o' h = c_mask o' (hw d))"

lemma m_calm_refl: "m_calm o' d d"
  unfolding m_calm_def by (rule exI [of _ "hw d"], rule exI [of _ "abort_source d"]) (simp add: cmd_quiet_def)

lemma m_calm_trans:
  assumes "m_calm o' a b" and "m_calm o' b c"
  shows "m_calm o' a c"
proof -
  obtain h1 a1 where 1: "b = a\<lparr>hw := h1, abort_source := a1\<rparr>" "cmd_quiet o' (hw a) h1" "c_mask o' h1 = c_mask o' (hw a)"
    using assms(1) by (auto simp: m_calm_def)
  obtain h2 a2 where 2: "c = b\<lparr>hw := h2, abort_source := a2\<rparr>" "cmd_quiet o' (hw b) h2" "c_mask o' h2 = c_mask o' (hw b)"
    using assms(2) by (auto simp: m_calm_def)
  show ?thesis unfolding m_calm_def
    by (rule exI [of _ h2], rule exI [of _ a2]) (use 1 2 in \<open>auto simp: cmd_quiet_def\<close>)
qed

lemma m_calm_map: "m_calm o' d d' \<Longrightarrow> reg_map d' = reg_map d"
  by (auto simp: m_calm_def)

lemma m_calm_read:
  assumes "cmd_port rm o'" and "reg_map d = Some rm" and "reg_value r d = (v, d')"
  shows "m_calm o' d d'"
proof -
  obtain h where "d' = d\<lparr>hw := h\<rparr>" "cmd_quiet o' (hw d) h" "c_mask o' h = c_mask o' (hw d)"
    by (rule read_quiet [OF assms]) blast
  then show ?thesis unfolding m_calm_def
    by (intro exI [of _ h] exI [of _ "abort_source d"]) simp
qed

lemma m_calm_touch: "cmd_port rm o' \<Longrightarrow> reg_map d = Some rm \<Longrightarrow> m_calm o' d (reg_touch r d)"
  using m_calm_read [of rm o' d r] by (cases "reg_value r d") (simp add: reg_touch_def)

lemma m_calm_clear:
  assumes "cmd_port rm o'" and "reg_map a = Some rm" and "m_calm o' a d"
  shows "m_calm o' a (clear_if stat i r d)"
  using m_calm_trans [OF assms(3) m_calm_touch [OF assms(1), of d r]] assms(2,3) m_calm_map [OF assms(3)]
  by (simp add: clear_if_def)

lemma m_calm_abort:
  assumes "cmd_port rm o'" and "reg_map a = Some rm" and "m_calm o' a d"
  shows "m_calm o' a (if p then (case reg_value r d of (src, d') \<Rightarrow> reg_touch r' (d'\<lparr>abort_source := src\<rparr>)) else d)"
proof -
  obtain src d' where d': "reg_value r d = (src, d')" by (cases "reg_value r d")
  have map: "reg_map d = Some rm" using m_calm_map [OF assms(3)] assms(2) by simp
  have 1: "m_calm o' d d'" by (rule m_calm_read [OF assms(1) map d'])
  have 2: "m_calm o' d' (d'\<lparr>abort_source := src\<rparr>)" unfolding m_calm_def
    by (rule exI [of _ "hw d'"], rule exI [of _ src]) (simp add: cmd_quiet_def)
  have "reg_map (d'\<lparr>abort_source := src\<rparr>) = Some rm" using m_calm_map [OF 1] map by simp
  from m_calm_trans [OF assms(3) m_calm_trans [OF 1 m_calm_trans [OF 2 m_calm_touch [OF assms(1) this]]]] assms(3)
  show ?thesis by (simp add: d')
qed

lemma read_clear_spec:
  assumes "cmd_port rm o'" and "reg_map d = Some rm" and "i2c_dw_read_clear_intrbits d = (stat, d')"
  shows "m_calm o' d d'" and "stat AND NOT (c_mask o' (hw d)) = 0"
proof -
  obtain v d0 where d0: "reg_value DW_IC_INTR_STAT d = (v, d0)" by (cases "reg_value DW_IC_INTR_STAT d")
  have c: "m_calm o' d d0" by (rule m_calm_read [OF assms(1,2) d0])
  obtain h where "v AND NOT (c_mask o' (hw d)) = 0" by (rule read_quiet [OF assms(1,2) d0]) blast
  moreover have "stat = v"
    using assms(3) unfolding i2c_dw_read_clear_intrbits_def d0 Let_def prod.case prod.inject by simp
  ultimately show "stat AND NOT (c_mask o' (hw d)) = 0" by simp
  show "m_calm o' d d'"
    using assms(3) unfolding i2c_dw_read_clear_intrbits_def d0 Let_def prod.case prod.inject
    by (elim conjE, hypsubst, intro m_calm_clear [OF assms(1,2)] m_calm_abort [OF assms(1,2)] c)
qed

lemma core_calm: "xfer_core rm x d \<Longrightarrow> m_calm (x_view x) d d' \<Longrightarrow> xfer_core rm x d'"
proof -
  assume core: "xfer_core rm x d" and "m_calm (x_view x) d d'"
  then obtain h a where d': "d' = d\<lparr>hw := h, abort_source := a\<rparr>" and q: "cmd_quiet (x_view x) (hw d) h"
    by (auto simp: m_calm_def)
  from core_quiet [OF core q] show ?thesis
    by (auto simp: d' xfer_core_def lock_ok_def same_msgs_def msg_at_def fifo_inv_def tx_inv_def rx_inv_def todo_def writing_def reading_def)
qed

lemma calm_rx_same: "m_calm o' d d' \<Longrightarrow> rx_same o' d d'"
  by (auto simp: m_calm_def rx_same_def writing_def cmd_quiet_def)

lemma inv_calm: "xfer_inv rm x d \<Longrightarrow> m_calm (x_view x) d d' \<Longrightarrow> xfer_inv rm x d'"
  unfolding xfer_inv_def using core_calm rx_same_inv [OF calm_rx_same] by blast

text \<open>Masked interrupts are not reported, so the transmit interrupt finds a message to write.\<close>

lemma tx_empty_open:
  assumes "xfer_inv rm x d" and "stat AND NOT (c_mask (x_view x) (hw d)) = 0" and "stat AND DW_IC_INTR_TX_EMPTY \<noteq> 0"
  shows "msg_write_idx d < length (x_msgs x)"
proof (rule ccontr)
  assume "\<not> ?thesis"
  with assms(1) have idx: "msg_write_idx d = length (x_msgs x)" by (auto simp: xfer_inv_def xfer_core_def tx_inv_def)
  have w: "DW_IC_INTR_TX_EMPTY = BIT 4" by (simp add: DW_IC_INTR_TX_EMPTY_def BIT_def)
  have "\<not> bit (c_mask (x_view x) (hw d)) 4"
    using assms(1) idx by (simp add: xfer_inv_def mask_inv_def w and_BIT_eq_0)
  moreover have "bit stat 4" using assms(3) by (simp add: w and_BIT_eq_0)
  ultimately have "bit (stat AND NOT (c_mask (x_view x) (hw d))) 4" by (simp add: bit_and_iff bit_not_iff)
  with assms(2) show False by simp
qed

lemma inv_complete: "xfer_inv rm x d \<Longrightarrow> xfer_inv rm x (d\<lparr>cmd_complete := k\<rparr>)"
  by (auto simp: xfer_inv_def xfer_core_def lock_ok_def same_msgs_def msg_at_def fifo_inv_def tx_inv_def rx_inv_def settled_def
      mask_inv_def todo_def writing_def reading_def)

lemma finish_irq_spec:
  assumes "cmd_port rm (x_view x)" and "xfer_inv rm x d"
  shows "xfer_inv rm x (finish_irq stat d) \<and> msg_err (finish_irq stat d) = msg_err d
    \<and> (msg_err d \<noteq> 0 \<or> stat AND DW_IC_INTR_TX_ABRT \<noteq> 0 \<longrightarrow> 0 < cmd_complete (finish_irq stat d))
    \<and> cmd_complete d \<le> cmd_complete (finish_irq stat d)"
proof (cases "stat AND (DW_IC_INTR_TX_ABRT OR DW_IC_INTR_STOP_DET) \<noteq> 0 \<or> msg_err d \<noteq> 0")
  case True
  with inv_complete [OF assms(2)] show ?thesis by (simp add: finish_irq_def)
next
  case False
  then have na: "stat AND DW_IC_INTR_TX_ABRT = 0"
    by (simp add: bit.conj_disj_distrib or_eq_0_iff)
  have map: "reg_map d = Some rm" using assms(2) by (simp add: xfer_inv_def xfer_core_def)
  show ?thesis
  proof (cases "dw_flags d AND ACCESS_INTR_MASK \<noteq> 0")
    case True
    obtain v d1 where d1: "reg_value DW_IC_INTR_MASK d = (v, d1)" by (cases "reg_value DW_IC_INTR_MASK d")
    obtain h1 where h1: "d1 = d\<lparr>hw := h1\<rparr>" "cmd_quiet (x_view x) (hw d) h1" "v = c_mask (x_view x) (hw d)"
      by (rule read_quiet [OF assms(1) map d1]) blast
    have map1: "reg_map d1 = Some rm" using h1(1) map by simp
    obtain h2 where h2: "regmap_write DW_IC_INTR_MASK 0 d1 = d1\<lparr>hw := h2\<rparr>" "cmd_quiet (x_view x) (hw d1) h2"
      by (rule write_quiet [OF assms(1) map1, of DW_IC_INTR_MASK 0]) (auto simp: dw_reg_defs)
    have map2: "reg_map (d1\<lparr>hw := h2\<rparr>) = Some rm" using map1 by simp
    obtain h3 where h3: "regmap_write DW_IC_INTR_MASK v (d1\<lparr>hw := h2\<rparr>) = d1\<lparr>hw := h2\<rparr>\<lparr>hw := h3\<rparr>"
      "cmd_quiet (x_view x) (hw (d1\<lparr>hw := h2\<rparr>)) h3" "c_mask (x_view x) h3 = v"
      by (rule write_quiet [OF assms(1) map2, of DW_IC_INTR_MASK v]) (auto simp: dw_reg_defs)
    have "finish_irq stat d = d\<lparr>hw := h3\<rparr>"
      using False True by (simp add: finish_irq_def d1 i2c_dw_disable_int_def h2(1) h3(1) h1(1)) (use h2(1) h3(1) h1(1) in simp)
    moreover have "m_calm (x_view x) d (d\<lparr>hw := h3\<rparr>)"
      unfolding m_calm_def by (intro exI [of _ h3] exI [of _ "abort_source d"]) (use h1 h2 h3 in \<open>auto simp: cmd_quiet_def\<close>)
    ultimately show ?thesis using inv_calm [OF assms(2)] False na by simp
  next
    case noflag: False
    with False na assms(2) show ?thesis by (simp add: finish_irq_def)
  qed
qed

lemma or_one_nz: "(k :: int) OR 1 \<noteq> 0"
proof
  assume "k OR 1 = 0"
  then have "bit (k OR 1) 0 = bit (0 :: int) 0" by (simp only:)
  then show False by (simp add: bit_or_iff)
qed

lemma tx_abort_spec:
  assumes "cmd_port rm (x_view x)" and "xfer_core rm x d" and "msg_err d \<le> 0"
  shows "xfer_inv rm x (tx_abort d) \<and> msg_err (tx_abort d) = msg_err d"
proof -
  let ?d = "d\<lparr>cmd_err := cmd_err d OR DW_IC_ERR_TX_ABRT, dw_status := STATUS_IDLE\<rparr>"
  have nz: "cmd_err d OR DW_IC_ERR_TX_ABRT \<noteq> 0" by (simp add: DW_IC_ERR_TX_ABRT_def or_one_nz)
  have core: "xfer_core rm x ?d"
    using assms(2) nz by (auto simp: xfer_core_def lock_ok_def same_msgs_def msg_at_def fifo_inv_def tx_inv_def rx_inv_def writing_def reading_def
        STATUS_IDLE_def)
  have map: "reg_map ?d = Some rm" using assms(2) by (simp add: xfer_core_def)
  obtain h where h: "regmap_write DW_IC_INTR_MASK 0 ?d = ?d\<lparr>hw := h\<rparr>" "cmd_quiet (x_view x) (hw ?d) h" "c_mask (x_view x) h = 0"
    by (rule write_quiet [OF assms(1) map, of DW_IC_INTR_MASK 0]) (auto simp: dw_reg_defs)
  have "xfer_core rm x (?d\<lparr>hw := h\<rparr>)" by (rule core_quiet [OF core h(2)])
  moreover have "settled x (?d\<lparr>hw := h\<rparr>)" using nz by (simp add: settled_def)
  moreover have "mask_inv x (?d\<lparr>hw := h\<rparr>)" by (simp add: mask_inv_def h(3))
  ultimately show ?thesis by (simp add: xfer_inv_def tx_abort_def h(1))
qed

lemma handler_spec:
  assumes "cmd_port rm (x_view x)" and "xfer_inv rm x d" and "msg_err d = 0"
  shows "\<exists>d'. i2c_dw_irq_handler_master d = Some d' \<and> xfer_inv rm x d' \<and> (msg_err d' = 0 \<or> 0 < cmd_complete d')"
proof -
  have map: "reg_map d = Some rm" using assms(2) by (simp add: xfer_inv_def xfer_core_def)
  obtain stat d1 where d1: "i2c_dw_read_clear_intrbits d = (stat, d1)" by (cases "i2c_dw_read_clear_intrbits d")
  have c1: "m_calm (x_view x) d d1" and st: "stat AND NOT (c_mask (x_view x) (hw d)) = 0"
    using read_clear_spec [OF assms(1) map d1] by blast+
  have i1: "xfer_inv rm x d1" by (rule inv_calm [OF assms(2) c1])
  have e1: "msg_err d1 = 0" and idx1: "msg_write_idx d1 = msg_write_idx d"
    using calm_rx_same [OF c1] assms(3) by (simp_all add: rx_same_def)
  show ?thesis
  proof (cases "stat AND DW_IC_INTR_TX_ABRT \<noteq> 0")
    case True
    have core1: "xfer_core rm x d1" using i1 by (simp add: xfer_inv_def)
    have t: "xfer_inv rm x (tx_abort d1)" "msg_err (tx_abort d1) = 0"
      using tx_abort_spec [OF assms(1) core1] e1 by simp_all
    have "i2c_dw_irq_handler_master d = Some (finish_irq stat (tx_abort d1))"
      using True by (simp add: i2c_dw_irq_handler_master_def d1)
    with finish_irq_spec [OF assms(1) t(1), of stat] t(2) show ?thesis by simp
  next
    case False
    obtain d2 where d2: "(if stat AND DW_IC_INTR_RX_FULL \<noteq> 0 then i2c_dw_read d1 else Some d1) = Some d2"
      and i2: "xfer_inv rm x d2" and s2: "rx_same (x_view x) d1 d2"
    proof (cases "stat AND DW_IC_INTR_RX_FULL \<noteq> 0")
      case True
      have core1: "xfer_core rm x d1" using i1 by (simp add: xfer_inv_def)
      from read_loop_spec [OF assms(1) core1] obtain d2 where
        r: "read_loop d1 = Some d2" "xfer_core rm x d2" "rx_same (x_view x) d1 d2" by blast
      have "xfer_inv rm x d2" using rx_same_inv [OF r(3)] i1 r(2) unfolding xfer_inv_def by blast
      with r True show thesis by (intro that [of d2]) (simp_all add: i2c_dw_read_def)
    next
      case no: False
      then show thesis by (intro that [of d1]) (simp_all add: i1 rx_same_refl)
    qed
    have e2: "msg_err d2 = 0" and idx2: "msg_write_idx d2 = msg_write_idx d" using s2 e1 idx1 by (simp_all add: rx_same_def)
    obtain d3 where d3: "(if stat AND DW_IC_INTR_TX_EMPTY \<noteq> 0 then i2c_dw_xfer_msg d2 else Some d2) = Some d3"
      and i3: "xfer_inv rm x d3"
    proof (cases "stat AND DW_IC_INTR_TX_EMPTY \<noteq> 0")
      case True
      have "msg_write_idx d2 < length (x_msgs x)" using tx_empty_open [OF assms(2) st True] idx2 by simp
      moreover have "xfer_core rm x d2" using i2 by (simp add: xfer_inv_def)
      ultimately obtain d3 where "i2c_dw_xfer_msg d2 = Some d3" "xfer_inv rm x d3"
        using xfer_msg_spec [OF assms(1) _ e2] by blast
      with True show thesis by (intro that [of d3]) simp_all
    next
      case no: False
      then show thesis by (intro that [of d2]) (simp_all add: i2)
    qed
    have "i2c_dw_irq_handler_master d = Some (finish_irq stat d3)"
      unfolding i2c_dw_irq_handler_master_def d1 prod.case using False by (simp add: d2 d3)
    with finish_irq_spec [OF assms(1) i3, of stat] show ?thesis by auto
  qed
qed

lemma isr_spec:
  assumes "cmd_port rm (x_view x)" and "xfer_inv rm x d" and "msg_err d = 0"
  shows "\<exists>b d'. i2c_dw_isr d = Some (b, d') \<and> xfer_inv rm x d' \<and> (msg_err d' = 0 \<or> 0 < cmd_complete d')"
proof -
  have map: "reg_map d = Some rm" using assms(2) by (simp add: xfer_inv_def xfer_core_def)
  obtain en d1 where d1: "reg_value DW_IC_ENABLE d = (en, d1)" by (cases "reg_value DW_IC_ENABLE d")
  have c1: "m_calm (x_view x) d d1" by (rule m_calm_read [OF assms(1) map d1])
  have map1: "reg_map d1 = Some rm" using m_calm_map [OF c1] map by simp
  obtain st d2 where d2: "reg_value DW_IC_RAW_INTR_STAT d1 = (st, d2)" by (cases "reg_value DW_IC_RAW_INTR_STAT d1")
  have c2: "m_calm (x_view x) d d2" by (rule m_calm_trans [OF c1 m_calm_read [OF assms(1) map1 d2]])
  have i2: "xfer_inv rm x d2" by (rule inv_calm [OF assms(2) c2])
  have e2: "msg_err d2 = 0" using calm_rx_same [OF c2] assms(3) by (simp add: rx_same_def)
  from handler_spec [OF assms(1) i2 e2] obtain d' where
    "i2c_dw_irq_handler_master d2 = Some d'" "xfer_inv rm x d'" "msg_err d' = 0 \<or> 0 < cmd_complete d'" by blast
  with i2 e2 show ?thesis by (cases "en = 0 \<or> st AND NOT DW_IC_INTR_ACTIVITY = 0") (auto simp: i2c_dw_isr_def d1 d2)
qed

text \<open>Moves of the world between interrupts: the hardware takes commands out of the FIFO.\<close>

definition cmd_move :: "'b cmd_view \<Rightarrow> ('b \<Rightarrow> 'b) \<Rightarrow> bool" where
  "cmd_move o' f \<longleftrightarrow> (\<forall>h. cmd_quiet o' h (f h) \<and> c_mask o' (f h) = c_mask o' h)"

lemma wait_spec:
  assumes "cmd_port rm (x_view x)" and "\<forall>f \<in> set moves. cmd_move (x_view x) f" and "xfer_inv rm x d"
    and "msg_err d = 0 \<or> 0 < cmd_complete d"
  shows "\<exists>b d'. wait_for_completion moves d = Some (b, d') \<and> xfer_inv rm x d'"
  using assms(2-4)
proof (induction moves arbitrary: d)
  case Nil
  with inv_complete [OF Nil.prems(2)] show ?case by (subst wait_for_completion.simps) auto
next
  case (Cons f fs)
  note cc = inv_complete [OF Cons.prems(2)]
  show ?case
  proof (cases "0 < cmd_complete d")
    case True
    with cc show ?thesis by (subst wait_for_completion.simps) auto
  next
    case False
    let ?d = "d\<lparr>hw := f (hw d)\<rparr>"
    have q: "cmd_quiet (x_view x) (hw d) (f (hw d))" "c_mask (x_view x) (f (hw d)) = c_mask (x_view x) (hw d)"
      using Cons.prems(1) by (simp_all add: cmd_move_def)
    have "m_calm (x_view x) d ?d" unfolding m_calm_def
      by (rule exI [of _ "f (hw d)"], rule exI [of _ "abort_source d"]) (simp add: q)
    then have inv: "xfer_inv rm x ?d" by (rule inv_calm [OF Cons.prems(2)])
    have "msg_err ?d = 0" using Cons.prems(3) False by simp
    from isr_spec [OF assms(1) inv this] obtain b d1 where
      d1: "i2c_dw_isr ?d = Some (b, d1)" "xfer_inv rm x d1" "msg_err d1 = 0 \<or> 0 < cmd_complete d1" by blast
    from Cons.IH [OF _ d1(2,3)] Cons.prems(1) obtain b' d' where
      "wait_for_completion fs d1 = Some (b', d')" "xfer_inv rm x d'" by auto
    with False d1(1) show ?thesis by (subst wait_for_completion.simps) simp
  qed
qed

section \<open>Before and after the interrupts\<close>

text \<open>What the transfer function relies on outside the driver: the bus lock, the delays and the bus
  recovery send no commands, and recovery changes nothing but the hardware.\<close>

definition env_ok :: "'b cmd_view \<Rightarrow> ('b, 's) dw_env \<Rightarrow> ('b, 's) dw_i2c_dev \<Rightarrow> bool" where
  "env_ok o' e d \<longleftrightarrow> (\<forall>h. cmd_quiet o' h (usleep e h))
     \<and> (\<forall>d. \<exists>r h. i2c_recover_bus e d = (r, d\<lparr>hw := h\<rparr>) \<and> cmd_quiet o' (hw d) h)
     \<and> (\<forall>f. acquire_lock d = Some f \<longrightarrow> (\<forall>h. fst (f h) \<le> 0 \<and> cmd_quiet o' h (snd (f h))))
     \<and> (\<forall>f. release_lock d = Some f \<longrightarrow> (\<forall>h. cmd_quiet o' h (f h)))"

definition hw_quiet :: "'b cmd_view \<Rightarrow> ('b, 's) dw_i2c_dev \<Rightarrow> ('b, 's) dw_i2c_dev \<Rightarrow> bool" where
  "hw_quiet o' d d' \<longleftrightarrow> (\<exists>h. d' = d\<lparr>hw := h\<rparr> \<and> cmd_quiet o' (hw d) h)"

lemma hw_quiet_refl: "hw_quiet o' d d"
  unfolding hw_quiet_def by (rule exI [of _ "hw d"]) (simp add: cmd_quiet_def)

lemma cmd_quiet_trans: "cmd_quiet o' a b \<Longrightarrow> cmd_quiet o' b c \<Longrightarrow> cmd_quiet o' a c"
  by (auto simp: cmd_quiet_def)

lemma hw_quiet_trans: "hw_quiet o' a b \<Longrightarrow> hw_quiet o' b c \<Longrightarrow> hw_quiet o' a c"
  unfolding hw_quiet_def using cmd_quiet_trans by fastforce

lemma hw_quiet_frame: "hw_quiet o' d d' \<Longrightarrow> reg_map d' = reg_map d" "hw_quiet o' d d' \<Longrightarrow> env_ok o' e d' = env_ok o' e d"
  by (auto simp: hw_quiet_def env_ok_def)

lemma hw_quiet_hw: "cmd_quiet o' (hw d) h \<Longrightarrow> hw_quiet o' d (d\<lparr>hw := h\<rparr>)"
  by (auto simp: hw_quiet_def)

lemma hw_quiet_write:
  assumes "cmd_port rm o'" and "reg_map a = Some rm" and "hw_quiet o' a d" and "r \<noteq> DW_IC_DATA_CMD"
  shows "hw_quiet o' a (regmap_write r v d)"
proof -
  have "reg_map d = Some rm" using hw_quiet_frame(1) [OF assms(3)] assms(2) by simp
  from write_quiet [OF assms(1) this assms(4), of v] obtain h where
    "regmap_write r v d = d\<lparr>hw := h\<rparr>" "cmd_quiet o' (hw d) h" by blast
  then have "hw_quiet o' d (regmap_write r v d)" by (auto simp: hw_quiet_def)
  with assms(3) show ?thesis by (rule hw_quiet_trans)
qed

lemma hw_quiet_read:
  assumes "cmd_port rm o'" and "reg_map a = Some rm" and "hw_quiet o' a d" and "reg_value r d = (v, d')"
  shows "hw_quiet o' a d'"
proof -
  have map: "reg_map d = Some rm" using hw_quiet_frame(1) [OF assms(3)] assms(2) by simp
  obtain h where "d' = d\<lparr>hw := h\<rparr>" "cmd_quiet o' (hw d) h" by (rule read_quiet [OF assms(1) map assms(4)]) blast
  then have "hw_quiet o' d d'" by (auto simp: hw_quiet_def)
  with assms(3) show ?thesis by (rule hw_quiet_trans)
qed

lemma hw_quiet_touch:
  assumes "cmd_port rm o'" and "reg_map a = Some rm" and "hw_quiet o' a d"
  shows "hw_quiet o' a (reg_touch r d)"
  using hw_quiet_read [OF assms] by (cases "reg_value r d") (simp add: reg_touch_def)

lemma disable_quiet:
  assumes "cmd_port rm o'" and "reg_map a = Some rm" and "hw_quiet o' a d" and "env_ok o' e a"
  shows "hw_quiet o' a (disable_loop e t d)"
  using assms(3)
proof (induction t arbitrary: d)
  case 0
  obtain st d1 where d1: "reg_value DW_IC_ENABLE_STATUS (i2c_dw_disable_nowait d) = (st, d1)"
    by (cases "reg_value DW_IC_ENABLE_STATUS (i2c_dw_disable_nowait d)")
  have q0: "hw_quiet o' a (i2c_dw_disable_nowait d)" unfolding i2c_dw_disable_nowait_def
    by (rule hw_quiet_write [OF assms(1,2) 0]) (simp add: dw_reg_defs)
  have q1: "hw_quiet o' a d1" by (rule hw_quiet_read [OF assms(1,2) q0 d1])
  have "cmd_quiet o' (hw d1) (usleep e (hw d1))" using assms(4) by (simp add: env_ok_def)
  from hw_quiet_trans [OF q1 hw_quiet_hw [OF this]] q1 show ?case by (simp add: d1 Let_def)
next
  case (Suc t)
  obtain st d1 where d1: "reg_value DW_IC_ENABLE_STATUS (i2c_dw_disable_nowait d) = (st, d1)"
    by (cases "reg_value DW_IC_ENABLE_STATUS (i2c_dw_disable_nowait d)")
  have q0: "hw_quiet o' a (i2c_dw_disable_nowait d)" unfolding i2c_dw_disable_nowait_def
    by (rule hw_quiet_write [OF assms(1,2) Suc.prems]) (simp add: dw_reg_defs)
  have q1: "hw_quiet o' a d1" by (rule hw_quiet_read [OF assms(1,2) q0 d1])
  have "cmd_quiet o' (hw d1) (usleep e (hw d1))" using assms(4) by (simp add: env_ok_def)
  from Suc.IH [OF hw_quiet_trans [OF q1 hw_quiet_hw [OF this]]] q1 show ?case by (simp add: d1 Let_def)
qed

lemma acquire_quiet:
  assumes "env_ok o' e a" and "hw_quiet o' a d" and "i2c_dw_acquire_lock d = (ret, d')"
  shows "hw_quiet o' a d' \<and> ret \<le> 0"
proof -
  have env: "env_ok o' e d" using assms(1) hw_quiet_frame(2) [OF assms(2)] by simp
  show ?thesis
  proof (cases "acquire_lock d")
    case None
    with assms(2,3) show ?thesis by (simp add: i2c_dw_acquire_lock_def)
  next
    case (Some f)
    with env have q: "fst (f (hw d)) \<le> 0" "cmd_quiet o' (hw d) (snd (f (hw d)))" by (simp_all add: env_ok_def)
    from hw_quiet_trans [OF assms(2) hw_quiet_hw [OF q(2)]] q(1) assms(3) Some show ?thesis
      by (auto simp: i2c_dw_acquire_lock_def split: prod.splits)
  qed
qed

lemma release_quiet:
  assumes "env_ok o' e a" and "hw_quiet o' a d"
  shows "hw_quiet o' a (i2c_dw_release_lock d)"
proof (cases "release_lock d")
  case None
  with assms show ?thesis by (simp add: i2c_dw_release_lock_def)
next
  case (Some f)
  have "env_ok o' e d" using assms(1) hw_quiet_frame(2) [OF assms(2)] by simp
  with Some have q: "cmd_quiet o' (hw d) (f (hw d))" by (simp add: env_ok_def)
  from hw_quiet_trans [OF assms(2) hw_quiet_hw [OF q]] Some show ?thesis by (simp add: i2c_dw_release_lock_def)
qed

lemma recover_quiet:
  assumes "env_ok o' e a" and "hw_quiet o' a d"
  shows "hw_quiet o' a (snd (i2c_recover_bus e d))"
proof -
  obtain r h where "i2c_recover_bus e d = (r, d\<lparr>hw := h\<rparr>)" "cmd_quiet o' (hw d) h"
    using assms(1) unfolding env_ok_def by blast
  with hw_quiet_trans [OF assms(2) hw_quiet_hw] show ?thesis by simp
qed

lemma wait_bus_quiet:
  assumes "cmd_port rm o'" and "reg_map d = Some rm" and "env_ok o' e d" and "i2c_dw_wait_bus_not_busy e d = (ret, d')"
  shows "hw_quiet o' d d'"
proof -
  obtain r v h where p: "rm_poll rm DW_IC_STATUS (\<lambda>st. st AND DW_IC_STATUS_ACTIVITY = 0) (hw d) = (r, v, h)" by (metis prod.exhaust)
  have "cmd_quiet o' (hw d) (snd (snd (rm_poll rm DW_IC_STATUS (\<lambda>st. st AND DW_IC_STATUS_ACTIVITY = 0) (hw d))))"
    using assms(1) unfolding cmd_port_def by blast
  then have q: "hw_quiet o' d (d\<lparr>hw := h\<rparr>)" by (intro hw_quiet_hw) (simp add: p)
  note rec = recover_quiet [OF assms(3) q]
  obtain st d2 where d2: "reg_value DW_IC_STATUS (snd (i2c_recover_bus e (d\<lparr>hw := h\<rparr>))) = (st, d2)"
    by (cases "reg_value DW_IC_STATUS (snd (i2c_recover_bus e (d\<lparr>hw := h\<rparr>)))")
  have "hw_quiet o' d d2" by (rule hw_quiet_read [OF assms(1,2) rec d2])
  with q assms(2,4) p d2 show ?thesis by (auto simp: i2c_dw_wait_bus_not_busy_def Let_def split: if_splits)
qed

lemma configure_fifo_quiet:
  assumes "cmd_port rm o'" and "reg_map a = Some rm" and "hw_quiet o' a d"
  shows "hw_quiet o' a (i2c_dw_configure_fifo_master d)"
  unfolding i2c_dw_configure_fifo_master_def Let_def
  by (intro hw_quiet_write [OF assms(1,2)] assms(3)) (simp_all add: dw_reg_defs)

lemma hw_quiet_if: "hw_quiet o' a d \<Longrightarrow> hw_quiet o' a d' \<Longrightarrow> hw_quiet o' a (if b then d else d')"
  by simp

lemma init_master_quiet:
  assumes "cmd_port rm o'" and "reg_map a = Some rm" and "hw_quiet o' a d" and "env_ok o' e a"
  shows "hw_quiet o' a (snd (i2c_dw_init_master e d))"
proof -
  obtain ret d0 where d0: "i2c_dw_acquire_lock d = (ret, d0)" by (cases "i2c_dw_acquire_lock d")
  have q0: "hw_quiet o' a d0" using acquire_quiet [OF assms(4,3) d0] by simp
  have q1: "hw_quiet o' a (do_i2c_dw_disable e d0)" unfolding do_i2c_dw_disable_def
    by (rule disable_quiet [OF assms(1,2) q0 assms(4)])
  show ?thesis
    unfolding i2c_dw_init_master_def d0 prod.case Let_def
    by (cases "ret \<noteq> 0"; simp only: if_True if_False snd_conv not_False_eq_True;
        intro q0 release_quiet [OF assms(4)] configure_fifo_quiet [OF assms(1,2)] hw_quiet_if
          hw_quiet_write [OF assms(1,2)] q1; simp add: dw_reg_defs)
qed

lemma hw_quiet_update:
  assumes "cmd_port rm o'" and "reg_map a = Some rm" and "hw_quiet o' a d"
  shows "hw_quiet o' a (regmap_update_bits r m v d)"
proof -
  have "reg_map d = Some rm" using hw_quiet_frame(1) [OF assms(3)] assms(2) by simp
  moreover have "cmd_quiet o' (hw d) (snd (rm_update_bits rm r m v (hw d)))" using assms(1) unfolding cmd_port_def by blast
  ultimately show ?thesis
    using hw_quiet_trans [OF assms(3) hw_quiet_hw] by (simp add: regmap_update_bits_def)
qed

lemma xfer_init_quiet:
  assumes "cmd_port rm o'" and "reg_map a = Some rm" and "hw_quiet o' a d" and "env_ok o' e a"
    and "msg_write_idx a < msgs_num a"
  shows "\<exists>d'. i2c_dw_xfer_init e d = Some d' \<and> hw_quiet o' a d'"
proof -
  have q1: "hw_quiet o' a (do_i2c_dw_disable e d)" unfolding do_i2c_dw_disable_def
    by (rule disable_quiet [OF assms(1-4)])
  then have "\<not> msgs_num (do_i2c_dw_disable e d) \<le> msg_write_idx (do_i2c_dw_disable e d)"
    using assms(5) by (auto simp: hw_quiet_def)
  then show ?thesis
    unfolding i2c_dw_xfer_init_def Let_def i2c_dw_enable_def i2c_dw_disable_int_def
    by (simp only: if_False option.inject ex_simps simp_thms)
       (intro hw_quiet_write [OF assms(1,2)] hw_quiet_touch [OF assms(1,2)] hw_quiet_update [OF assms(1,2)] q1;
        simp add: dw_reg_defs)
qed

text \<open>The device is not suspended at run time, so that taking a reference only counts.\<close>

definition transfer_pre :: "'b regmap \<Rightarrow> 'b cmd_view \<Rightarrow> ('b, 's) dw_env \<Rightarrow> ('b \<Rightarrow> 'b) list \<Rightarrow> i2c_msg list \<Rightarrow> ('b, 's) dw_i2c_dev \<Rightarrow> bool" where
  "transfer_pre rm o' e moves ms d \<longleftrightarrow> cmd_port rm o' \<and> reg_map d = Some rm \<and> env_ok o' e d \<and> (\<forall>f \<in> set moves. cmd_move o' f)
     \<and> ms \<noteq> [] \<and> (\<forall>m \<in> set ms. good_msg m) \<and> unat (tx_fifo_depth d) \<le> c_depth o' \<and> unat (rx_fifo_depth d) \<le> 256
     \<and> \<not> c_over o' (hw d) \<and> pm_runtime_get_sync e d = d\<lparr>pm_usage := pm_usage d + 1\<rparr>"

definition xspec :: "'b cmd_view \<Rightarrow> i2c_msg list \<Rightarrow> ('b, 's) dw_i2c_dev \<Rightarrow> 'b xfer_spec" where
  "xspec o' ms d = \<lparr>x_view = o', x_msgs = ms, x_base = c_sent o' (hw d), x_acquire = acquire_lock d, x_release = release_lock d\<rparr>"

lemma xfer_start_inv:
  assumes "transfer_pre rm o' e moves ms d" and "hw_quiet o' (start_xfer ms (d\<lparr>pm_usage := k\<rparr>)) d'"
  shows "xfer_inv rm (xspec o' ms d) d' \<and> msg_err d' = 0"
proof -
  obtain h where d': "d' = (start_xfer ms (d\<lparr>pm_usage := k\<rparr>))\<lparr>hw := h\<rparr>" and q: "cmd_quiet o' (hw d) h"
    using assms(2) by (auto simp: hw_quiet_def start_xfer_def)
  have st: "\<not> writing d'" "\<not> reading d'" "msg_write_idx d' = 0" "msgs d' = ms" "msg_err d' = 0" "hw d' = h" "reg_map d' = Some rm"
    "rx_outstanding d' = 0" "tx_fifo_depth d' = tx_fifo_depth d" "rx_fifo_depth d' = rx_fifo_depth d"
    using assms(1) by (simp_all add: d' start_xfer_def writing_def reading_def STATUS_IDLE_def transfer_pre_def)
  have ms: "same_msgs ms d'" using assms(1) st(4) by (simp add: same_msgs_def msg_at_def same_msg_def transfer_pre_def)
  have sent: "sent_since (xspec o' ms d) h = []" using q by (simp add: sent_since_def xspec_def cmd_quiet_def)
  have "lock_ok (xspec o' ms d) d'" by (simp add: d' lock_ok_def xspec_def start_xfer_def)
  then have "xfer_core rm (xspec o' ms d) d'"
    using st ms sent assms(1) q
    by (auto simp: xfer_core_def lock_ok_def fifo_inv_def tx_inv_def rx_inv_def todo_def xspec_def transfer_pre_def cmd_quiet_def)
  moreover have "settled (xspec o' ms d) d'" using st sent by (simp add: settled_def)
  moreover have "mask_inv (xspec o' ms d) d'" using st assms(1) by (simp add: mask_inv_def xspec_def transfer_pre_def)
  ultimately show ?thesis using st(5) by (simp add: xfer_inv_def)
qed

text \<open>What a transfer has sent, in terms of the commands before and after it.\<close>

definition sends :: "'b cmd_view \<Rightarrow> i2c_msg list \<Rightarrow> ('b, 's) dw_i2c_dev \<Rightarrow> int \<Rightarrow> ('b, 's) dw_i2c_dev \<Rightarrow> bool" where
  "sends o' ms d ret d' \<longleftrightarrow> (\<exists>s. c_sent o' (hw d') = c_sent o' (hw d) @ s
     \<and> (cmd_err d' = 0 \<longrightarrow> (\<exists>t. map no_restart s @ t = cmds_from ms 0))
     \<and> (0 \<le> ret \<longrightarrow> ret = int (length ms) \<and> (s = [] \<or> map no_restart s = cmds_from ms 0)))"

lemma sends_quiet:
  assumes "hw_quiet o' (start_xfer ms (d\<lparr>pm_usage := k\<rparr>)) d'" and "ret < 0"
  shows "sends o' ms d ret (pm_put d')"
  using assms by (auto simp: sends_def hw_quiet_def cmd_quiet_def start_xfer_def pm_put_def)

lemma sends_inv:
  assumes "xfer_inv rm (xspec o' ms d) d4" and "hw_quiet o' d4 d'" and "ret = xfer_result d4 \<or> ret < 0"
  shows "sends o' ms d ret (pm_put d') \<and> \<not> c_over o' (hw (pm_put d'))"
proof -
  let ?x = "xspec o' ms d"
  have core: "same_msgs ms d4" "fifo_inv ?x d4" "tx_inv ?x d4" and set: "settled ?x d4"
    using assms(1) by (simp_all add: xfer_inv_def xfer_core_def xspec_def)
  obtain s where s: "c_sent o' (hw d4) = c_sent o' (hw d) @ s" using core(2) by (auto simp: fifo_inv_def xspec_def)
  have since: "sent_since ?x (hw d4) = map no_restart s" by (simp add: sent_since_def xspec_def s)
  have d': "c_sent o' (hw d') = c_sent o' (hw d4)" "cmd_err d' = cmd_err d4" "\<not> c_over o' (hw d')"
    using assms(2) core(2) by (auto simp: hw_quiet_def cmd_quiet_def fifo_inv_def xspec_def)
  have pre: "cmd_err d4 = 0 \<Longrightarrow> \<exists>t. map no_restart s @ t = cmds_from ms 0"
    using core(3) since by (auto simp: tx_inv_def xspec_def)
  have ok: "ret = int (length ms) \<and> (s = [] \<or> map no_restart s = cmds_from ms 0)" if "0 \<le> ret"
  proof -
    from that assms(3) have r: "0 \<le> xfer_result d4" "ret = xfer_result d4" by auto
    have "msg_err d4 \<le> 0" using core(3) by (simp add: tx_inv_def)
    with r(1) have z: "msg_err d4 = 0" "cmd_err d4 = 0" "dw_status d4 = 0" "ret = int (msgs_num d4)"
      unfolding r(2) xfer_result_def i2c_dw_handle_tx_abort_def by (auto simp: Let_def split: if_splits)
    have nw: "\<not> writing d4" using z(3) by (simp add: writing_def)
    from set z nw have fin: "msg_write_idx d4 = length ms \<or> map no_restart s = []"
      using since by (simp add: settled_def xspec_def)
    have "map no_restart s @ todo ms d4 = cmds_from ms 0" using core(3) z since by (simp add: tx_inv_def xspec_def)
    with fin nw have "s = [] \<or> map no_restart s = cmds_from ms 0" by (auto simp: todo_def cmds_from_end)
    with z(4) core(1) show ?thesis by (simp add: same_msgs_def)
  qed
  show ?thesis using s d' pre ok by (auto simp: sends_def pm_put_def)
qed

lemma xfer_spec:
  assumes "transfer_pre rm o' e moves ms d"
  shows "\<exists>ret d'. i2c_dw_xfer e moves ms d = Some (ret, d') \<and> sends o' ms d ret d' \<and> \<not> c_over o' (hw d')"
proof -
  let ?d0 = "d\<lparr>pm_usage := pm_usage d + 1\<rparr>"
  let ?a = "start_xfer ms ?d0"
  have port: "cmd_port rm o'" and mv: "\<forall>f \<in> set moves. cmd_move o' f" and ne: "ms \<noteq> []" and over: "\<not> c_over o' (hw d)"
    and pm: "pm_runtime_get_sync e d = ?d0"
    using assms by (simp_all add: transfer_pre_def)
  have map: "reg_map ?a = Some rm" and env: "env_ok o' e ?a" and idx: "msg_write_idx ?a < msgs_num ?a"
    using assms by (simp_all add: start_xfer_def transfer_pre_def env_ok_def)
  have nover: "\<not> c_over o' (hw (pm_put d'))" if "hw_quiet o' ?a d'" for d'
    using that over by (auto simp: hw_quiet_def cmd_quiet_def start_xfer_def pm_put_def)
  show ?thesis
  proof (cases "suspended ?d0")
    case True
    have "sends o' ms d (- ESHUTDOWN) (pm_put ?d0)" by (simp add: sends_def pm_put_def)
    with True over show ?thesis by (simp add: i2c_dw_xfer_def Let_def pm) (simp add: pm_put_def)
  next
    case False
    obtain r1 d1 where d1: "i2c_dw_acquire_lock ?a = (r1, d1)" by (cases "i2c_dw_acquire_lock ?a")
    have q1: "hw_quiet o' ?a d1" "r1 \<le> 0" using acquire_quiet [OF env hw_quiet_refl d1] by simp_all
    have map1: "reg_map d1 = Some rm" and env1: "env_ok o' e d1"
      using hw_quiet_frame [OF q1(1)] map env by simp_all
    obtain r2 d2 where d2: "i2c_dw_wait_bus_not_busy e d1 = (r2, d2)" by (cases "i2c_dw_wait_bus_not_busy e d1")
    have q2: "hw_quiet o' ?a d2" by (rule hw_quiet_trans [OF q1(1) wait_bus_quiet [OF port map1 env1 d2]])
    from xfer_init_quiet [OF port map q2 env idx] obtain d3 where d3: "i2c_dw_xfer_init e d2 = Some d3" "hw_quiet o' ?a d3" by blast
    from xfer_start_inv [OF assms d3(2)] have i3: "xfer_inv rm (xspec o' ms d) d3" "msg_err d3 = 0" by simp_all
    have vx: "x_view (xspec o' ms d) = o'" by (simp add: xspec_def)
    from wait_spec [of rm "xspec o' ms d" moves d3] port mv i3 obtain b d4 where
      d4: "wait_for_completion moves d3 = Some (b, d4)" "xfer_inv rm (xspec o' ms d) d4" by (auto simp: vx)
    have map4: "reg_map d4 = Some rm" using d4(2) by (simp add: xfer_inv_def xfer_core_def)
    have env4: "env_ok o' e d4"
      using d4(2) env by (simp add: xfer_inv_def xfer_core_def lock_ok_def env_ok_def xspec_def start_xfer_def)
    show ?thesis
    proof (cases "r1 \<noteq> 0 \<or> r2 < 0")
      case True
      then show ?thesis
      proof (cases "r1 \<noteq> 0")
        case True
        with q1(2) have "r1 < 0" by simp
        from sends_quiet [OF q1(1) this] nover [OF q1(1)] True False show ?thesis
          by (simp add: i2c_dw_xfer_def Let_def pm d1)
      next
        case z: False
        with True have "r2 < 0" by simp
        have q: "hw_quiet o' ?a (i2c_dw_release_lock d2)" by (rule release_quiet [OF env q2])
        from sends_quiet [OF q \<open>r2 < 0\<close>] nover [OF q] z \<open>r2 < 0\<close> False show ?thesis
          by (simp add: i2c_dw_xfer_def Let_def pm d1 d2)
      qed
    next
      case go: False
      show ?thesis
      proof (cases b)
        case True
        have q: "hw_quiet o' d4 (i2c_dw_release_lock (i2c_dw_disable_nowait d4))"
          unfolding i2c_dw_disable_nowait_def
          by (intro release_quiet [OF env4] hw_quiet_write [OF port map4] hw_quiet_refl) (simp add: dw_reg_defs)
        have res: "xfer_result (i2c_dw_disable_nowait d4) = xfer_result d4"
          by (simp add: i2c_dw_disable_nowait_def regmap_write_def xfer_result_def i2c_dw_handle_tx_abort_def)
        have "i2c_dw_xfer e moves ms d = Some (xfer_result d4, pm_put (i2c_dw_release_lock (i2c_dw_disable_nowait d4)))"
          using go False True by (simp add: i2c_dw_xfer_def Let_def pm d1 d2 d3(1) d4(1) res)
        with sends_inv [OF d4(2) q, of "xfer_result d4"] show ?thesis by simp
      next
        case nb: False
        have q: "hw_quiet o' d4 (i2c_dw_release_lock (snd (i2c_dw_init_master e (snd (i2c_recover_bus e d4)))))"
          by (intro release_quiet [OF env4] init_master_quiet [OF port map4] recover_quiet [OF env4] hw_quiet_refl env4)
        have "i2c_dw_xfer e moves ms d
            = Some (- ETIMEDOUT, pm_put (i2c_dw_release_lock (snd (i2c_dw_init_master e (snd (i2c_recover_bus e d4))))))"
          using go False nb by (simp add: i2c_dw_xfer_def Let_def pm d1 d2 d3(1) d4(1))
        with sends_inv [OF d4(2) q, of "- ETIMEDOUT"] show ?thesis by simp
      qed
    qed
  qed
qed

section \<open>Properties\<close>



section \<open>A concrete controller\<close>

text \<open>Hardware that takes every command at once, so that its transmit FIFO is always empty, and that always
  has a byte to deliver.\<close>

record demo_master_hw =
  mh_pend :: u32
  mh_mask :: u32
  mh_sent :: "u32 list"

definition demo_m_readl :: "nat \<Rightarrow> demo_master_hw \<Rightarrow> u32 \<times> demo_master_hw" where
  "demo_m_readl r h =
     (if r = DW_IC_INTR_STAT then (mh_pend h AND mh_mask h, h)
      else if r = DW_IC_RAW_INTR_STAT then (mh_pend h, h)
      else if r = DW_IC_INTR_MASK then (mh_mask h, h)
      else if r = DW_IC_ENABLE \<or> r = DW_IC_RXFLR then (1, h)
      else (0, h))"

definition demo_m_writel :: "u32 \<Rightarrow> nat \<Rightarrow> demo_master_hw \<Rightarrow> demo_master_hw" where
  "demo_m_writel v r h =
     (if r = DW_IC_DATA_CMD then h\<lparr>mh_sent := mh_sent h @ [v]\<rparr>
      else if r = DW_IC_INTR_MASK then h\<lparr>mh_mask := v\<rparr> else h)"

definition demo_master_mmio :: "demo_master_hw mmio" where
  "demo_master_mmio = \<lparr>readl = demo_m_readl, writel = demo_m_writel, readw = \<lambda>_ h. (0, h), writew = \<lambda>_ _ h. h\<rparr>"

definition demo_master_rm :: "demo_master_hw regmap" where
  "demo_master_rm = \<lparr>rm_read = dw_reg_read demo_master_mmio, rm_write = dw_reg_write demo_master_mmio,
     rm_update_bits = \<lambda>_ _ _ h. (0, h), rm_poll = \<lambda>_ _ h. (0, 0, h)\<rparr>"

definition demo_cmd_view :: "demo_master_hw cmd_view" where
  "demo_cmd_view = \<lparr>c_sent = mh_sent, c_mask = mh_mask, c_level = \<lambda>_. 0, c_over = \<lambda>_. False, c_depth = 32\<rparr>"

definition demo_dw_env :: "(demo_master_hw, unit) dw_env" where
  "demo_dw_env = \<lparr>usleep = \<lambda>h. h, devm_regmap_init = \<lambda>_. Inl 0,
     pm_runtime_get_sync = \<lambda>d. d\<lparr>pm_usage := pm_usage d + 1\<rparr>, pm_runtime_put_sync = \<lambda>d. d\<lparr>pm_usage := pm_usage d - 1\<rparr>, i2c_recover_bus = \<lambda>d. (0, d\<lparr>hw := hw d\<rparr>),
     clk_set_rate = \<lambda>_ _ h. (0, h), clk_prepare_enable = \<lambda>_ h. (0, h), clk_disable_unprepare = \<lambda>_ h. h,
     reset_control_assert = \<lambda>h. h, reset_control_deassert = \<lambda>h. h, request_irq = \<lambda>_ h. (0, h),
     add_numbered_adapter = \<lambda>h. (0, h), gpio_scl = Inr False, gpio_sda = Inr False\<rparr>"

definition demo_master_dev :: "(demo_master_hw, unit) dw_i2c_dev" where
  "demo_master_dev = (zero_dev demo_master_mmio \<lparr>mh_pend = 0, mh_mask = 0, mh_sent = []\<rparr>)
     \<lparr>reg_map := Some demo_master_rm, master_cfg := 0x65, tx_fifo_depth := 32, rx_fifo_depth := 32\<rparr>"

text \<open>Set the address 0x10 of the slave 0x50, then read one byte.\<close>

definition demo_msgs :: "i2c_msg list" where
  "demo_msgs = [\<lparr>msg_addr = 0x50, msg_flags = 0, msg_len = 1, msg_buf = [0x10]\<rparr>,
                \<lparr>msg_addr = 0x50, msg_flags = 1, msg_len = 1, msg_buf = [0]\<rparr>]"

definition demo_moves :: "(demo_master_hw \<Rightarrow> demo_master_hw) list" where
  "demo_moves = [\<lambda>h. h\<lparr>mh_pend := 0x10\<rparr>, \<lambda>h. h\<lparr>mh_pend := 0x204\<rparr>]"

lemma and_not_both: "a AND b AND NOT a = 0" for a b :: u32
  by (intro bit_word_eqI) (simp add: bit_and_iff bit_not_iff)

lemma demo_cmd_port: "cmd_port demo_master_rm demo_cmd_view"
  by (auto simp: cmd_port_def cmd_read_law_def cmd_write_law_def cmd_quiet_def demo_master_rm_def demo_cmd_view_def
      dw_reg_read_def dw_reg_write_def demo_master_mmio_def demo_m_readl_def demo_m_writel_def Let_def dw_reg_defs
      and_not_both ac_simps split: if_splits)

lemma demo_dw_env_ok: "env_ok demo_cmd_view demo_dw_env demo_master_dev"
  unfolding env_ok_def
  by (intro conjI allI exI)
     (auto simp: cmd_quiet_def demo_dw_env_def demo_master_dev_def zero_dev_def demo_cmd_view_def)

lemma demo_transfer_pre: "transfer_pre demo_master_rm demo_cmd_view demo_dw_env demo_moves demo_msgs demo_master_dev"
  unfolding transfer_pre_def
  by (intro conjI demo_cmd_port demo_dw_env_ok)
     (auto simp: demo_master_dev_def zero_dev_def cmd_quiet_def
      demo_moves_def cmd_move_def demo_cmd_view_def demo_msgs_def good_msg_def I2C_M_RECV_LEN_def demo_dw_env_def)


lemma demo_cmds: "cmds_from demo_msgs 0 = [0x10, 0x300]"
  by (simp add: cmds_from_def msg_cmds_def demo_msgs_def is_read_def I2C_M_RD_def BIT_def upt_rec)

text \<open>The transfer succeeds, with stop and restart bit on the read.\<close>

lemma demo_run:
  "map_option (\<lambda>(r, d'). (r, mh_sent (hw d'))) (i2c_dw_xfer demo_dw_env demo_moves demo_msgs demo_master_dev) = Some (2, [0x10, 0x700])"
  by code_simp


text \<open>The restart bit of a message is lost when the transmit FIFO is full at the time the driver comes to the
  message: the flag is local to one call.  Here the FIFO has one place, is full when the second message is
  reached and empty again at the next interrupt.  With room for both messages the bit is sent.\<close>

definition demo_write_msgs :: "i2c_msg list" where
  "demo_write_msgs = map (\<lambda>b. \<lparr>msg_addr = 0x50, msg_flags = 0, msg_len = 1, msg_buf = [b]\<rparr>) [1, 2]"

definition demo_full_rm :: "demo_master_hw regmap" where
  "demo_full_rm = demo_master_rm\<lparr>rm_read := \<lambda>r h. if r = DW_IC_TXFLR then (0, if mh_sent h \<noteq> [] \<and> mh_pend h = 0x10 then 1 else 0, h)
     else rm_read demo_master_rm r h\<rparr>"

lemma restart_bit_lost:
  "map_option (\<lambda>(r, d'). (r, mh_sent (hw d'))) (i2c_dw_xfer demo_dw_env
      [\<lambda>h. h\<lparr>mh_pend := 0x10\<rparr>, \<lambda>h. h\<lparr>mh_pend := 0x11\<rparr>, \<lambda>h. h\<lparr>mh_pend := 0x200\<rparr>] demo_write_msgs
      (demo_master_dev\<lparr>tx_fifo_depth := 1, reg_map := Some demo_full_rm\<rparr>)) = Some (2, [1, 0x202])"
  "map_option (\<lambda>(r, d'). (r, mh_sent (hw d'))) (i2c_dw_xfer demo_dw_env
      [\<lambda>h. h\<lparr>mh_pend := 0x10\<rparr>, \<lambda>h. h\<lparr>mh_pend := 0x200\<rparr>] demo_write_msgs demo_master_dev) = Some (2, [1, 0x602])"
  by code_simp+

text \<open>A block read whose length byte is out of range (here 0) never ends: the length flag stays, so the message
  is not finished, no stop is sent, and the interrupt for an empty FIFO stays on until the timeout.\<close>

definition demo_block_msgs :: "i2c_msg list" where
  "demo_block_msgs = [\<lparr>msg_addr = 0x50, msg_flags = 0x401, msg_len = 1, msg_buf = [0, 0]\<rparr>]"

lemma invalid_block_length_hangs:
  "map_option (\<lambda>(done', d'). (done', mh_sent (hw d'), mh_mask (hw d'))) (wait_for_completion
      [\<lambda>h. h\<lparr>mh_pend := 0x10\<rparr>, \<lambda>h. h\<lparr>mh_pend := 0x14\<rparr>, \<lambda>h. h\<lparr>mh_pend := 0x10\<rparr>]
      (start_xfer demo_block_msgs (demo_master_dev\<lparr>hw := \<lparr>mh_pend = 0, mh_mask = 0x254, mh_sent = []\<rparr>\<rparr>)))
     = Some (False, [0x100], 0x254)"
  by code_simp

end
