(* ===== verification/I2c_Dw_Plat.thy ===== *)
theory I2c_Dw_Plat
  imports I2c_Dw_Slave I2c_Dw_Master
begin

text \<open>
  The platform driver of the DesignWare I2C controller
  (\<open>drivers/i2c/busses/i2c-designware-platdrv.c\<close>): probe and remove, system and runtime suspend and
  resume, over the master and the slave mode; and what the initialisation leaves in the registers.
  The calls of the platform bus, of device properties and of the clock and reset frameworks are
  fields of the environment.
\<close>

section \<open>Environment\<close>

record ('b, 's) plat_env = "('b, 's) dw_env" +
  platform_get_irq :: int
  kzalloc_dev :: bool
  match_data :: u32
  ioremap_resource :: "nat \<Rightarrow> int + 'b mmio"
  syscon_parent :: "int + 'b regmap"
  reset_control_get :: "int option"
  reset_control_reset :: "'b \<Rightarrow> 'b"
  plat_data :: "u32 option"
  parse_fw_timings :: "i2c_timings \<Rightarrow> i2c_timings"
  has_of_node :: bool
  detect_slave_mode :: bool
  clk_get_optional :: "dw_clk \<Rightarrow> int option"

text \<open>\<open>reset_control_get\<close> and \<open>clk_get_optional\<close> give the error, if any.\<close>

section \<open>Other systems on chip\<close>

definition BT1_I2C_CTL :: nat where "BT1_I2C_CTL = 0x100"
definition BT1_I2C_CTL_ADDR_MASK :: u32 where "BT1_I2C_CTL_ADDR_MASK = 0xff"
definition BT1_I2C_CTL_WR :: u32 where "BT1_I2C_CTL_WR = BIT 8"
definition BT1_I2C_CTL_GO :: u32 where "BT1_I2C_CTL_GO = BIT 31"
definition BT1_I2C_DI :: nat where "BT1_I2C_DI = 0x104"
definition BT1_I2C_DO :: nat where "BT1_I2C_DO = 0x108"

text \<open>The value of a failed read is not used by the register map.\<close>

definition bt1_i2c_read :: "'b regmap \<Rightarrow> nat \<Rightarrow> 'b \<Rightarrow> int \<times> u32 \<times> 'b" where
  "bt1_i2c_read sysmap reg h =
     (case rm_write sysmap BT1_I2C_CTL (BT1_I2C_CTL_GO OR (of_nat reg AND BT1_I2C_CTL_ADDR_MASK)) h of
        (ret, h1) \<Rightarrow> if ret \<noteq> 0 then (ret, 0, h1) else rm_read sysmap BT1_I2C_DO h1)"

definition bt1_i2c_write :: "'b regmap \<Rightarrow> nat \<Rightarrow> u32 \<Rightarrow> 'b \<Rightarrow> int \<times> 'b" where
  "bt1_i2c_write sysmap reg val h =
     (case rm_write sysmap BT1_I2C_DI val h of
        (ret, h1) \<Rightarrow>
          if ret \<noteq> 0 then (ret, h1)
          else rm_write sysmap BT1_I2C_CTL (BT1_I2C_CTL_GO OR BT1_I2C_CTL_WR OR (of_nat reg AND BT1_I2C_CTL_ADDR_MASK)) h1)"

definition bt1_i2c_request_regs :: "('b, 's) plat_env \<Rightarrow> ('b, 's) dw_i2c_dev \<Rightarrow> int \<times> ('b, 's) dw_i2c_dev" where
  "bt1_i2c_request_regs e d =
     (case syscon_parent e of
        Inl err \<Rightarrow> (err, d)
      | Inr sysmap \<Rightarrow>
          (case devm_regmap_init e \<lparr>reg_read = bt1_i2c_read sysmap, reg_write = bt1_i2c_write sysmap\<rparr> of
             Inl err \<Rightarrow> (err, d)
           | Inr rm \<Rightarrow> (0, d\<lparr>reg_map := Some rm\<rparr>)))"

definition MSCC_ICPU_CFG_TWI_DELAY :: nat where "MSCC_ICPU_CFG_TWI_DELAY = 0"
definition MSCC_ICPU_CFG_TWI_DELAY_ENABLE :: u32 where "MSCC_ICPU_CFG_TWI_DELAY_ENABLE = BIT 0"

definition mscc_twi_set_sda_hold_time :: "'b mmio \<Rightarrow> u32 \<Rightarrow> 'b \<Rightarrow> int \<times> 'b" where
  "mscc_twi_set_sda_hold_time ext sda_hold h =
     (0, writel ext (push_bit 1 sda_hold OR MSCC_ICPU_CFG_TWI_DELAY_ENABLE) MSCC_ICPU_CFG_TWI_DELAY h)"

definition dw_i2c_of_configure :: "('b, 's) plat_env \<Rightarrow> ('b, 's) dw_i2c_dev \<Rightarrow> ('b, 's) dw_i2c_dev" where
  "dw_i2c_of_configure e d =
     (if dw_flags d AND MODEL_MASK = MODEL_MSCC_OCELOT then
        (case ioremap_resource e 1 of
           Inl _ \<Rightarrow> d
         | Inr ext \<Rightarrow> d\<lparr>set_sda_hold_time := Some (mscc_twi_set_sda_hold_time ext)\<rparr>)
      else d)"

section \<open>Probe and remove\<close>

definition i2c_dw_get_clk_rate_khz :: "'b \<Rightarrow> u32 \<times> 'b" where
  "i2c_dw_get_clk_rate_khz h = (I2C_SOURCE_CLK div 1000, h)"

definition dw_i2c_plat_pm_cleanup :: "('b, 's) dw_i2c_dev \<Rightarrow> ('b, 's) dw_i2c_dev" where
  "dw_i2c_plat_pm_cleanup d =
     (let d1 = d\<lparr>pm_enabled := False\<rparr>
      in if shared_with_punit d1 then d1\<lparr>pm_usage := pm_usage d1 - 1\<rparr> else d1)"

definition dw_i2c_plat_request_regs :: "('b, 's) plat_env \<Rightarrow> ('b, 's) dw_i2c_dev \<Rightarrow> int \<times> ('b, 's) dw_i2c_dev" where
  "dw_i2c_plat_request_regs e d =
     (if dw_flags d AND MODEL_MASK = MODEL_BAIKAL_BT1 then bt1_i2c_request_regs e d
      else
        (case ioremap_resource e 0 of
           Inl err \<Rightarrow> (err, d)
         | Inr b \<Rightarrow> (0, d\<lparr>base := b\<rparr>)))"

definition i2c_dw_probe :: "('b, 's) dw_env \<Rightarrow> ('b, 's) dw_i2c_dev \<Rightarrow> int \<times> ('b, 's) dw_i2c_dev" where
  "i2c_dw_probe e d =
     (if dw_mode d = DW_IC_SLAVE then i2c_dw_probe_slave e d
      else if dw_mode d = DW_IC_MASTER then i2c_dw_probe_master e d
      else (- EINVAL, d))"

definition i2c_dw_configure :: "('b, 's) plat_env \<Rightarrow> ('b, 's) dw_i2c_dev \<Rightarrow> ('b, 's) dw_i2c_dev" where
  "i2c_dw_configure e d = (if detect_slave_mode e then i2c_dw_configure_slave d else i2c_dw_configure_master d)"

definition i2c_dw_probe_lock_support :: int where "i2c_dw_probe_lock_support = 0"

text \<open>The label \<open>exit_reset\<close>.\<close>

definition exit_reset :: "('b, 's) plat_env \<Rightarrow> ('b, 's) dw_i2c_dev \<Rightarrow> ('b, 's) dw_i2c_dev" where
  "exit_reset e d = d\<lparr>hw := reset_control_assert e (hw d)\<rparr>"

text \<open>The part of the probe function from the clocks on.\<close>

definition plat_probe_clocks :: "('b, 's) plat_env \<Rightarrow> ('b, 's) dw_i2c_dev \<Rightarrow> int \<times> ('b, 's) dw_i2c_dev" where
  "plat_probe_clocks e d =
     (case clk_get_optional e Pclk of Some err \<Rightarrow> (err, exit_reset e d)
      | None \<Rightarrow>
     (case clk_get_optional e Clk of Some err \<Rightarrow> (err, exit_reset e d)
      | None \<Rightarrow>
     (case i2c_dw_prepare_clk (dw_env.truncate e) True d of (ret, d1) \<Rightarrow>
      if ret \<noteq> 0 then (ret, exit_reset e d1)
      else
        let d2 = d1\<lparr>get_clk_rate_khz := Some i2c_dw_get_clk_rate_khz\<rparr>;
            d3 = (if shared_with_punit d2 then d2\<lparr>pm_usage := pm_usage d2 + 1\<rparr> else d2);
            d4 = d3\<lparr>pm_enabled := True\<rparr>
        in case i2c_dw_probe (dw_env.truncate e) d4 of (ret, d5) \<Rightarrow>
             if ret \<noteq> 0 then (ret, exit_reset e (dw_i2c_plat_pm_cleanup d5)) else (ret, d5))))"

text \<open>The result carries the device, if one was allocated.\<close>

definition dw_i2c_plat_probe :: "('b, 's) plat_env \<Rightarrow> 'b mmio \<Rightarrow> 'b \<Rightarrow> int \<times> ('b, 's) dw_i2c_dev option" where
  "dw_i2c_plat_probe e null h =
     (if platform_get_irq e < 0 then (platform_get_irq e, None)
      else if \<not> kzalloc_dev e then (- ENOMEM, None)
      else
        let d0 = (zero_dev null h)\<lparr>dw_flags := match_data e, dw_irq := platform_get_irq e\<rparr> in
        case dw_i2c_plat_request_regs e d0 of (ret, d1) \<Rightarrow>
        if ret \<noteq> 0 then (ret, Some d1)
        else if reset_control_get e \<noteq> None then (- EINVAL, Some d1)
        else
          let d2 = d1\<lparr>hw := reset_control_reset e (hw d1)\<rparr>;
              t = (case plat_data e of
                     Some f \<Rightarrow> (timings d2)\<lparr>bus_freq_hz := f\<rparr>
                   | None \<Rightarrow> parse_fw_timings e (timings d2));
              d3 = i2c_dw_adjust_bus_speed (d2\<lparr>timings := t\<rparr>);
              d4 = (if has_of_node e then dw_i2c_of_configure e d3 else d3);
              ret = i2c_dw_validate_speed d4
          in if ret \<noteq> 0 then (ret, Some (exit_reset e d4))
             else if i2c_dw_probe_lock_support \<noteq> 0 then (i2c_dw_probe_lock_support, Some (exit_reset e d4))
             else (case plat_probe_clocks e (i2c_dw_configure e d4) of (ret, d5) \<Rightarrow> (ret, Some d5)))"

definition dw_i2c_plat_suspend :: "('b, 's) dw_env \<Rightarrow> ('b, 's) dw_i2c_dev \<Rightarrow> int \<times> ('b, 's) dw_i2c_dev" where
  "dw_i2c_plat_suspend e d =
     (let d1 = d\<lparr>suspended := True\<rparr> in
      if shared_with_punit d1 then (0, d1)
      else (0, snd (i2c_dw_prepare_clk e False (i2c_dw_disable e d1))))"

text \<open>The function pointer \<open>init\<close>, which the probe functions set.\<close>

definition call_init :: "('b, 's) dw_env \<Rightarrow> ('b, 's) dw_i2c_dev \<Rightarrow> (int \<times> ('b, 's) dw_i2c_dev) option" where
  "call_init e d =
     (case dw_init d of
        None \<Rightarrow> None
      | Some Init_master \<Rightarrow> Some (i2c_dw_init_master e d)
      | Some Init_slave \<Rightarrow> Some (i2c_dw_init_slave e d))"

definition dw_i2c_plat_resume :: "('b, 's) dw_env \<Rightarrow> ('b, 's) dw_i2c_dev \<Rightarrow> (int \<times> ('b, 's) dw_i2c_dev) option" where
  "dw_i2c_plat_resume e d =
     (let d1 = (if \<not> shared_with_punit d then snd (i2c_dw_prepare_clk e True d) else d) in
      case call_init e d1 of
        None \<Rightarrow> None
      | Some (_, d2) \<Rightarrow> Some (0, d2\<lparr>suspended := False\<rparr>))"

definition dw_i2c_plat_remove :: "('b, 's) plat_env \<Rightarrow> ('b, 's) dw_i2c_dev \<Rightarrow> int \<times> ('b, 's) dw_i2c_dev" where
  "dw_i2c_plat_remove e d =
     (let d1 = pm_runtime_get_sync e d;
          d2 = d1\<lparr>adapter := (adapter d1)\<lparr>adap_added := False\<rparr>\<rparr>;
          d3 = pm_runtime_put_sync e (i2c_dw_disable (dw_env.truncate e) d2)
      in (0, exit_reset e (dw_i2c_plat_pm_cleanup d3)))"

section \<open>What initialisation leaves in the registers\<close>

text \<open>\<open>val\<close> observes the value last written to each register.\<close>

definition reg_file :: "'b regmap \<Rightarrow> ('b \<Rightarrow> nat \<Rightarrow> u32) \<Rightarrow> bool" where
  "reg_file rm val \<longleftrightarrow> (\<forall>r w h. val (snd (rm_write rm r w h)) = (val h)(r := w))
     \<and> (\<forall>r h. val (snd (snd (rm_read rm r h))) = val h)"

lemma disable_regs:
  assumes "reg_file rm val" and "reg_map d = Some rm" and "\<And>h. val (usleep e h) = val h"
  shows "\<exists>h'. disable_loop e t (d\<lparr>hw := h\<rparr>) = d\<lparr>hw := h'\<rparr> \<and> val h' = (val h)(DW_IC_ENABLE := 0)"
proof (induction t arbitrary: h)
  case 0
  obtain r v h1 where r: "rm_read rm DW_IC_ENABLE_STATUS (snd (rm_write rm DW_IC_ENABLE 0 h)) = (r, v, h1)" by (metis prod.exhaust)
  have h1: "val h1 = (val h)(DW_IC_ENABLE := 0)" using assms(1) unfolding reg_file_def by (metis r snd_conv)
  have "disable_loop e 0 (d\<lparr>hw := h\<rparr>) = d\<lparr>hw := if v AND 1 = 0 then h1 else usleep e h1\<rparr>"
    using r assms(2) by (simp add: i2c_dw_disable_nowait_def regmap_write_def reg_value_def regmap_read_def)
  moreover have "val (if v AND 1 = 0 then h1 else usleep e h1) = (val h)(DW_IC_ENABLE := 0)"
    by (cases "v AND 1 = 0") (simp_all only: if_True if_False simp_thms assms(3) h1)
  ultimately show ?case by (intro exI conjI)
next
  case (Suc t)
  obtain r v h1 where r: "rm_read rm DW_IC_ENABLE_STATUS (snd (rm_write rm DW_IC_ENABLE 0 h)) = (r, v, h1)" by (metis prod.exhaust)
  have h1: "val h1 = (val h)(DW_IC_ENABLE := 0)" using assms(1) unfolding reg_file_def by (metis r snd_conv)
  obtain h2 where h2: "disable_loop e t (d\<lparr>hw := usleep e h1\<rparr>) = d\<lparr>hw := h2\<rparr>" "val h2 = (val h)(DW_IC_ENABLE := 0)"
    using Suc.IH [of "usleep e h1"] unfolding h1 assms(3) fun_upd_upd by blast
  have "disable_loop e (Suc t) (d\<lparr>hw := h\<rparr>) = d\<lparr>hw := if v AND 1 = 0 then h1 else h2\<rparr>"
    using r assms(2) h2 by (simp add: i2c_dw_disable_nowait_def regmap_write_def reg_value_def regmap_read_def Let_def)
  moreover have "val (if v AND 1 = 0 then h1 else h2) = (val h)(DW_IC_ENABLE := 0)"
    by (cases "v AND 1 = 0") (simp_all only: if_True if_False simp_thms h1 h2)
  ultimately show ?case by (intro exI conjI)
qed

lemma disable_regs':
  assumes "reg_file rm val" and "reg_map d = Some rm" and "\<And>h. val (usleep e h) = val h"
  shows "\<exists>h'. do_i2c_dw_disable e d = d\<lparr>hw := h'\<rparr> \<and> val h' = (val (hw d))(DW_IC_ENABLE := 0)"
  using disable_regs [OF assms, where h = "hw d" and t = 100] by (simp add: do_i2c_dw_disable_def)

lemma regmap_write_hw:
  "reg_map d = Some rm \<Longrightarrow> regmap_write r w (d\<lparr>hw := h\<rparr>) = d\<lparr>hw := snd (rm_write rm r w h)\<rparr>"
  by (simp add: regmap_write_def)

definition master_regs :: "('b, 's) dw_i2c_dev \<Rightarrow> (nat \<Rightarrow> u32) \<Rightarrow> nat \<Rightarrow> u32" where
  "master_regs d f =
     (let f1 = f(DW_IC_ENABLE := 0, DW_IC_SS_SCL_HCNT := ucast (ss_hcnt d), DW_IC_SS_SCL_LCNT := ucast (ss_lcnt d),
                 DW_IC_FS_SCL_HCNT := ucast (fs_hcnt d), DW_IC_FS_SCL_LCNT := ucast (fs_lcnt d));
          f2 = (if hs_hcnt d \<noteq> 0 \<and> hs_lcnt d \<noteq> 0 then f1(DW_IC_HS_SCL_HCNT := ucast (hs_hcnt d), DW_IC_HS_SCL_LCNT := ucast (hs_lcnt d)) else f1)
      in f2(DW_IC_SDA_HOLD := 20, DW_IC_TX_TL := tx_fifo_depth d div 2, DW_IC_RX_TL := 0, DW_IC_CON := master_cfg d))"

definition slave_regs :: "('b, 's) dw_i2c_dev \<Rightarrow> (nat \<Rightarrow> u32) \<Rightarrow> nat \<Rightarrow> u32" where
  "slave_regs d f = f(DW_IC_ENABLE := 0, DW_IC_SDA_HOLD := 20, DW_IC_TX_TL := 0, DW_IC_RX_TL := 0, DW_IC_CON := slave_cfg d,
     DW_IC_INTR_MASK := DW_IC_INTR_SLAVE_MASK)"

text \<open>Both initialisations write registers one after the other.\<close>

fun write_all :: "'b regmap \<Rightarrow> (nat \<times> u32) list \<Rightarrow> 'b \<Rightarrow> 'b" where
  "write_all rm [] h = h"
| "write_all rm ((r, w) # ws) h = write_all rm ws (snd (rm_write rm r w h))"

lemma write_all_regs:
  assumes "reg_file rm val"
  shows "val (write_all rm ws h) = foldl (\<lambda>f (r, w). f(r := w)) (val h) ws"
  using assms by (induction rm ws h rule: write_all.induct) (simp_all add: reg_file_def)

lemma init_slave_regs:
  assumes "reg_file rm val" and "reg_map d = Some rm" and "\<And>h. val (usleep e h) = val h"
    and "acquire_lock d = None" and "release_lock d = None"
  shows "\<exists>h. i2c_dw_init_slave e d = (0, d\<lparr>hw := h\<rparr>) \<and> val h = slave_regs d (val (hw d))"
proof -
  obtain h1 where h1: "do_i2c_dw_disable e d = d\<lparr>hw := h1\<rparr>" "val h1 = (val (hw d))(DW_IC_ENABLE := 0)"
    using disable_regs' [OF assms(1-3)] by blast
  define ws where "ws = (if sda_hold_time d \<noteq> 0 then [(DW_IC_SDA_HOLD, sda_hold_time d)] else [])
    @ [(DW_IC_SDA_HOLD, 20), (DW_IC_TX_TL, 0), (DW_IC_RX_TL, 0), (DW_IC_CON, slave_cfg d), (DW_IC_INTR_MASK, DW_IC_INTR_SLAVE_MASK)]"
  have "i2c_dw_init_slave e d = (0, d\<lparr>hw := write_all rm ws h1\<rparr>)"
    by (simp add: i2c_dw_init_slave_def i2c_dw_acquire_lock_def i2c_dw_release_lock_def assms(4,5) h1 Let_def
        i2c_dw_configure_fifo_slave_def regmap_write_hw [OF assms(2)] ws_def)
  moreover have "val (write_all rm ws h1) = slave_regs d (val (hw d))"
    by (simp add: write_all_regs [OF assms(1)] ws_def h1 slave_regs_def)
  ultimately show ?thesis by (intro exI conjI)
qed

lemma init_master_regs:
  assumes "reg_file rm val" and "reg_map d = Some rm" and "\<And>h. val (usleep e h) = val h"
    and "acquire_lock d = None" and "release_lock d = None"
  shows "\<exists>h. i2c_dw_init_master e d = (0, d\<lparr>hw := h\<rparr>) \<and> val h = master_regs d (val (hw d))"
proof -
  obtain h1 where h1: "do_i2c_dw_disable e d = d\<lparr>hw := h1\<rparr>" "val h1 = (val (hw d))(DW_IC_ENABLE := 0)"
    using disable_regs' [OF assms(1-3)] by blast
  define ws where "ws = [(DW_IC_SS_SCL_HCNT, ucast (ss_hcnt d)), (DW_IC_SS_SCL_LCNT, ucast (ss_lcnt d)),
      (DW_IC_FS_SCL_HCNT, ucast (fs_hcnt d)), (DW_IC_FS_SCL_LCNT, ucast (fs_lcnt d))]
    @ (if hs_hcnt d \<noteq> 0 \<and> hs_lcnt d \<noteq> 0 then [(DW_IC_HS_SCL_HCNT, ucast (hs_hcnt d)), (DW_IC_HS_SCL_LCNT, ucast (hs_lcnt d))] else [])
    @ (if sda_hold_time d \<noteq> 0 then [(DW_IC_SDA_HOLD, sda_hold_time d)] else [])
    @ [(DW_IC_SDA_HOLD, 20), (DW_IC_TX_TL, tx_fifo_depth d div 2), (DW_IC_RX_TL, 0), (DW_IC_CON, master_cfg d)]"
  have "i2c_dw_init_master e d = (0, d\<lparr>hw := write_all rm ws h1\<rparr>)"
    unfolding i2c_dw_init_master_def i2c_dw_acquire_lock_def i2c_dw_release_lock_def ws_def
    by (cases "hs_hcnt d = 0"; cases "hs_lcnt d = 0"; cases "sda_hold_time d = 0")
      (simp_all add: assms(4,5) h1 Let_def i2c_dw_configure_fifo_master_def regmap_write_hw [OF assms(2)])
  moreover have "val (write_all rm ws h1) = master_regs d (val (hw d))"
    unfolding write_all_regs [OF assms(1)] ws_def h1
    by (cases "hs_hcnt d = 0"; cases "hs_lcnt d = 0"; cases "sda_hold_time d = 0") (simp_all add: master_regs_def)
  ultimately show ?thesis by (intro exI conjI)
qed

text \<open>The clock framework does not touch the registers.\<close>

definition clocks_keep :: "('b, 's) dw_env \<Rightarrow> ('b \<Rightarrow> nat \<Rightarrow> u32) \<Rightarrow> bool" where
  "clocks_keep e val \<longleftrightarrow> (\<forall>c f h. val (snd (clk_set_rate e c f h)) = val h)
     \<and> (\<forall>c h. val (snd (clk_prepare_enable e c h)) = val h) \<and> (\<forall>c h. val (clk_disable_unprepare e c h) = val h)"

lemma prepare_clk_regs:
  assumes "clocks_keep e val"
  shows "\<exists>h. snd (i2c_dw_prepare_clk e p d) = d\<lparr>hw := h\<rparr> \<and> val h = val (hw d)"
proof -
  have k: "val (snd (clk_set_rate e c f h)) = val h" "val (snd (clk_prepare_enable e c h)) = val h"
    "val (clk_disable_unprepare e c h) = val h" for c f h
    using assms by (simp_all add: clocks_keep_def)
  have eq: "snd (i2c_dw_prepare_clk e p d) = d\<lparr>hw := hw (snd (i2c_dw_prepare_clk e p d))\<rparr>"
    by (simp add: i2c_dw_prepare_clk_def Let_def split: prod.splits)
  have "val (hw (snd (i2c_dw_prepare_clk e p d))) = val (hw d)"
    by (simp add: i2c_dw_prepare_clk_def Let_def case_prod_beta k)
  with eq show ?thesis by (intro exI conjI)
qed


text \<open>A plain register file, for the instance of the property: a slave device after a power loss.\<close>

definition file_regmap :: "(nat \<Rightarrow> u32) regmap" where
  "file_regmap = \<lparr>rm_read = (\<lambda>r h. (0, h r, h)), rm_write = (\<lambda>r w h. (0, h(r := w))),
     rm_update_bits = (\<lambda>r m v h. (0, h(r := (h r AND NOT m) OR (v AND m)))), rm_poll = (\<lambda>r p h. (0, h r, h))\<rparr>"

definition file_env :: "(nat \<Rightarrow> u32, unit) dw_env" where
  "file_env = \<lparr>usleep = (\<lambda>h. h), devm_regmap_init = (\<lambda>c. Inl (- EINVAL)), pm_runtime_get_sync = (\<lambda>d. d),
     pm_runtime_put_sync = (\<lambda>d. d), i2c_recover_bus = (\<lambda>d. (0, d)), clk_set_rate = (\<lambda>c f h. (0, h)),
     clk_prepare_enable = (\<lambda>c h. (0, h)), clk_disable_unprepare = (\<lambda>c h. h), reset_control_assert = (\<lambda>h. h),
     reset_control_deassert = (\<lambda>h. h), request_irq = (\<lambda>f h. (0, h)), add_numbered_adapter = (\<lambda>h. (0, h)),
     gpio_scl = Inl (- ENOENT), gpio_sda = Inl (- ENOENT)\<rparr>"

definition file_mmio :: "(nat \<Rightarrow> u32) mmio" where
  "file_mmio = \<lparr>readl = (\<lambda>r h. (h r, h)), writel = (\<lambda>v r h. h(r := v)), readw = (\<lambda>r h. (ucast (h r), h)),
     writew = (\<lambda>v r h. h(r := ucast v))\<rparr>"

definition file_dev :: "(nat \<Rightarrow> u32, unit) dw_i2c_dev" where
  "file_dev = (zero_dev file_mmio (\<lambda>r. 7))\<lparr>reg_map := Some file_regmap, dw_init := Some Init_slave, slave_cfg := 0x205,
     suspended := True\<rparr>"


end
