(* ===== verification/Pwm_Types.thy ===== *)
theory Pwm_Types
  imports Prelude
begin

text \<open>
  Data of the PWM framework (\<open>include/linux/pwm.h\<close>, the static variables of
  \<open>drivers/pwm/core.c\<close> and \<open>struct pwm_export\<close> of \<open>drivers/pwm/sysfs.c\<close>), and the inline
  accessors of the header.

  A \<open>struct pwm_chip *\<close> is a number, the memory it points to is \<open>chip_mem\<close>; a
  \<open>struct pwm_device *\<close> is the pair of its chip and its position in \<open>chip->pwms\<close>, because the
  framework allocates these structures only as that array.  \<open>NULL\<close> is \<open>None\<close> where the code
  tests for it.  The driver callbacks of \<open>struct pwm_ops\<close> act on an abstract hardware state
  \<open>'h\<close>; they get the chip pointer and the device they are called for and do not write the
  structures of the framework.  The mutexes make each exported operation one atomic step.
\<close>

section \<open>The structures of pwm.h\<close>

datatype pwm_polarity = PWM_POLARITY_NORMAL | PWM_POLARITY_INVERSED

record pwm_args =
  ar_period :: u32
  ar_polarity :: pwm_polarity

definition PWMF_REQUESTED :: nat where "PWMF_REQUESTED = 1"
definition PWMF_EXPORTED :: nat where "PWMF_EXPORTED = 2"

record pwm_state =
  period :: u32
  duty_cycle :: u32
  polarity :: pwm_polarity
  enabled :: bool

type_synonym chip_ptr = nat
type_synonym pwm_ptr = "nat \<times> nat"

record pwm_device =
  label :: "string option"
  flags :: u32
  hwpwm :: nat
  pwm :: nat
  chip :: chip_ptr
  chip_data :: "nat option"
  args :: pwm_args
  state :: pwm_state

record pwm_capture =
  cap_period :: u32
  cap_duty_cycle :: u32

record 'h pwm_ops =
  op_request :: "(chip_ptr \<Rightarrow> pwm_device \<Rightarrow> 'h \<Rightarrow> int \<times> 'h) option"
  op_free :: "(chip_ptr \<Rightarrow> pwm_device \<Rightarrow> 'h \<Rightarrow> 'h) option"
  op_capture :: "(chip_ptr \<Rightarrow> pwm_device \<Rightarrow> u32 \<Rightarrow> 'h \<Rightarrow> int \<times> pwm_capture \<times> 'h) option"
  op_apply :: "(chip_ptr \<Rightarrow> pwm_device \<Rightarrow> pwm_state \<Rightarrow> 'h \<Rightarrow> int \<times> 'h) option"
  op_get_state :: "(chip_ptr \<Rightarrow> pwm_device \<Rightarrow> pwm_state \<Rightarrow> 'h \<Rightarrow> pwm_state \<times> 'h) option"
  owner :: "nat option"
  op_config :: "(chip_ptr \<Rightarrow> pwm_device \<Rightarrow> int \<Rightarrow> int \<Rightarrow> 'h \<Rightarrow> int \<times> 'h) option"
  op_set_polarity :: "(chip_ptr \<Rightarrow> pwm_device \<Rightarrow> pwm_polarity \<Rightarrow> 'h \<Rightarrow> int \<times> 'h) option"
  op_enable :: "(chip_ptr \<Rightarrow> pwm_device \<Rightarrow> 'h \<Rightarrow> int \<times> 'h) option"
  op_disable :: "(chip_ptr \<Rightarrow> pwm_device \<Rightarrow> 'h \<Rightarrow> 'h) option"

text \<open>
  The two translation functions of the framework that \<open>chip->of_xlate\<close> can point to, and the
  part of \<open>struct device\<close> that the framework reads.
\<close>

datatype xlate = Of_pwm_simple_xlate | Of_pwm_xlate_with_flags

record device =
  dev_name :: string
  of_node :: "nat option"

record 'h pwm_chip =
  dev :: "device option"
  ops :: "'h pwm_ops option"
  base :: int
  npwm :: nat
  of_xlate :: "xlate option"
  of_pwm_n_cells :: nat
  pwms :: "pwm_device list"

record pwm_lookup =
  provider :: "string option"
  index :: nat
  dev_id :: "string option"
  con_id :: "string option"
  lk_period :: u32
  lk_polarity :: pwm_polarity
  lk_module :: "string option"

section \<open>The state of the framework\<close>

record pwm_export =
  ex_pwm :: pwm_ptr
  suspend :: pwm_state

text \<open>
  \<open>parents\<close> are the class devices \<open>pwmchip%d\<close> (named by the chip that is their driver data)
  and \<open>children\<close> the exported channels below them.  \<open>mod_live\<close> and \<open>mod_refs\<close> are what
  \<open>try_module_get\<close> and \<open>module_put\<close> see of a module, \<open>node_refs\<close> the reference counts of
  device-tree nodes.
\<close>

record 'h pwm_core =
  chip_mem :: "chip_ptr \<Rightarrow> 'h pwm_chip"
  pwm_chips :: "chip_ptr list"
  allocated_pwms :: "nat set"
  pwm_tree :: "nat \<rightharpoonup> pwm_ptr"
  pwm_lookup_list :: "(nat \<times> pwm_lookup) list"
  mod_live :: "nat \<Rightarrow> bool"
  mod_refs :: "nat \<Rightarrow> int"
  node_refs :: "nat \<Rightarrow> int"
  parents :: "chip_ptr list"
  children :: "(chip_ptr \<times> pwm_export) list"
  hw :: 'h

abbreviation chip_at :: "'h pwm_core \<Rightarrow> chip_ptr \<Rightarrow> 'h pwm_chip" where
  "chip_at s c \<equiv> chip_mem s c"

abbreviation pwm_at :: "'h pwm_core \<Rightarrow> pwm_ptr \<Rightarrow> pwm_device" where
  "pwm_at s p \<equiv> pwms (chip_mem s (fst p)) ! snd p"

abbreviation ops_at :: "'h pwm_core \<Rightarrow> pwm_ptr \<Rightarrow> 'h pwm_ops" where
  "ops_at s p \<equiv> the (ops (chip_mem s (fst p)))"

abbreviation upd_chip :: "chip_ptr \<Rightarrow> ('h pwm_chip \<Rightarrow> 'h pwm_chip) \<Rightarrow> 'h pwm_core \<Rightarrow> 'h pwm_core" where
  "upd_chip c f s \<equiv> s\<lparr>chip_mem := (chip_mem s)(c := f (chip_mem s c))\<rparr>"

definition upd_pwm :: "pwm_ptr \<Rightarrow> (pwm_device \<Rightarrow> pwm_device) \<Rightarrow> 'h pwm_core \<Rightarrow> 'h pwm_core" where
  "upd_pwm p f s =
     upd_chip (fst p) (\<lambda>ch. ch\<lparr>pwms := (pwms ch)[snd p := f (pwms ch ! snd p)]\<rparr>) s"

definition try_module_get :: "nat option \<Rightarrow> 'h pwm_core \<Rightarrow> bool \<times> 'h pwm_core" where
  "try_module_get m s = (case m of None \<Rightarrow> (True, s)
     | Some k \<Rightarrow> if mod_live s k then (True, s\<lparr>mod_refs := (mod_refs s)(k := mod_refs s k + 1)\<rparr>)
                 else (False, s))"

definition module_put :: "nat option \<Rightarrow> 'h pwm_core \<Rightarrow> 'h pwm_core" where
  "module_put m s = (case m of None \<Rightarrow> s
     | Some k \<Rightarrow> s\<lparr>mod_refs := (mod_refs s)(k := mod_refs s k - 1)\<rparr>)"

definition of_node_get :: "nat \<Rightarrow> 'h pwm_core \<Rightarrow> 'h pwm_core" where
  "of_node_get n s = s\<lparr>node_refs := (node_refs s)(n := node_refs s n + 1)\<rparr>"

definition of_node_put :: "nat option \<Rightarrow> 'h pwm_core \<Rightarrow> 'h pwm_core" where
  "of_node_put n s = (case n of None \<Rightarrow> s
     | Some k \<Rightarrow> s\<lparr>node_refs := (node_refs s)(k := node_refs s k - 1)\<rparr>)"

definition requested :: "pwm_device \<Rightarrow> bool" where
  "requested pd = bit (flags pd) PWMF_REQUESTED"

definition exported :: "pwm_device \<Rightarrow> bool" where
  "exported pd = bit (flags pd) PWMF_EXPORTED"

section \<open>The inline functions of pwm.h\<close>

definition pwm_get_state :: "pwm_device \<Rightarrow> pwm_state" where
  "pwm_get_state pd = state pd"

definition pwm_is_enabled :: "pwm_device \<Rightarrow> bool" where
  "pwm_is_enabled pd = enabled (pwm_get_state pd)"

definition pwm_set_period :: "pwm_ptr option \<Rightarrow> u32 \<Rightarrow> 'h pwm_core \<Rightarrow> 'h pwm_core" where
  "pwm_set_period po v s = (case po of None \<Rightarrow> s
     | Some p \<Rightarrow> upd_pwm p (\<lambda>pd. pd\<lparr>state := (state pd)\<lparr>period := v\<rparr>\<rparr>) s)"

definition pwm_get_period :: "pwm_device \<Rightarrow> u32" where
  "pwm_get_period pd = period (pwm_get_state pd)"

definition pwm_set_duty_cycle :: "pwm_ptr option \<Rightarrow> u32 \<Rightarrow> 'h pwm_core \<Rightarrow> 'h pwm_core" where
  "pwm_set_duty_cycle po v s = (case po of None \<Rightarrow> s
     | Some p \<Rightarrow> upd_pwm p (\<lambda>pd. pd\<lparr>state := (state pd)\<lparr>duty_cycle := v\<rparr>\<rparr>) s)"

definition pwm_get_duty_cycle :: "pwm_device \<Rightarrow> u32" where
  "pwm_get_duty_cycle pd = duty_cycle (pwm_get_state pd)"

definition pwm_get_polarity :: "pwm_device \<Rightarrow> pwm_polarity" where
  "pwm_get_polarity pd = polarity (pwm_get_state pd)"

definition pwm_get_args :: "pwm_device \<Rightarrow> pwm_args" where
  "pwm_get_args pd = args pd"

definition pwm_init_state :: "pwm_device \<Rightarrow> pwm_state" where
  "pwm_init_state pd =
     (let st = pwm_get_state pd; ar = pwm_get_args pd
      in st\<lparr>period := ar_period ar, polarity := ar_polarity ar, duty_cycle := 0\<rparr>)"

text \<open>
  The relative duty cycle.  \<open>DIV_ROUND_CLOSEST_ULL\<close> is a macro of \<open>linux/kernel.h\<close>, which is
  not part of the repository: it is the parameter \<open>div_closest\<close>, and the theorems assume of it
  that it rounds the quotient to the nearest integer.
\<close>

definition pwm_get_relative_duty_cycle :: "(u64 \<Rightarrow> u32 \<Rightarrow> u64) \<Rightarrow> pwm_state \<Rightarrow> u32 \<Rightarrow> u32" where
  "pwm_get_relative_duty_cycle div_closest st scale =
     (if period st = 0 then 0
      else ucast (div_closest (ucast (duty_cycle st) * ucast scale) (period st)))"

definition pwm_set_relative_duty_cycle ::
    "(u64 \<Rightarrow> u32 \<Rightarrow> u64) \<Rightarrow> pwm_state \<Rightarrow> u32 \<Rightarrow> u32 \<Rightarrow> int \<times> pwm_state" where
  "pwm_set_relative_duty_cycle div_closest st duty scale =
     (if scale = 0 \<or> duty > scale then (- EINVAL, st)
      else (0, st\<lparr>duty_cycle := ucast (div_closest (ucast duty * ucast (period st)) scale)\<rparr>))"

section \<open>Reading after writing a channel\<close>

definition valid_pwm :: "'h pwm_core \<Rightarrow> pwm_ptr \<Rightarrow> bool" where
  "valid_pwm s p \<longleftrightarrow> snd p < length (pwms (chip_mem s (fst p)))"

lemma pwm_at_upd [simp]:
  "valid_pwm s p \<Longrightarrow> pwm_at (upd_pwm p f s) p = f (pwm_at s p)"
  by (simp add: upd_pwm_def valid_pwm_def)

lemma pwm_at_upd_other [simp]: "q \<noteq> p \<Longrightarrow> pwm_at (upd_pwm p f s) q = pwm_at s q"
  by (cases p, cases q) (auto simp: upd_pwm_def)

lemma pwm_at_upd_pair [simp]:
  "valid_pwm s (c, i) \<Longrightarrow> pwms (chip_mem (upd_pwm (c, i) f s) c) ! i = f (pwms (chip_mem s c) ! i)"
  "c' \<noteq> c \<or> j \<noteq> i \<Longrightarrow> pwms (chip_mem (upd_pwm (c, i) f s) c') ! j = pwms (chip_mem s c') ! j"
  using pwm_at_upd [of s "(c, i)"] pwm_at_upd_other [of "(c', j)" "(c, i)"] by auto

lemma valid_upd_pwm [simp]: "valid_pwm (upd_pwm p f s) q = valid_pwm s q"
  by (simp add: upd_pwm_def valid_pwm_def)

lemma upd_pwm_frame [simp]:
  "pwm_chips (upd_pwm p f s) = pwm_chips s"
  "allocated_pwms (upd_pwm p f s) = allocated_pwms s"
  "pwm_tree (upd_pwm p f s) = pwm_tree s"
  "pwm_lookup_list (upd_pwm p f s) = pwm_lookup_list s"
  "mod_live (upd_pwm p f s) = mod_live s"
  "mod_refs (upd_pwm p f s) = mod_refs s"
  "node_refs (upd_pwm p f s) = node_refs s"
  "parents (upd_pwm p f s) = parents s"
  "children (upd_pwm p f s) = children s"
  "hw (upd_pwm p f s) = hw s"
  by (simp_all add: upd_pwm_def)

lemma upd_pwm_chip [simp]:
  "dev (chip_mem (upd_pwm p f s) c) = dev (chip_mem s c)"
  "ops (chip_mem (upd_pwm p f s) c) = ops (chip_mem s c)"
  "base (chip_mem (upd_pwm p f s) c) = base (chip_mem s c)"
  "npwm (chip_mem (upd_pwm p f s) c) = npwm (chip_mem s c)"
  "of_xlate (chip_mem (upd_pwm p f s) c) = of_xlate (chip_mem s c)"
  "of_pwm_n_cells (chip_mem (upd_pwm p f s) c) = of_pwm_n_cells (chip_mem s c)"
  "length (pwms (chip_mem (upd_pwm p f s) c)) = length (pwms (chip_mem s c))"
  by (simp_all add: upd_pwm_def)

lemma upd_pwm_upd [simp]: "upd_pwm p g (upd_pwm p f s) = upd_pwm p (g \<circ> f) s"
  by (cases "snd p < length (pwms (chip_mem s (fst p)))") (simp_all add: upd_pwm_def list_update_beyond)

lemma upd_pwm_id: "f (pwm_at s p) = pwm_at s p \<Longrightarrow> upd_pwm p f s = s"
  by (simp add: upd_pwm_def)

lemma set_bit_flag [simp]:
  "bit (set_bit PWMF_REQUESTED (w::u32)) PWMF_REQUESTED"
  "bit (set_bit PWMF_EXPORTED (w::u32)) PWMF_EXPORTED"
  "bit (set_bit PWMF_REQUESTED (w::u32)) PWMF_EXPORTED = bit w PWMF_EXPORTED"
  "bit (set_bit PWMF_EXPORTED (w::u32)) PWMF_REQUESTED = bit w PWMF_REQUESTED"
  "\<not> bit (unset_bit PWMF_REQUESTED (w::u32)) PWMF_REQUESTED"
  "\<not> bit (unset_bit PWMF_EXPORTED (w::u32)) PWMF_EXPORTED"
  "bit (unset_bit PWMF_REQUESTED (w::u32)) PWMF_EXPORTED = bit w PWMF_EXPORTED"
  "bit (unset_bit PWMF_EXPORTED (w::u32)) PWMF_REQUESTED = bit w PWMF_REQUESTED"
  by (simp_all add: bit_set_bit_iff bit_unset_bit_iff PWMF_REQUESTED_def PWMF_EXPORTED_def)

lemma unset_set_bit: "\<not> bit w n \<Longrightarrow> unset_bit n (set_bit n w) = (w::u32)"
  by (intro bit_word_eqI) (auto simp: bit_set_bit_iff bit_unset_bit_iff)

lemma upd_pwm_hw [simp]: "upd_pwm p f (s\<lparr>hw := h\<rparr>) = (upd_pwm p f s)\<lparr>hw := h\<rparr>"
  by (simp add: upd_pwm_def)

lemma valid_pwm_hw [simp]: "valid_pwm (s\<lparr>hw := h\<rparr>) q = valid_pwm s q"
  by (simp add: valid_pwm_def)

lemma valid_pwm_refs [simp]:
  "valid_pwm (s\<lparr>mod_refs := r\<rparr>) q = valid_pwm s q"
  "valid_pwm (s\<lparr>node_refs := r\<rparr>) q = valid_pwm s q"
  by (simp_all add: valid_pwm_def)

lemma upd_pwm_mod_refs [simp]: "upd_pwm p f (s\<lparr>mod_refs := r\<rparr>) = (upd_pwm p f s)\<lparr>mod_refs := r\<rparr>"
  by (simp add: upd_pwm_def)

text \<open>Only the state of one channel and the hardware differ.\<close>

definition same_but :: "pwm_ptr \<Rightarrow> 'h pwm_core \<Rightarrow> 'h pwm_core \<Rightarrow> bool" where
  "same_but p s s' \<longleftrightarrow> (\<exists>st h. s' = upd_pwm p (\<lambda>pd. pd\<lparr>state := st\<rparr>) (s\<lparr>hw := h\<rparr>))"

lemma same_but_refl [simp, intro]: "same_but p s s"
proof -
  have "s = upd_pwm p (\<lambda>pd. pd\<lparr>state := state (pwm_at s p)\<rparr>) (s\<lparr>hw := hw s\<rparr>)"
    by (simp add: upd_pwm_id)
  then show ?thesis unfolding same_but_def by blast
qed

lemma same_but_trans [trans]: "same_but p s t \<Longrightarrow> same_but p t u \<Longrightarrow> same_but p s u"
  unfolding same_but_def by (clarsimp simp: o_def) blast

lemma same_but_hw [simp, intro]: "same_but p s (s\<lparr>hw := h\<rparr>)"
proof -
  have "s\<lparr>hw := h\<rparr> = upd_pwm p (\<lambda>pd. pd\<lparr>state := state (pwm_at s p)\<rparr>) (s\<lparr>hw := h\<rparr>)"
    by (simp add: upd_pwm_id)
  then show ?thesis unfolding same_but_def by blast
qed

lemma same_butI:
  assumes "\<And>x. (F (pwm_at s p))\<lparr>state := x\<rparr> = (pwm_at s p)\<lparr>state := x\<rparr>"
  shows "same_but p s ((upd_pwm p F s)\<lparr>hw := h\<rparr>)"
proof -
  have "F (pwm_at s p) = (F (pwm_at s p))\<lparr>state := state (F (pwm_at s p))\<rparr>" by simp
  also have "\<dots> = (pwm_at s p)\<lparr>state := state (F (pwm_at s p))\<rparr>" by (rule assms)
  finally have "upd_pwm p F s = upd_pwm p (\<lambda>pd. pd\<lparr>state := state (F (pwm_at s p))\<rparr>) s"
    by (simp add: upd_pwm_def)
  then show ?thesis unfolding same_but_def by auto
qed

text \<open>What \<^const>\<open>same_but\<close> says of the parts of the state.\<close>

lemma same_butD:
  assumes "same_but p s s'"
  shows "valid_pwm s' q = valid_pwm s q" and "q \<noteq> p \<Longrightarrow> pwm_at s' q = pwm_at s q"
    and "pwm_at s' p = (pwm_at s p)\<lparr>state := state (pwm_at s' p)\<rparr>"
    and "ops (chip_mem s' c) = ops (chip_mem s c)"
    and "npwm (chip_mem s' c) = npwm (chip_mem s c)"
    and "base (chip_mem s' c) = base (chip_mem s c)"
    and "dev (chip_mem s' c) = dev (chip_mem s c)"
    and "pwm_chips s' = pwm_chips s" and "allocated_pwms s' = allocated_pwms s"
    and "pwm_tree s' = pwm_tree s" and "mod_refs s' = mod_refs s" and "mod_live s' = mod_live s"
    and "children s' = children s" and "parents s' = parents s"
    and "length (pwms (chip_mem s' c)) = length (pwms (chip_mem s c))"
    and "pwm_lookup_list s' = pwm_lookup_list s" and "node_refs s' = node_refs s"
proof -
  obtain st h where eq: "s' = upd_pwm p (\<lambda>pd. pd\<lparr>state := st\<rparr>) (s\<lparr>hw := h\<rparr>)"
    using assms by (auto simp: same_but_def)
  show "pwm_at s' p = (pwm_at s p)\<lparr>state := state (pwm_at s' p)\<rparr>"
    by (cases "snd p < length (pwms (chip_mem s (fst p)))")
      (simp_all add: eq upd_pwm_def list_update_beyond)
qed (use assms in \<open>auto simp: same_but_def\<close>)

end
