(* ===== verification/Pwm_Core.thy ===== *)
theory Pwm_Core
  imports Pwm_Types
begin

text \<open>
  Requesting, releasing and configuring one channel: \<open>pwm_device_request\<close>, \<open>pwm_put\<close>,
  \<open>pwm_apply_state\<close> with its atomic and its legacy path, and the functions of
  \<open>include/linux/pwm.h\<close> that are wrappers of it.
\<close>

definition MAX_PWMS :: nat where "MAX_PWMS = 1024"

section \<open>Requesting and releasing\<close>

definition pwm_to_device :: "'h pwm_core \<Rightarrow> nat \<Rightarrow> pwm_ptr option" where
  "pwm_to_device s n = pwm_tree s n"

definition pwm_device_request :: "pwm_ptr \<Rightarrow> string option \<Rightarrow> 'h pwm_core \<Rightarrow> int \<times> 'h pwm_core" where
  "pwm_device_request p lbl s =
     (if requested (pwm_at s p) then (- EBUSY, s)
      else case try_module_get (owner (ops_at s p)) s of
        (False, s1) \<Rightarrow> (- ENODEV, s1)
      | (True, s1) \<Rightarrow>
          (case (case op_request (ops_at s1 p) of
                   None \<Rightarrow> (0, s1)
                 | Some req \<Rightarrow> (case req (fst p) (pwm_at s1 p) (hw s1) of (err, h) \<Rightarrow> (err, s1\<lparr>hw := h\<rparr>))) of
             (err, s2) \<Rightarrow>
               if err \<noteq> 0 then (err, module_put (owner (ops_at s2 p)) s2)
               else (0, upd_pwm p (\<lambda>pd. pd\<lparr>flags := set_bit PWMF_REQUESTED (flags pd), label := lbl\<rparr>) s2)))"

definition pwm_request :: "int \<Rightarrow> string option \<Rightarrow> 'h pwm_core \<Rightarrow> pwm_ptr err_ptr \<times> 'h pwm_core" where
  "pwm_request n lbl s =
     (if n < 0 \<or> n \<ge> int MAX_PWMS then (Inl (- EINVAL), s)
      else case pwm_to_device s (nat n) of
        None \<Rightarrow> (Inl (- EPROBE_DEFER), s)
      | Some d \<Rightarrow> (case pwm_device_request d lbl s of
          (err, s1) \<Rightarrow> (if err < 0 then Inl err else Inr d, s1)))"

definition pwm_request_from_chip ::
    "chip_ptr option \<Rightarrow> nat \<Rightarrow> string option \<Rightarrow> 'h pwm_core \<Rightarrow> pwm_ptr err_ptr \<times> 'h pwm_core" where
  "pwm_request_from_chip co i lbl s = (case co of
     None \<Rightarrow> (Inl (- EINVAL), s)
   | Some c \<Rightarrow>
       if i \<ge> npwm (chip_at s c) then (Inl (- EINVAL), s)
       else case pwm_device_request (c, i) lbl s of
         (err, s1) \<Rightarrow> (if err < 0 then Inl err else Inr (c, i), s1))"

definition pwm_set_chip_data :: "pwm_ptr option \<Rightarrow> nat option \<Rightarrow> 'h pwm_core \<Rightarrow> int \<times> 'h pwm_core" where
  "pwm_set_chip_data po d s = (case po of None \<Rightarrow> (- EINVAL, s)
     | Some p \<Rightarrow> (0, upd_pwm p (\<lambda>pd. pd\<lparr>chip_data := d\<rparr>) s))"

definition pwm_get_chip_data :: "pwm_ptr option \<Rightarrow> 'h pwm_core \<Rightarrow> nat option" where
  "pwm_get_chip_data po s = (case po of None \<Rightarrow> None | Some p \<Rightarrow> chip_data (pwm_at s p))"

definition pwm_put :: "pwm_ptr option \<Rightarrow> 'h pwm_core \<Rightarrow> 'h pwm_core" where
  "pwm_put po s = (case po of None \<Rightarrow> s
   | Some p \<Rightarrow>
       if \<not> requested (pwm_at s p) then s
       else let s1 = upd_pwm p (\<lambda>pd. pd\<lparr>flags := unset_bit PWMF_REQUESTED (flags pd)\<rparr>) s;
                s2 = (case op_free (ops_at s1 p) of None \<Rightarrow> s1
                      | Some fr \<Rightarrow> s1\<lparr>hw := fr (fst p) (pwm_at s1 p) (hw s1)\<rparr>);
                s3 = snd (pwm_set_chip_data (Some p) None s2);
                s4 = upd_pwm p (\<lambda>pd. pd\<lparr>label := None\<rparr>) s3
            in module_put (owner (ops_at s4 p)) s4)"

definition pwm_free :: "pwm_ptr option \<Rightarrow> 'h pwm_core \<Rightarrow> 'h pwm_core" where
  "pwm_free po s = pwm_put po s"

section \<open>Applying a state\<close>

text \<open>The three steps of the legacy path; each stops the function with its error.\<close>

definition legacy_polarity :: "pwm_ptr \<Rightarrow> pwm_state \<Rightarrow> 'h pwm_core \<Rightarrow> int \<times> 'h pwm_core" where
  "legacy_polarity p st s =
     (if polarity st = polarity (state (pwm_at s p)) then (0, s)
      else case op_set_polarity (ops_at s p) of
        None \<Rightarrow> (- ENOTSUPP, s)
      | Some setp \<Rightarrow>
          let s1 = (if enabled (state (pwm_at s p))
                    then upd_pwm p (\<lambda>pd. pd\<lparr>state := (state pd)\<lparr>enabled := False\<rparr>\<rparr>)
                           (s\<lparr>hw := the (op_disable (ops_at s p)) (fst p) (pwm_at s p) (hw s)\<rparr>)
                    else s)
          in case setp (fst p) (pwm_at s1 p) (polarity st) (hw s1) of
               (err, h) \<Rightarrow>
                 if err \<noteq> 0 then (err, s1\<lparr>hw := h\<rparr>)
                 else (0, upd_pwm p (\<lambda>pd. pd\<lparr>state := (state pd)\<lparr>polarity := polarity st\<rparr>\<rparr>) (s1\<lparr>hw := h\<rparr>)))"

definition legacy_config :: "pwm_ptr \<Rightarrow> pwm_state \<Rightarrow> 'h pwm_core \<Rightarrow> int \<times> 'h pwm_core" where
  "legacy_config p st s =
     (if period st = period (state (pwm_at s p)) \<and> duty_cycle st = duty_cycle (state (pwm_at s p))
      then (0, s)
      else case the (op_config (ops_at s p)) (chip (pwm_at s p)) (pwm_at s p)
                  (sint (duty_cycle st)) (sint (period st)) (hw s) of
        (err, h) \<Rightarrow>
          if err \<noteq> 0 then (err, s\<lparr>hw := h\<rparr>)
          else (0, upd_pwm p (\<lambda>pd. pd\<lparr>state := (state pd)\<lparr>duty_cycle := duty_cycle st, period := period st\<rparr>\<rparr>)
                     (s\<lparr>hw := h\<rparr>)))"

definition legacy_enable :: "pwm_ptr \<Rightarrow> pwm_state \<Rightarrow> 'h pwm_core \<Rightarrow> int \<times> 'h pwm_core" where
  "legacy_enable p st s =
     (if enabled st = enabled (state (pwm_at s p)) then (0, s)
      else case (if enabled st then the (op_enable (ops_at s p)) (fst p) (pwm_at s p) (hw s)
                 else (0, the (op_disable (ops_at s p)) (fst p) (pwm_at s p) (hw s))) of
        (err, h) \<Rightarrow>
          if err \<noteq> 0 then (err, s\<lparr>hw := h\<rparr>)
          else (0, upd_pwm p (\<lambda>pd. pd\<lparr>state := (state pd)\<lparr>enabled := enabled st\<rparr>\<rparr>) (s\<lparr>hw := h\<rparr>)))"

definition pwm_apply_state :: "pwm_ptr option \<Rightarrow> pwm_state option \<Rightarrow> 'h pwm_core \<Rightarrow> int \<times> 'h pwm_core" where
  "pwm_apply_state po sto s = (case (po, sto) of
     (Some p, Some st) \<Rightarrow>
       (if period st = 0 \<or> duty_cycle st > period st then (- EINVAL, s)
        else if period st = period (state (pwm_at s p)) \<and>
                duty_cycle st = duty_cycle (state (pwm_at s p)) \<and>
                polarity st = polarity (state (pwm_at s p)) \<and>
                enabled st = enabled (state (pwm_at s p)) then (0, s)
        else case op_apply (ops_at s p) of
          Some app \<Rightarrow>
            (case app (fst p) (pwm_at s p) st (hw s) of
               (err, h) \<Rightarrow> if err \<noteq> 0 then (err, s\<lparr>hw := h\<rparr>)
                           else (0, upd_pwm p (\<lambda>pd. pd\<lparr>state := st\<rparr>) (s\<lparr>hw := h\<rparr>)))
        | None \<Rightarrow>
            (case legacy_polarity p st s of
               (err, s1) \<Rightarrow> if err \<noteq> 0 then (err, s1)
               else case legacy_config p st s1 of
                 (err, s2) \<Rightarrow> if err \<noteq> 0 then (err, s2)
                 else legacy_enable p st s2))
   | _ \<Rightarrow> (- EINVAL, s))"

definition pwm_capture_fn ::
    "pwm_ptr option \<Rightarrow> u32 \<Rightarrow> pwm_capture \<Rightarrow> 'h pwm_core \<Rightarrow> int \<times> pwm_capture \<times> 'h pwm_core" where
  "pwm_capture_fn po timeout res s = (case po of
     None \<Rightarrow> (- EINVAL, res, s)
   | Some p \<Rightarrow> (case ops (chip_at s (fst p)) of
       None \<Rightarrow> (- EINVAL, res, s)
     | Some o1 \<Rightarrow> (case op_capture o1 of
         None \<Rightarrow> (- ENOSYS, res, s)
       | Some cap \<Rightarrow> (case cap (fst p) (pwm_at s p) timeout (hw s) of
           (err, res', h) \<Rightarrow> (err, res', s\<lparr>hw := h\<rparr>)))))"

definition adjusted :: "pwm_args \<Rightarrow> pwm_state \<Rightarrow> pwm_state" where
  "adjusted pargs st =
     (if period st = 0 then st\<lparr>duty_cycle := 0, period := ar_period pargs, polarity := ar_polarity pargs\<rparr>
      else let st1 = (if ar_period pargs \<noteq> period st
                      then st\<lparr>duty_cycle := ucast ((ucast (duty_cycle st) * ucast (ar_period pargs) :: u64)
                                                    div ucast (period st)),
                              period := ar_period pargs\<rparr>
                      else st)
           in if ar_polarity pargs \<noteq> polarity st1
              then st1\<lparr>polarity := ar_polarity pargs, duty_cycle := period st1 - duty_cycle st1\<rparr>
              else st1)"

definition pwm_adjust_config :: "pwm_ptr \<Rightarrow> 'h pwm_core \<Rightarrow> int \<times> 'h pwm_core" where
  "pwm_adjust_config p s =
     pwm_apply_state (Some p)
       (Some (adjusted (pwm_get_args (pwm_at s p)) (pwm_get_state (pwm_at s p)))) s"

section \<open>The wrappers of pwm.h\<close>

definition pwm_config :: "pwm_ptr option \<Rightarrow> int \<Rightarrow> int \<Rightarrow> 'h pwm_core \<Rightarrow> int \<times> 'h pwm_core" where
  "pwm_config po duty_ns period_ns s = (case po of None \<Rightarrow> (- EINVAL, s)
   | Some p \<Rightarrow>
       if duty_ns < 0 \<or> period_ns < 0 then (- EINVAL, s)
       else let st = pwm_get_state (pwm_at s p) in
         if duty_cycle st = word_of_int duty_ns \<and> period st = word_of_int period_ns then (0, s)
         else pwm_apply_state po
                (Some (st\<lparr>duty_cycle := word_of_int duty_ns, period := word_of_int period_ns\<rparr>)) s)"

definition pwm_enable :: "pwm_ptr option \<Rightarrow> 'h pwm_core \<Rightarrow> int \<times> 'h pwm_core" where
  "pwm_enable po s = (case po of None \<Rightarrow> (- EINVAL, s)
   | Some p \<Rightarrow> let st = pwm_get_state (pwm_at s p) in
       if enabled st then (0, s) else pwm_apply_state po (Some (st\<lparr>enabled := True\<rparr>)) s)"

definition pwm_disable :: "pwm_ptr option \<Rightarrow> 'h pwm_core \<Rightarrow> 'h pwm_core" where
  "pwm_disable po s = (case po of None \<Rightarrow> s
   | Some p \<Rightarrow> let st = pwm_get_state (pwm_at s p) in
       if \<not> enabled st then s else snd (pwm_apply_state po (Some (st\<lparr>enabled := False\<rparr>)) s))"

definition pwm_apply_args :: "pwm_ptr \<Rightarrow> 'h pwm_core \<Rightarrow> 'h pwm_core" where
  "pwm_apply_args p s =
     snd (pwm_apply_state (Some p)
       (Some \<lparr>period = ar_period (args (pwm_at s p)), duty_cycle = 0,
              polarity = ar_polarity (args (pwm_at s p)), enabled = False\<rparr>) s)"

section \<open>Applying a state: what changes\<close>

lemma legacy_polarity_same_but: "legacy_polarity p st s = (r, s') \<Longrightarrow> same_but p s s'"
  unfolding legacy_polarity_def Let_def
  by (auto split: if_splits option.splits prod.splits intro!: same_butI)

lemma legacy_config_same_but: "legacy_config p st s = (r, s') \<Longrightarrow> same_but p s s'"
  unfolding legacy_config_def by (auto split: if_splits prod.splits intro!: same_butI)

lemma legacy_enable_same_but: "legacy_enable p st s = (r, s') \<Longrightarrow> same_but p s s'"
  unfolding legacy_enable_def by (auto split: if_splits prod.splits intro!: same_butI)

text \<open>The fields that each legacy step leaves in the cached state of the channel.\<close>

lemma legacy_polarity_state:
  assumes "legacy_polarity p st s = (r, s')" and "valid_pwm s p"
  shows "period (state (pwm_at s' p)) = period (state (pwm_at s p))"
    and "duty_cycle (state (pwm_at s' p)) = duty_cycle (state (pwm_at s p))"
    and "r = 0 \<Longrightarrow> polarity (state (pwm_at s' p)) = polarity st"
  using assms unfolding legacy_polarity_def Let_def
  by (auto split: if_splits option.splits prod.splits)

lemma legacy_config_state:
  assumes "legacy_config p st s = (r, s')" and "valid_pwm s p"
  shows "polarity (state (pwm_at s' p)) = polarity (state (pwm_at s p))"
    and "r = 0 \<Longrightarrow> period (state (pwm_at s' p)) = period st \<and> duty_cycle (state (pwm_at s' p)) = duty_cycle st"
    and "r \<noteq> 0 \<Longrightarrow> state (pwm_at s' p) = state (pwm_at s p)"
  using assms unfolding legacy_config_def by (auto split: if_splits prod.splits)

lemma legacy_enable_state:
  assumes "legacy_enable p st s = (r, s')" and "valid_pwm s p"
  shows "polarity (state (pwm_at s' p)) = polarity (state (pwm_at s p))"
    and "period (state (pwm_at s' p)) = period (state (pwm_at s p))"
    and "duty_cycle (state (pwm_at s' p)) = duty_cycle (state (pwm_at s p))"
    and "r = 0 \<Longrightarrow> enabled (state (pwm_at s' p)) = enabled st"
  using assms unfolding legacy_enable_def by (auto split: if_splits prod.splits)

text \<open>The branches of \<^const>\<open>pwm_apply_state\<close> on non-null arguments.\<close>

lemma pwm_apply_state_cases [consumes 1, case_names invalid same atomic polarity config enable]:
  assumes "pwm_apply_state (Some p) (Some st) s = (r, s')"
  obtains
    "period st = 0 \<or> duty_cycle st > period st" "r = - EINVAL" "s' = s"
  | "period st \<noteq> 0" "duty_cycle st \<le> period st" "st = state (pwm_at s p)" "r = 0" "s' = s"
  | app h where "period st \<noteq> 0" "duty_cycle st \<le> period st"
      "op_apply (ops_at s p) = Some app" "app (fst p) (pwm_at s p) st (hw s) = (r, h)"
      "s' = (if r = 0 then upd_pwm p (\<lambda>pd. pd\<lparr>state := st\<rparr>) (s\<lparr>hw := h\<rparr>) else s\<lparr>hw := h\<rparr>)"
  | "period st \<noteq> 0" "duty_cycle st \<le> period st" "op_apply (ops_at s p) = None"
      "legacy_polarity p st s = (r, s')" "r \<noteq> 0"
  | s1 where "period st \<noteq> 0" "duty_cycle st \<le> period st" "op_apply (ops_at s p) = None"
      "legacy_polarity p st s = (0, s1)" "legacy_config p st s1 = (r, s')" "r \<noteq> 0"
  | s1 s2 where "period st \<noteq> 0" "duty_cycle st \<le> period st" "op_apply (ops_at s p) = None"
      "legacy_polarity p st s = (0, s1)" "legacy_config p st s1 = (0, s2)"
      "legacy_enable p st s2 = (r, s')"
proof (cases "period st = 0 \<or> duty_cycle st > period st")
  case True
  with assms that(1) show thesis by (simp add: pwm_apply_state_def)
next
  case ok: False
  show thesis
  proof (cases "st = state (pwm_at s p)")
    case True
    with assms ok have "r = 0 \<and> s' = s" by (simp add: pwm_apply_state_def)
    with ok True that(2) show thesis by (auto simp: not_less)
  next
    case new: False
    have ne: "\<not> (period st = period (state (pwm_at s p)) \<and> duty_cycle st = duty_cycle (state (pwm_at s p)) \<and>
                 polarity st = polarity (state (pwm_at s p)) \<and> enabled st = enabled (state (pwm_at s p)))"
      using new by (auto intro: pwm_state.equality)
    note eq = assms [unfolded pwm_apply_state_def prod.case option.case, unfolded if_not_P [OF ok] if_not_P [OF ne]]
    show thesis
    proof (cases "op_apply (ops_at s p)")
      case (Some app)
      obtain e h where "app (fst p) (pwm_at s p) st (hw s) = (e, h)" by force
      with eq Some ok that(3) show thesis by (auto simp: not_less split: if_splits)
    next
      case None
      obtain e1 s1 where e1: "legacy_polarity p st s = (e1, s1)" by force
      obtain e2 s2 where e2: "legacy_config p st s1 = (e2, s2)" by force
      show thesis
        using eq None ok that(4) that(5) [of s1] that(6) [of s1 s2] e1 e2
        by (auto simp: not_less split: if_splits)
    qed
  qed
qed

lemma apply_state_same_but:
  assumes "pwm_apply_state (Some p) (Some st) s = (r, s')"
  shows "same_but p s s'"
  using assms
proof (cases rule: pwm_apply_state_cases)
  case (atomic app h)
  then show ?thesis by (auto intro!: same_butI)
next
  case (config s1)
  then show ?thesis by (metis legacy_polarity_same_but legacy_config_same_but same_but_trans)
next
  case (enable s1 s2)
  then show ?thesis
    by (metis legacy_polarity_same_but legacy_config_same_but legacy_enable_same_but same_but_trans)
qed (auto dest: legacy_polarity_same_but)

lemma apply_state_done:
  assumes "pwm_apply_state (Some p) (Some st) s = (0, s')" and v: "valid_pwm s p"
  shows "state (pwm_at s' p) = st"
  using assms(1)
proof (cases rule: pwm_apply_state_cases)
  case (enable s1 s2)
  have v1: "valid_pwm s1 p" and v2: "valid_pwm s2 p"
    using v enable by (metis legacy_polarity_same_but legacy_config_same_but same_butD(1))+
  show ?thesis
    using legacy_polarity_state [OF enable(4) v] legacy_config_state [OF enable(5) v1]
      legacy_enable_state [OF enable(6) v2]
    by (auto intro!: pwm_state.equality)
qed (use v in auto)

text \<open>
  A state is admissible when it passes the checks of \<^const>\<open>pwm_apply_state\<close> or the channel was
  never configured; no outcome of the function leaves an inadmissible state behind.
\<close>

definition state_ok :: "pwm_state \<Rightarrow> bool" where
  "state_ok st \<longleftrightarrow> duty_cycle st \<le> period st"

lemma apply_state_ok:
  assumes "pwm_apply_state (Some p) (Some st) s = (r, s')" and v: "valid_pwm s p"
    and ok: "state_ok (state (pwm_at s p))"
  shows "state_ok (state (pwm_at s' p))"
  using assms(1)
proof (cases rule: pwm_apply_state_cases)
  case (atomic app h)
  then show ?thesis using v ok by (simp add: state_ok_def)
next
  case polarity
  then show ?thesis using ok legacy_polarity_state [OF polarity(4) v] by (simp add: state_ok_def)
next
  case (config s1)
  have v1: "valid_pwm s1 p"
    using v config by (metis legacy_polarity_same_but same_butD(1))
  show ?thesis
    using ok legacy_polarity_state [OF config(4) v] legacy_config_state(3) [OF config(5) v1 config(6)]
    by (simp add: state_ok_def)
next
  case (enable s1 s2)
  have v1: "valid_pwm s1 p" and v2: "valid_pwm s2 p"
    using v enable by (metis legacy_polarity_same_but legacy_config_same_but same_butD(1))+
  show ?thesis
    using enable(2) legacy_config_state(2) [OF enable(5) v1] legacy_enable_state [OF enable(6) v2]
    by (simp add: state_ok_def)
qed (use ok in auto)

section \<open>Requesting and releasing: balance\<close>

definition refs_add :: "nat option \<Rightarrow> int \<Rightarrow> (nat \<Rightarrow> int) \<Rightarrow> nat \<Rightarrow> int" where
  "refs_add m d f = (case m of None \<Rightarrow> f | Some k \<Rightarrow> f(k := f k + d))"

definition live :: "nat option \<Rightarrow> 'h pwm_core \<Rightarrow> bool" where
  "live m s = (case m of None \<Rightarrow> True | Some k \<Rightarrow> mod_live s k)"

lemma refs_add_simps [simp]:
  "refs_add m (- 1) (refs_add m 1 f) = f"
  "refs_add m d f k = f k + (if m = Some k then d else 0)"
  by (auto simp: refs_add_def split: option.split)

lemma module_put_eq: "module_put m s = s\<lparr>mod_refs := refs_add m (- 1) (mod_refs s)\<rparr>"
  by (simp add: module_put_def refs_add_def split: option.split)

lemma try_module_get_eq:
  "try_module_get m s = (if live m s then (True, s\<lparr>mod_refs := refs_add m 1 (mod_refs s)\<rparr>) else (False, s))"
  by (simp add: try_module_get_def refs_add_def live_def split: option.split)

lemma device_request_cases [consumes 1, case_names busy nomodule refused granted]:
  assumes "pwm_device_request p lbl s = (r, s')"
  obtains "requested (pwm_at s p)" "r = - EBUSY" "s' = s"
  | "\<not> requested (pwm_at s p)" "\<not> live (owner (ops_at s p)) s" "r = - ENODEV" "s' = s"
  | h where "\<not> requested (pwm_at s p)" "r \<noteq> 0" "s' = s\<lparr>hw := h\<rparr>"
  | h where "\<not> requested (pwm_at s p)" "r = 0" "live (owner (ops_at s p)) s"
      "s' = upd_pwm p (\<lambda>pd. pd\<lparr>flags := set_bit PWMF_REQUESTED (flags pd), label := lbl\<rparr>)
              (s\<lparr>hw := h, mod_refs := refs_add (owner (ops_at s p)) 1 (mod_refs s)\<rparr>)"
proof (cases "requested (pwm_at s p) \<or> \<not> live (owner (ops_at s p)) s")
  case True
  then have "pwm_device_request p lbl s = (if requested (pwm_at s p) then - EBUSY else - ENODEV, s)"
    by (cases "requested (pwm_at s p)") (simp_all add: pwm_device_request_def try_module_get_eq)
  with assms have "r = (if requested (pwm_at s p) then - EBUSY else - ENODEV)" and "s' = s" by auto
  with True that(1,2) show thesis by (metis (no_types))
next
  case False
  obtain e h where eh: "(case op_request (ops_at s p) of None \<Rightarrow> (0, hw s)
      | Some req \<Rightarrow> req (fst p) (pwm_at s p) (hw s)) = (e, h)" by force
  have "pwm_device_request p lbl s = (if e \<noteq> 0 then (e, s\<lparr>hw := h\<rparr>)
      else (0, upd_pwm p (\<lambda>pd. pd\<lparr>flags := set_bit PWMF_REQUESTED (flags pd), label := lbl\<rparr>)
              (s\<lparr>hw := h, mod_refs := refs_add (owner (ops_at s p)) 1 (mod_refs s)\<rparr>)))"
  proof (cases "op_request (ops_at s p)")
    case None
    with eh False show ?thesis by (simp add: pwm_device_request_def try_module_get_eq)
  next
    case (Some req)
    with eh False show ?thesis
      by (simp add: pwm_device_request_def try_module_get_eq module_put_eq)
  qed
  with assms have "r = e" and "s' = (if e \<noteq> 0 then s\<lparr>hw := h\<rparr>
      else upd_pwm p (\<lambda>pd. pd\<lparr>flags := set_bit PWMF_REQUESTED (flags pd), label := lbl\<rparr>)
             (s\<lparr>hw := h, mod_refs := refs_add (owner (ops_at s p)) 1 (mod_refs s)\<rparr>))"
    by (simp_all split: if_splits)
  with False that(3) [of h] that(4) [of h] show thesis by (cases "e = 0") simp_all
qed

text \<open>The effect of \<^const>\<open>pwm_put\<close> on a requested channel as one update.\<close>

lemma pwm_put_requested:
  assumes "requested (pwm_at s p)"
  shows "\<exists>h. pwm_put (Some p) s =
     (upd_pwm p (\<lambda>pd. pd\<lparr>flags := unset_bit PWMF_REQUESTED (flags pd), chip_data := None, label := None\<rparr>) s)
       \<lparr>hw := h, mod_refs := refs_add (owner (ops_at s p)) (- 1) (mod_refs s)\<rparr>"
proof (cases "op_free (ops_at s p)")
  case None
  with assms show ?thesis
    by (intro exI [of _ "hw s"]) (simp add: pwm_put_def pwm_set_chip_data_def Let_def module_put_eq o_def)
next
  case (Some fr)
  with assms show ?thesis
    unfolding pwm_put_def pwm_set_chip_data_def Let_def module_put_eq by (simp add: o_def) blast
qed

lemma pwm_put_not_requested: "\<not> requested (pwm_at s p) \<Longrightarrow> pwm_put (Some p) s = s"
  by (simp add: pwm_put_def)

lemma put_after_request:
  assumes "valid_pwm s p" and "label (pwm_at s p) = None" and "chip_data (pwm_at s p) = None"
    and "pwm_device_request p lbl s = (0, s1)"
  shows "\<exists>h. pwm_put (Some p) s1 = s\<lparr>hw := h\<rparr>"
  using assms(4)
proof (cases rule: device_request_cases)
  case (granted h)
  let ?f = "\<lambda>pd. pd\<lparr>flags := set_bit PWMF_REQUESTED (flags pd), label := lbl\<rparr>"
  let ?g = "\<lambda>pd. pd\<lparr>flags := unset_bit PWMF_REQUESTED (flags pd), chip_data := None, label := None\<rparr>"
  have req: "requested (pwm_at s1 p)" using granted assms(1) by (simp add: requested_def)
  have undo: "upd_pwm p (?g \<circ> ?f) s = s"
    using granted(1) assms(2,3)
    by (intro upd_pwm_id) (auto simp: requested_def unset_set_bit intro!: pwm_device.equality)
  obtain h2 where "pwm_put (Some p) s1 = (upd_pwm p ?g s1)
       \<lparr>hw := h2, mod_refs := refs_add (owner (ops_at s1 p)) (- 1) (mod_refs s1)\<rparr>"
    using pwm_put_requested [OF req] by blast
  also have "\<dots> = (upd_pwm p (?g \<circ> ?f) s)\<lparr>hw := h2\<rparr>"
    by (simp add: granted(4))
  finally show ?thesis unfolding undo by blast
qed auto

lemma refused_request: "pwm_device_request p lbl s = (r, s1) \<Longrightarrow> r \<noteq> 0 \<Longrightarrow> s1 = s\<lparr>hw := hw s1\<rparr>"
  by (erule device_request_cases) auto

text \<open>C37: one channel has at most one user, and requests and releases balance.  A refused
  request leaves every structure of the framework and every module reference as it was (only the
  driver's own hook can have touched the hardware).  A granted request was for a free channel,
  marks it, takes exactly one reference on the owner of the driver, and makes every further
  request fail with \<open>-EBUSY\<close>; releasing it brings back the state before the request, the
  module reference included.\<close>
theorem request_put_balanced:
  assumes "valid_pwm s p" and "label (pwm_at s p) = None" and "chip_data (pwm_at s p) = None"
    and "pwm_device_request p lbl s = (r, s1)"
  shows "(r \<noteq> 0 \<longrightarrow> s1 = s\<lparr>hw := hw s1\<rparr>) \<and>
    (r = 0 \<longrightarrow>
       \<not> requested (pwm_at s p) \<and> requested (pwm_at s1 p) \<and> label (pwm_at s1 p) = lbl \<and>
       (\<forall>m. mod_refs s1 m = mod_refs s m + (if owner (ops_at s p) = Some m then 1 else 0)) \<and>
       (\<forall>lbl'. pwm_device_request p lbl' s1 = (- EBUSY, s1)) \<and>
       (\<exists>h. pwm_put (Some p) s1 = s\<lparr>hw := h\<rparr>))"
  using assms(4)
proof (cases rule: device_request_cases)
  case (granted h)
  then have req: "requested (pwm_at s1 p)" using assms(1) by (simp add: requested_def)
  then have "\<forall>lbl'. pwm_device_request p lbl' s1 = (- EBUSY, s1)"
    by (simp add: pwm_device_request_def)
  then show ?thesis
    using granted req assms(1) put_after_request [OF assms(1-3)] assms(4) by simp
qed auto

section \<open>Scaling a duty cycle\<close>

lemma unat_scale:
  fixes d P P' :: u32
  assumes "d \<le> P" and "P \<noteq> 0"
  shows "unat (ucast ((ucast d * ucast P' :: u64) div ucast P) :: u32) = unat d * unat P' div unat P"
    and "unat d * unat P' div unat P \<le> unat P'"
proof -
  have le: "unat d \<le> unat P" and pos: "0 < unat P"
    using assms by (simp_all add: word_le_nat_alt unat_gt_0)
  have "unat d * unat P' div unat P \<le> unat P * unat P' div unat P"
    using le by (intro div_le_mono mult_le_mono1)
  then show bound: "unat d * unat P' div unat P \<le> unat P'" using pos by simp
  have "unat d * unat P' < 2 ^ 32 * 2 ^ 32"
    using unat_lt_32 [of d] unat_lt_32 [of P'] by (intro mult_strict_mono) simp_all
  then have prod: "unat (ucast d * ucast P' :: u64) = unat d * unat P'"
    by (simp add: unat_word_ariths)
  show "unat (ucast ((ucast d * ucast P' :: u64) div ucast P) :: u32) = unat d * unat P' div unat P"
    using bound unat_lt_32 [of P'] by (simp add: unat_ucast_64_32 unat_div_distrib prod)
qed

lemma adjusted_spec:
  assumes "state_ok st"
  shows "period (adjusted a st) = ar_period a \<and> polarity (adjusted a st) = ar_polarity a \<and>
    enabled (adjusted a st) = enabled st \<and> state_ok (adjusted a st) \<and>
    unat (duty_cycle (adjusted a st)) =
      (if period st = 0 then 0
       else let d = unat (duty_cycle st) * unat (ar_period a) div unat (period st)
            in if ar_polarity a = polarity st then d else unat (ar_period a) - d)"
proof (cases "period st = 0")
  case True
  then show ?thesis by (simp add: adjusted_def state_ok_def)
next
  case False
  let ?d = "unat (duty_cycle st) * unat (ar_period a) div unat (period st)"
  define st1 where "st1 = (if ar_period a \<noteq> period st
      then st\<lparr>duty_cycle := ucast ((ucast (duty_cycle st) * ucast (ar_period a) :: u64) div ucast (period st)),
              period := ar_period a\<rparr> else st)"
  have le: "duty_cycle st \<le> period st" using assms by (simp add: state_ok_def)
  have d1: "unat (duty_cycle st1) = ?d"
    using False unat_scale(1) [OF le False, of "ar_period a"] unat_gt_0 [of "period st"]
    by (auto simp: st1_def)
  have p1: "period st1 = ar_period a" "polarity st1 = polarity st" "enabled st1 = enabled st"
    by (simp_all add: st1_def)
  have dle: "duty_cycle st1 \<le> ar_period a"
    using d1 unat_scale(2) [OF le False, of "ar_period a"] by (simp add: word_le_nat_alt)
  have eq: "adjusted a st = (if ar_polarity a \<noteq> polarity st1
      then st1\<lparr>polarity := ar_polarity a, duty_cycle := period st1 - duty_cycle st1\<rparr> else st1)"
    using False by (simp add: adjusted_def st1_def Let_def)
  have sub: "unat (ar_period a - duty_cycle st1) = unat (ar_period a) - unat (duty_cycle st1)"
    using dle by (simp add: unat_sub)
  show ?thesis
    using False p1 d1 dle sub by (auto simp: eq state_ok_def Let_def word_le_nat_alt)
qed

lemma apply_state_atomic_result:
  assumes "period st \<noteq> 0" and "duty_cycle st \<le> period st" and "st \<noteq> state (pwm_at s p)"
    and "op_apply (ops_at s p) = Some app"
  shows "fst (pwm_apply_state (Some p) (Some st) s) = fst (app (fst p) (pwm_at s p) st (hw s))"
proof -
  obtain r s' where rs: "pwm_apply_state (Some p) (Some st) s = (r, s')" by force
  show ?thesis using rs by (cases rule: pwm_apply_state_cases) (use assms rs in auto)
qed

text \<open>\<open>pwm_adjust_config\<close> on a channel with an admissible state and a board-given period.
  The request it makes is never refused by the framework's own checks: with an atomic driver the
  result is the driver's.  When it succeeds the channel has the period and the polarity of the
  board arguments and keeps \<open>enabled\<close>; with an unchanged polarity the duty cycle is the old one
  scaled to the new period, rounded down, without overflow in the 64-bit product; with the other
  polarity it is the complement of that; a channel that had no period gets duty cycle 0.\<close>
theorem adjust_config_scales:
  assumes "valid_pwm s p" and "state (pwm_at s p) = st" and "args (pwm_at s p) = a"
    and "state_ok st" and "ar_period a \<noteq> 0"
    and "pwm_adjust_config p s = (r, s')"
  shows "(\<forall>app. op_apply (ops_at s p) = Some app \<and> adjusted a st \<noteq> st \<longrightarrow>
           r = fst (app (fst p) (pwm_at s p) (adjusted a st) (hw s))) \<and>
    (r = 0 \<longrightarrow> (let st' = state (pwm_at s' p) in
      period st' = ar_period a \<and> polarity st' = ar_polarity a \<and> enabled st' = enabled st \<and>
      unat (duty_cycle st') =
        (if period st = 0 then 0
         else let d = unat (duty_cycle st) * unat (ar_period a) div unat (period st)
              in if ar_polarity a = polarity st then d else unat (ar_period a) - d) \<and>
      duty_cycle st' \<le> period st'))"
proof -
  note spec = adjusted_spec [OF assms(4), of a]
  have eq: "pwm_apply_state (Some p) (Some (adjusted a st)) s = (r, s')"
    using assms(2,3,6) by (simp add: pwm_adjust_config_def pwm_get_args_def pwm_get_state_def)
  have "r = fst (app (fst p) (pwm_at s p) (adjusted a st) (hw s))"
    if "op_apply (ops_at s p) = Some app" and "adjusted a st \<noteq> st" for app
    using apply_state_atomic_result [OF _ _ _ that(1), of "adjusted a st"] spec eq that(2) assms(2,5)
    by (auto simp: state_ok_def)
  moreover have "state (pwm_at s' p) = adjusted a st" if "r = 0"
    using apply_state_done assms(1) eq that by blast
  ultimately show ?thesis using spec by (auto simp: state_ok_def Let_def)
qed

text \<open>\<open>pwm_apply_state\<close> on a live channel.  An inadmissible request (no period, or a duty
  cycle above the period) is refused with \<open>-EINVAL\<close> before anything is touched.  Whatever the
  outcome, only the cached state of this channel and the hardware can differ afterwards, and
  the cached state stays admissible.  Result 0 means that the cached state is the requested one,
  through the atomic and through the legacy callbacks; an error of an atomic driver leaves the
  cached state as it was.\<close>
theorem apply_state_spec:
  assumes "valid_pwm s p" and "state_ok (state (pwm_at s p))"
    and "pwm_apply_state (Some p) (Some st) s = (r, s')"
  shows "(period st = 0 \<or> duty_cycle st > period st \<longrightarrow> r = - EINVAL \<and> s' = s) \<and>
    same_but p s s' \<and> state_ok (state (pwm_at s' p)) \<and>
    (r = 0 \<longrightarrow> state (pwm_at s' p) = st) \<and>
    (r \<noteq> 0 \<and> op_apply (ops_at s p) \<noteq> None \<longrightarrow> state (pwm_at s' p) = state (pwm_at s p))"
proof -
  have "period st = 0 \<or> duty_cycle st > period st \<longrightarrow> r = - EINVAL \<and> s' = s"
    using assms(3) by (auto simp: pwm_apply_state_def)
  moreover have "state (pwm_at s' p) = state (pwm_at s p)" if "r \<noteq> 0" "op_apply (ops_at s p) \<noteq> None"
    using assms(3) by (cases rule: pwm_apply_state_cases) (use that in auto)
  ultimately show ?thesis
    using apply_state_same_but [OF assms(3)] apply_state_ok [OF assms(3,1,2)]
      apply_state_done [of p st s s'] assms(1,3) by blast
qed

text \<open>A relative duty cycle survives the conversion to nanoseconds and back when the scale
  is not finer than the period; the absolute value never exceeds the period, so that
  \<open>pwm_apply_state\<close> accepts it.  \<open>DIV_ROUND_CLOSEST_ULL\<close> is assumed to round to the nearest
  integer.\<close>
theorem relative_duty_cycle_roundtrip:
  assumes dc: "\<And>x d. d \<noteq> 0 \<Longrightarrow> unat x + unat d div 2 < 2 ^ 64 \<Longrightarrow>
      unat (div_closest x d) = (unat x + unat d div 2) div unat d"
    and "period st \<noteq> 0" and "scale \<noteq> 0" and "duty \<le> scale" and "scale \<le> period st"
  shows "\<exists>st'. pwm_set_relative_duty_cycle div_closest st duty scale = (0, st') \<and>
     period st' = period st \<and> duty_cycle st' \<le> period st \<and>
     pwm_get_relative_duty_cycle div_closest st' scale = duty"
proof -
  let ?x = "unat duty" and ?S = "unat scale" and ?P = "unat (period st)"
  have pos: "0 < ?S" "0 < ?P" using assms(2,3) by (simp_all add: unat_gt_0)
  have le: "?x \<le> ?S" "?S \<le> ?P" using assms(4,5) by (simp_all add: word_le_nat_alt)
  have lt: "?P < 2 ^ 32" "?S < 2 ^ 32" by (rule unat_lt_32)+
  have prod: "unat (ucast u * ucast v :: u64) = unat u * unat v \<and> unat u * unat v + 2 ^ 32 \<le> 2 ^ 64"
    for u v :: u32
  proof -
    have "unat u * unat v \<le> (2 ^ 32 - 1) * (2 ^ 32 - 1)"
      using unat_lt_32 [of u] unat_lt_32 [of v] by (intro mult_le_mono) simp_all
    then show ?thesis by (simp add: unat_word_ariths)
  qed
  define q where "q = (?x * ?P + ?S div 2) div ?S"
  have q1: "q \<le> ?P"
  proof -
    have "?x * ?P + ?S div 2 < ?S * ?P + ?S"
      using le(1) pos by (intro add_le_less_mono mult_le_mono1) simp_all
    then have "q < ?P + 1" unfolding q_def
      by (simp add: less_mult_imp_div_less algebra_simps)
    then show ?thesis by simp
  qed
  have set: "unat (ucast (div_closest (ucast duty * ucast (period st)) scale) :: u32) = q"
    using dc [of scale "ucast duty * ucast (period st)"] prod [of duty "period st"] assms(3) lt q1
    by (auto simp: unat_ucast_64_32 q_def)
  define st' where "st' = st\<lparr>duty_cycle := ucast (div_closest (ucast duty * ucast (period st)) scale)\<rparr>"
  have dq: "unat (duty_cycle st') = q" and ps: "period st' = period st" by (simp_all add: st'_def set)
  have get: "(q * ?S + ?P div 2) div ?P = ?x"
  proof (cases "?S = ?P")
    case True
    then have "q = ?x" unfolding q_def using pos by simp
    with True pos show ?thesis by simp
  next
    case False
    have "q * ?S \<le> ?x * ?P + ?S div 2" unfolding q_def by (rule div_times_less_eq_dividend)
    moreover have "?x * ?P + ?S div 2 < q * ?S + ?S"
      unfolding q_def by (subst add.commute [of _ ?S]) (rule dividend_less_div_times [OF pos(1)])
    ultimately have "?x * ?P \<le> q * ?S + ?P div 2" and "q * ?S + ?P div 2 < ?x * ?P + ?P"
      using le(2) False by linarith+
    then show ?thesis by (intro div_nat_eqI) (simp_all add: algebra_simps)
  qed
  have "unat (pwm_get_relative_duty_cycle div_closest st' scale) = ?x"
    using dc [of "period st" "ucast (duty_cycle st') * ucast scale"] prod [of "duty_cycle st'" scale]
      assms(2) lt get dq ps le by (auto simp: pwm_get_relative_duty_cycle_def unat_ucast_64_32)
  moreover have "pwm_set_relative_duty_cycle div_closest st duty scale = (0, st')"
    using assms(3,4) by (simp add: pwm_set_relative_duty_cycle_def st'_def not_less)
  ultimately show ?thesis
    using ps dq q1 by (auto simp: word_le_nat_alt unsigned_word_eqI)
qed

section \<open>Witnesses\<close>

text \<open>A framework state with one registered chip of one channel, driven by an atomic driver
  whose hardware state counts the calls of \<open>apply\<close>.\<close>

definition demo_ops :: "nat pwm_ops" where
  "demo_ops = \<lparr>op_request = None, op_free = None, op_capture = None,
     op_apply = Some (\<lambda>c pd st h. (0, h + 1)), op_get_state = None, owner = Some 7,
     op_config = None, op_set_polarity = None, op_enable = None, op_disable = None\<rparr>"

definition demo_pwm :: pwm_device where
  "demo_pwm = \<lparr>label = None, flags = 0, hwpwm = 0, pwm = 0, chip = 0, chip_data = None,
     args = \<lparr>ar_period = 3000, ar_polarity = PWM_POLARITY_INVERSED\<rparr>,
     state = \<lparr>period = 1000, duty_cycle = 250, polarity = PWM_POLARITY_NORMAL, enabled = True\<rparr>\<rparr>"

definition demo_core :: "nat pwm_core" where
  "demo_core = \<lparr>chip_mem = (\<lambda>_. \<lparr>dev = Some \<lparr>dev_name = ''pwm'', of_node = None\<rparr>, ops = Some demo_ops,
       base = 0, npwm = 1, of_xlate = None, of_pwm_n_cells = 0, pwms = [demo_pwm]\<rparr>),
     pwm_chips = [0], allocated_pwms = {0}, pwm_tree = [0 \<mapsto> (0, 0)], pwm_lookup_list = [],
     mod_live = (\<lambda>_. True), mod_refs = (\<lambda>_. 0), node_refs = (\<lambda>_. 0), parents = [0], children = [],
     hw = 0\<rparr>"

lemmas demo_defs = demo_core_def demo_pwm_def demo_ops_def valid_pwm_def requested_def state_ok_def

lemma demo_facts:
  "valid_pwm demo_core (0, 0)" "label (pwm_at demo_core (0, 0)) = None"
  "chip_data (pwm_at demo_core (0, 0)) = None" "state_ok (state (pwm_at demo_core (0, 0)))"
  by (simp_all add: demo_defs)

theorem request_put_balanced_witness:
  "fst (pwm_device_request (0, 0) None demo_core) = 0 \<and>
   (\<exists>h. pwm_put (Some (0, 0)) (snd (pwm_device_request (0, 0) None demo_core)) = demo_core\<lparr>hw := h\<rparr>)"
proof -
  have "fst (pwm_device_request (0, 0) None demo_core) = 0"
    by (simp add: pwm_device_request_def try_module_get_def demo_defs)
  then show ?thesis
    using request_put_balanced [OF demo_facts(1-3) prod.collapse [symmetric], of None] by simp
qed

theorem adjust_config_scales_witness:
  "fst (pwm_adjust_config (0, 0) demo_core) = 0 \<and>
   unat (duty_cycle (state (pwm_at (snd (pwm_adjust_config (0, 0) demo_core)) (0, 0)))) = 2250"
proof -
  have "fst (pwm_adjust_config (0, 0) demo_core) = 0"
    by (simp add: pwm_adjust_config_def pwm_apply_state_def adjusted_def pwm_get_args_def
        pwm_get_state_def demo_defs)
  then show ?thesis
    using adjust_config_scales [OF demo_facts(1) refl refl demo_facts(4) _ prod.collapse [symmetric]]
    by (simp add: Let_def demo_core_def demo_pwm_def)
qed

theorem apply_state_spec_witness:
  "let st = \<lparr>period = 4000, duty_cycle = 1, polarity = PWM_POLARITY_NORMAL, enabled = True\<rparr>;
       out = pwm_apply_state (Some (0, 0)) (Some st) demo_core
   in fst out = 0 \<and> state (pwm_at (snd out) (0, 0)) = st \<and> same_but (0, 0) demo_core (snd out)"
proof -
  let ?st = "\<lparr>period = 4000, duty_cycle = 1, polarity = PWM_POLARITY_NORMAL, enabled = True\<rparr>"
  have "fst (pwm_apply_state (Some (0, 0)) (Some ?st) demo_core) = 0"
    by (simp add: pwm_apply_state_def demo_defs)
  then show ?thesis
    using apply_state_spec [OF demo_facts(1,4) prod.collapse [symmetric], of "?st"]
    by (simp add: Let_def)
qed

theorem relative_duty_cycle_roundtrip_witness:
  "\<exists>st'. pwm_set_relative_duty_cycle (\<lambda>x d. (x + ucast (d div 2)) div ucast d) (state demo_pwm) 50 100 = (0, st') \<and>
     duty_cycle st' \<le> period (state demo_pwm) \<and>
     pwm_get_relative_duty_cycle (\<lambda>x d. (x + ucast (d div 2)) div ucast d) st' 100 = 50"
proof -
  have "unat ((x + ucast (d div 2)) div ucast d) = (unat x + unat d div 2) div unat d"
    if "d \<noteq> 0" "unat x + unat d div 2 < 2 ^ 64" for x :: u64 and d :: u32
    using that by (simp add: unat_div_distrib unat_word_ariths)
  then show ?thesis
    using relative_duty_cycle_roundtrip [of "\<lambda>x d. (x + ucast (d div 2)) div ucast d" "state demo_pwm" 100 50]
    by (auto simp: demo_pwm_def)
qed

end
