(* ===== verification/Pwm_Sysfs.thy ===== *)
theory Pwm_Sysfs
  imports Pwm_Core
begin

text \<open>
  The sysfs interface of the PWM framework (\<open>drivers/pwm/sysfs.c\<close>): exporting channels as
  child devices of the chip's class device, the attributes of an exported channel, and the
  suspend and resume callbacks of the class.

  The driver core (\<open>device_register\<close>, \<open>device_find_child\<close>, \<open>class_find_device\<close>) and the
  parsers \<open>kstrtouint\<close>, \<open>kstrtoint\<close>, \<open>sysfs_streq\<close> are not part of the repository.  The parsers are
  arguments of the stores; of the driver core the model keeps which class devices and children
  exist, and the results of allocation and registration are arguments.
\<close>

section \<open>Attributes of an exported channel\<close>

text \<open>The text that \<open>sprintf\<close> produces for \<open>%u\<close>.\<close>

fun dec :: "nat \<Rightarrow> string" where
  "dec n = (if n < 10 then [char_of (48 + n)] else dec (n div 10) @ [char_of (48 + n mod 10)])"

declare dec.simps [simp del]

definition newline :: string where "newline = [char_of (10 :: nat)]"

definition child_to_pwm_device :: "pwm_export \<Rightarrow> pwm_ptr" where
  "child_to_pwm_device ex = ex_pwm ex"

definition size_or :: "int \<Rightarrow> string \<Rightarrow> int" where
  "size_or ret buf = (if ret \<noteq> 0 then ret else int (length buf))"

definition period_show :: "pwm_export \<Rightarrow> 'h pwm_core \<Rightarrow> string" where
  "period_show ex s = dec (unat (period (pwm_get_state (pwm_at s (child_to_pwm_device ex))))) @ newline"

definition period_store ::
    "(string \<Rightarrow> int \<times> u32) \<Rightarrow> pwm_export \<Rightarrow> string \<Rightarrow> 'h pwm_core \<Rightarrow> int \<times> 'h pwm_core" where
  "period_store kstrtouint ex buf s = (case kstrtouint buf of (ret, v) \<Rightarrow>
     if ret \<noteq> 0 then (ret, s)
     else case pwm_apply_state (Some (ex_pwm ex)) (Some ((pwm_get_state (pwm_at s (ex_pwm ex)))\<lparr>period := v\<rparr>)) s of
       (ret, s1) \<Rightarrow> (size_or ret buf, s1))"

definition duty_cycle_show :: "pwm_export \<Rightarrow> 'h pwm_core \<Rightarrow> string" where
  "duty_cycle_show ex s = dec (unat (duty_cycle (pwm_get_state (pwm_at s (child_to_pwm_device ex))))) @ newline"

definition duty_cycle_store ::
    "(string \<Rightarrow> int \<times> u32) \<Rightarrow> pwm_export \<Rightarrow> string \<Rightarrow> 'h pwm_core \<Rightarrow> int \<times> 'h pwm_core" where
  "duty_cycle_store kstrtouint ex buf s = (case kstrtouint buf of (ret, v) \<Rightarrow>
     if ret \<noteq> 0 then (ret, s)
     else case pwm_apply_state (Some (ex_pwm ex)) (Some ((pwm_get_state (pwm_at s (ex_pwm ex)))\<lparr>duty_cycle := v\<rparr>)) s of
       (ret, s1) \<Rightarrow> (size_or ret buf, s1))"

definition enable_show :: "pwm_export \<Rightarrow> 'h pwm_core \<Rightarrow> string" where
  "enable_show ex s =
     dec (if enabled (pwm_get_state (pwm_at s (child_to_pwm_device ex))) then 1 else 0) @ newline"

definition enable_store ::
    "(string \<Rightarrow> int \<times> int) \<Rightarrow> pwm_export \<Rightarrow> string \<Rightarrow> 'h pwm_core \<Rightarrow> int \<times> 'h pwm_core" where
  "enable_store kstrtoint ex buf s = (case kstrtoint buf of (ret, v) \<Rightarrow>
     if ret \<noteq> 0 then (ret, s)
     else let st = pwm_get_state (pwm_at s (ex_pwm ex)) in
       if v = 0 \<or> v = 1
       then (case pwm_apply_state (Some (ex_pwm ex)) (Some (st\<lparr>enabled := (v = 1)\<rparr>)) s of
               (ret, s1) \<Rightarrow> (size_or ret buf, s1))
       else (- EINVAL, s))"

definition polarity_show :: "pwm_export \<Rightarrow> 'h pwm_core \<Rightarrow> string" where
  "polarity_show ex s =
     (case polarity (pwm_get_state (pwm_at s (child_to_pwm_device ex))) of
        PWM_POLARITY_NORMAL \<Rightarrow> ''normal'' | PWM_POLARITY_INVERSED \<Rightarrow> ''inversed'') @ newline"

definition polarity_store ::
    "(string \<Rightarrow> string \<Rightarrow> bool) \<Rightarrow> pwm_export \<Rightarrow> string \<Rightarrow> 'h pwm_core \<Rightarrow> int \<times> 'h pwm_core" where
  "polarity_store sysfs_streq ex buf s =
     (let apply_pol = (\<lambda>pol. case pwm_apply_state (Some (ex_pwm ex))
                               (Some ((pwm_get_state (pwm_at s (ex_pwm ex)))\<lparr>polarity := pol\<rparr>)) s of
                          (ret, s1) \<Rightarrow> (size_or ret buf, s1))
      in if sysfs_streq buf ''normal'' then apply_pol PWM_POLARITY_NORMAL
         else if sysfs_streq buf ''inversed'' then apply_pol PWM_POLARITY_INVERSED
         else (- EINVAL, s))"

text \<open>\<open>jiffies_to_msecs(HZ)\<close>, one second, is the timeout.\<close>

definition capture_show :: "pwm_export \<Rightarrow> pwm_capture \<Rightarrow> 'h pwm_core \<Rightarrow> (int + string) \<times> 'h pwm_core" where
  "capture_show ex stack s = (case pwm_capture_fn (Some (child_to_pwm_device ex)) 1000 stack s of
     (ret, res, s1) \<Rightarrow>
       (if ret \<noteq> 0 then Inl ret
        else Inr (dec (unat (cap_period res)) @ '' '' @ dec (unat (cap_duty_cycle res)) @ newline), s1))"

section \<open>Exporting and unexporting\<close>

definition zero_state :: pwm_state where
  "zero_state = \<lparr>period = 0, duty_cycle = 0, polarity = PWM_POLARITY_NORMAL, enabled = False\<rparr>"

definition set_exported :: "bool \<Rightarrow> pwm_device \<Rightarrow> pwm_device" where
  "set_exported b pd = pd\<lparr>flags := (if b then set_bit PWMF_EXPORTED (flags pd)
                                     else unset_bit PWMF_EXPORTED (flags pd))\<rparr>"

definition pwm_export_child ::
    "bool \<Rightarrow> int \<Rightarrow> chip_ptr \<Rightarrow> pwm_ptr \<Rightarrow> 'h pwm_core \<Rightarrow> int \<times> 'h pwm_core" where
  "pwm_export_child kzalloc_ok register_ret parent p s =
     (if exported (pwm_at s p) then (- EBUSY, s)
      else let s1 = upd_pwm p (set_exported True) s in
        if \<not> kzalloc_ok then (- ENOMEM, upd_pwm p (set_exported False) s1)
        else if register_ret \<noteq> 0 then (register_ret, upd_pwm p (set_exported False) s1)
        else (0, s1\<lparr>children := children s1 @ [(parent, \<lparr>ex_pwm = p, suspend = zero_state\<rparr>)]\<rparr>))"

text \<open>\<open>device_find_child\<close> with \<open>pwm_unexport_match\<close>: the position of the first child.\<close>

definition pwm_unexport_match :: "pwm_ptr \<Rightarrow> pwm_export \<Rightarrow> bool" where
  "pwm_unexport_match p ex \<longleftrightarrow> child_to_pwm_device ex = p"

definition find_child :: "chip_ptr \<Rightarrow> pwm_ptr \<Rightarrow> (chip_ptr \<times> pwm_export) list \<Rightarrow> nat option" where
  "find_child parent p cs =
     find (\<lambda>k. fst (cs ! k) = parent \<and> pwm_unexport_match p (snd (cs ! k))) [0..<length cs]"

definition pwm_unexport_child :: "chip_ptr \<Rightarrow> pwm_ptr \<Rightarrow> 'h pwm_core \<Rightarrow> int \<times> 'h pwm_core" where
  "pwm_unexport_child parent p s =
     (if \<not> exported (pwm_at s p) then (- ENODEV, s)
      else let s1 = upd_pwm p (set_exported False) s in
        case find_child parent p (children s1) of
          None \<Rightarrow> (- ENODEV, s1)
        | Some k \<Rightarrow> (0, pwm_put (Some p)
                          (s1\<lparr>children := take k (children s1) @ drop (Suc k) (children s1)\<rparr>)))"

text \<open>The driver data of the class device is the chip.\<close>

definition export_store ::
    "(string \<Rightarrow> int \<times> u32) \<Rightarrow> bool \<Rightarrow> int \<Rightarrow> chip_ptr \<Rightarrow> string \<Rightarrow> 'h pwm_core \<Rightarrow> int \<times> 'h pwm_core" where
  "export_store kstrtouint kzalloc_ok register_ret parent buf s = (case kstrtouint buf of (ret, n) \<Rightarrow>
     if ret < 0 then (ret, s)
     else if unat n \<ge> npwm (chip_at s parent) then (- ENODEV, s)
     else case pwm_request_from_chip (Some parent) (unat n) (Some ''sysfs'') s of
       (Inl e, s1) \<Rightarrow> (e, s1)
     | (Inr p, s1) \<Rightarrow>
         (case pwm_export_child kzalloc_ok register_ret parent p s1 of
            (ret, s2) \<Rightarrow> (size_or ret buf, if ret < 0 then pwm_put (Some p) s2 else s2)))"

definition unexport_store ::
    "(string \<Rightarrow> int \<times> u32) \<Rightarrow> chip_ptr \<Rightarrow> string \<Rightarrow> 'h pwm_core \<Rightarrow> int \<times> 'h pwm_core" where
  "unexport_store kstrtouint parent buf s = (case kstrtouint buf of (ret, n) \<Rightarrow>
     if ret < 0 then (ret, s)
     else if unat n \<ge> npwm (chip_at s parent) then (- ENODEV, s)
     else case pwm_unexport_child parent (parent, unat n) s of
       (ret, s1) \<Rightarrow> (size_or ret buf, s1))"

definition npwm_show :: "chip_ptr \<Rightarrow> 'h pwm_core \<Rightarrow> string" where
  "npwm_show parent s = dec (npwm (chip_at s parent)) @ newline"

section \<open>Suspend and resume\<close>

text \<open>The position of the child stands for the pointer to its \<open>struct pwm_export\<close>.\<close>

definition pwm_class_get_state :: "chip_ptr \<Rightarrow> pwm_ptr \<Rightarrow> 'h pwm_core \<Rightarrow> (nat \<times> pwm_state) option" where
  "pwm_class_get_state parent p s =
     (if \<not> exported (pwm_at s p) then None
      else case find_child parent p (children s) of
        None \<Rightarrow> None
      | Some k \<Rightarrow> Some (k, pwm_get_state (pwm_at s p)))"

definition pwm_class_apply_state :: "pwm_ptr \<Rightarrow> pwm_state \<Rightarrow> 'h pwm_core \<Rightarrow> int \<times> 'h pwm_core" where
  "pwm_class_apply_state p st s = pwm_apply_state (Some p) (Some st) s"

text \<open>The loop over the channels listed in the third argument, \<open>ret\<close> being the result so far.\<close>

fun resume_loop :: "chip_ptr \<Rightarrow> int \<Rightarrow> nat list \<Rightarrow> 'h pwm_core \<Rightarrow> int \<times> 'h pwm_core" where
  "resume_loop parent ret [] s = (ret, s)"
| "resume_loop parent ret (i # is) s = (case pwm_class_get_state parent (parent, i) s of
     None \<Rightarrow> resume_loop parent ret is s
   | Some (k, st) \<Rightarrow>
       (case pwm_class_apply_state (parent, i)
               (st\<lparr>enabled := enabled (suspend (snd (children s ! k)))\<rparr>) s of
          (ret, s1) \<Rightarrow> if ret < 0 then (ret, s1) else resume_loop parent ret is s1))"

definition pwm_class_resume_npwm :: "chip_ptr \<Rightarrow> nat \<Rightarrow> 'h pwm_core \<Rightarrow> int \<times> 'h pwm_core" where
  "pwm_class_resume_npwm parent n s = resume_loop parent 0 [0..<n] s"

definition set_suspend :: "nat \<Rightarrow> pwm_state \<Rightarrow> 'h pwm_core \<Rightarrow> 'h pwm_core" where
  "set_suspend k st s =
     s\<lparr>children := (children s)[k := (fst (children s ! k), (snd (children s ! k))\<lparr>suspend := st\<rparr>)]\<rparr>"

fun suspend_loop :: "chip_ptr \<Rightarrow> int \<Rightarrow> nat list \<Rightarrow> 'h pwm_core \<Rightarrow> int \<times> 'h pwm_core" where
  "suspend_loop parent ret [] s = (ret, s)"
| "suspend_loop parent ret (i # is) s = (case pwm_class_get_state parent (parent, i) s of
     None \<Rightarrow> suspend_loop parent ret is s
   | Some (k, st) \<Rightarrow>
       (case pwm_class_apply_state (parent, i) (st\<lparr>enabled := False\<rparr>) (set_suspend k st s) of
          (ret, s1) \<Rightarrow>
            if ret < 0 then (ret, snd (pwm_class_resume_npwm parent i s1))
            else suspend_loop parent ret is s1))"

definition pwm_class_suspend :: "chip_ptr \<Rightarrow> 'h pwm_core \<Rightarrow> int \<times> 'h pwm_core" where
  "pwm_class_suspend parent s = suspend_loop parent 0 [0..<npwm (chip_at s parent)] s"

definition pwm_class_resume :: "chip_ptr \<Rightarrow> 'h pwm_core \<Rightarrow> int \<times> 'h pwm_core" where
  "pwm_class_resume parent s = pwm_class_resume_npwm parent (npwm (chip_at s parent)) s"

section \<open>The class device of a chip\<close>

definition pwmchip_sysfs_export :: "bool \<Rightarrow> chip_ptr \<Rightarrow> 'h pwm_core \<Rightarrow> 'h pwm_core" where
  "pwmchip_sysfs_export create_ok c s = (if create_ok then s\<lparr>parents := parents s @ [c]\<rparr> else s)"

definition unexport_step :: "chip_ptr \<Rightarrow> nat \<Rightarrow> 'h pwm_core \<Rightarrow> 'h pwm_core" where
  "unexport_step c i s =
     (if exported (pwm_at s (c, i)) then snd (pwm_unexport_child c (c, i) s) else s)"

definition pwmchip_sysfs_unexport :: "chip_ptr \<Rightarrow> 'h pwm_core \<Rightarrow> 'h pwm_core" where
  "pwmchip_sysfs_unexport c s =
     (if c \<notin> set (parents s) then s
      else let s1 = fold (unexport_step c) [0..<npwm (chip_at s c)] s
           in s1\<lparr>parents := remove1 c (parents s1)\<rparr>)"

section \<open>Exported channels and their child devices\<close>

text \<open>Every child device belongs to the chip of its channel, no channel has two, and a channel
  is marked exported exactly when it has one; exported channels are requested.\<close>

definition exports :: "'h pwm_core \<Rightarrow> pwm_ptr list" where
  "exports s = map (\<lambda>e. ex_pwm (snd e)) (children s)"

definition sysfs_inv :: "'h pwm_core \<Rightarrow> bool" where
  "sysfs_inv s \<longleftrightarrow> distinct (exports s) \<and>
     (\<forall>e \<in> set (children s). fst e = fst (ex_pwm (snd e)) \<and> valid_pwm s (ex_pwm (snd e))) \<and>
     (\<forall>p. valid_pwm s p \<longrightarrow> (exported (pwm_at s p) \<longleftrightarrow> p \<in> set (exports s)) \<and>
                           (exported (pwm_at s p) \<longrightarrow> requested (pwm_at s p)))"

lemma sysfs_inv_exported:
  assumes "sysfs_inv s" and "valid_pwm s p"
  shows "exported (pwm_at s p) \<longleftrightarrow> p \<in> set (exports s)"
    and "exported (pwm_at s p) \<Longrightarrow> requested (pwm_at s p)"
  using assms by (simp_all add: sysfs_inv_def)

lemma find_child_Some:
  assumes "distinct (map (\<lambda>e. ex_pwm (snd e)) cs)" and "k < length cs"
    and "fst (cs ! k) = q" and "ex_pwm (snd (cs ! k)) = p"
  shows "find_child q p cs = Some k"
  unfolding find_child_def pwm_unexport_match_def child_to_pwm_device_def
proof (rule find_unique)
  fix j
  assume "j \<in> set [0..<length cs]" and "fst (cs ! j) = q \<and> ex_pwm (snd (cs ! j)) = p"
  then show "j = k"
    using assms nth_eq_iff_index_eq [OF assms(1), of j k] by simp
qed (use assms in simp_all)

lemma find_child_None:
  assumes "p \<notin> (\<lambda>e. ex_pwm (snd e)) ` set cs"
  shows "find_child q p cs = None"
  using assms unfolding find_child_def find_None_all pwm_unexport_match_def child_to_pwm_device_def
  by (force simp: in_set_conv_nth)

lemma find_child_exported:
  assumes "sysfs_inv s" and "valid_pwm s p" and "exported (pwm_at s p)"
  obtains k where "k < length (children s)" and "ex_pwm (snd (children s ! k)) = p"
    and "find_child (fst p) p (children s) = Some k"
proof -
  have "p \<in> set (exports s)" using sysfs_inv_exported(1) assms by blast
  then obtain k where k: "k < length (children s)" "ex_pwm (snd (children s ! k)) = p"
    by (auto simp: exports_def in_set_conv_nth)
  have "fst (children s ! k) = fst p"
    using assms(1) k nth_mem [OF k(1)] by (auto simp: sysfs_inv_def)
  then have "find_child (fst p) p (children s) = Some k"
    using assms(1) k by (intro find_child_Some) (simp_all add: sysfs_inv_def exports_def)
  with k that show thesis by blast
qed

text \<open>A hook that follows the documented convention: 0 or a negative error code.\<close>

definition request_hook_ok :: "'h pwm_ops \<Rightarrow> bool" where
  "request_hook_ok ops1 \<longleftrightarrow> (\<forall>req c pd h. op_request ops1 = Some req \<longrightarrow> fst (req c pd h) \<le> 0)"

lemma device_request_nonpos:
  "request_hook_ok (ops_at s p) \<Longrightarrow> fst (pwm_device_request p lbl s) \<le> 0"
  unfolding pwm_device_request_def try_module_get_eq request_hook_ok_def
  by (auto split: option.split prod.split) (metis fst_conv)+

lemma set_exported_flags [simp]:
  "exported (set_exported b pd) = b" "requested (set_exported b pd) = requested pd"
  "label (set_exported b pd) = label pd" "chip_data (set_exported b pd) = chip_data pd"
  by (auto simp: set_exported_def exported_def requested_def)

lemma set_exported_undo: "\<not> exported pd \<Longrightarrow> set_exported False (set_exported True pd) = pd"
  by (simp add: set_exported_def exported_def unset_set_bit)

lemma export_child_undo [simp]:
  "\<not> exported (pwm_at s p) \<Longrightarrow> upd_pwm p (set_exported False \<circ> set_exported True) s = s"
  by (simp add: upd_pwm_id set_exported_undo)

lemma upd_pwm_children [simp]: "upd_pwm p f (s\<lparr>children := x\<rparr>) = (upd_pwm p f s)\<lparr>children := x\<rparr>"
  by (simp add: upd_pwm_def)

lemma valid_pwm_children [simp]: "valid_pwm (s\<lparr>children := x\<rparr>) p = valid_pwm s p"
  by (simp add: valid_pwm_def)

lemma exported_after_request:
  assumes "valid_pwm s p" and "pwm_device_request p lbl s = (0, s1)"
  shows "\<not> requested (pwm_at s p)" and "valid_pwm s1 q = valid_pwm s q"
    and "exported (pwm_at s1 q) = exported (pwm_at s q)"
    and "requested (pwm_at s1 q) \<longleftrightarrow> q = p \<or> requested (pwm_at s q)"
    and "children s1 = children s" and "label (pwm_at s1 p) = lbl"
    and "ops (chip_mem s1 c) = ops (chip_mem s c)" and "npwm (chip_mem s1 c) = npwm (chip_mem s c)"
  using assms(2)
  by (cases rule: device_request_cases; use assms(1) in
      \<open>cases "q = p"; simp add: requested_def exported_def\<close>)+

text \<open>The state after a successful export, and that unexporting leads back.\<close>

lemma export_child_ok:
  assumes inv: "sysfs_inv s" and v: "valid_pwm s p" and req: "pwm_device_request p lbl s = (0, s1)"
    and exp: "pwm_export_child kz reg (fst p) p s1 = (r, s2)"
  shows "r \<noteq> 0 \<Longrightarrow> s2 = s1"
    and "r = 0 \<Longrightarrow> sysfs_inv s2 \<and> exported (pwm_at s2 p) \<and> requested (pwm_at s2 p) \<and>
           label (pwm_at s2 p) = lbl \<and> pwm_unexport_child (fst p) p s2 = (0, pwm_put (Some p) s1)"
proof -
  note af = exported_after_request [OF v req]
  have nexp: "\<not> exported (pwm_at s1 p)" using sysfs_inv_exported(2) [OF inv v] af(1,3) by blast
  show "s2 = s1" if "r \<noteq> 0"
    using exp that nexp by (auto simp: pwm_export_child_def Let_def split: if_splits)
  assume "r = 0"
  let ?new = "(fst p, \<lparr>ex_pwm = p, suspend = zero_state\<rparr>)"
  have s2: "s2 = (upd_pwm p (set_exported True) s1)\<lparr>children := children s @ [?new]\<rparr>"
    using exp \<open>r = 0\<close> nexp af(5) by (simp add: pwm_export_child_def Let_def split: if_splits)
  have at: "pwm_at s2 q = (if q = p then set_exported True (pwm_at s1 p) else pwm_at s1 q)"
    and vq: "valid_pwm s2 q = valid_pwm s q" for q
    using v af(2) by (simp_all add: s2)
  have ex: "exports s2 = exports s @ [p]" by (simp add: exports_def s2)
  have notin: "p \<notin> set (exports s)" using sysfs_inv_exported(1) [OF inv v] nexp af(3) by blast
  have inv2: "sysfs_inv s2"
    unfolding sysfs_inv_def ex
  proof (intro conjI ballI allI impI)
    show "distinct (exports s @ [p])" using inv notin by (simp add: sysfs_inv_def)
  next
    fix e assume "e \<in> set (children s2)"
    then show "fst e = fst (ex_pwm (snd e))" "valid_pwm s2 (ex_pwm (snd e))"
      using inv v by (auto simp: sysfs_inv_def s2 af(2))
  next
    fix q assume "valid_pwm s2 q"
    then show "exported (pwm_at s2 q) = (q \<in> set (exports s @ [p]))"
      and "exported (pwm_at s2 q) \<Longrightarrow> requested (pwm_at s2 q)"
      using sysfs_inv_exported [OF inv, of q] by (auto simp: at vq af(3,4))
  qed
  have "find_child (fst p) p (children s2) = Some (length (children s))"
    using inv2 by (intro find_child_Some) (simp_all add: sysfs_inv_def exports_def s2)
  then have "pwm_unexport_child (fst p) p s2 =
      (0, pwm_put (Some p) ((upd_pwm p (set_exported False) s2)\<lparr>children := children s\<rparr>))"
    using v af(2) by (simp add: pwm_unexport_child_def Let_def s2)
  also have "(upd_pwm p (set_exported False) s2)\<lparr>children := children s\<rparr> =
      (upd_pwm p (set_exported False \<circ> set_exported True) s1)\<lparr>children := children s1\<rparr>"
    by (simp add: s2 af(5))
  also have "\<dots> = s1" unfolding export_child_undo [OF nexp] by simp
  finally have "pwm_unexport_child (fst p) p s2 = (0, pwm_put (Some p) s1)" .
  then show "sysfs_inv s2 \<and> exported (pwm_at s2 p) \<and> requested (pwm_at s2 p) \<and>
      label (pwm_at s2 p) = lbl \<and> pwm_unexport_child (fst p) p s2 = (0, pwm_put (Some p) s1)"
    using inv2 at [of p] af(4,6) by simp
qed

text \<open>Writing a channel number to \<open>export\<close> and to \<open>unexport\<close>.  A failing export (channel in
  use, module gone, driver refusal, no memory, registration failure) leaves everything but the
  hardware unchanged: flags, module references and children.  A successful one leaves the
  channel requested for sysfs, exported, with its child device, and the invariant of the sysfs
  structures intact; unexporting it then succeeds and restores the state before the export.\<close>
theorem export_unexport_roundtrip:
  assumes "sysfs_inv s" and "npwm (chip_at s c) = length (pwms (chip_at s c))"
    and "kstrtouint buf = (0, n)" and "unat n < npwm (chip_at s c)" and "buf \<noteq> []"
    and "label (pwm_at s (c, unat n)) = None" and "chip_data (pwm_at s (c, unat n)) = None"
    and "request_hook_ok (ops_at s (c, unat n))" and "register_ret \<le> 0"
    and "export_store kstrtouint kzalloc_ok register_ret c buf s = (r, s1)"
  shows "(r < 0 \<and> s1 = s\<lparr>hw := hw s1\<rparr>) \<or>
    (r = int (length buf) \<and> sysfs_inv s1 \<and> exported (pwm_at s1 (c, unat n)) \<and>
     requested (pwm_at s1 (c, unat n)) \<and> label (pwm_at s1 (c, unat n)) = Some ''sysfs'' \<and>
     (\<exists>h. unexport_store kstrtouint c buf s1 = (int (length buf), s\<lparr>hw := h\<rparr>)))"
proof -
  let ?p = "(c, unat n)"
  have v: "valid_pwm s ?p" using assms(2,4) by (simp add: valid_pwm_def)
  obtain e s0 where req: "pwm_device_request ?p (Some ''sysfs'') s = (e, s0)" by force
  obtain x s2 where exp: "pwm_export_child kzalloc_ok register_ret c ?p s0 = (x, s2)" by force
  have nonpos: "e \<le> 0" "x \<le> 0"
    using device_request_nonpos [OF assms(8), of "Some ''sysfs''"] req exp assms(9)
    by (auto simp: pwm_export_child_def Let_def split: if_splits)
  have res: "(r, s1) = (if e < 0 then (e, s0) else (size_or x buf, if x < 0 then pwm_put (Some ?p) s2 else s2))"
    using assms(3,4,10) req exp
    by (simp add: export_store_def pwm_request_from_chip_def split: if_splits)
  show ?thesis
  proof (cases "e = 0")
    case False
    then show ?thesis using res nonpos refused_request [OF req] by auto
  next
    case True
    note req0 = req [unfolded True]
    note ok = export_child_ok [OF assms(1) v req0, unfolded fst_conv, OF exp]
    obtain h where put: "pwm_put (Some ?p) s0 = s\<lparr>hw := h\<rparr>"
      using put_after_request [OF v assms(6,7) req0] by blast
    show ?thesis
    proof (cases "x = 0")
      case False
      then show ?thesis using ok(1) res True nonpos put by (auto simp: size_or_def)
    next
      case x0: True
      have s1: "s1 = s2" "r = int (length buf)" using res True x0 by (simp_all add: size_or_def)
      have "npwm (chip_mem s2 c) = npwm (chip_mem s c)"
        using exp x0 exported_after_request(8) [OF v req0]
        by (auto simp: pwm_export_child_def Let_def split: if_splits)
      then show ?thesis using ok(2) [OF x0] s1 put assms(3,4)
        by (auto simp: unexport_store_def size_or_def)
    qed
  qed
qed

section \<open>Unexporting keeps the structures together\<close>

lemma delete_nth:
  assumes "distinct xs" and "k < length xs"
  shows "set (take k xs @ drop (Suc k) xs) = set xs - {xs ! k}" and "distinct (take k xs @ drop (Suc k) xs)"
proof -
  have xs: "xs = take k xs @ xs ! k # drop (Suc k) xs" using assms(2) by (rule id_take_nth_drop)
  have "distinct (take k xs @ xs ! k # drop (Suc k) xs)" using xs assms(1) by metis
  then show "distinct (take k xs @ drop (Suc k) xs)" by auto
  have "set xs = insert (xs ! k) (set (take k xs @ drop (Suc k) xs))"
    by (subst xs) auto
  moreover have "xs ! k \<notin> set (take k xs @ drop (Suc k) xs)"
    using \<open>distinct (take k xs @ xs ! k # drop (Suc k) xs)\<close> by auto
  ultimately show "set (take k xs @ drop (Suc k) xs) = set xs - {xs ! k}" by auto
qed

lemma unexport_child_effect:
  assumes inv: "sysfs_inv s" and v: "valid_pwm s p" and ex: "exported (pwm_at s p)"
    and s': "pwm_unexport_child (fst p) p s = (r, s')"
  shows "r = 0" and "sysfs_inv s'" and "valid_pwm s' q = valid_pwm s q"
    and "exported (pwm_at s' q) \<longleftrightarrow> q \<noteq> p \<and> exported (pwm_at s q)"
    and "requested (pwm_at s' q) \<longleftrightarrow> q \<noteq> p \<and> requested (pwm_at s q)"
    and "parents s' = parents s"
proof -
  obtain k where k: "k < length (children s)" "ex_pwm (snd (children s ! k)) = p"
    "find_child (fst p) p (children s) = Some k" using find_child_exported [OF inv v ex] .
  let ?cs = "take k (children s) @ drop (Suc k) (children s)"
  let ?t = "(upd_pwm p (set_exported False) s)\<lparr>children := ?cs\<rparr>"
  have res: "r = 0" "s' = pwm_put (Some p) ?t"
    using s' ex k(3) by (auto simp: pwm_unexport_child_def Let_def)
  have "requested (pwm_at ?t p)" using sysfs_inv_exported(2) [OF inv v ex] v by simp
  then obtain h where put: "s' = (upd_pwm p (\<lambda>pd. pd\<lparr>flags := unset_bit PWMF_REQUESTED (flags pd),
      chip_data := None, label := None\<rparr>) ?t)\<lparr>hw := h, mod_refs := refs_add (owner (ops_at ?t p)) (- 1) (mod_refs ?t)\<rparr>"
    using pwm_put_requested [of ?t p] unfolding res by blast
  show "r = 0" by (rule res)
  show vq: "valid_pwm s' q = valid_pwm s q" for q by (simp add: put)
  show eq: "exported (pwm_at s' q) \<longleftrightarrow> q \<noteq> p \<and> exported (pwm_at s q)" for q
    using v set_exported_flags(1) [of False "pwm_at s p"]
    by (cases "q = p") (simp_all add: put exported_def)
  show rq: "requested (pwm_at s' q) \<longleftrightarrow> q \<noteq> p \<and> requested (pwm_at s q)" for q
    using v by (cases "q = p") (simp_all add: put requested_def)
  show "parents s' = parents s" by (simp add: put)
  have ch: "children s' = ?cs" by (simp add: put)
  have ex': "exports s' = take k (exports s) @ drop (Suc k) (exports s)"
    by (simp add: exports_def ch take_map drop_map)
  have dist: "distinct (exports s)" and kl: "k < length (exports s)" and kp: "exports s ! k = p"
    using inv k by (simp_all add: sysfs_inv_def exports_def)
  note del = delete_nth [OF dist kl, folded ex', unfolded kp]
  have sub: "set (children s') \<subseteq> set (children s)"
    unfolding ch using set_take_subset set_drop_subset by fastforce
  show "sysfs_inv s'"
    unfolding sysfs_inv_def
  proof (intro conjI ballI allI impI)
    show "distinct (exports s')" by (rule del(2))
  next
    fix e assume "e \<in> set (children s')"
    then show "fst e = fst (ex_pwm (snd e))" "valid_pwm s' (ex_pwm (snd e))"
      using inv sub vq by (auto simp: sysfs_inv_def)
  next
    fix q assume "valid_pwm s' q"
    then show "exported (pwm_at s' q) = (q \<in> set (exports s'))"
      and "exported (pwm_at s' q) \<Longrightarrow> requested (pwm_at s' q)"
      using sysfs_inv_exported [OF inv, of q] vq eq rq del(1) by auto
  qed
qed

lemma unexport_steps:
  assumes "sysfs_inv s" and "\<forall>i \<in> set is. valid_pwm s (c, i)"
  shows "sysfs_inv (fold (unexport_step c) is s) \<and>
    (\<forall>i. (requested (pwm_at (fold (unexport_step c) is s) (c, i)) \<longleftrightarrow>
          requested (pwm_at s (c, i)) \<and> \<not> (i \<in> set is \<and> exported (pwm_at s (c, i)))))"
  using assms
proof (induction "is" arbitrary: s)
  case (Cons i "is")
  let ?s1 = "unexport_step c i s"
  have v: "valid_pwm s (c, i)" using Cons.prems(2) by simp
  have step: "sysfs_inv ?s1 \<and> (\<forall>q. valid_pwm ?s1 q = valid_pwm s q) \<and>
    (\<forall>j. (exported (pwm_at ?s1 (c, j)) \<longleftrightarrow> j \<noteq> i \<and> exported (pwm_at s (c, j)))) \<and>
    (\<forall>j. (requested (pwm_at ?s1 (c, j)) \<longleftrightarrow> requested (pwm_at s (c, j)) \<and> \<not> (j = i \<and> exported (pwm_at s (c, i)))))"
  proof (cases "exported (pwm_at s (c, i))")
    case True
    note eff = unexport_child_effect [OF Cons.prems(1) v True prod.collapse [symmetric], unfolded fst_conv]
    show ?thesis using True eff(2,3) eff(4,5) [of "(c, _)"] by (simp add: unexport_step_def conj_commute)
  next
    case False
    then show ?thesis using Cons.prems(1) by (auto simp: unexport_step_def)
  qed
  then have "\<forall>i \<in> set is. valid_pwm ?s1 (c, i)" using Cons.prems(2) by simp
  from Cons.IH [OF _ this] step show ?case by auto
qed simp

section \<open>Suspending and resuming a chip\<close>

text \<open>A driver that never refuses to switch a configured channel on or off.\<close>

definition toggles :: "'h pwm_ops \<Rightarrow> bool" where
  "toggles ops1 \<longleftrightarrow> (case op_apply ops1 of
     Some app \<Rightarrow> \<forall>c pd st h. fst (app c pd st h) = 0
   | None \<Rightarrow> (\<exists>en. op_enable ops1 = Some en \<and> (\<forall>c pd h. fst (en c pd h) = 0)))"

definition set_enabled :: "bool \<Rightarrow> pwm_device \<Rightarrow> pwm_device" where
  "set_enabled b pd = pd\<lparr>state := (state pd)\<lparr>enabled := b\<rparr>\<rparr>"

lemma set_enabled_simps [simp]:
  "exported (set_enabled b pd) = exported pd" "state (set_enabled b pd) = (state pd)\<lparr>enabled := b\<rparr>"
  "set_enabled b (set_enabled b' pd) = set_enabled b pd" "set_enabled (enabled (state pd)) pd = pd"
  by (simp_all add: set_enabled_def exported_def)

definition configured :: "pwm_device \<Rightarrow> bool" where
  "configured pd \<longleftrightarrow> period (state pd) \<noteq> 0 \<and> duty_cycle (state pd) \<le> period (state pd)"

lemma configured_set_enabled [simp]: "configured (set_enabled b pd) = configured pd"
  by (simp add: configured_def)

lemma apply_toggle:
  assumes "toggles (ops_at s p)" and "configured (pwm_at s p)"
  shows "\<exists>h. pwm_class_apply_state p ((state (pwm_at s p))\<lparr>enabled := b\<rparr>) s =
    (0, (upd_pwm p (set_enabled b) s)\<lparr>hw := h\<rparr>)"
proof (cases "enabled (state (pwm_at s p)) = b")
  case True
  then have "pwm_class_apply_state p ((state (pwm_at s p))\<lparr>enabled := b\<rparr>) s = (0, s)"
    using assms(2) by (auto simp: pwm_class_apply_state_def pwm_apply_state_def configured_def)
  moreover have "(upd_pwm p (set_enabled b) s)\<lparr>hw := hw s\<rparr> = s"
    by (subst upd_pwm_id) (simp_all flip: True)
  ultimately show ?thesis by metis
next
  case ne: False
  let ?st = "(state (pwm_at s p))\<lparr>enabled := b\<rparr>"
  have upd: "upd_pwm p (\<lambda>pd. pd\<lparr>state := ?st\<rparr>) s = upd_pwm p (set_enabled b) s"
    by (simp add: upd_pwm_def set_enabled_def)
  show ?thesis
  proof (cases "op_apply (ops_at s p)")
    case (Some app)
    have "fst (app (fst p) (pwm_at s p) ?st (hw s)) = 0"
      using assms(1) Some by (simp add: toggles_def)
    then obtain h where "app (fst p) (pwm_at s p) ?st (hw s) = (0, h)" by (metis prod.collapse)
    then have "pwm_class_apply_state p ?st s = (0, (upd_pwm p (\<lambda>pd. pd\<lparr>state := ?st\<rparr>) s)\<lparr>hw := h\<rparr>)"
      using assms(2) ne Some by (auto simp: pwm_class_apply_state_def pwm_apply_state_def configured_def)
    then show ?thesis unfolding upd by blast
  next
    case None
    then obtain en where en: "op_enable (ops_at s p) = Some en" "\<And>c pd h. fst (en c pd h) = 0"
      using assms(1) by (auto simp: toggles_def)
    obtain h where h: "(if b then en (fst p) (pwm_at s p) (hw s)
        else (0, the (op_disable (ops_at s p)) (fst p) (pwm_at s p) (hw s))) = (0, h)"
      using en(2) by (metis prod.collapse)
    have "pwm_class_apply_state p ?st s =
        (0, (upd_pwm p (\<lambda>pd. pd\<lparr>state := (state pd)\<lparr>enabled := b\<rparr>\<rparr>) s)\<lparr>hw := h\<rparr>)"
      using assms(2) ne None en(1) h
      by (auto simp: pwm_class_apply_state_def pwm_apply_state_def configured_def legacy_polarity_def
          legacy_config_def legacy_enable_def)
    then show ?thesis by (intro exI [of _ h]) (simp add: set_enabled_def [abs_def])
  qed
qed

text \<open>What both loops leave alone.\<close>

definition sys_frame :: "'h pwm_core \<Rightarrow> 'h pwm_core \<Rightarrow> bool" where
  "sys_frame s s' \<longleftrightarrow>
     (\<forall>c. ops (chip_mem s' c) = ops (chip_mem s c) \<and> npwm (chip_mem s' c) = npwm (chip_mem s c) \<and>
          base (chip_mem s' c) = base (chip_mem s c) \<and> dev (chip_mem s' c) = dev (chip_mem s c) \<and>
          length (pwms (chip_mem s' c)) = length (pwms (chip_mem s c))) \<and>
     map (\<lambda>e. (fst e, ex_pwm (snd e))) (children s') = map (\<lambda>e. (fst e, ex_pwm (snd e))) (children s) \<and>
     pwm_chips s' = pwm_chips s \<and> allocated_pwms s' = allocated_pwms s \<and> pwm_tree s' = pwm_tree s \<and>
     mod_refs s' = mod_refs s \<and> parents s' = parents s"

lemma sys_frame_refl [simp]: "sys_frame s s"
  by (simp add: sys_frame_def)

lemma sys_frame_trans: "sys_frame s t \<Longrightarrow> sys_frame t u \<Longrightarrow> sys_frame s u"
  by (auto simp: sys_frame_def)

lemma sys_frame_step: "sys_frame s ((upd_pwm p f s)\<lparr>hw := h\<rparr>)"
  by (simp add: sys_frame_def)

lemma sys_frame_set_suspend: "k < length (children s) \<Longrightarrow> sys_frame s (set_suspend k st s)"
  by (auto simp: sys_frame_def set_suspend_def map_update list_update_same_conv)

lemma set_suspend_simps [simp]:
  "chip_mem (set_suspend k st s) = chip_mem s" "valid_pwm (set_suspend k st s) p = valid_pwm s p"
  "hw (set_suspend k st s) = hw s"
  by (simp_all add: set_suspend_def valid_pwm_def)

text \<open>The child of an exported channel, a condition that both loops keep.\<close>

definition linked :: "'h pwm_core \<Rightarrow> chip_ptr \<Rightarrow> nat \<Rightarrow> nat \<Rightarrow> bool" where
  "linked s c i k \<longleftrightarrow> k < length (children s) \<and> find_child c (c, i) (children s) = Some k"

lemma find_child_frame:
  assumes "map (\<lambda>e. (fst e, ex_pwm (snd e))) cs = map (\<lambda>e. (fst e, ex_pwm (snd e))) ds"
  shows "find_child q p cs = find_child q p ds"
proof -
  have len: "length cs = length ds" using assms by (metis length_map)
  have nth: "(fst (cs ! k), ex_pwm (snd (cs ! k))) = (fst (ds ! k), ex_pwm (snd (ds ! k)))"
    if "k < length cs" for k
    using assms that len by (metis (no_types, lifting) nth_map)
  show ?thesis
    unfolding find_child_def pwm_unexport_match_def child_to_pwm_device_def len [symmetric]
    by (rule find_cong [OF refl]) (use nth in \<open>simp add: prod_eq_iff\<close>)
qed

lemma linked_frame: "sys_frame s s' \<Longrightarrow> linked s' c i k = linked s c i k"
proof -
  assume "sys_frame s s'"
  then have eq: "map (\<lambda>e. (fst e, ex_pwm (snd e))) (children s') = map (\<lambda>e. (fst e, ex_pwm (snd e))) (children s)"
    by (simp add: sys_frame_def)
  from arg_cong [OF eq, of length] find_child_frame [OF eq] show ?thesis by (simp add: linked_def)
qed

lemma linked_frame_eq: "sys_frame s s' \<Longrightarrow> linked s' = linked s"
  by (intro ext) (rule linked_frame)

text \<open>One pass of a loop over an exported channel with a child.\<close>

lemma get_state_linked:
  "exported (pwm_at s (c, i)) \<Longrightarrow> linked s c i k \<Longrightarrow>
     pwm_class_get_state c (c, i) s = Some (k, state (pwm_at s (c, i)))"
  by (simp add: pwm_class_get_state_def linked_def pwm_get_state_def)

lemma get_state_not_exported:
  "\<not> exported (pwm_at s (c, i)) \<Longrightarrow> pwm_class_get_state c (c, i) s = None"
  by (simp add: pwm_class_get_state_def)

text \<open>The channels that a pass over \<open>is\<close> can run on.\<close>

definition ready :: "'h pwm_core \<Rightarrow> chip_ptr \<Rightarrow> nat list \<Rightarrow> bool" where
  "ready s c is \<longleftrightarrow> toggles (the (ops (chip_mem s c))) \<and> distinct is \<and>
     (\<forall>i \<in> set is. valid_pwm s (c, i) \<and>
        (exported (pwm_at s (c, i)) \<longrightarrow> configured (pwm_at s (c, i)) \<and> (\<exists>k. linked s c i k)))"

lemma valid_frame: "sys_frame s s' \<Longrightarrow> valid_pwm s' p = valid_pwm s p"
  by (simp add: valid_pwm_def sys_frame_def)

lemma ready_step:
  assumes "ready s c (i # is)" and "sys_frame s s'" and "\<And>j. j \<noteq> i \<Longrightarrow> pwm_at s' (c, j) = pwm_at s (c, j)"
  shows "ready s' c is"
proof -
  have "pwm_at s' (c, j) = pwm_at s (c, j)" if "j \<in> set is" for j
  proof (rule assms(3))
    show "j \<noteq> i" using that assms(1) by (auto simp: ready_def)
  qed
  moreover have "ops (chip_mem s' c) = ops (chip_mem s c)" using assms(2) by (simp add: sys_frame_def)
  ultimately show ?thesis
    using assms(1) linked_frame_eq [OF assms(2)] valid_frame [OF assms(2)] unfolding ready_def by simp
qed

lemma linked_inj: "linked s c i k \<Longrightarrow> linked s c j k \<Longrightarrow> i = j"
  by (auto simp: linked_def find_child_def pwm_unexport_match_def child_to_pwm_device_def dest!: find_Some_in)

text \<open>The suspend loop: exported channels are switched off and their states saved.\<close>

lemma suspend_loop_ok:
  assumes "ready s c is"
  shows "\<exists>s'. suspend_loop c 0 is s = (0, s') \<and> sys_frame s s' \<and>
    (\<forall>q. pwm_at s' q = (if fst q = c \<and> snd q \<in> set is \<and> exported (pwm_at s q)
                        then set_enabled False (pwm_at s q) else pwm_at s q)) \<and>
    (\<forall>i \<in> set is. exported (pwm_at s (c, i)) \<longrightarrow>
       (\<forall>k. linked s c i k \<longrightarrow> suspend (snd (children s' ! k)) = state (pwm_at s (c, i)))) \<and>
    (\<forall>k. (\<forall>i \<in> set is. \<not> linked s c i k) \<longrightarrow> children s' ! k = children s ! k)"
  using assms
proof (induction "is" arbitrary: s)
  case Nil
  then show ?case by simp
next
  case (Cons i "is" s)
  have ni: "i \<notin> set is" and v: "valid_pwm s (c, i)" using Cons.prems by (simp_all add: ready_def)
  show ?case
  proof (cases "exported (pwm_at s (c, i))")
    case False
    have "ready s c is" using ready_step [OF Cons.prems sys_frame_refl] by blast
    from Cons.IH [OF this] False show ?thesis
      by (fastforce simp: get_state_not_exported)
  next
    case True
    then obtain k where k: "linked s c i k" and cf: "configured (pwm_at s (c, i))"
      using Cons.prems by (auto simp: ready_def)
    let ?t = "set_suspend k (state (pwm_at s (c, i))) s"
    have klen: "k < length (children s)" using k by (simp add: linked_def)
    have tg: "toggles (ops_at ?t (c, i))" using Cons.prems by (simp add: ready_def)
    obtain h where ap: "pwm_class_apply_state (c, i) ((state (pwm_at s (c, i)))\<lparr>enabled := False\<rparr>) ?t =
        (0, (upd_pwm (c, i) (set_enabled False) ?t)\<lparr>hw := h\<rparr>)"
      using apply_toggle [OF tg, of False] cf by auto
    let ?s1 = "(upd_pwm (c, i) (set_enabled False) ?t)\<lparr>hw := h\<rparr>"
    have fr: "sys_frame s ?s1"
      using sys_frame_trans [OF sys_frame_set_suspend [OF klen] sys_frame_step] .
    have s1_at: "pwm_at ?s1 q = (if q = (c, i) then set_enabled False (pwm_at s q) else pwm_at s q)" for q
      using v by (cases q) auto
    have s1_ch: "children ?s1 ! k = (fst (children s ! k), (snd (children s ! k))\<lparr>suspend := state (pwm_at s (c, i))\<rparr>)"
      "\<And>j. j \<noteq> k \<Longrightarrow> children ?s1 ! j = children s ! j"
      using klen by (simp_all add: set_suspend_def)
    have "ready ?s1 c is" using ready_step [OF Cons.prems fr] s1_at by simp
    from Cons.IH [OF this] obtain s' where
      sl: "suspend_loop c 0 is ?s1 = (0, s')" and fr': "sys_frame ?s1 s'"
      and at': "\<And>q. pwm_at s' q = (if fst q = c \<and> snd q \<in> set is \<and> exported (pwm_at ?s1 q)
                        then set_enabled False (pwm_at ?s1 q) else pwm_at ?s1 q)"
      and su': "\<And>j l. j \<in> set is \<Longrightarrow> exported (pwm_at ?s1 (c, j)) \<Longrightarrow> linked ?s1 c j l \<Longrightarrow>
                  suspend (snd (children s' ! l)) = state (pwm_at ?s1 (c, j))"
      and ch': "\<And>l. \<forall>j \<in> set is. \<not> linked ?s1 c j l \<Longrightarrow> children s' ! l = children ?s1 ! l"
      by blast
    have lk: "linked ?s1 c j l = linked s c j l" for j l using linked_frame [OF fr] .
    have "suspend_loop c 0 (i # is) s = (0, s')"
      using get_state_linked [OF True k] ap sl by simp
    moreover have "sys_frame s s'" using sys_frame_trans [OF fr fr'] .
    moreover have "pwm_at s' q = (if fst q = c \<and> snd q \<in> set (i # is) \<and> exported (pwm_at s q)
                        then set_enabled False (pwm_at s q) else pwm_at s q)" for q
      using at' [of q] s1_at [of q] True by (cases q) (auto split: if_splits)
    moreover have "suspend (snd (children s' ! l)) = state (pwm_at s (c, j))"
      if "j \<in> set (i # is)" "exported (pwm_at s (c, j))" "linked s c j l" for j l
    proof (cases "j = i")
      case True
      then have "l = k" using that(3) k by (simp add: linked_def)
      moreover have "\<forall>j' \<in> set is. \<not> linked ?s1 c j' k" using k lk linked_inj ni by metis
      ultimately show ?thesis using ch' [of k] s1_ch(1) True by simp
    next
      case False
      then show ?thesis using su' [of j l] that s1_at [of "(c, j)"] lk by simp
    qed
    moreover have "children s' ! l = children s ! l" if "\<forall>j \<in> set (i # is). \<not> linked s c j l" for l
      using that ch' [of l] lk s1_ch(2) [of l] k by auto
    ultimately show ?thesis by blast
  qed
qed

text \<open>The resume loop: exported channels get the saved \<open>enabled\<close> back.\<close>

lemma resume_loop_ok:
  assumes "ready s c is"
  shows "\<exists>s'. resume_loop c 0 is s = (0, s') \<and> sys_frame s s' \<and> children s' = children s \<and>
    (\<forall>q. \<not> (fst q = c \<and> snd q \<in> set is \<and> exported (pwm_at s q)) \<longrightarrow> pwm_at s' q = pwm_at s q) \<and>
    (\<forall>i \<in> set is. exported (pwm_at s (c, i)) \<longrightarrow> (\<forall>k. linked s c i k \<longrightarrow>
       pwm_at s' (c, i) = set_enabled (enabled (suspend (snd (children s ! k)))) (pwm_at s (c, i))))"
  using assms
proof (induction "is" arbitrary: s)
  case Nil
  then show ?case by simp
next
  case (Cons i "is" s)
  have ni: "i \<notin> set is" and v: "valid_pwm s (c, i)" using Cons.prems by (simp_all add: ready_def)
  show ?case
  proof (cases "exported (pwm_at s (c, i))")
    case False
    have "ready s c is" using ready_step [OF Cons.prems sys_frame_refl] by blast
    from Cons.IH [OF this] False show ?thesis
      by (fastforce simp: get_state_not_exported)
  next
    case True
    then obtain k where k: "linked s c i k" and cf: "configured (pwm_at s (c, i))"
      using Cons.prems by (auto simp: ready_def)
    define b where "b = enabled (suspend (snd (children s ! k)))"
    have tg: "toggles (ops_at s (c, i))" using Cons.prems by (simp add: ready_def)
    obtain h where ap: "pwm_class_apply_state (c, i) ((state (pwm_at s (c, i)))\<lparr>enabled := b\<rparr>) s =
        (0, (upd_pwm (c, i) (set_enabled b) s)\<lparr>hw := h\<rparr>)"
      using apply_toggle [OF tg cf, of b] by auto
    let ?s1 = "(upd_pwm (c, i) (set_enabled b) s)\<lparr>hw := h\<rparr>"
    have fr: "sys_frame s ?s1" by (rule sys_frame_step)
    have s1_at: "pwm_at ?s1 q = (if q = (c, i) then set_enabled b (pwm_at s q) else pwm_at s q)" for q
      using v by (cases q) auto
    have "ready ?s1 c is" using ready_step [OF Cons.prems fr] s1_at by simp
    from Cons.IH [OF this] obtain s' where
      sl: "resume_loop c 0 is ?s1 = (0, s')" and fr': "sys_frame ?s1 s'" and ch': "children s' = children s"
      and at': "\<And>q. \<not> (fst q = c \<and> snd q \<in> set is \<and> exported (pwm_at ?s1 q)) \<Longrightarrow> pwm_at s' q = pwm_at ?s1 q"
      and en': "\<And>j l. j \<in> set is \<Longrightarrow> exported (pwm_at ?s1 (c, j)) \<Longrightarrow> linked ?s1 c j l \<Longrightarrow>
          pwm_at s' (c, j) = set_enabled (enabled (suspend (snd (children s ! l)))) (pwm_at ?s1 (c, j))"
      by auto
    have lk: "linked ?s1 c j l = linked s c j l" for j l using linked_frame [OF fr] .
    have "resume_loop c 0 (i # is) s = (0, s')"
      using get_state_linked [OF True k] ap sl by (simp add: b_def)
    moreover have "sys_frame s s'" using sys_frame_trans [OF fr fr'] .
    moreover have "pwm_at s' q = pwm_at s q"
      if "\<not> (fst q = c \<and> snd q \<in> set (i # is) \<and> exported (pwm_at s q))" for q
      using at' [of q] s1_at [of q] that True by (cases q) (auto split: if_splits)
    moreover have "pwm_at s' (c, j) = set_enabled (enabled (suspend (snd (children s ! l)))) (pwm_at s (c, j))"
      if "j \<in> set (i # is)" "exported (pwm_at s (c, j))" "linked s c j l" for j l
    proof (cases "j = i")
      case True
      then have "l = k" using that(3) k by (simp add: linked_def)
      with True show ?thesis using at' [of "(c, i)"] s1_at [of "(c, i)"] ni by (simp add: b_def)
    next
      case False
      then show ?thesis using en' [of j l] that s1_at [of "(c, j)"] lk by simp
    qed
    ultimately show ?thesis using ch' by blast
  qed
qed

lemma inv_linked:
  assumes "sysfs_inv s" and "valid_pwm s (c, i)" and "exported (pwm_at s (c, i))"
  shows "\<exists>k. linked s c i k"
  using find_child_exported [OF assms] unfolding linked_def by fastforce

text \<open>C38: suspending and resuming a chip whose exported channels are configured and whose
  driver does not refuse to switch them.  Suspend succeeds, switches every exported channel off
  and touches no other channel; resuming succeeds and brings every channel of the chip back to
  exactly the state it had before the suspend.\<close>
theorem suspend_resume_roundtrip:
  assumes "sysfs_inv s" and "npwm (chip_at s c) = length (pwms (chip_at s c))"
    and "toggles (the (ops (chip_at s c)))"
    and "\<And>i. i < npwm (chip_at s c) \<Longrightarrow> exported (pwm_at s (c, i)) \<Longrightarrow> configured (pwm_at s (c, i))"
  shows "\<exists>s1 s2. pwm_class_suspend c s = (0, s1) \<and> pwm_class_resume c s1 = (0, s2) \<and>
    (\<forall>i < npwm (chip_at s c). pwm_at s1 (c, i) =
       (if exported (pwm_at s (c, i)) then set_enabled False (pwm_at s (c, i)) else pwm_at s (c, i))) \<and>
    (\<forall>p. valid_pwm s p \<longrightarrow> pwm_at s2 p = pwm_at s p)"
proof -
  let ?is = "[0..<npwm (chip_at s c)]"
  have v: "valid_pwm s (c, i)" if "i \<in> set ?is" for i using that assms(2) by (simp add: valid_pwm_def)
  have rd: "ready s c ?is"
    using assms(3,4) v inv_linked [OF assms(1) v] by (auto simp: ready_def)
  obtain s1 where sl: "suspend_loop c 0 ?is s = (0, s1)" and fr: "sys_frame s s1"
    and at1: "\<And>q. pwm_at s1 q = (if fst q = c \<and> snd q \<in> set ?is \<and> exported (pwm_at s q)
                        then set_enabled False (pwm_at s q) else pwm_at s q)"
    and su: "\<And>i k. i \<in> set ?is \<Longrightarrow> exported (pwm_at s (c, i)) \<Longrightarrow> linked s c i k \<Longrightarrow>
               suspend (snd (children s1 ! k)) = state (pwm_at s (c, i))"
    using suspend_loop_ok [OF rd] by blast
  have ex1: "exported (pwm_at s1 q) = exported (pwm_at s q)" for q using at1 [of q] by (simp split: if_splits)
  have "configured (pwm_at s1 (c, i)) = configured (pwm_at s (c, i))" for i
    using at1 [of "(c, i)"] by (simp split: if_splits)
  moreover have "ops (chip_mem s1 c) = ops (chip_mem s c)" using fr by (simp add: sys_frame_def)
  ultimately have rd1: "ready s1 c ?is"
    using rd ex1 [of "(c, _)"] linked_frame_eq [OF fr] valid_frame [OF fr] unfolding ready_def by simp
  obtain s2 where rl: "resume_loop c 0 ?is s1 = (0, s2)"
    and at2: "\<And>q. \<not> (fst q = c \<and> snd q \<in> set ?is \<and> exported (pwm_at s1 q)) \<Longrightarrow> pwm_at s2 q = pwm_at s1 q"
    and en2: "\<And>i k. i \<in> set ?is \<Longrightarrow> exported (pwm_at s1 (c, i)) \<Longrightarrow> linked s1 c i k \<Longrightarrow>
       pwm_at s2 (c, i) = set_enabled (enabled (suspend (snd (children s1 ! k)))) (pwm_at s1 (c, i))"
    using resume_loop_ok [OF rd1] by blast
  have "pwm_at s2 p = pwm_at s p" if "valid_pwm s p" for p
  proof (cases "fst p = c \<and> snd p \<in> set ?is \<and> exported (pwm_at s p)")
    case True
    obtain i where p: "p = (c, i)" and i: "i \<in> set ?is" using True by (cases p) auto
    have e: "exported (pwm_at s (c, i))" "exported (pwm_at s1 (c, i))" using True p ex1 by auto
    obtain k where k: "linked s c i k" "linked s1 c i k"
      using inv_linked [OF assms(1) v [OF i] e(1)] linked_frame [OF fr] by blast
    show ?thesis
      using en2 [OF i e(2) k(2)] su [OF i e(1) k(1)] at1 [of p] True p by simp
  next
    case False
    then show ?thesis using at2 [of p] at1 [of p] ex1 [of p] by auto
  qed
  moreover have "npwm (chip_mem s1 c) = npwm (chip_mem s c)" using fr by (simp add: sys_frame_def)
  ultimately show ?thesis
    using sl rl at1 unfolding pwm_class_suspend_def pwm_class_resume_def pwm_class_resume_npwm_def
    by auto
qed

text \<open>An exported channel that was never configured blocks suspend.  When the first exported
  channel of a chip has period 0, the suspend callback fails with \<open>-EINVAL\<close> (the framework
  refuses the state with period 0, although it is the current one and already off), and no channel
  changes.\<close>
theorem suspend_fails_unconfigured:
  assumes "sysfs_inv s" and "npwm (chip_at s c) = length (pwms (chip_at s c))"
    and "i < npwm (chip_at s c)" and "exported (pwm_at s (c, i))" and "period (state (pwm_at s (c, i))) = 0"
    and "\<And>j. j < i \<Longrightarrow> \<not> exported (pwm_at s (c, j))"
  shows "fst (pwm_class_suspend c s) = - EINVAL \<and> chip_mem (snd (pwm_class_suspend c s)) = chip_mem s"
proof -
  have skip: "suspend_loop c 0 (js @ is) t = suspend_loop c 0 is t"
    if "\<forall>j \<in> set js. \<not> exported (pwm_at t (c, j))" for js "is" t
    using that by (induction js) (simp_all add: get_state_not_exported)
  have skip_resume: "resume_loop c 0 js t = (0, t)"
    if "\<forall>j \<in> set js. \<not> exported (pwm_at t (c, j))" for js t
    using that by (induction js) (simp_all add: get_state_not_exported)
  have "valid_pwm s (c, i)" using assms(2,3) by (simp add: valid_pwm_def)
  then obtain k where k: "linked s c i k" using inv_linked assms(1,4) by blast
  have split: "[0..<npwm (chip_at s c)] = [0..<i] @ i # [Suc i..<npwm (chip_at s c)]"
    using assms(3) by (metis le0 less_imp_le upt_add_eq_append upt_conv_Cons le_add_diff_inverse)
  let ?t = "set_suspend k (state (pwm_at s (c, i))) s"
  have "pwm_class_apply_state (c, i) ((state (pwm_at s (c, i)))\<lparr>enabled := False\<rparr>) ?t = (- EINVAL, ?t)"
    using assms(5) by (simp add: pwm_class_apply_state_def pwm_apply_state_def)
  then have "pwm_class_suspend c s = (- EINVAL, ?t)"
    using assms(6) get_state_linked [OF assms(4) k] unfolding pwm_class_suspend_def split
    by (simp add: skip pwm_class_resume_npwm_def skip_resume)
  then show ?thesis by simp
qed

section \<open>Witnesses\<close>

text \<open>The demonstration chip, and the same with its channel exported in state \<open>st\<close>.\<close>

definition demo_exported :: "pwm_state \<Rightarrow> nat pwm_core" where
  "demo_exported st = demo_core\<lparr>
     chip_mem := (\<lambda>c. (chip_mem demo_core 0)\<lparr>pwms := (if c = 0 then [demo_pwm\<lparr>flags := 6, state := st\<rparr>] else [])\<rparr>),
     children := [(0, \<lparr>ex_pwm = (0, 0), suspend = zero_state\<rparr>)]\<rparr>"

lemma sysfs_inv_demo: "sysfs_inv demo_core" "sysfs_inv (demo_exported st)"
proof -
  show "sysfs_inv demo_core" by (auto simp: sysfs_inv_def exports_def exported_def demo_defs)
  have "bit (6 :: u32) 1 \<and> bit (6 :: u32) 2" by simp
  then show "sysfs_inv (demo_exported st)"
    by (auto simp: sysfs_inv_def exports_def exported_def requested_def PWMF_EXPORTED_def PWMF_REQUESTED_def
        demo_exported_def valid_pwm_def demo_core_def split: if_splits)
qed

theorem export_unexport_roundtrip_witness:
  "fst (export_store (\<lambda>_. (0, 0)) True 0 0 ''0'' demo_core) = 1 \<and>
   (\<exists>h. unexport_store (\<lambda>_. (0, 0)) 0 ''0'' (snd (export_store (\<lambda>_. (0, 0)) True 0 0 ''0'' demo_core)) =
        (1, demo_core\<lparr>hw := h\<rparr>))"
proof -
  have ok: "fst (export_store (\<lambda>_. (0, 0)) True 0 0 ''0'' demo_core) = 1"
    by (simp add: export_store_def pwm_request_from_chip_def pwm_device_request_def try_module_get_def
        pwm_export_child_def size_or_def exported_def PWMF_EXPORTED_def PWMF_REQUESTED_def demo_defs Let_def)
  have "request_hook_ok (ops_at demo_core (0, unat (0 :: u32)))"
    by (simp add: request_hook_ok_def demo_defs)
  then show ?thesis
    using export_unexport_roundtrip [OF sysfs_inv_demo(1) _ _ _ _ _ _ _ _ prod.collapse [symmetric],
        where c = 0 and n = 0 and buf = "''0''" and kstrtouint = "\<lambda>_. (0, 0)" and register_ret = 0
          and kzalloc_ok = True] ok
    by (simp add: demo_core_def demo_pwm_def)
qed

theorem suspend_resume_roundtrip_witness:
  "\<exists>s1 s2. pwm_class_suspend 0 (demo_exported (state demo_pwm)) = (0, s1) \<and> pwm_class_resume 0 s1 = (0, s2) \<and>
     enabled (state (pwm_at s2 (0, 0)))"
proof -
  have "toggles demo_ops" by (simp add: toggles_def demo_ops_def)
  then show ?thesis
    using suspend_resume_roundtrip [OF sysfs_inv_demo(2), of "state demo_pwm" 0]
    by (fastforce simp: demo_exported_def demo_core_def demo_pwm_def configured_def valid_pwm_def)
qed

theorem suspend_fails_unconfigured_witness:
  "fst (pwm_class_suspend 0 (demo_exported zero_state)) = - 22"
proof -
  have "bit (6 :: u32) 2" by simp
  then show ?thesis
    using suspend_fails_unconfigured [OF sysfs_inv_demo(2), of zero_state 0 0]
    by (simp add: demo_exported_def demo_core_def demo_pwm_def zero_state_def exported_def PWMF_EXPORTED_def)
qed

end
