(* ===== verification/Pwm_Registry.thy ===== *)
theory Pwm_Registry
  imports Pwm_Sysfs
begin

text \<open>
  The registry of PWM chips: allocation of the global channel numbers, \<open>pwmchip_add\<close> and
  \<open>pwmchip_remove\<close>, and the lookups of consumers (by number, by device-tree phandle, by the
  static table).

  \<open>bitmap_find_next_zero_area\<close> is library code of the kernel outside the repository; it is the
  argument \<open>find_area\<close>.  The results of \<open>kcalloc\<close>, \<open>device_create\<close>, \<open>device_link_add\<close>,
  \<open>request_module\<close> and of the device-tree parsers are arguments as well.  The radix tree is a map;
  its insertions are assumed not to run out of memory.
\<close>

section \<open>Channel numbers\<close>

definition to_c_int :: "nat \<Rightarrow> int" where
  "to_c_int n = (if n < 2 ^ 31 then int n else int n - 2 ^ 32)"

definition alloc_pwms ::
    "(nat set \<Rightarrow> nat \<Rightarrow> nat \<Rightarrow> nat \<Rightarrow> nat) \<Rightarrow> nat set \<Rightarrow> int \<Rightarrow> nat \<Rightarrow> int" where
  "alloc_pwms find_area allocated n count =
     (if n \<ge> int MAX_PWMS then - EINVAL
      else let from = (if n \<ge> 0 then nat n else 0);
               start = find_area allocated MAX_PWMS from count mod 2 ^ 32
           in if n \<ge> 0 \<and> int start \<noteq> n then - EEXIST
              else if (start + count) mod 2 ^ 32 > MAX_PWMS then - ENOSPC
              else to_c_int start)"

definition free_pwms :: "chip_ptr \<Rightarrow> 'h pwm_core \<Rightarrow> 'h pwm_core" where
  "free_pwms c s =
     (let ch = chip_at s c;
          tree = fold (\<lambda>i t. t(pwm (pwms ch ! i) := None)) [0..<npwm ch] (pwm_tree s)
      in upd_chip c (\<lambda>ch. ch\<lparr>pwms := []\<rparr>)
           (s\<lparr>pwm_tree := tree, allocated_pwms := allocated_pwms s - {nat (base ch)..<nat (base ch) + npwm ch}\<rparr>))"

definition pwmchip_find_by_name :: "string option \<Rightarrow> 'h pwm_core \<Rightarrow> chip_ptr option" where
  "pwmchip_find_by_name nm s = (case nm of None \<Rightarrow> None
     | Some n \<Rightarrow> find (\<lambda>c. dev_name (the (dev (chip_at s c))) = n) (pwm_chips s))"

section \<open>Adding and removing a chip\<close>

definition of_pwmchip_add :: "chip_ptr \<Rightarrow> 'h pwm_core \<Rightarrow> 'h pwm_core" where
  "of_pwmchip_add c s = (case dev (chip_at s c) of None \<Rightarrow> s
   | Some d \<Rightarrow> (case of_node d of None \<Rightarrow> s
     | Some np \<Rightarrow>
         of_node_get np
           (if of_xlate (chip_at s c) = None
            then upd_chip c (\<lambda>ch. ch\<lparr>of_xlate := Some Of_pwm_simple_xlate, of_pwm_n_cells := 2\<rparr>) s
            else s)))"

definition of_pwmchip_remove :: "chip_ptr \<Rightarrow> 'h pwm_core \<Rightarrow> 'h pwm_core" where
  "of_pwmchip_remove c s = (case dev (chip_at s c) of None \<Rightarrow> s | Some d \<Rightarrow> of_node_put (of_node d) s)"

definition pwm_ops_check :: "'h pwm_ops \<Rightarrow> bool" where
  "pwm_ops_check o1 =
     ((op_config o1 \<noteq> None \<and> op_enable o1 \<noteq> None \<and> op_disable o1 \<noteq> None) \<or> op_apply o1 \<noteq> None)"

definition zero_pwm :: pwm_device where
  "zero_pwm = \<lparr>label = None, flags = 0, hwpwm = 0, pwm = 0, chip = 0, chip_data = None,
     args = \<lparr>ar_period = 0, ar_polarity = PWM_POLARITY_NORMAL\<rparr>, state = zero_state\<rparr>"

text \<open>The body of the loop that sets up channel \<open>i\<close>.\<close>

definition add_step :: "chip_ptr \<Rightarrow> pwm_polarity \<Rightarrow> nat \<Rightarrow> 'h pwm_core \<Rightarrow> 'h pwm_core" where
  "add_step c pol i s =
     (let num = nat (base (chip_at s c)) + i;
          pd = (pwm_at s (c, i))\<lparr>chip := c, pwm := num, hwpwm := i,
                                  state := (state (pwm_at s (c, i)))\<lparr>polarity := pol\<rparr>\<rparr>;
          (st, h) = (case op_get_state (ops_at s (c, i)) of None \<Rightarrow> (state pd, hw s)
                     | Some g \<Rightarrow> g c pd (state pd) (hw s));
          s1 = (upd_pwm (c, i) (\<lambda>_. pd\<lparr>state := st\<rparr>) s)\<lparr>hw := h\<rparr>
      in s1\<lparr>pwm_tree := (if pwm_tree s1 num = None then (pwm_tree s1)(num \<mapsto> (c, i)) else pwm_tree s1)\<rparr>)"

definition pwmchip_add_with_polarity ::
    "(nat set \<Rightarrow> nat \<Rightarrow> nat \<Rightarrow> nat \<Rightarrow> nat) \<Rightarrow> bool \<Rightarrow> bool \<Rightarrow> chip_ptr option \<Rightarrow> pwm_polarity \<Rightarrow>
     'h pwm_core \<Rightarrow> int \<times> 'h pwm_core" where
  "pwmchip_add_with_polarity find_area kcalloc_ok create_ok co pol s = (case co of
     None \<Rightarrow> (- EINVAL, s)
   | Some c \<Rightarrow>
       let ch = chip_at s c in
       if dev ch = None \<or> ops ch = None \<or> npwm ch = 0 then (- EINVAL, s)
       else if \<not> pwm_ops_check (the (ops ch)) then (- EINVAL, s)
       else let ret = alloc_pwms find_area (allocated_pwms s) (base ch) (npwm ch) in
         if ret < 0 then (ret, s)
         else if \<not> kcalloc_ok then (- ENOMEM, upd_chip c (\<lambda>ch. ch\<lparr>pwms := []\<rparr>) s)
         else let s1 = upd_chip c (\<lambda>ch. ch\<lparr>pwms := replicate (npwm ch) zero_pwm, base := ret\<rparr>) s;
                  s2 = fold (add_step c pol) [0..<npwm ch] s1;
                  s3 = s2\<lparr>allocated_pwms := allocated_pwms s2 \<union> {nat ret..<nat ret + npwm ch},
                          pwm_chips := c # pwm_chips s2\<rparr>;
                  s4 = of_pwmchip_add c s3
              in (0, pwmchip_sysfs_export create_ok c s4))"

definition pwmchip_add ::
    "(nat set \<Rightarrow> nat \<Rightarrow> nat \<Rightarrow> nat \<Rightarrow> nat) \<Rightarrow> bool \<Rightarrow> bool \<Rightarrow> chip_ptr option \<Rightarrow> 'h pwm_core \<Rightarrow> int \<times> 'h pwm_core" where
  "pwmchip_add find_area kcalloc_ok create_ok co s =
     pwmchip_add_with_polarity find_area kcalloc_ok create_ok co PWM_POLARITY_NORMAL s"

definition pwmchip_remove :: "chip_ptr \<Rightarrow> 'h pwm_core \<Rightarrow> int \<times> 'h pwm_core" where
  "pwmchip_remove c s =
     (let s1 = pwmchip_sysfs_unexport c s in
      if list_ex (\<lambda>i. requested (pwm_at s1 (c, i))) [0..<npwm (chip_at s1 c)] then (- EBUSY, s1)
      else (0, free_pwms c (of_pwmchip_remove c (s1\<lparr>pwm_chips := remove1 c (pwm_chips s1)\<rparr>))))"

section \<open>Consumers from the device tree\<close>

record phandle_args =
  pa_np :: nat
  pa_args :: "u32 list"

text \<open>The flag of \<open>dt-bindings/pwm/pwm.h\<close>, bit 0 of the third cell.\<close>

definition PWM_POLARITY_INVERTED :: u32 where "PWM_POLARITY_INVERTED = 1"

text \<open>\<open>args_count\<close> is the length of the list.\<close>

definition of_pwm_xlate_with_flags ::
    "chip_ptr \<Rightarrow> phandle_args \<Rightarrow> 'h pwm_core \<Rightarrow> pwm_ptr err_ptr \<times> 'h pwm_core" where
  "of_pwm_xlate_with_flags pc a s =
     (if of_pwm_n_cells (chip_at s pc) < 3 then (Inl (- EINVAL), s)
      else if length (pa_args a) < 2 then (Inl (- EINVAL), s)
      else if unat (pa_args a ! 0) \<ge> npwm (chip_at s pc) then (Inl (- EINVAL), s)
      else case pwm_request_from_chip (Some pc) (unat (pa_args a ! 0)) None s of
        (Inl e, s1) \<Rightarrow> (Inl e, s1)
      | (Inr p, s1) \<Rightarrow>
          (Inr p, upd_pwm p (\<lambda>pd. pd\<lparr>args := \<lparr>ar_period = pa_args a ! 1,
              ar_polarity = (if length (pa_args a) > 2 \<and> pa_args a ! 2 AND PWM_POLARITY_INVERTED \<noteq> 0
                             then PWM_POLARITY_INVERSED else PWM_POLARITY_NORMAL)\<rparr>\<rparr>) s1))"

definition of_pwm_simple_xlate ::
    "chip_ptr \<Rightarrow> phandle_args \<Rightarrow> 'h pwm_core \<Rightarrow> pwm_ptr err_ptr \<times> 'h pwm_core" where
  "of_pwm_simple_xlate pc a s =
     (if of_pwm_n_cells (chip_at s pc) < 2 then (Inl (- EINVAL), s)
      else if length (pa_args a) \<noteq> of_pwm_n_cells (chip_at s pc) then (Inl (- EINVAL), s)
      else if unat (pa_args a ! 0) \<ge> npwm (chip_at s pc) then (Inl (- EINVAL), s)
      else case pwm_request_from_chip (Some pc) (unat (pa_args a ! 0)) None s of
        (Inl e, s1) \<Rightarrow> (Inl e, s1)
      | (Inr p, s1) \<Rightarrow> (Inr p, upd_pwm p (\<lambda>pd. pd\<lparr>args := (args pd)\<lparr>ar_period := pa_args a ! 1\<rparr>\<rparr>) s1))"

definition run_xlate :: "xlate \<Rightarrow> chip_ptr \<Rightarrow> phandle_args \<Rightarrow> 'h pwm_core \<Rightarrow> pwm_ptr err_ptr \<times> 'h pwm_core" where
  "run_xlate x = (case x of Of_pwm_simple_xlate \<Rightarrow> of_pwm_simple_xlate
                  | Of_pwm_xlate_with_flags \<Rightarrow> of_pwm_xlate_with_flags)"

definition of_node_to_pwmchip :: "nat \<Rightarrow> 'h pwm_core \<Rightarrow> chip_ptr err_ptr" where
  "of_node_to_pwmchip np s =
     (case find (\<lambda>c. case dev (chip_at s c) of None \<Rightarrow> False | Some d \<Rightarrow> of_node d = Some np) (pwm_chips s) of
        Some c \<Rightarrow> Inr c | None \<Rightarrow> Inl (- EPROBE_DEFER))"

text \<open>The consumer: its name, its device-tree node (number and name), and whether its firmware
  node is an ACPI node.  \<open>link_ok\<close> is the success of \<open>device_link_add\<close>.\<close>

record consumer =
  co_name :: string
  co_node :: "(nat \<times> string) option"
  co_acpi :: bool

definition pwm_device_link_add :: "bool \<Rightarrow> consumer option \<Rightarrow> int" where
  "pwm_device_link_add link_ok d = (if d = None then 0 else if link_ok then 0 else - EINVAL)"

record of_parsers =
  match_string :: "nat \<Rightarrow> string \<Rightarrow> int"
  parse_phandle :: "nat \<Rightarrow> int \<Rightarrow> int + phandle_args"
  read_string_index :: "nat \<Rightarrow> int \<Rightarrow> int + string"

definition of_pwm_get ::
    "of_parsers \<Rightarrow> bool \<Rightarrow> consumer option \<Rightarrow> nat \<times> string \<Rightarrow> string option \<Rightarrow> 'h pwm_core \<Rightarrow>
     pwm_ptr err_ptr \<times> 'h pwm_core" where
  "of_pwm_get P link_ok d np con s =
     (let idx = (case con of None \<Rightarrow> 0 | Some n \<Rightarrow> match_string P (fst np) n) in
      if con \<noteq> None \<and> idx < 0 then (Inl idx, s)
      else case parse_phandle P (fst np) idx of
        Inl err \<Rightarrow> (Inl err, s)
      | Inr a \<Rightarrow>
          let s0 = of_node_get (pa_np a) s;
              out = (case of_node_to_pwmchip (pa_np a) s0 of
                Inl e \<Rightarrow> (Inl e, s0)
              | Inr pc \<Rightarrow>
                  (case run_xlate (the (of_xlate (chip_at s0 pc))) pc a s0 of
                     (Inl e, s1) \<Rightarrow> (Inl e, s1)
                   | (Inr p, s1) \<Rightarrow>
                       if pwm_device_link_add link_ok d \<noteq> 0
                       then (Inl (pwm_device_link_add link_ok d), pwm_free (Some p) s1)
                       else let lbl = (case con of Some n \<Rightarrow> n
                              | None \<Rightarrow> (case read_string_index P (fst np) idx of Inl _ \<Rightarrow> snd np | Inr n \<Rightarrow> n))
                            in (Inr p, upd_pwm p (\<lambda>pd. pd\<lparr>label := Some lbl\<rparr>) s1)))
          in (fst out, of_node_put (Some (pa_np a)) (snd out)))"

section \<open>Consumers from the static table\<close>

definition pwm_add_table :: "(nat \<times> pwm_lookup) list \<Rightarrow> 'h pwm_core \<Rightarrow> 'h pwm_core" where
  "pwm_add_table table s = s\<lparr>pwm_lookup_list := pwm_lookup_list s @ table\<rparr>"

definition pwm_remove_table :: "(nat \<times> pwm_lookup) list \<Rightarrow> 'h pwm_core \<Rightarrow> 'h pwm_core" where
  "pwm_remove_table table s =
     s\<lparr>pwm_lookup_list := fold (\<lambda>e l. filter (\<lambda>e'. fst e' \<noteq> fst e) l) table (pwm_lookup_list s)\<rparr>"

text \<open>How specifically an entry matches; \<open>None\<close> is the \<open>continue\<close> of the loop.\<close>

definition lookup_match :: "string option \<Rightarrow> string option \<Rightarrow> pwm_lookup \<Rightarrow> nat option" where
  "lookup_match dv con p =
     (if dev_id p \<noteq> None \<and> dev_id p \<noteq> dv then None
      else if con_id p \<noteq> None \<and> con_id p \<noteq> con then None
      else Some ((if dev_id p \<noteq> None then 2 else 0) + (if con_id p \<noteq> None then 1 else 0)))"

fun lookup_loop ::
    "string option \<Rightarrow> string option \<Rightarrow> nat \<Rightarrow> pwm_lookup option \<Rightarrow> pwm_lookup list \<Rightarrow> pwm_lookup option" where
  "lookup_loop dv con best chosen [] = chosen"
| "lookup_loop dv con best chosen (p # ps) = (case lookup_match dv con p of
     None \<Rightarrow> lookup_loop dv con best chosen ps
   | Some mt \<Rightarrow>
       if mt > best then (if mt \<noteq> 3 then lookup_loop dv con mt (Some p) ps else Some p)
       else lookup_loop dv con best chosen ps)"

text \<open>\<open>load\<close> is what \<open>request_module\<close> returns and does: loading a driver can register chips.\<close>

definition pwm_get ::
    "of_parsers \<Rightarrow> bool \<Rightarrow> (string \<Rightarrow> 'h pwm_core \<Rightarrow> int \<times> 'h pwm_core) \<Rightarrow> consumer option \<Rightarrow> string option \<Rightarrow>
     'h pwm_core \<Rightarrow> pwm_ptr err_ptr \<times> 'h pwm_core" where
  "pwm_get P link_ok load d con s =
     (case Option.bind d co_node of
        Some np \<Rightarrow> of_pwm_get P link_ok d np con s
      | None \<Rightarrow>
        if d \<noteq> None \<and> co_acpi (the d) then (Inl (- ENODEV), s)
        else case lookup_loop (map_option co_name d) con 0 None (map snd (pwm_lookup_list s)) of
          None \<Rightarrow> (Inl (- ENODEV), s)
        | Some chosen \<Rightarrow>
            let (chip_opt, s1) =
              (case (pwmchip_find_by_name (provider chosen) s, lk_module chosen) of
                 (None, Some m) \<Rightarrow>
                   (case load m s of (err, s1) \<Rightarrow>
                      (if err = 0 then pwmchip_find_by_name (provider chosen) s1 else None, s1))
               | (x, _) \<Rightarrow> (x, s))
            in case chip_opt of
              None \<Rightarrow> (Inl (- EPROBE_DEFER), s1)
            | Some c \<Rightarrow>
                (case pwm_request_from_chip (Some c) (index chosen)
                        (if con \<noteq> None then con else map_option co_name d) s1 of
                   (Inl e, s2) \<Rightarrow> (Inl e, s2)
                 | (Inr p, s2) \<Rightarrow>
                     if pwm_device_link_add link_ok d \<noteq> 0
                     then (Inl (pwm_device_link_add link_ok d), pwm_free (Some p) s2)
                     else (Inr p, upd_pwm p (\<lambda>pd. pd\<lparr>args := \<lparr>ar_period = lk_period chosen,
                                                            ar_polarity = lk_polarity chosen\<rparr>\<rparr>) s2)))"

section \<open>Allocation of channel numbers\<close>

definition area_free :: "nat set \<Rightarrow> nat \<Rightarrow> nat \<Rightarrow> nat \<Rightarrow> bool" where
  "area_free A sz a n \<longleftrightarrow> a + n \<le> sz \<and> (\<forall>i < n. a + i \<notin> A)"

lemma area_free_disjoint:
  assumes "area_free A sz a n"
  shows "{a..<a + n} \<inter> A = {}"
proof -
  have "k \<notin> A" if "a \<le> k" "k < a + n" for k
    using assms [unfolded area_free_def] that by (metis add.commute le_add_diff_inverse2 less_diff_conv2)
  then show ?thesis by auto
qed

text \<open>The contract of \<open>bitmap_find_next_zero_area\<close>: the lowest fitting area of clear bits at or
  above \<open>from\<close>, and a value above \<open>size\<close> (the end of the last attempt) when there is none.\<close>

definition find_area_ok :: "(nat set \<Rightarrow> nat \<Rightarrow> nat \<Rightarrow> nat \<Rightarrow> nat) \<Rightarrow> bool" where
  "find_area_ok f \<longleftrightarrow> (\<forall>A sz fm n. 0 < n \<longrightarrow> fm \<le> sz \<longrightarrow>
     (if \<exists>a \<ge> fm. area_free A sz a n
      then fm \<le> f A sz fm n \<and> area_free A sz (f A sz fm n) n \<and>
           (\<forall>a \<ge> fm. area_free A sz a n \<longrightarrow> f A sz fm n \<le> a)
      else sz < f A sz fm n \<and> f A sz fm n \<le> sz + n))"

lemma find_area_okD:
  assumes "find_area_ok f" and "0 < n" and "fm \<le> sz"
  shows "\<exists>a \<ge> fm. area_free A sz a n \<Longrightarrow> fm \<le> f A sz fm n \<and> area_free A sz (f A sz fm n) n \<and>
           (\<forall>a \<ge> fm. area_free A sz a n \<longrightarrow> f A sz fm n \<le> a)"
    and "\<not> (\<exists>a \<ge> fm. area_free A sz a n) \<Longrightarrow> sz < f A sz fm n \<and> f A sz fm n \<le> sz + n"
  using assms(1) [unfolded find_area_ok_def, rule_format, OF assms(2,3), of A] by (simp_all split: if_splits)

text \<open>An implementation by search, for concrete runs.\<close>

definition first_fit :: "nat set \<Rightarrow> nat \<Rightarrow> nat \<Rightarrow> nat \<Rightarrow> nat" where
  "first_fit A sz fm n =
     (case find (\<lambda>a. \<forall>i < n. a + i \<notin> A) [fm..<sz + 1 - n] of Some a \<Rightarrow> a | None \<Rightarrow> sz + n)"

lemma find_upt_least: "find P [m..<n] = Some a \<Longrightarrow> m \<le> b \<Longrightarrow> b < n \<Longrightarrow> P b \<Longrightarrow> a \<le> b"
proof (induction "n - m" arbitrary: m)
  case (Suc d)
  then have mn: "m < n" by simp
  show ?case
  proof (cases "P m")
    case True
    with Suc.prems(1) have "a = m" by (simp add: upt_conv_Cons [OF mn])
    with Suc.prems(2) show ?thesis by simp
  next
    case False
    with Suc.prems mn have "find P [Suc m..<n] = Some a" "Suc m \<le> b"
      by (auto simp: upt_conv_Cons [OF mn] le_Suc_eq Suc_le_eq order_le_less)
    moreover have "d = n - Suc m" using Suc.hyps(2) by simp
    ultimately show ?thesis using Suc.hyps(1) Suc.prems(3,4) by blast
  qed
qed simp

lemma first_fit_ok: "find_area_ok first_fit"
  unfolding find_area_ok_def
proof (intro allI impI)
  fix A :: "nat set" and sz fm n :: nat
  assume n: "0 < n" and fr: "fm \<le> sz"
  let ?P = "\<lambda>a. \<forall>i < n. a + i \<notin> A" and ?L = "[fm..<sz + 1 - n]"
  have free: "area_free A sz a n \<longleftrightarrow> a < sz + 1 - n \<and> ?P a" for a
    using n by (auto simp: area_free_def)
  show "if \<exists>a \<ge> fm. area_free A sz a n
      then fm \<le> first_fit A sz fm n \<and> area_free A sz (first_fit A sz fm n) n \<and>
           (\<forall>a \<ge> fm. area_free A sz a n \<longrightarrow> first_fit A sz fm n \<le> a)
      else sz < first_fit A sz fm n \<and> first_fit A sz fm n \<le> sz + n"
  proof (cases "find ?P ?L")
    case None
    then have "\<not> (\<exists>a \<ge> fm. area_free A sz a n)" by (auto simp: free find_None_all)
    with None n show ?thesis by (subst if_not_P) (simp_all add: first_fit_def)
  next
    case (Some a)
    then have a: "fm \<le> a" "area_free A sz a n" using find_Some_in [OF Some] by (auto simp: free)
    have "first_fit A sz fm n = a" using Some by (simp add: first_fit_def)
    then show ?thesis using a find_upt_least [OF Some] by (auto simp: free)
  qed
qed

text \<open>A non-negative result of \<open>alloc_pwms\<close> is the start of an area of unused channel numbers
  below \<open>MAX_PWMS\<close>: the requested one, or for a dynamic request the lowest one there is.  Such a
  result is returned whenever it exists; otherwise the error is \<open>-EINVAL\<close> for a base out of range,
  \<open>-EEXIST\<close> for a fixed base (also when it does not fit below the limit) and \<open>-ENOSPC\<close> for a
  dynamic one.  No wrap-around occurs in \<open>start + count\<close>.\<close>

lemma alloc_pwms_spec:
  assumes "find_area_ok find_area" and "0 < count" and "count < 2 ^ 30"
  shows "let r = alloc_pwms find_area A n count in
    (0 \<le> r \<longleftrightarrow> n < int MAX_PWMS \<and>
       (if 0 \<le> n then area_free A MAX_PWMS (nat n) count else \<exists>a. area_free A MAX_PWMS a count)) \<and>
    (0 \<le> r \<longrightarrow> area_free A MAX_PWMS (nat r) count \<and> (0 \<le> n \<longrightarrow> r = n) \<and>
       (n < 0 \<longrightarrow> (\<forall>a. area_free A MAX_PWMS a count \<longrightarrow> nat r \<le> a))) \<and>
    (r < 0 \<longrightarrow> r = (if int MAX_PWMS \<le> n then - EINVAL else if 0 \<le> n then - EEXIST else - ENOSPC))"
proof (cases "int MAX_PWMS \<le> n")
  case True
  then show ?thesis by (simp add: alloc_pwms_def Let_def)
next
  case False
  let ?fm = "if n \<ge> 0 then nat n else 0"
  let ?f = "find_area A MAX_PWMS ?fm count"
  have fm: "?fm \<le> MAX_PWMS" using False by auto
  have M: "MAX_PWMS = 1024" by (simp add: MAX_PWMS_def)
  note D = find_area_okD [OF assms(1,2) fm, of A]
  have bound: "?f \<le> MAX_PWMS + count"
    using D by (cases "\<exists>a \<ge> ?fm. area_free A MAX_PWMS a count") (auto simp: area_free_def)
  then have small: "?f mod 2 ^ 32 = ?f" "(?f + count) mod 2 ^ 32 = ?f + count" "to_c_int ?f = int ?f"
    using assms(3) M by (simp_all add: to_c_int_def)
  have r: "alloc_pwms find_area A n count =
      (if n \<ge> 0 \<and> int ?f \<noteq> n then - EEXIST else if ?f + count > MAX_PWMS then - ENOSPC else int ?f)"
    using False unfolding alloc_pwms_def Let_def small by simp
  show ?thesis
  proof (cases "\<exists>a \<ge> ?fm. area_free A MAX_PWMS a count")
    case True
    note d = D(1) [OF True]
    have fits: "\<not> ?f + count > MAX_PWMS" using d by (simp add: area_free_def)
    show ?thesis
    proof (cases "n \<ge> 0")
      case pos: True
      have "area_free A MAX_PWMS (nat n) count" if "int ?f = n" using d that by (metis nat_int)
      moreover have "int ?f = n" if "area_free A MAX_PWMS (nat n) count"
      proof -
        have "?f = nat n" using d pos that by (simp add: le_antisym)
        then show ?thesis using pos by simp
      qed
      ultimately have "int ?f = n \<longleftrightarrow> area_free A MAX_PWMS (nat n) count" by blast
      with d pos fits False show ?thesis unfolding r Let_def by auto
    next
      case neg: False
      with d fits True False show ?thesis unfolding r Let_def by auto
    qed
  next
    case none: False
    note d = D(2) [OF none]
    show ?thesis
    proof (cases "n \<ge> 0")
      case True
      then have "int ?f \<noteq> n" and "\<not> area_free A MAX_PWMS (nat n) count" using d none False by auto
      with True False show ?thesis unfolding r Let_def by simp
    next
      case neg: False
      with d none False show ?thesis unfolding r Let_def by simp
    qed
  qed
qed

section \<open>The registry invariant\<close>

definition chan_range :: "'h pwm_core \<Rightarrow> chip_ptr \<Rightarrow> nat set" where
  "chan_range s c = {nat (base (chip_at s c))..<nat (base (chip_at s c)) + npwm (chip_at s c)}"

text \<open>A registered chip: its channels are allocated and know their chip and their numbers.\<close>

definition chip_ok :: "'h pwm_core \<Rightarrow> chip_ptr \<Rightarrow> bool" where
  "chip_ok s c \<longleftrightarrow> (let ch = chip_at s c in
     dev ch \<noteq> None \<and> ops ch \<noteq> None \<and> 0 < npwm ch \<and> length (pwms ch) = npwm ch \<and>
     0 \<le> base ch \<and> nat (base ch) + npwm ch \<le> MAX_PWMS \<and>
     (\<forall>i < npwm ch. chip (pwms ch ! i) = c \<and> hwpwm (pwms ch ! i) = i \<and>
                     pwm (pwms ch ! i) = nat (base ch) + i))"

text \<open>The list of chips, the bitmap of used numbers and the tree describe the same channels, and
  no number belongs to two chips.\<close>

definition reg_inv :: "'h pwm_core \<Rightarrow> bool" where
  "reg_inv s \<longleftrightarrow> distinct (pwm_chips s) \<and> (\<forall>c \<in> set (pwm_chips s). chip_ok s c) \<and>
     (\<forall>c \<in> set (pwm_chips s). \<forall>d \<in> set (pwm_chips s). c \<noteq> d \<longrightarrow> chan_range s c \<inter> chan_range s d = {}) \<and>
     allocated_pwms s = (\<Union>c \<in> set (pwm_chips s). chan_range s c) \<and>
     (\<forall>k c i. pwm_tree s k = Some (c, i) \<longleftrightarrow>
        c \<in> set (pwm_chips s) \<and> i < npwm (chip_at s c) \<and> k = nat (base (chip_at s c)) + i)"

text \<open>What an operation on channels leaves of the registry.\<close>

definition reg_same :: "'h pwm_core \<Rightarrow> 'h pwm_core \<Rightarrow> bool" where
  "reg_same s s' \<longleftrightarrow> pwm_chips s' = pwm_chips s \<and> allocated_pwms s' = allocated_pwms s \<and> pwm_tree s' = pwm_tree s \<and>
     (\<forall>c. dev (chip_at s' c) = dev (chip_at s c) \<and> ops (chip_at s' c) = ops (chip_at s c) \<and>
          base (chip_at s' c) = base (chip_at s c) \<and> npwm (chip_at s' c) = npwm (chip_at s c) \<and>
          length (pwms (chip_at s' c)) = length (pwms (chip_at s c)) \<and>
          (\<forall>i < length (pwms (chip_at s c)).
             chip (pwms (chip_at s' c) ! i) = chip (pwms (chip_at s c) ! i) \<and>
             hwpwm (pwms (chip_at s' c) ! i) = hwpwm (pwms (chip_at s c) ! i) \<and>
             pwm (pwms (chip_at s' c) ! i) = pwm (pwms (chip_at s c) ! i)))"

lemma reg_same_refl [simp, intro]: "reg_same s s"
  by (simp add: reg_same_def)

lemma reg_same_trans [trans]: "reg_same s t \<Longrightarrow> reg_same t u \<Longrightarrow> reg_same s u"
  by (simp add: reg_same_def)

lemma reg_inv_same:
  assumes "reg_inv s" and "reg_same s s'"
  shows "reg_inv s'"
proof -
  have "chan_range s' = chan_range s" using assms(2) by (auto simp: reg_same_def chan_range_def)
  moreover have "chip_ok s c \<Longrightarrow> chip_ok s' c" for c
    using assms(2) by (simp add: reg_same_def chip_ok_def Let_def)
  ultimately show ?thesis using assms unfolding reg_inv_def reg_same_def by simp
qed

lemma reg_same_frame [simp]:
  "reg_same s (t\<lparr>hw := h\<rparr>) = reg_same s t" "reg_same s (t\<lparr>mod_refs := r\<rparr>) = reg_same s t"
  "reg_same s (t\<lparr>node_refs := r\<rparr>) = reg_same s t" "reg_same s (t\<lparr>children := cs\<rparr>) = reg_same s t"
  "reg_same s (t\<lparr>parents := ps\<rparr>) = reg_same s t"
  by (simp_all add: reg_same_def)

lemma reg_same_upd [simp, intro]:
  assumes "\<And>pd. chip (f pd) = chip pd \<and> hwpwm (f pd) = hwpwm pd \<and> pwm (f pd) = pwm pd"
  shows "reg_same s (upd_pwm p f s)"
  using assms by (auto simp: reg_same_def upd_pwm_def nth_update_cases)

lemma same_but_reg_same: "same_but p s s' \<Longrightarrow> reg_same s s'"
  by (auto simp: same_but_def)

lemma reg_same_module_put [simp]: "reg_same s (module_put m t) = reg_same s t"
  by (simp add: module_put_eq)

lemma device_request_reg_same: "pwm_device_request p lbl s = (r, s') \<Longrightarrow> reg_same s s'"
  by (erule device_request_cases) auto

lemma pwm_put_reg_same: "reg_same s (pwm_put (Some p) s)"
proof (cases "requested (pwm_at s p)")
  case True
  from pwm_put_requested [OF True] obtain h where eq: "pwm_put (Some p) s =
     (upd_pwm p (\<lambda>pd. pd\<lparr>flags := unset_bit PWMF_REQUESTED (flags pd), chip_data := None, label := None\<rparr>) s)
       \<lparr>hw := h, mod_refs := refs_add (owner (ops_at s p)) (- 1) (mod_refs s)\<rparr>" by blast
  show ?thesis unfolding eq by simp
qed (simp add: pwm_put_not_requested)

lemma set_exported_ids [simp]:
  "chip (set_exported b pd) = chip pd \<and> hwpwm (set_exported b pd) = hwpwm pd \<and> pwm (set_exported b pd) = pwm pd"
  by (simp add: set_exported_def)

lemma unexport_child_reg_same: "reg_same s (snd (pwm_unexport_child c p s))"
proof -
  have "reg_same s (pwm_put (Some p) (upd_pwm p (set_exported False) s\<lparr>children := cs\<rparr>))" for cs
    by (rule reg_same_trans [OF _ pwm_put_reg_same]) simp
  then show ?thesis by (simp add: pwm_unexport_child_def Let_def split: option.split)
qed

lemma sysfs_unexport_reg_same: "reg_same s (pwmchip_sysfs_unexport c s)"
proof -
  have "reg_same s (fold (unexport_step c) is s)" for "is"
  proof (induction "is" arbitrary: s)
    case (Cons i "is")
    have "reg_same s (unexport_step c i s)" by (simp add: unexport_step_def unexport_child_reg_same)
    then show ?case using Cons reg_same_trans by fastforce
  qed simp
  then show ?thesis by (simp add: pwmchip_sysfs_unexport_def Let_def)
qed

lemma tree_allocated:
  assumes "reg_inv s" and "pwm_tree s k \<noteq> None"
  shows "k \<in> allocated_pwms s"
proof -
  obtain c i where "pwm_tree s k = Some (c, i)" using assms(2) by auto
  then have "c \<in> set (pwm_chips s)" "k \<in> chan_range s c"
    using assms(1) by (auto simp: reg_inv_def chan_range_def)
  moreover have "allocated_pwms s = (\<Union>c \<in> set (pwm_chips s). chan_range s c)"
    using assms(1) by (simp add: reg_inv_def)
  ultimately show ?thesis by blast
qed

section \<open>Adding a chip\<close>

text \<open>One pass of the set-up loop as an update of the channel, the hardware and the tree.\<close>

lemma add_step_eq:
  "\<exists>st h. add_step c pol i s =
     (upd_pwm (c, i) (\<lambda>pd. pd\<lparr>chip := c, pwm := nat (base (chip_at s c)) + i, hwpwm := i, state := st\<rparr>) s)
       \<lparr>hw := h, pwm_tree := (if pwm_tree s (nat (base (chip_at s c)) + i) = None
          then (pwm_tree s)(nat (base (chip_at s c)) + i \<mapsto> (c, i)) else pwm_tree s)\<rparr>"
  (is "\<exists>st h. _ = ?rhs st h")
proof -
  let ?num = "nat (base (chip_at s c)) + i"
  let ?pd = "(pwm_at s (c, i))\<lparr>chip := c, pwm := ?num, hwpwm := i,
               state := (state (pwm_at s (c, i)))\<lparr>polarity := pol\<rparr>\<rparr>"
  obtain st h where g: "(case op_get_state (ops_at s (c, i)) of None \<Rightarrow> (state ?pd, hw s)
      | Some g \<Rightarrow> g c ?pd (state ?pd) (hw s)) = (st, h)" by force
  have "upd_pwm (c, i) (\<lambda>_. ?pd\<lparr>state := st\<rparr>) s =
        upd_pwm (c, i) (\<lambda>pd. pd\<lparr>chip := c, pwm := ?num, hwpwm := i, state := st\<rparr>) s"
    by (simp add: upd_pwm_def)
  then have "add_step c pol i s = ?rhs st h"
    unfolding add_step_def Let_def g by simp
  then show ?thesis by blast
qed

text \<open>The chip with the channels set up so far.\<close>

definition added :: "chip_ptr \<Rightarrow> nat \<Rightarrow> 'h pwm_core \<Rightarrow> 'h pwm_core \<Rightarrow> bool" where
  "added c n s s' \<longleftrightarrow> (\<exists>ps m h. s' = s\<lparr>chip_mem := (chip_mem s)(c := (chip_mem s c)\<lparr>pwms := ps\<rparr>), pwm_tree := m, hw := h\<rparr> \<and>
     length ps = length (pwms (chip_at s c)) \<and>
     (\<forall>i < length ps. flags (ps ! i) = flags (pwms (chip_at s c) ! i)) \<and>
     (\<forall>i < n. chip (ps ! i) = c \<and> hwpwm (ps ! i) = i \<and> pwm (ps ! i) = nat (base (chip_at s c)) + i) \<and>
     m = (\<lambda>k. if k \<in> {nat (base (chip_at s c))..<nat (base (chip_at s c)) + n}
              then Some (c, k - nat (base (chip_at s c))) else pwm_tree s k))"

lemma add_steps:
  assumes "n \<le> length (pwms (chip_at s c))"
    and "\<forall>k \<in> {nat (base (chip_at s c))..<nat (base (chip_at s c)) + n}. pwm_tree s k = None"
  shows "added c n s (fold (add_step c pol) [0..<n] s)"
  using assms
proof (induction n)
  case 0
  show ?case unfolding added_def
    by (rule exI [of _ "pwms (chip_mem s c)"], rule exI [of _ "pwm_tree s"], rule exI [of _ "hw s"]) simp
next
  case (Suc n)
  let ?b = "nat (base (chip_at s c))"
  let ?t = "fold (add_step c pol) [0..<n] s"
  have "added c n s ?t" using Suc by simp
  then obtain ps m h where t: "?t = s\<lparr>chip_mem := (chip_mem s)(c := (chip_mem s c)\<lparr>pwms := ps\<rparr>), pwm_tree := m, hw := h\<rparr>"
    and len: "length ps = length (pwms (chip_at s c))"
    and fl: "\<forall>i < length ps. flags (ps ! i) = flags (pwms (chip_at s c) ! i)"
    and ids: "\<forall>i < n. chip (ps ! i) = c \<and> hwpwm (ps ! i) = i \<and> pwm (ps ! i) = ?b + i"
    and m: "m = (\<lambda>k. if k \<in> {?b..<?b + n} then Some (c, k - ?b) else pwm_tree s k)"
    unfolding added_def by blast
  obtain st h' where step: "add_step c pol n ?t =
     (upd_pwm (c, n) (\<lambda>pd. pd\<lparr>chip := c, pwm := nat (base (chip_at ?t c)) + n, hwpwm := n, state := st\<rparr>) ?t)
       \<lparr>hw := h', pwm_tree := (if pwm_tree ?t (nat (base (chip_at ?t c)) + n) = None
          then (pwm_tree ?t)(nat (base (chip_at ?t c)) + n \<mapsto> (c, n)) else pwm_tree ?t)\<rparr>"
    using add_step_eq [of c pol n ?t] by (elim exE) (rule that)
  have free: "m (?b + n) = None" using Suc.prems(2) by (simp add: m)
  let ?ps = "ps[n := (ps ! n)\<lparr>chip := c, pwm := ?b + n, hwpwm := n, state := st\<rparr>]"
  let ?m = "m(?b + n \<mapsto> (c, n))"
  have "fold (add_step c pol) [0..<Suc n] s = add_step c pol n ?t" by simp
  also have "\<dots> = s\<lparr>chip_mem := (chip_mem s)(c := (chip_mem s c)\<lparr>pwms := ?ps\<rparr>), pwm_tree := ?m, hw := h'\<rparr>"
    unfolding step unfolding t using free by (simp add: upd_pwm_def)
  finally have eq: "fold (add_step c pol) [0..<Suc n] s = \<dots>" .
  have "\<forall>i < length ?ps. flags (?ps ! i) = flags (pwms (chip_at s c) ! i)"
    using fl by (simp add: nth_update_cases)
  moreover have "\<forall>i < Suc n. chip (?ps ! i) = c \<and> hwpwm (?ps ! i) = i \<and> pwm (?ps ! i) = ?b + i"
    using ids Suc.prems(1) len by (auto simp: nth_update_cases less_Suc_eq)
  moreover have "?m = (\<lambda>k. if k \<in> {?b..<?b + Suc n} then Some (c, k - ?b) else pwm_tree s k)"
    using m by (auto simp: fun_eq_iff)
  ultimately show ?case unfolding added_def eq using len by (intro exI conjI) (rule refl, simp_all)
qed

text \<open>The tail of \<open>pwmchip_add\<close> after the loop does not touch the channels.\<close>

lemma add_tail:
  fixes s :: "'h pwm_core" and c cr
  defines "t \<equiv> pwmchip_sysfs_export cr c (of_pwmchip_add c s)"
  shows "pwm_chips t = pwm_chips s" "allocated_pwms t = allocated_pwms s" "pwm_tree t = pwm_tree s"
    "dev (chip_at t d) = dev (chip_at s d)" "ops (chip_at t d) = ops (chip_at s d)"
    "base (chip_at t d) = base (chip_at s d)" "npwm (chip_at t d) = npwm (chip_at s d)"
    "pwms (chip_at t d) = pwms (chip_at s d)"
  by (auto simp: t_def pwmchip_sysfs_export_def of_pwmchip_add_def of_node_get_def split: option.split)

lemma reg_inv_tail: "reg_inv s \<Longrightarrow> reg_inv (pwmchip_sysfs_export cr c (of_pwmchip_add c s))"
  by (erule reg_inv_same) (simp add: reg_same_def add_tail)

text \<open>Entering a chip with a set-up channel array and a free range keeps the invariant.\<close>

lemma reg_inv_enter:
  assumes inv: "reg_inv s" and new: "c \<notin> set (pwm_chips s)" and ok: "chip_ok t c"
    and free: "chan_range t c \<inter> allocated_pwms s = {}"
    and other: "\<And>d. d \<noteq> c \<Longrightarrow> chip_at t d = chip_at s d"
    and lists: "pwm_chips t = c # pwm_chips s" "allocated_pwms t = allocated_pwms s \<union> chan_range t c"
    and tree: "pwm_tree t = (\<lambda>k. if k \<in> chan_range t c then Some (c, k - nat (base (chip_at t c))) else pwm_tree s k)"
  shows "reg_inv t"
proof -
  have rng: "chan_range t d = chan_range s d" and oks: "chip_ok t d = chip_ok s d"
    if "d \<in> set (pwm_chips s)" for d
  proof -
    have "chip_at t d = chip_at s d" using new that by (intro other) auto
    then show "chan_range t d = chan_range s d" "chip_ok t d = chip_ok s d"
      by (simp_all add: chan_range_def chip_ok_def)
  qed
  have alloc: "allocated_pwms s = (\<Union>d \<in> set (pwm_chips s). chan_range s d)" using inv by (simp add: reg_inv_def)
  have "(\<Union>d \<in> set (pwm_chips s). chan_range t d) = allocated_pwms s" using rng alloc by auto
  then have a: "allocated_pwms t = (\<Union>d \<in> set (pwm_chips t). chan_range t d)" by (simp add: lists Un_commute)
  have "chan_range s d \<subseteq> allocated_pwms s" if "d \<in> set (pwm_chips s)" for d using that alloc by auto
  then have fresh: "chan_range t c \<inter> chan_range s d = {}" if "d \<in> set (pwm_chips s)" for d
    using that free by blast
  have disj: "chan_range t d \<inter> chan_range t e = {}"
    if "d \<in> set (pwm_chips t)" "e \<in> set (pwm_chips t)" "d \<noteq> e" for d e
  proof -
    have "chan_range s d \<inter> chan_range s e = {}" if "d \<in> set (pwm_chips s)" "e \<in> set (pwm_chips s)"
      using that \<open>d \<noteq> e\<close> inv unfolding reg_inv_def by blast
    then show ?thesis using that rng fresh [of d] fresh [of e] by (auto simp: lists)
  qed
  have tr: "pwm_tree t k = Some (d, i) \<longleftrightarrow>
      d \<in> set (pwm_chips t) \<and> i < npwm (chip_at t d) \<and> k = nat (base (chip_at t d)) + i" for k d i
  proof -
    have s_tree: "pwm_tree s k = Some (d, i) \<longleftrightarrow>
      d \<in> set (pwm_chips s) \<and> i < npwm (chip_at s d) \<and> k = nat (base (chip_at s d)) + i"
      using inv unfolding reg_inv_def by blast
    show ?thesis
    proof (cases "k \<in> chan_range t c")
      case True
      then have "k \<notin> allocated_pwms s" using free by blast
      then have "\<not> (d \<in> set (pwm_chips s) \<and> i < npwm (chip_at s d) \<and> k = nat (base (chip_at s d)) + i)"
        using alloc by (auto simp: chan_range_def)
      with True show ?thesis using other [of d] by (cases "d = c") (auto simp: tree lists chan_range_def)
    next
      case False
      then have "\<not> (i < npwm (chip_at t c) \<and> k = nat (base (chip_at t c)) + i)" by (auto simp: chan_range_def)
      with False show ?thesis using s_tree other [of d] new by (cases "d = c") (auto simp: tree lists)
    qed
  qed
  show ?thesis
    unfolding reg_inv_def using inv new ok oks a disj tr
    by (auto simp: lists reg_inv_def simp del: Int_atLeastLessThan)
qed

text \<open>The successful run of \<open>pwmchip_add\<close>, for a range that is free.\<close>

lemma add_run:
  fixes s :: "'h pwm_core" and pol :: pwm_polarity
  assumes inv: "reg_inv s" and new: "c \<notin> set (pwm_chips s)"
    and ch: "dev (chip_at s c) \<noteq> None" "ops (chip_at s c) \<noteq> None" "0 < npwm (chip_at s c)"
    and b: "0 \<le> b" "area_free (allocated_pwms s) MAX_PWMS (nat b) (npwm (chip_at s c))"
  defines "N \<equiv> npwm (chip_at s c)"
  defines "s2 \<equiv> fold (add_step c pol) [0..<N]
                   (upd_chip c (\<lambda>ch. ch\<lparr>pwms := replicate N zero_pwm, base := b\<rparr>) s)"
  defines "s3 \<equiv> s2\<lparr>allocated_pwms := allocated_pwms s2 \<union> {nat b..<nat b + N}, pwm_chips := c # pwm_chips s2\<rparr>"
  shows "reg_inv s3" and "pwm_chips s3 = c # pwm_chips s"
    and "allocated_pwms s3 = allocated_pwms s \<union> {nat b..<nat b + N}"
    and "base (chip_at s3 c) = b" and "npwm (chip_at s3 c) = N"
    and "i < N \<Longrightarrow> pwm_tree s3 (nat b + i) = Some (c, i) \<and> \<not> requested (pwms (chip_at s3 c) ! i) \<and>
                 \<not> exported (pwms (chip_at s3 c) ! i)"
    and "d \<noteq> c \<Longrightarrow> chip_at s3 d = chip_at s d"
proof -
  let ?s1 = "upd_chip c (\<lambda>ch. ch\<lparr>pwms := replicate N zero_pwm, base := b\<rparr>) s"
  have free: "{nat b..<nat b + N} \<inter> allocated_pwms s = {}"
    using area_free_disjoint [OF b(2)] by (simp add: N_def)
  have "pwm_tree s k = None" if "k \<in> {nat b..<nat b + N}" for k
    using tree_allocated [OF inv, of k] free that by blast
  then have "added c N ?s1 s2" unfolding s2_def by (intro add_steps) simp_all
  then obtain ps m h where s2: "s2 = ?s1\<lparr>chip_mem := (chip_mem ?s1)(c := (chip_mem ?s1 c)\<lparr>pwms := ps\<rparr>), pwm_tree := m, hw := h\<rparr>"
    and ps1: "length ps = length (pwms (chip_at ?s1 c))"
      "\<forall>i < length ps. flags (ps ! i) = flags (pwms (chip_at ?s1 c) ! i)"
      "\<forall>i < N. chip (ps ! i) = c \<and> hwpwm (ps ! i) = i \<and> pwm (ps ! i) = nat (base (chip_at ?s1 c)) + i"
      "m = (\<lambda>k. if k \<in> {nat (base (chip_at ?s1 c))..<nat (base (chip_at ?s1 c)) + N}
              then Some (c, k - nat (base (chip_at ?s1 c))) else pwm_tree ?s1 k)"
    unfolding added_def by (elim exE conjE) (rule that)
  have len: "length ps = N" and fl: "\<forall>i < N. flags (ps ! i) = 0"
    and ids: "\<forall>i < N. chip (ps ! i) = c \<and> hwpwm (ps ! i) = i \<and> pwm (ps ! i) = nat b + i"
    and m: "m = (\<lambda>k. if k \<in> {nat b..<nat b + N} then Some (c, k - nat b) else pwm_tree s k)"
    using ps1 by (simp_all add: zero_pwm_def fun_eq_iff)
  have s3: "pwm_chips s3 = c # pwm_chips s" "allocated_pwms s3 = allocated_pwms s \<union> {nat b..<nat b + N}"
    "pwm_tree s3 = m" "chip_at s3 c = (chip_at s c)\<lparr>pwms := ps, base := b\<rparr>"
    "\<And>d. d \<noteq> c \<Longrightarrow> chip_at s3 d = chip_at s d"
    by (simp_all add: s3_def s2)
  have rng: "chan_range s3 c = {nat b..<nat b + N}" by (simp add: chan_range_def s3 N_def)
  have "chip_ok s3 c"
    using ch b len ids by (auto simp: chip_ok_def s3 N_def area_free_def)
  then show "reg_inv s3"
    by (rule reg_inv_enter [OF inv new]) (simp_all add: rng s3 free m fun_eq_iff)
  show "pwm_chips s3 = c # pwm_chips s" "allocated_pwms s3 = allocated_pwms s \<union> {nat b..<nat b + N}"
    "base (chip_at s3 c) = b" "npwm (chip_at s3 c) = N" "d \<noteq> c \<Longrightarrow> chip_at s3 d = chip_at s d"
    by (simp_all add: s3 N_def)
  show "pwm_tree s3 (nat b + i) = Some (c, i) \<and> \<not> requested (pwms (chip_at s3 c) ! i) \<and>
                 \<not> exported (pwms (chip_at s3 c) ! i)" if "i < N"
    using that fl by (simp add: s3 m requested_def exported_def)
qed

text \<open>The two outcomes after the checks: no room or no memory, or the chip is entered.\<close>

lemma pwmchip_add_refused:
  assumes "reg_inv s" and "c \<notin> set (pwm_chips s)"
    and ok: "dev (chip_at s c) \<noteq> None" "ops (chip_at s c) = Some o1" "pwm_ops_check o1" "npwm (chip_at s c) \<noteq> 0"
    and "alloc_pwms find_area (allocated_pwms s) (base (chip_at s c)) (npwm (chip_at s c)) < 0 \<or> \<not> kcalloc_ok"
    and run: "pwmchip_add_with_polarity find_area kcalloc_ok create_ok (Some c) pol s = (r, s')"
  shows "reg_inv s' \<and> r < 0 \<and> pwm_chips s' = pwm_chips s \<and> allocated_pwms s' = allocated_pwms s \<and>
    pwm_tree s' = pwm_tree s"
proof -
  have "chip_ok (upd_chip c f s) d = chip_ok s d" "chan_range (upd_chip c f s) d = chan_range s d"
    if "d \<in> set (pwm_chips s)" for d f
    using that assms(2) by (auto simp: chip_ok_def chan_range_def)
  then have "reg_inv (upd_chip c (\<lambda>ch. ch\<lparr>pwms := []\<rparr>) s)"
    using assms(1,2) unfolding reg_inv_def by auto
  with assms show ?thesis
    by (cases "alloc_pwms find_area (allocated_pwms s) (base (chip_at s c)) (npwm (chip_at s c)) < 0")
       (auto simp: pwmchip_add_with_polarity_def Let_def)
qed

lemma pwmchip_add_granted:
  fixes s :: "'h pwm_core" and pol :: pwm_polarity
  defines "N \<equiv> \<lambda>s :: 'h pwm_core. \<lambda>c. npwm (chip_at s c)"
  assumes "reg_inv s" and "c \<notin> set (pwm_chips s)"
    and ok: "dev (chip_at s c) \<noteq> None" "ops (chip_at s c) = Some o1" "pwm_ops_check o1" "0 < npwm (chip_at s c)"
      "kcalloc_ok"
    and b: "alloc_pwms find_area (allocated_pwms s) (base (chip_at s c)) (npwm (chip_at s c)) = b" "0 \<le> b"
      "area_free (allocated_pwms s) MAX_PWMS (nat b) (npwm (chip_at s c))"
    and run: "pwmchip_add_with_polarity find_area kcalloc_ok create_ok (Some c) pol s = (r, s')"
  shows "r = 0 \<and> reg_inv s' \<and> pwm_chips s' = c # pwm_chips s \<and> npwm (chip_at s' c) = N s c \<and> base (chip_at s' c) = b \<and>
    chan_range s' c = {nat b..<nat b + N s c} \<and> {nat b..<nat b + N s c} \<inter> allocated_pwms s = {} \<and>
    allocated_pwms s' = allocated_pwms s \<union> {nat b..<nat b + N s c} \<and>
    (\<forall>i < N s c. pwm_to_device s' (nat b + i) = Some (c, i) \<and> \<not> requested (pwm_at s' (c, i))) \<and>
    (\<forall>d. d \<noteq> c \<longrightarrow> pwms (chip_at s' d) = pwms (chip_at s d))"
proof -
  have "ops (chip_at s c) \<noteq> None" using ok by simp
  note entered = add_run [OF assms(2,3) ok(1) this ok(4) b(2,3), where pol = pol]
  define s3 where "s3 = (let s2 = fold (add_step c pol) [0..<npwm (chip_at s c)]
      (upd_chip c (\<lambda>ch. ch\<lparr>pwms := replicate (npwm (chip_at s c)) zero_pwm, base := b\<rparr>) s)
    in s2\<lparr>allocated_pwms := allocated_pwms s2 \<union> {nat b..<nat b + npwm (chip_at s c)}, pwm_chips := c # pwm_chips s2\<rparr>)"
  note entered = entered [folded s3_def [unfolded Let_def]]
  have res: "r = 0" "s' = pwmchip_sysfs_export create_ok c (of_pwmchip_add c s3)"
    using run ok b(2) by (auto simp: pwmchip_add_with_polarity_def s3_def Let_def b(1))
  have "reg_inv s'" unfolding res by (rule reg_inv_tail) (rule entered)
  then show ?thesis
    using entered area_free_disjoint [OF b(3)]
    by (simp add: res add_tail pwm_to_device_def chan_range_def N_def)
qed


section \<open>Removing a chip\<close>

lemma tree_delete:
  "fold (\<lambda>i t. t(f i := None)) is m = (\<lambda>k. if k \<in> f ` set is then None else m k)"
  by (induction "is" arbitrary: m) (auto simp: fun_eq_iff)

text \<open>Taking a registered chip out keeps the invariant.\<close>

lemma reg_inv_leave:
  assumes inv: "reg_inv s" and c: "c \<in> set (pwm_chips s)"
  defines "t \<equiv> free_pwms c (of_pwmchip_remove c (s\<lparr>pwm_chips := remove1 c (pwm_chips s)\<rparr>))"
  shows "reg_inv t" and "pwm_chips t = remove1 c (pwm_chips s)"
    and "allocated_pwms t = allocated_pwms s - chan_range s c"
    and "pwm_tree t = (\<lambda>k. if k \<in> chan_range s c then None else pwm_tree s k)"
    and "d \<noteq> c \<Longrightarrow> chip_at t d = chip_at s d"
proof -
  have ok: "chip_ok s c" and dist: "distinct (pwm_chips s)" using inv c by (simp_all add: reg_inv_def)
  have ids: "pwm (pwms (chip_at s c) ! i) = nat (base (chip_at s c)) + i" if "i < npwm (chip_at s c)" for i
    using ok that by (simp add: chip_ok_def Let_def)
  have img: "(\<lambda>i. pwm (pwms (chip_at s c) ! i)) ` set [0..<npwm (chip_at s c)] = chan_range s c"
  proof -
    have "(\<lambda>i. pwm (pwms (chip_at s c) ! i)) ` {0..<npwm (chip_at s c)} =
        (\<lambda>i. i + nat (base (chip_at s c))) ` {0..<npwm (chip_at s c)}"
      by (intro image_cong) (simp_all add: ids)
    then show ?thesis by (simp add: chan_range_def add.commute)
  qed
  obtain r where t: "t = s\<lparr>chip_mem := (chip_mem s)(c := (chip_mem s c)\<lparr>pwms := []\<rparr>), pwm_chips := remove1 c (pwm_chips s),
      pwm_tree := (\<lambda>k. if k \<in> chan_range s c then None else pwm_tree s k),
      allocated_pwms := allocated_pwms s - chan_range s c, node_refs := r\<rparr>"
  proof -
    define u where "u = of_pwmchip_remove c (s\<lparr>pwm_chips := remove1 c (pwm_chips s)\<rparr>)"
    obtain r where u: "u = s\<lparr>pwm_chips := remove1 c (pwm_chips s), node_refs := r\<rparr>"
      by (rule that [of "node_refs u"])
        (auto simp: u_def of_pwmchip_remove_def of_node_put_def split: option.split)
    have "t = free_pwms c u" by (simp add: t_def u_def)
    also have "\<dots> = s\<lparr>chip_mem := (chip_mem s)(c := (chip_mem s c)\<lparr>pwms := []\<rparr>), pwm_chips := remove1 c (pwm_chips s),
      pwm_tree := (\<lambda>k. if k \<in> chan_range s c then None else pwm_tree s k),
      allocated_pwms := allocated_pwms s - chan_range s c, node_refs := r\<rparr>"
      unfolding free_pwms_def Let_def tree_delete using img by (simp add: u chan_range_def cong: if_cong)
    finally show thesis by (rule that)
  qed
  show lists: "pwm_chips t = remove1 c (pwm_chips s)" "allocated_pwms t = allocated_pwms s - chan_range s c"
    "pwm_tree t = (\<lambda>k. if k \<in> chan_range s c then None else pwm_tree s k)"
    "\<And>d. d \<noteq> c \<Longrightarrow> chip_at t d = chip_at s d"
    by (simp_all add: t)
  have set: "set (pwm_chips t) = set (pwm_chips s) - {c}" using dist by (simp add: lists)
  have same: "chan_range t d = chan_range s d" "chip_ok t d = chip_ok s d" if "d \<in> set (pwm_chips t)" for d
  proof -
    have "chip_at t d = chip_at s d" using that set by (intro lists) auto
    then show "chan_range t d = chan_range s d" "chip_ok t d = chip_ok s d"
      by (simp_all add: chan_range_def chip_ok_def)
  qed
  have disj: "chan_range s d \<inter> chan_range s e = {}"
    if "d \<in> set (pwm_chips s)" "e \<in> set (pwm_chips s)" "d \<noteq> e" for d e
    using inv that unfolding reg_inv_def by blast
  have "allocated_pwms s = (\<Union>d \<in> set (pwm_chips s). chan_range s d)" using inv by (simp add: reg_inv_def)
  then have "allocated_pwms s - chan_range s c = (\<Union>d \<in> set (pwm_chips s) - {c}. chan_range s d)"
    using disj [OF _ c] by auto
  moreover have "(\<Union>d \<in> set (pwm_chips t). chan_range t d) = (\<Union>d \<in> set (pwm_chips t). chan_range s d)"
    by (intro SUP_cong refl same(1))
  ultimately have alloc: "allocated_pwms t = (\<Union>d \<in> set (pwm_chips t). chan_range t d)"
    by (simp only: lists(2) set)
  have tr: "pwm_tree t k = Some (d, i) \<longleftrightarrow>
      d \<in> set (pwm_chips t) \<and> i < npwm (chip_at t d) \<and> k = nat (base (chip_at t d)) + i" for k d i
  proof -
    have s_tree: "pwm_tree s k = Some (d, i) \<longleftrightarrow>
      d \<in> set (pwm_chips s) \<and> i < npwm (chip_at s d) \<and> k = nat (base (chip_at s d)) + i"
      using inv unfolding reg_inv_def by blast
    show ?thesis
    proof (cases "d = c")
      case True
      have "pwm_tree t k \<noteq> Some (d, i)"
      proof
        assume "pwm_tree t k = Some (d, i)"
        then have "k \<notin> chan_range s c" "pwm_tree s k = Some (d, i)" unfolding lists(3) by (simp_all split: if_splits)
        then show False using s_tree True by (simp add: chan_range_def)
      qed
      then show ?thesis using True set by simp
    next
      case False
      have "k \<notin> chan_range s c" if "d \<in> set (pwm_chips s)" "i < npwm (chip_at s d)" "k = nat (base (chip_at s d)) + i"
        using disj [OF that(1) c False] that by (auto simp: chan_range_def)
      then have "pwm_tree t k = Some (d, i) \<longleftrightarrow> pwm_tree s k = Some (d, i)"
        using s_tree by (simp only: lists(3) split: if_splits) blast
      with False show ?thesis using s_tree set lists(4) [OF False] by simp
    qed
  qed
  show "reg_inv t"
    unfolding reg_inv_def using inv dist set same disj alloc tr
    by (auto simp: lists(1) reg_inv_def simp del: Int_atLeastLessThan)
qed

text \<open>\<open>pwmchip_remove\<close> on a registered chip with its class device.  It fails with \<open>-EBUSY\<close>
  exactly when some channel is requested by a user other than sysfs (exports are withdrawn
  first); then the chip stays registered.  Otherwise it returns 0, the chip and all its numbers
  are gone from the list, the bitmap and the tree, and every other number still leads to its
  channel.  The registry invariant holds in both cases.\<close>
theorem pwmchip_remove_spec:
  assumes "reg_inv s" and "sysfs_inv s" and "c \<in> set (pwm_chips s)" and "c \<in> set (parents s)"
    and "pwmchip_remove c s = (r, s')"
  shows "reg_inv s' \<and> (r = 0 \<or> r = - EBUSY) \<and>
    (r = - EBUSY \<longleftrightarrow> (\<exists>i < npwm (chip_at s c). requested (pwm_at s (c, i)) \<and> \<not> exported (pwm_at s (c, i)))) \<and>
    (r = - EBUSY \<longrightarrow> pwm_chips s' = pwm_chips s \<and> pwm_tree s' = pwm_tree s \<and> allocated_pwms s' = allocated_pwms s) \<and>
    (r = 0 \<longrightarrow> set (pwm_chips s') = set (pwm_chips s) - {c} \<and>
       allocated_pwms s' = allocated_pwms s - chan_range s c \<and>
       (\<forall>k. pwm_to_device s' k = (if k \<in> chan_range s c then None else pwm_to_device s k)))"
proof -
  let ?n = "npwm (chip_at s c)"
  define s1 where "s1 = pwmchip_sysfs_unexport c s"
  have same: "reg_same s s1" unfolding s1_def by (rule sysfs_unexport_reg_same)
  then have inv1: "reg_inv s1" using assms(1) reg_inv_same by blast
  have eqs: "npwm (chip_at s1 c) = ?n" "pwm_chips s1 = pwm_chips s" "pwm_tree s1 = pwm_tree s"
    "allocated_pwms s1 = allocated_pwms s" "chan_range s1 c = chan_range s c"
    using same by (simp_all add: reg_same_def chan_range_def)
  have len: "length (pwms (chip_at s c)) = ?n"
    using assms(1,3) by (auto simp: reg_inv_def chip_ok_def Let_def)
  have "\<forall>i \<in> set [0..<?n]. valid_pwm s (c, i)" using len by (simp add: valid_pwm_def)
  from unexport_steps [OF assms(2) this]
  have rq: "requested (pwm_at s1 (c, i)) \<longleftrightarrow> requested (pwm_at s (c, i)) \<and> \<not> (i < ?n \<and> exported (pwm_at s (c, i)))" for i
    using assms(4) by (simp add: s1_def pwmchip_sysfs_unexport_def Let_def)
  have busy: "list_ex (\<lambda>i. requested (pwm_at s1 (c, i))) [0..<npwm (chip_at s1 c)] \<longleftrightarrow>
      (\<exists>i < ?n. requested (pwm_at s (c, i)) \<and> \<not> exported (pwm_at s (c, i)))"
    using rq by (auto simp: list_ex_iff eqs)
  have res: "(r, s') = (if \<exists>i < ?n. requested (pwm_at s (c, i)) \<and> \<not> exported (pwm_at s (c, i)) then (- EBUSY, s1)
      else (0, free_pwms c (of_pwmchip_remove c (s1\<lparr>pwm_chips := remove1 c (pwm_chips s1)\<rparr>))))"
    using assms(5) busy unfolding pwmchip_remove_def Let_def s1_def [symmetric] by simp
  have dist: "distinct (pwm_chips s)" using assms(1) by (simp add: reg_inv_def)
  have c1: "c \<in> set (pwm_chips s1)" using assms(3) eqs by simp
  note leave = reg_inv_leave [OF inv1 c1]
  show ?thesis
  proof (cases "\<exists>i < ?n. requested (pwm_at s (c, i)) \<and> \<not> exported (pwm_at s (c, i))")
    case True
    then show ?thesis using res inv1 eqs by simp
  next
    case False
    have "r = 0" "s' = free_pwms c (of_pwmchip_remove c (s1\<lparr>pwm_chips := remove1 c (pwm_chips s1)\<rparr>))"
      using res unfolding if_not_P [OF False] by simp_all
    then show ?thesis using False leave(1-4) eqs dist by (simp add: pwm_to_device_def)
  qed
qed

section \<open>Runs of the framework\<close>

lemma apply_state_reg_same: "reg_same s (snd (pwm_apply_state (Some p) (Some st) s))"
  using apply_state_same_but [OF prod.collapse [symmetric]] same_but_reg_same by blast

lemma export_child_reg_same: "reg_same s (snd (pwm_export_child kz reg c p s))"
  by (auto simp: pwm_export_child_def Let_def o_def)

lemma request_from_chip_reg_same: "reg_same s (snd (pwm_request_from_chip co i lbl s))"
  by (auto simp: pwm_request_from_chip_def split: option.split prod.split dest: device_request_reg_same)

lemma request_reg_same: "reg_same s (snd (pwm_request n lbl s))"
  by (auto simp: pwm_request_def split: option.split prod.split dest: device_request_reg_same)

lemma export_store_reg_same: "reg_same s (snd (export_store kst kz reg c buf s))"
proof -
  obtain ret n where k: "kst buf = (ret, n)" by force
  obtain x s1 where rq: "pwm_request_from_chip (Some c) (unat n) (Some ''sysfs'') s = (x, s1)" by force
  have s1: "reg_same s s1" using request_from_chip_reg_same rq by (metis snd_conv)
  have "reg_same s1 (snd (pwm_export_child kz reg c p s1))"
    "reg_same s1 (pwm_put (Some p) (snd (pwm_export_child kz reg c p s1)))" for p
    using export_child_reg_same pwm_put_reg_same reg_same_trans by blast+
  then show ?thesis
    using s1 reg_same_trans [OF s1]
    by (auto simp: export_store_def k rq split: sum.split prod.split) (metis snd_conv)+
qed

lemma unexport_store_reg_same: "reg_same s (snd (unexport_store kst c buf s))"
proof -
  obtain ret n where k: "kst buf = (ret, n)" by force
  show ?thesis
    using unexport_child_reg_same [of s c "(c, unat n)"] by (auto simp: unexport_store_def k split: prod.split)
qed

lemma resume_loop_reg_same: "reg_same s (snd (resume_loop c r is s))"
proof (induction "is" arbitrary: r s)
  case (Cons i "is")
  show ?case
  proof (cases "pwm_class_get_state c (c, i) s")
    case None
    then show ?thesis using Cons by simp
  next
    case (Some a)
    obtain k st where a: "a = (k, st)" by force
    obtain r1 s1 where ap: "pwm_class_apply_state (c, i) (st\<lparr>enabled := enabled (suspend (snd (children s ! k)))\<rparr>) s = (r1, s1)"
      by force
    then have "reg_same s s1" using apply_state_reg_same by (metis pwm_class_apply_state_def snd_conv)
    then show ?thesis using Cons Some a ap reg_same_trans by fastforce
  qed
qed simp

lemma suspend_loop_reg_same: "reg_same s (snd (suspend_loop c r is s))"
proof (induction "is" arbitrary: r s)
  case (Cons i "is")
  show ?case
  proof (cases "pwm_class_get_state c (c, i) s")
    case None
    then show ?thesis using Cons by simp
  next
    case (Some a)
    obtain k st where a: "a = (k, st)" by force
    obtain r1 s1 where ap: "pwm_class_apply_state (c, i) (st\<lparr>enabled := False\<rparr>) (set_suspend k st s) = (r1, s1)"
      by force
    then have "reg_same (set_suspend k st s) s1"
      using apply_state_reg_same by (metis pwm_class_apply_state_def snd_conv)
    then have "reg_same s s1" by (rule reg_same_trans [rotated]) (simp add: set_suspend_def)
    moreover have "reg_same s1 (snd (pwm_class_resume_npwm c i s1))"
      by (simp add: pwm_class_resume_npwm_def resume_loop_reg_same)
    ultimately show ?thesis using Cons Some a ap reg_same_trans by fastforce
  qed
qed simp

text \<open>One call into the framework; arguments and results of the environment are arbitrary.  Adding
  is called for a chip that is not registered, removing for one that is.\<close>

inductive pwm_step :: "(nat set \<Rightarrow> nat \<Rightarrow> nat \<Rightarrow> nat \<Rightarrow> nat) \<Rightarrow> 'h pwm_core \<Rightarrow> 'h pwm_core \<Rightarrow> bool"
  for find_area where
  add: "c \<notin> set (pwm_chips s) \<Longrightarrow> npwm (chip_at s c) < 2 ^ 30 \<Longrightarrow>
    pwm_step find_area s (snd (pwmchip_add_with_polarity find_area kz cr (Some c) pol s))"
| remove: "c \<in> set (pwm_chips s) \<Longrightarrow> pwm_step find_area s (snd (pwmchip_remove c s))"
| request: "pwm_step find_area s (snd (pwm_request n lbl s))"
| request_from_chip: "pwm_step find_area s (snd (pwm_request_from_chip co i lbl s))"
| put: "pwm_step find_area s (pwm_put (Some p) s)"
| apply_state: "pwm_step find_area s (snd (pwm_apply_state (Some p) (Some st) s))"
| export: "pwm_step find_area s (snd (export_store kst kz reg c buf s))"
| unexport: "pwm_step find_area s (snd (unexport_store kst c buf s))"
| suspend: "pwm_step find_area s (snd (pwm_class_suspend c s))"
| resume: "pwm_step find_area s (snd (pwm_class_resume c s))"
| new_chip: "c \<notin> set (pwm_chips s) \<Longrightarrow> pwm_step find_area s (upd_chip c (\<lambda>_. ch) s)"

inductive pwm_reach :: "(nat set \<Rightarrow> nat \<Rightarrow> nat \<Rightarrow> nat \<Rightarrow> nat) \<Rightarrow> 'h pwm_core \<Rightarrow> bool" for find_area where
  boot: "pwm_chips s = [] \<Longrightarrow> allocated_pwms s = {} \<Longrightarrow> pwm_tree s = Map.empty \<Longrightarrow> pwm_reach find_area s"
| step: "pwm_reach find_area s \<Longrightarrow> pwm_step find_area s s' \<Longrightarrow> pwm_reach find_area s'"

lemma reg_inv_outside:
  assumes "reg_inv s" and "c \<notin> set (pwm_chips s)"
  shows "reg_inv (upd_chip c f s)"
proof -
  have "chip_ok (upd_chip c f s) d = chip_ok s d" "chan_range (upd_chip c f s) d = chan_range s d"
    if "d \<in> set (pwm_chips s)" for d
    using that assms(2) by (auto simp: chip_ok_def chan_range_def)
  then show ?thesis using assms unfolding reg_inv_def by auto
qed

lemma add_reg_inv:
  assumes "find_area_ok find_area" and "reg_inv s" and "c \<notin> set (pwm_chips s)" and "npwm (chip_at s c) < 2 ^ 30"
  shows "reg_inv (snd (pwmchip_add_with_polarity find_area kz cr (Some c) pol s))"
proof -
  let ?ch = "chip_at s c"
  define b where "b = alloc_pwms find_area (allocated_pwms s) (base ?ch) (npwm ?ch)"
  have add: "pwmchip_add_with_polarity find_area kz cr (Some c) pol s =
      (if dev ?ch = None \<or> ops ?ch = None \<or> npwm ?ch = 0 then (- EINVAL, s)
       else if \<not> pwm_ops_check (the (ops ?ch)) then (- EINVAL, s)
       else if b < 0 then (b, s)
       else if \<not> kz then (- ENOMEM, upd_chip c (\<lambda>ch. ch\<lparr>pwms := []\<rparr>) s)
       else let s2 = fold (add_step c pol) [0..<npwm ?ch]
                       (upd_chip c (\<lambda>ch. ch\<lparr>pwms := replicate (npwm ?ch) zero_pwm, base := b\<rparr>) s)
            in (0, pwmchip_sysfs_export cr c (of_pwmchip_add c
                     (s2\<lparr>allocated_pwms := allocated_pwms s2 \<union> {nat b..<nat b + npwm ?ch},
                         pwm_chips := c # pwm_chips s2\<rparr>))))"
    by (simp add: pwmchip_add_with_polarity_def Let_def b_def)
  show ?thesis
  proof (cases "dev ?ch = None \<or> ops ?ch = None \<or> npwm ?ch = 0 \<or> \<not> pwm_ops_check (the (ops ?ch)) \<or> b < 0 \<or> \<not> kz")
    case True
    then show ?thesis using assms(2) reg_inv_outside [OF assms(2,3)] unfolding add by auto
  next
    case False
    then have ok: "dev ?ch \<noteq> None" "ops ?ch \<noteq> None" "0 < npwm ?ch" "0 \<le> b" by auto
    have "area_free (allocated_pwms s) MAX_PWMS (nat b) (npwm ?ch)"
      using alloc_pwms_spec [OF assms(1) ok(3) assms(4)] ok(4) by (simp add: b_def Let_def)
    then show ?thesis
      using reg_inv_tail [OF add_run(1) [OF assms(2,3) ok(1-4)], of cr c pol] False
      unfolding add Let_def by auto
  qed
qed

lemma remove_reg_inv:
  assumes "reg_inv s" and "c \<in> set (pwm_chips s)"
  shows "reg_inv (snd (pwmchip_remove c s))"
proof -
  let ?s1 = "pwmchip_sysfs_unexport c s"
  have same: "reg_same s ?s1" by (rule sysfs_unexport_reg_same)
  then have "reg_inv ?s1" "c \<in> set (pwm_chips ?s1)"
    using assms reg_inv_same by (auto simp: reg_same_def)
  with reg_inv_leave(1) [OF this] show ?thesis by (simp add: pwmchip_remove_def Let_def)
qed

lemma step_reg_inv:
  assumes "pwm_step find_area s s'" and "find_area_ok find_area" and "reg_inv s"
  shows "reg_inv s'"
  using assms(1)
proof cases
  case add
  then show ?thesis using add_reg_inv assms(2,3) by blast
next
  case remove
  then show ?thesis using remove_reg_inv assms(3) by blast
next
  case (new_chip c ch)
  then show ?thesis using reg_inv_outside [OF assms(3), of c "\<lambda>_. ch"] by simp
next
  case suspend
  then show ?thesis using reg_inv_same [OF assms(3) suspend_loop_reg_same] by (simp add: pwm_class_suspend_def)
next
  case resume
  then show ?thesis using reg_inv_same [OF assms(3) resume_loop_reg_same]
    by (simp add: pwm_class_resume_def pwm_class_resume_npwm_def)
qed (simp_all add: reg_inv_same [OF assms(3)] request_reg_same request_from_chip_reg_same
    pwm_put_reg_same apply_state_reg_same export_store_reg_same unexport_store_reg_same)


section \<open>The static lookup table\<close>

text \<open>How well an entry fits a consumer: 0 for an entry that does not match or matches without
  naming anything, then connection only, device only, both.\<close>

definition score :: "string option \<Rightarrow> string option \<Rightarrow> pwm_lookup \<Rightarrow> nat" where
  "score dv con p = (case lookup_match dv con p of None \<Rightarrow> 0 | Some m \<Rightarrow> m)"

definition best_score :: "string option \<Rightarrow> string option \<Rightarrow> pwm_lookup list \<Rightarrow> nat" where
  "best_score dv con ps = foldr (\<lambda>p. max (score dv con p)) ps 0"

lemma score_le_3: "score dv con p \<le> 3"
  by (simp add: score_def lookup_match_def)

lemma best_score_simps [simp]:
  "best_score dv con [] = 0" "best_score dv con (p # ps) = max (score dv con p) (best_score dv con ps)"
  by (simp_all add: best_score_def)

lemma best_score_le_3: "best_score dv con ps \<le> 3"
  by (induction ps) (simp_all add: score_le_3)

lemma lookup_loop_step:
  "lookup_loop dv con b ch (p # ps) =
     (if score dv con p > b then (if score dv con p = 3 then Some p else lookup_loop dv con (score dv con p) (Some p) ps)
      else lookup_loop dv con b ch ps)"
  by (simp add: score_def split: option.split)

lemma lookup_loop_best:
  "lookup_loop dv con b ch ps =
     (if best_score dv con ps > b then find (\<lambda>p. score dv con p = best_score dv con ps) ps else ch)"
proof (induction ps arbitrary: b ch)
  case (Cons p ps)
  show ?case
  proof (cases "score dv con p > b")
    case True
    show ?thesis
    proof (cases "score dv con p = 3")
      case three: True
      then have "max (score dv con p) (best_score dv con ps) = 3" using best_score_le_3 [of dv con ps] by simp
      then show ?thesis using True three by (simp add: lookup_loop_step del: lookup_loop.simps)
    next
      case False
      with True show ?thesis by (auto simp: lookup_loop_step Cons max_def simp del: lookup_loop.simps)
    qed
  next
    case False
    then show ?thesis by (auto simp: lookup_loop_step Cons max_def simp del: lookup_loop.simps)
  qed
qed simp

lemma best_score_in: "ps \<noteq> [] \<Longrightarrow> \<exists>p \<in> set ps. score dv con p = best_score dv con ps"
proof (induction ps)
  case (Cons a ps)
  then show ?case by (cases ps) (auto simp: max_def)
qed simp

lemma best_score_upper: "p \<in> set ps \<Longrightarrow> score dv con p \<le> best_score dv con ps"
  by (induction ps) auto



section \<open>Witnesses\<close>

definition demo_boot :: "nat pwm_core" where
  "demo_boot = demo_core\<lparr>chip_mem := (\<lambda>_. (chip_mem demo_core 0)\<lparr>base := - 1, pwms := []\<rparr>),
     pwm_chips := [], allocated_pwms := {}, pwm_tree := Map.empty, parents := []\<rparr>"

lemma demo_boot_inv: "reg_inv demo_boot" "pwm_reach f demo_boot"
  by (auto simp: reg_inv_def demo_boot_def intro: pwm_reach.boot)

lemma demo_core_inv: "reg_inv demo_core"
  by (auto simp: reg_inv_def chip_ok_def chan_range_def demo_core_def demo_pwm_def MAX_PWMS_def)


theorem pwmchip_remove_spec_witness:
  "fst (pwmchip_remove 0 demo_core) = 0 \<and> pwm_to_device (snd (pwmchip_remove 0 demo_core)) 0 = None"
proof -
  have "\<not> requested demo_pwm" by (simp add: requested_def demo_pwm_def)
  then show ?thesis
    using pwmchip_remove_spec [OF demo_core_inv sysfs_inv_demo(1) _ _ prod.collapse [symmetric], of 0]
    by (auto simp: demo_core_def chan_range_def)
qed

lemma first_fit_empty: "fm + n \<le> sz \<Longrightarrow> 0 < n \<Longrightarrow> first_fit {} sz fm n = fm"
  by (simp add: first_fit_def upt_conv_Cons)


end
