(* ===== verification/Pwm_Rts.thy ===== *)
theory Pwm_Rts
  imports Pwm_Registry
begin

text \<open>
  The Realtek PWM driver (\<open>drivers/pwm/pwm-rts.c\<close>): its callbacks on the register file of the
  controller, its own sysfs attributes, probe and remove, and the proof that the framework's view
  of a channel agrees with the registers.

  The hardware state is the register file (byte offset to word) with the bus clock that
  \<open>struct rtsx_pwm_chip\<close> caches.  \<open>fault\<close> records a division by zero in \<open>rtsx_pwm_config\<close>,
  where C leaves the behaviour undefined.  \<open>kstrtol\<close>, the clock, pin control and device
  functions that probe and remove call are outside the repository or not modelled here; their
  results are arguments.
\<close>

section \<open>Registers and callbacks\<close>

definition NUM_PWM :: nat where "NUM_PWM = 4"
definition XB2_PWM_EN :: nat where "XB2_PWM_EN = 0"
definition XB2_PWM_KEEP :: nat where "XB2_PWM_KEEP = 4"
definition XB2_PWM_HIGH :: nat where "XB2_PWM_HIGH = 8"
definition XB2_PWM_LOW :: nat where "XB2_PWM_LOW = 0xc"
definition NS_IN_HZ :: u32 where "NS_IN_HZ = 1000000000"

lemmas rts_offsets = NUM_PWM_def XB2_PWM_EN_def XB2_PWM_KEEP_def XB2_PWM_HIGH_def XB2_PWM_LOW_def

record rts_hw =
  regs :: "nat \<Rightarrow> u32"
  busclk :: u32
  fault :: bool

definition pwm_readl :: "nat \<Rightarrow> nat \<Rightarrow> rts_hw \<Rightarrow> u32" where
  "pwm_readl num off h = regs h (off + num * 0x40)"

definition pwm_writel :: "nat \<Rightarrow> nat \<Rightarrow> u32 \<Rightarrow> rts_hw \<Rightarrow> rts_hw" where
  "pwm_writel num off v h = h\<lparr>regs := (regs h)(off + num * 0x40 := v)\<rparr>"

definition rtsx_pwm_config :: "chip_ptr \<Rightarrow> pwm_device \<Rightarrow> int \<Rightarrow> int \<Rightarrow> rts_hw \<Rightarrow> int \<times> rts_hw" where
  "rtsx_pwm_config c pd duty_ns period_ns h =
     (if busclk h = 0 \<or> NS_IN_HZ div busclk h = 0 then (0, h\<lparr>fault := True\<rparr>)
      else let tin_ns = NS_IN_HZ div busclk h;
               high = word_of_int duty_ns div tin_ns;
               total = word_of_int period_ns div tin_ns;
               low = total - high
           in (0, h\<lparr>regs := (regs h)(hwpwm pd * 0x40 + XB2_PWM_HIGH := high, hwpwm pd * 0x40 + XB2_PWM_LOW := low)\<rparr>))"

definition rtsx_pwm_enable :: "chip_ptr \<Rightarrow> pwm_device \<Rightarrow> rts_hw \<Rightarrow> int \<times> rts_hw" where
  "rtsx_pwm_enable c pd h = (0, pwm_writel (hwpwm pd) XB2_PWM_EN 1 h)"

definition rtsx_pwm_disable :: "chip_ptr \<Rightarrow> pwm_device \<Rightarrow> rts_hw \<Rightarrow> rts_hw" where
  "rtsx_pwm_disable c pd h = pwm_writel (hwpwm pd) XB2_PWM_EN 0 h"

definition rtsx_pwm_ops :: "rts_hw pwm_ops" where
  "rtsx_pwm_ops = \<lparr>op_request = None, op_free = None, op_capture = None, op_apply = None, op_get_state = None,
     owner = Some 0, op_config = Some rtsx_pwm_config, op_set_polarity = None,
     op_enable = Some rtsx_pwm_enable, op_disable = Some rtsx_pwm_disable\<rparr>"

section \<open>The attributes of the driver\<close>

record pwm_desc =
  d_dev :: "nat option"
  d_pwm :: "pwm_ptr option"
  duty_ns :: int
  period_ns :: int

text \<open>Each attribute walks over the \<open>desc\<close> array and acts on the entries of the device it was
  called for; the list argument is the index range that is left.\<close>

fun show_loop :: "(pwm_desc \<Rightarrow> int) \<Rightarrow> nat option \<Rightarrow> int \<Rightarrow> pwm_desc list \<Rightarrow> int + int" where
  "show_loop f dv acc [] = Inr acc"
| "show_loop f dv acc (d # ds) =
     (if d_dev d = dv then (if d_pwm d = None then Inl (- EIO) else show_loop f dv (f d) ds)
      else show_loop f dv acc ds)"

definition duty_ns_show :: "nat option \<Rightarrow> pwm_desc list \<Rightarrow> int + int" where
  "duty_ns_show dv ds = show_loop duty_ns dv 0 ds"

definition period_ns_show :: "nat option \<Rightarrow> pwm_desc list \<Rightarrow> int + int" where
  "period_ns_show dv ds = show_loop period_ns dv 0 ds"

fun store_loop :: "(pwm_desc \<Rightarrow> pwm_desc) \<Rightarrow> nat option \<Rightarrow> pwm_desc list \<Rightarrow> int \<times> pwm_desc list" where
  "store_loop f dv [] = (0, [])"
| "store_loop f dv (d # ds) =
     (if d_dev d = dv \<and> d_pwm d = None then (- EIO, d # ds)
      else case store_loop f dv ds of
        (e, ds') \<Rightarrow> (e, (if d_dev d = dv then f d else d) # ds'))"

definition duty_ns_store ::
    "(string \<Rightarrow> int \<times> int) \<Rightarrow> nat option \<Rightarrow> string \<Rightarrow> pwm_desc list \<Rightarrow> int \<times> pwm_desc list" where
  "duty_ns_store kstrtol dv buf ds = (case kstrtol buf of (err, v) \<Rightarrow>
     if err \<noteq> 0 then (err, ds)
     else if v \<ge> 0x40000000 then (- ERANGE, ds)
     else case store_loop (\<lambda>d. d\<lparr>duty_ns := v\<rparr>) dv ds of (e, ds') \<Rightarrow> (size_or e buf, ds'))"

definition period_ns_store ::
    "(string \<Rightarrow> int \<times> int) \<Rightarrow> nat option \<Rightarrow> string \<Rightarrow> pwm_desc list \<Rightarrow> int \<times> pwm_desc list" where
  "period_ns_store kstrtol dv buf ds = (case kstrtol buf of (err, v) \<Rightarrow>
     if err \<noteq> 0 then (err, ds)
     else if v \<ge> 0x40000000 then (- ERANGE, ds)
     else case store_loop (\<lambda>d. d\<lparr>period_ns := v\<rparr>) dv ds of (e, ds') \<Rightarrow> (size_or e buf, ds'))"

fun enable_loop :: "int \<Rightarrow> nat option \<Rightarrow> pwm_desc list \<Rightarrow> 'h pwm_core \<Rightarrow> int \<times> 'h pwm_core" where
  "enable_loop v dv [] s = (0, s)"
| "enable_loop v dv (d # ds) s =
     (if d_dev d = dv
      then (if d_pwm d = None then (- EIO, s)
            else enable_loop v dv ds
                   (if v \<noteq> 0 then snd (pwm_enable (d_pwm d) (snd (pwm_config (d_pwm d) (duty_ns d) (period_ns d) s)))
                    else pwm_disable (d_pwm d) s))
      else enable_loop v dv ds s)"

definition rts_enable_store ::
    "(string \<Rightarrow> int \<times> int) \<Rightarrow> nat option \<Rightarrow> string \<Rightarrow> pwm_desc list \<Rightarrow> 'h pwm_core \<Rightarrow> int \<times> 'h pwm_core" where
  "rts_enable_store kstrtol dv buf ds s = (case kstrtol buf of (err, v) \<Rightarrow>
     if err \<noteq> 0 then (err, s)
     else case enable_loop v dv ds s of (e, s1) \<Rightarrow> (size_or e buf, s1))"

text \<open>The first number is the index \<open>i\<close> of the first entry.\<close>

fun request_loop ::
    "int \<Rightarrow> nat option \<Rightarrow> nat \<Rightarrow> pwm_desc list \<Rightarrow> 'h pwm_core \<Rightarrow> int \<times> pwm_desc list \<times> 'h pwm_core" where
  "request_loop v dv i [] s = (0, [], s)"
| "request_loop v dv i (d # ds) s =
     (if d_dev d = dv
      then (if v \<noteq> 0
            then (if d_pwm d = None
                  then (case pwm_request (int i) None s of
                          (Inl e, s1) \<Rightarrow> (e, d # ds, s1)
                        | (Inr p, s1) \<Rightarrow> (case request_loop v dv (Suc i) ds s1 of
                            (e, ds', s2) \<Rightarrow> (e, d\<lparr>d_pwm := Some p\<rparr> # ds', s2)))
                  else (- EBUSY, d # ds, s))
            else (case request_loop v dv (Suc i) ds (pwm_free (d_pwm d) s) of
                    (e, ds', s2) \<Rightarrow> (e, d\<lparr>d_pwm := None\<rparr> # ds', s2)))
      else (case request_loop v dv (Suc i) ds s of (e, ds', s2) \<Rightarrow> (e, d # ds', s2)))"

definition request_store ::
    "(string \<Rightarrow> int \<times> int) \<Rightarrow> nat option \<Rightarrow> string \<Rightarrow> pwm_desc list \<Rightarrow> 'h pwm_core \<Rightarrow>
     int \<times> pwm_desc list \<times> 'h pwm_core" where
  "request_store kstrtol dv buf ds s = (case kstrtol buf of (err, v) \<Rightarrow>
     if err \<noteq> 0 then (err, ds, s)
     else case request_loop v dv 0 ds s of (e, ds', s1) \<Rightarrow> (size_or e buf, ds', s1))"

section \<open>Probe and remove\<close>

text \<open>The results of the calls that probe and remove make outside the PWM framework: 0 or an
  error number, the clock rate, and the devices that are created.\<close>

record probe_env =
  kzalloc_ok :: bool
  ioremap_ret :: int
  clk_ret :: "int + u32"
  pinctrl_ret :: int
  default_ret :: int
  select_ret :: int
  add_kcalloc_ok :: bool
  add_create_ok :: bool
  class_ret :: int
  create_ret :: "nat \<Rightarrow> int + nat"
  group_ret :: "nat \<Rightarrow> int"

definition zero_desc :: pwm_desc where
  "zero_desc = \<lparr>d_dev = None, d_pwm = None, duty_ns = 0, period_ns = 0\<rparr>"

fun create_loop :: "probe_env \<Rightarrow> nat list \<Rightarrow> pwm_desc list \<Rightarrow> int \<times> pwm_desc list" where
  "create_loop E [] ds = (0, ds)"
| "create_loop E (i # is) ds = (case create_ret E i of
     Inl e \<Rightarrow> (e, ds)
   | Inr dv \<Rightarrow>
       let ds1 = ds[i := (ds ! i)\<lparr>d_dev := Some dv\<rparr>]
       in if group_ret E i < 0 then (group_ret E i, ds1) else create_loop E is ds1)"

definition keep_all :: "rts_hw \<Rightarrow> rts_hw" where
  "keep_all h = pwm_writel 3 XB2_PWM_KEEP 1 (pwm_writel 2 XB2_PWM_KEEP 1
                  (pwm_writel 1 XB2_PWM_KEEP 1 (pwm_writel 0 XB2_PWM_KEEP 1 h)))"

definition rtsx_pwm_probe ::
    "(nat set \<Rightarrow> nat \<Rightarrow> nat \<Rightarrow> nat \<Rightarrow> nat) \<Rightarrow> probe_env \<Rightarrow> chip_ptr \<Rightarrow> device \<Rightarrow> rts_hw pwm_core \<Rightarrow>
     int \<times> pwm_desc list \<times> rts_hw pwm_core" where
  "rtsx_pwm_probe find_area E c dv s =
     (let ds = replicate NUM_PWM zero_desc in
      if \<not> kzalloc_ok E then (- ENOMEM, ds, s)
      else if ioremap_ret E \<noteq> 0 then (ioremap_ret E, ds, s)
      else case clk_ret E of
        Inl e \<Rightarrow> (e, ds, s)
      | Inr rate \<Rightarrow>
          let s1 = upd_chip c (\<lambda>_. \<lparr>dev = Some dv, ops = Some rtsx_pwm_ops, base = - 1, npwm = NUM_PWM,
                                    of_xlate = None, of_pwm_n_cells = 0, pwms = []\<rparr>)
                     (s\<lparr>hw := (hw s)\<lparr>busclk := rate\<rparr>\<rparr>)
          in if pinctrl_ret E \<noteq> 0 then (pinctrl_ret E, ds, s1)
             else if default_ret E \<noteq> 0 then (default_ret E, ds, s1)
             else if select_ret E \<noteq> 0 then (select_ret E, ds, s1)
             else let s2 = s1\<lparr>hw := keep_all (hw s1)\<rparr> in
               case pwmchip_add find_area (add_kcalloc_ok E) (add_create_ok E) (Some c) s2 of
                 (ret, s3) \<Rightarrow>
                   if ret < 0 then (ret, ds, s3)
                   else if class_ret E \<noteq> 0 then (class_ret E, ds, s3)
                   else case create_loop E [0..<NUM_PWM] ds of (ret, ds') \<Rightarrow> (ret, ds', s3))"

text \<open>\<open>sleep_ret\<close> and \<open>sel_ret\<close> are the results of looking up and selecting the sleep pins.\<close>

definition rtsx_pwm_remove :: "chip_ptr option \<Rightarrow> int \<Rightarrow> int \<Rightarrow> rts_hw pwm_core \<Rightarrow> int \<times> rts_hw pwm_core" where
  "rtsx_pwm_remove co sleep_ret sel_ret s = (case co of None \<Rightarrow> (- ENODEV, s)
   | Some c \<Rightarrow>
       let s1 = s\<lparr>hw := fold (\<lambda>i. pwm_writel i XB2_PWM_EN 0) [0..<NUM_PWM] (hw s)\<rparr> in
       case pwmchip_remove c s1 of
         (ret, s2) \<Rightarrow>
           if ret \<noteq> 0 then (ret, s2)
           else if sleep_ret \<noteq> 0 then (sleep_ret, s2)
           else (sel_ret, s2))"

section \<open>The contract of a legacy driver\<close>

text \<open>The framework's view of a channel agrees with the hardware: switched on exactly when
  \<open>enabled\<close>, and programmed for the cached duty cycle and period once there is a period.\<close>

definition agrees :: "('h \<Rightarrow> nat \<Rightarrow> bool) \<Rightarrow> ('h \<Rightarrow> nat \<Rightarrow> 'c) \<Rightarrow> ('h \<Rightarrow> int \<Rightarrow> int \<Rightarrow> 'c) \<Rightarrow> 'h \<Rightarrow> pwm_device \<Rightarrow> bool" where
  "agrees out_on out_cfg cfg_of h pd \<longleftrightarrow> out_on h (hwpwm pd) = enabled (state pd) \<and>
     (period (state pd) \<noteq> 0 \<longrightarrow>
        out_cfg h (hwpwm pd) = cfg_of h (sint (duty_cycle (state pd))) (sint (period (state pd))))"

text \<open>\<open>out_on\<close> and \<open>out_cfg\<close> read the output of a channel off the hardware; \<open>usable\<close> is the
  condition under which the driver works.  The laws say that each callback succeeds and does what
  it is named after, on its channel only.\<close>

locale legacy_driver =
  fixes drv :: "'h pwm_ops"
    and cf :: "chip_ptr \<Rightarrow> pwm_device \<Rightarrow> int \<Rightarrow> int \<Rightarrow> 'h \<Rightarrow> int \<times> 'h"
    and en :: "chip_ptr \<Rightarrow> pwm_device \<Rightarrow> 'h \<Rightarrow> int \<times> 'h"
    and dis :: "chip_ptr \<Rightarrow> pwm_device \<Rightarrow> 'h \<Rightarrow> 'h"
    and usable :: "'h \<Rightarrow> bool"
    and out_on :: "'h \<Rightarrow> nat \<Rightarrow> bool"
    and out_cfg :: "'h \<Rightarrow> nat \<Rightarrow> 'c"
    and cfg_of :: "'h \<Rightarrow> int \<Rightarrow> int \<Rightarrow> 'c"
  assumes callbacks: "op_apply drv = None" "op_set_polarity drv = None" "op_config drv = Some cf"
      "op_enable drv = Some en" "op_disable drv = Some dis"
    and config_law: "usable h \<Longrightarrow> cf c pd d p h = (e, h') \<Longrightarrow>
      e = 0 \<and> usable h' \<and> out_on h' = out_on h \<and> cfg_of h' = cfg_of h \<and>
      out_cfg h' = (out_cfg h)(hwpwm pd := cfg_of h d p)"
    and enable_law: "usable h \<Longrightarrow> en c pd h = (e, h') \<Longrightarrow>
      e = 0 \<and> usable h' \<and> out_on h' = (out_on h)(hwpwm pd := True) \<and> cfg_of h' = cfg_of h \<and> out_cfg h' = out_cfg h"
    and disable_law: "usable h \<Longrightarrow> dis c pd h = h' \<Longrightarrow>
      usable h' \<and> out_on h' = (out_on h)(hwpwm pd := False) \<and> cfg_of h' = cfg_of h \<and> out_cfg h' = out_cfg h"
begin

lemma legacy_config_ok:
  assumes "ops_at s p = drv" and "usable (hw s)" and "valid_pwm s p"
    and "agrees out_on out_cfg cfg_of (hw s) (pwm_at s p)"
  shows "\<exists>h. legacy_config p st s =
      (0, (upd_pwm p (\<lambda>pd. pd\<lparr>state := (state pd)\<lparr>duty_cycle := duty_cycle st, period := period st\<rparr>\<rparr>) s)\<lparr>hw := h\<rparr>) \<and>
    usable h \<and> cfg_of h = cfg_of (hw s) \<and> out_on h = out_on (hw s) \<and>
    (\<forall>j. j \<noteq> hwpwm (pwm_at s p) \<longrightarrow> out_cfg h j = out_cfg (hw s) j) \<and>
    (period st \<noteq> 0 \<longrightarrow> out_cfg h (hwpwm (pwm_at s p)) = cfg_of (hw s) (sint (duty_cycle st)) (sint (period st)))"
proof (cases "period st = period (state (pwm_at s p)) \<and> duty_cycle st = duty_cycle (state (pwm_at s p))")
  case True
  then have "legacy_config p st s = (0, s)" by (simp add: legacy_config_def)
  moreover have "(upd_pwm p (\<lambda>pd. pd\<lparr>state := (state pd)\<lparr>duty_cycle := duty_cycle st, period := period st\<rparr>\<rparr>) s)\<lparr>hw := hw s\<rparr> = s"
    using True by (subst upd_pwm_id) simp_all
  ultimately show ?thesis using assms True by (intro exI [of _ "hw s"]) (auto simp: agrees_def)
next
  case False
  obtain e h where eh: "cf (chip (pwm_at s p)) (pwm_at s p) (sint (duty_cycle st)) (sint (period st)) (hw s) = (e, h)"
    by force
  note law = config_law [OF assms(2) eh]
  have "legacy_config p st s =
      (0, (upd_pwm p (\<lambda>pd. pd\<lparr>state := (state pd)\<lparr>duty_cycle := duty_cycle st, period := period st\<rparr>\<rparr>) s)\<lparr>hw := h\<rparr>)"
    using False eh law callbacks assms(1) by (auto simp: legacy_config_def)
  with law show ?thesis by auto
qed

lemma legacy_enable_ok:
  assumes "ops_at s p = drv" and "usable (hw s)" and "out_on (hw s) (hwpwm (pwm_at s p)) = enabled (state (pwm_at s p))"
  shows "\<exists>h. legacy_enable p st s =
      (0, (upd_pwm p (\<lambda>pd. pd\<lparr>state := (state pd)\<lparr>enabled := enabled st\<rparr>\<rparr>) s)\<lparr>hw := h\<rparr>) \<and>
    usable h \<and> cfg_of h = cfg_of (hw s) \<and> out_cfg h = out_cfg (hw s) \<and>
    out_on h = (out_on (hw s))(hwpwm (pwm_at s p) := enabled st)"
proof (cases "enabled st = enabled (state (pwm_at s p))")
  case True
  then have "legacy_enable p st s = (0, s)" by (simp add: legacy_enable_def)
  moreover have "(upd_pwm p (\<lambda>pd. pd\<lparr>state := (state pd)\<lparr>enabled := enabled st\<rparr>\<rparr>) s)\<lparr>hw := hw s\<rparr> = s"
    using True by (subst upd_pwm_id) simp_all
  ultimately show ?thesis using assms True by (intro exI [of _ "hw s"]) (auto simp: fun_eq_iff)
next
  case ne: False
  show ?thesis
  proof (cases "enabled st")
    case True
    obtain e h where eh: "en (fst p) (pwm_at s p) (hw s) = (e, h)" by force
    from enable_law [OF assms(2) eh] show ?thesis
      using ne True eh callbacks assms(1) by (intro exI [of _ h]) (auto simp: legacy_enable_def)
  next
    case False
    from disable_law [OF assms(2) refl, of "fst p" "pwm_at s p"] show ?thesis
      using ne False callbacks assms(1)
      by (intro exI [of _ "dis (fst p) (pwm_at s p) (hw s)"]) (auto simp: legacy_enable_def)
  qed
qed

text \<open>The complete behaviour of \<open>pwm_apply_state\<close> on a channel of such a driver.\<close>

lemma apply_state_total:
  assumes "ops_at s p = drv" and "usable (hw s)" and "valid_pwm s p"
    and ag: "agrees out_on out_cfg cfg_of (hw s) (pwm_at s p)"
    and run: "pwm_apply_state (Some p) (Some st) s = (r, s')"
  shows "r = (if period st = 0 \<or> duty_cycle st > period st then - EINVAL
              else if polarity st \<noteq> polarity (state (pwm_at s p)) then - ENOTSUPP else 0)"
    and "r \<noteq> 0 \<Longrightarrow> s' = s"
    and "r = 0 \<Longrightarrow> state (pwm_at s' p) = st" and "usable (hw s')"
    and "agrees out_on out_cfg cfg_of (hw s') (pwm_at s' p)"
    and "j \<noteq> hwpwm (pwm_at s p) \<Longrightarrow> out_on (hw s') j = out_on (hw s) j \<and> out_cfg (hw s') j = out_cfg (hw s) j"
    and "cfg_of (hw s') = cfg_of (hw s)"
proof -
  have "(r = (if period st = 0 \<or> duty_cycle st > period st then - EINVAL
              else if polarity st \<noteq> polarity (state (pwm_at s p)) then - ENOTSUPP else 0)) \<and>
    (r \<noteq> 0 \<longrightarrow> s' = s) \<and> usable (hw s') \<and> agrees out_on out_cfg cfg_of (hw s') (pwm_at s' p) \<and>
    (\<forall>j. j \<noteq> hwpwm (pwm_at s p) \<longrightarrow> out_on (hw s') j = out_on (hw s) j \<and> out_cfg (hw s') j = out_cfg (hw s) j) \<and>
    cfg_of (hw s') = cfg_of (hw s)"
    using run
  proof (cases rule: pwm_apply_state_cases)
    case (atomic app h)
    then show ?thesis using callbacks assms(1) by simp
  next
    case polarity
    then show ?thesis
      using callbacks assms(1,2) ag by (auto simp: legacy_polarity_def not_less split: if_splits)
  next
    case (config s1)
    have s1: "s1 = s" using config(4) callbacks assms(1) by (auto simp: legacy_polarity_def split: if_splits)
    show ?thesis using config(5,6) legacy_config_ok [OF assms(1,2,3) ag, of st] unfolding s1 by auto
  next
    case (enable s1 s2)
    have s1: "s1 = s" and pol: "polarity st = polarity (state (pwm_at s p))"
      using enable(4) callbacks assms(1) by (auto simp: legacy_polarity_def split: if_splits)
    obtain h where s2: "s2 = (upd_pwm p (\<lambda>pd. pd\<lparr>state := (state pd)\<lparr>duty_cycle := duty_cycle st, period := period st\<rparr>\<rparr>) s)\<lparr>hw := h\<rparr>"
      and h: "usable h" "cfg_of h = cfg_of (hw s)" "out_on h = out_on (hw s)"
        "\<forall>j. j \<noteq> hwpwm (pwm_at s p) \<longrightarrow> out_cfg h j = out_cfg (hw s) j"
        "out_cfg h (hwpwm (pwm_at s p)) = cfg_of (hw s) (sint (duty_cycle st)) (sint (period st))"
      using legacy_config_ok [OF assms(1,2,3) ag, of st] enable(1,5) unfolding s1 by auto
    have "ops_at s2 p = drv" "usable (hw s2)" "out_on (hw s2) (hwpwm (pwm_at s2 p)) = enabled (state (pwm_at s2 p))"
      using assms(1,3) h ag by (simp_all add: s2 agrees_def)
    from legacy_enable_ok [OF this, of st] enable(6)
    obtain h' where s': "r = 0" "s' = (upd_pwm p (\<lambda>pd. pd\<lparr>state := (state pd)\<lparr>enabled := enabled st\<rparr>\<rparr>) s2)\<lparr>hw := h'\<rparr>"
      and h': "usable h'" "cfg_of h' = cfg_of (hw s2)" "out_cfg h' = out_cfg (hw s2)"
        "out_on h' = (out_on (hw s2))(hwpwm (pwm_at s2 p) := enabled st)" by auto
    have "\<not> (period st = 0 \<or> duty_cycle st > period st)" using enable(1,2) by (simp add: not_less)
    then show ?thesis using s' h h' pol assms(3) by (simp add: s2 agrees_def)
  next
    case same
    then show ?thesis using assms(2) ag by (simp add: not_less)
  next
    case invalid
    then show ?thesis using assms(2) ag by simp
  qed
  then show "r = (if period st = 0 \<or> duty_cycle st > period st then - EINVAL
              else if polarity st \<noteq> polarity (state (pwm_at s p)) then - ENOTSUPP else 0)"
    "r \<noteq> 0 \<Longrightarrow> s' = s" "usable (hw s')" "agrees out_on out_cfg cfg_of (hw s') (pwm_at s' p)"
    "j \<noteq> hwpwm (pwm_at s p) \<Longrightarrow> out_on (hw s') j = out_on (hw s) j \<and> out_cfg (hw s') j = out_cfg (hw s) j"
    "cfg_of (hw s') = cfg_of (hw s)" by blast+
  show "state (pwm_at s' p) = st" if "r = 0"
    using apply_state_done run assms(3) that by blast
qed

end

section \<open>The Realtek driver keeps the contract\<close>

definition rts_usable :: "rts_hw \<Rightarrow> bool" where
  "rts_usable h \<longleftrightarrow> busclk h \<noteq> 0 \<and> busclk h \<le> NS_IN_HZ \<and> \<not> fault h"

definition rts_on :: "rts_hw \<Rightarrow> nat \<Rightarrow> bool" where
  "rts_on h i \<longleftrightarrow> pwm_readl i XB2_PWM_EN h \<noteq> 0"

definition rts_cfg :: "rts_hw \<Rightarrow> nat \<Rightarrow> u32 \<times> u32" where
  "rts_cfg h i = (pwm_readl i XB2_PWM_HIGH h, pwm_readl i XB2_PWM_LOW h)"

definition rts_cfg_of :: "rts_hw \<Rightarrow> int \<Rightarrow> int \<Rightarrow> u32 \<times> u32" where
  "rts_cfg_of h d p = (let tin = NS_IN_HZ div busclk h; high = word_of_int d div tin
                       in (high, word_of_int p div tin - high))"

lemma usable_tin:
  assumes "rts_usable h"
  shows "NS_IN_HZ div busclk h \<noteq> 0"
proof -
  have "0 < unat (busclk h)" "unat (busclk h) \<le> unat NS_IN_HZ"
    using assms by (simp_all add: rts_usable_def unat_gt_0 word_le_nat_alt)
  then have "unat NS_IN_HZ div unat (busclk h) \<noteq> 0" by (simp add: div_eq_0_iff)
  then show ?thesis by (metis unat_0 unat_div_distrib)
qed

text \<open>Registers of different channels, and different registers of a channel, do not overlap.\<close>

lemma reg_addr [simp]:
  "(i * 64 = Suc (Suc (Suc (Suc (Suc (Suc (Suc (Suc (j * 64))))))))) = False"
  "(8 + i * 64 = 8 + j * 64) = (i = (j::nat))"
  "(12 + i * 64 = 12 + j * 64) = (i = (j::nat))"
  "(8 + i * 64 = 12 + (j::nat) * 64) = False" "(12 + i * 64 = 8 + (j::nat) * 64) = False"
  "(i * 64 = 8 + (j::nat) * 64) = False" "(i * 64 = 12 + (j::nat) * 64) = False"
  "(8 + i * 64 = (j::nat) * 64) = False" "(12 + i * 64 = (j::nat) * 64) = False"
  by presburger+

interpretation rts: legacy_driver rtsx_pwm_ops rtsx_pwm_config rtsx_pwm_enable rtsx_pwm_disable
    rts_usable rts_on rts_cfg rts_cfg_of
proof (unfold_locales, goal_cases)
  case (6 h c pd d p e h')
  note tin = usable_tin [OF 6(1)]
  have bc: "busclk h \<noteq> 0" using 6(1) by (simp add: rts_usable_def)
  have h': "e = 0" "h' = h\<lparr>regs := (regs h)(8 + hwpwm pd * 64 := word_of_int d div (NS_IN_HZ div busclk h),
      12 + hwpwm pd * 64 := word_of_int p div (NS_IN_HZ div busclk h) - word_of_int d div (NS_IN_HZ div busclk h))\<rparr>"
    using 6(2) tin bc by (simp_all add: rtsx_pwm_config_def Let_def rts_offsets add.commute)
  have "rts_usable h'" "rts_cfg_of h' = rts_cfg_of h"
    using 6(1) by (simp_all add: h' rts_usable_def rts_cfg_of_def fun_eq_iff)
  moreover have "rts_on h' = rts_on h"
    by (simp add: h' rts_on_def pwm_readl_def rts_offsets fun_eq_iff)
  moreover have "rts_cfg h' = (rts_cfg h)(hwpwm pd := rts_cfg_of h d p)"
    by (auto simp: h' rts_cfg_def rts_cfg_of_def pwm_readl_def rts_offsets fun_eq_iff Let_def)
  ultimately show ?case by (simp add: h')
next
  case (7 h c pd e h')
  have h': "e = 0" "h' = h\<lparr>regs := (regs h)(hwpwm pd * 64 := 1)\<rparr>"
    using 7(2) by (simp_all add: rtsx_pwm_enable_def pwm_writel_def rts_offsets)
  show ?case
    using 7(1) by (auto simp: h' rts_usable_def rts_on_def rts_cfg_def rts_cfg_of_def pwm_readl_def rts_offsets fun_eq_iff)
next
  case (8 h c pd h')
  have h': "h' = h\<lparr>regs := (regs h)(hwpwm pd * 64 := 0)\<rparr>"
    using 8(2) by (simp add: rtsx_pwm_disable_def pwm_writel_def rts_offsets)
  show ?case
    using 8(1) by (auto simp: h' rts_usable_def rts_on_def rts_cfg_def rts_cfg_of_def pwm_readl_def rts_offsets fun_eq_iff)
qed (simp_all add: rtsx_pwm_ops_def)

lemma word_of_sint: "word_of_int (sint w) = (w :: u32)"
  by simp

text \<open>High and low counts add up to the period in ticks, without wrap-around.\<close>

lemma rts_counts:
  fixes d p :: u32
  assumes "rts_usable h" and "d \<le> p" and "rts_cfg_of h (sint d) (sint p) = (hi, lo)"
  shows "unat hi = unat d div (10 ^ 9 div unat (busclk h))"
    and "unat hi + unat lo = unat p div (10 ^ 9 div unat (busclk h))"
proof -
  have hi: "hi = d div (NS_IN_HZ div busclk h)" and lo: "lo = p div (NS_IN_HZ div busclk h) - hi"
    using assms(3) by (auto simp: rts_cfg_of_def Let_def word_of_sint)
  show u: "unat hi = unat d div (10 ^ 9 div unat (busclk h))" by (simp add: hi unat_div_distrib NS_IN_HZ_def)
  have "unat d \<le> unat p" using assms(2) by (simp add: word_le_nat_alt)
  then have "unat hi \<le> unat (p div (NS_IN_HZ div busclk h))" by (simp add: u unat_div_distrib NS_IN_HZ_def div_le_mono)
  then show "unat hi + unat lo = unat p div (10 ^ 9 div unat (busclk h))"
    by (simp add: lo unat_sub word_le_nat_alt unat_div_distrib NS_IN_HZ_def)
qed

text \<open>C14: the composition of the framework with the Realtek driver.  On a channel whose registers
  agree with the framework's view, with a bus clock between 1 Hz and 1 GHz, \<open>pwm_apply_state\<close>
  returns \<open>-EINVAL\<close> for an inadmissible request, \<open>-ENOTSUPP\<close> for a change of polarity (the
  driver has none) with nothing changed, and 0 otherwise.  Then the channel is switched as
  requested, its high and low counts are the duty cycle and the rest of the period in clock
  ticks (they add up to the period without wrap-around), the view and the registers agree
  again, and the registers of every other channel are as before.\<close>
theorem rts_apply_state:
  assumes "ops (chip_at s (fst p)) = Some rtsx_pwm_ops" and "valid_pwm s p" and "rts_usable (hw s)"
    and "agrees rts_on rts_cfg rts_cfg_of (hw s) (pwm_at s p)"
    and "pwm_apply_state (Some p) (Some st) s = (r, s')"
  shows "(r = (if period st = 0 \<or> duty_cycle st > period st then - EINVAL
               else if polarity st \<noteq> polarity (state (pwm_at s p)) then - ENOTSUPP else 0)) \<and>
    (r \<noteq> 0 \<longrightarrow> s' = s) \<and>
    agrees rts_on rts_cfg rts_cfg_of (hw s') (pwm_at s' p) \<and> rts_usable (hw s') \<and>
    (\<forall>j. j \<noteq> hwpwm (pwm_at s p) \<longrightarrow> rts_on (hw s') j = rts_on (hw s) j \<and> rts_cfg (hw s') j = rts_cfg (hw s) j) \<and>
    (r = 0 \<longrightarrow> (let n = hwpwm (pwm_at s p); tin = 10 ^ 9 div unat (busclk (hw s));
                    high = unat (pwm_readl n XB2_PWM_HIGH (hw s')); low = unat (pwm_readl n XB2_PWM_LOW (hw s'))
      in state (pwm_at s' p) = st \<and> (pwm_readl n XB2_PWM_EN (hw s') \<noteq> 0 \<longleftrightarrow> enabled st) \<and>
         high = unat (duty_cycle st) div tin \<and> high + low = unat (period st) div tin))"
proof -
  have ops: "ops_at s p = rtsx_pwm_ops" using assms(1) by simp
  note tot = rts.apply_state_total [OF ops assms(3,2,4,5)]
  have "let n = hwpwm (pwm_at s p); tin = 10 ^ 9 div unat (busclk (hw s));
                    high = unat (pwm_readl n XB2_PWM_HIGH (hw s')); low = unat (pwm_readl n XB2_PWM_LOW (hw s'))
      in state (pwm_at s' p) = st \<and> (pwm_readl n XB2_PWM_EN (hw s') \<noteq> 0 \<longleftrightarrow> enabled st) \<and>
         high = unat (duty_cycle st) div tin \<and> high + low = unat (period st) div tin" if "r = 0"
  proof -
    let ?n = "hwpwm (pwm_at s p)"
    have st: "state (pwm_at s' p) = st" by (rule tot(3) [OF that])
    have n: "hwpwm (pwm_at s' p) = ?n"
      using same_butD(3) [OF apply_state_same_but [OF assms(5)]] by (metis pwm_device.select_convs(3) pwm_device.surjective pwm_device.update_convs(8))
    have ok: "period st \<noteq> 0" "duty_cycle st \<le> period st"
      using tot(1) that by (auto split: if_splits)
    have cfg: "rts_cfg_of (hw s) (sint (duty_cycle st)) (sint (period st)) =
        (pwm_readl ?n XB2_PWM_HIGH (hw s'), pwm_readl ?n XB2_PWM_LOW (hw s'))"
      and on: "rts_on (hw s') ?n = enabled st"
      using tot(5,7) ok(1) by (simp_all add: agrees_def st n rts_cfg_def)
    then show ?thesis
      using rts_counts [OF assms(3) ok(2) cfg] st by (simp add: rts_on_def Let_def)
  qed
  then show ?thesis using tot(1,2,4,5,6) by blast
qed

section \<open>The driver's own enable attribute\<close>

lemma enable_loop_unique:
  assumes "d_dev d = dv" and "d_pwm d = Some p" and "\<forall>e \<in> set ds1 \<union> set ds2. d_dev e \<noteq> dv"
  shows "enable_loop v dv (ds1 @ d # ds2) s =
    (0, if v \<noteq> 0 then snd (pwm_enable (Some p) (snd (pwm_config (Some p) (duty_ns d) (period_ns d) s)))
        else pwm_disable (Some p) s)"
proof -
  have tail: "enable_loop v dv ds2 t = (0, t)" for t
    using assms(3) by (induction ds2) auto
  show ?thesis using assms tail by (induction ds1) auto
qed

text \<open>A channel of the Realtek chip that the framework and the registers agree on.\<close>

definition rts_chan :: "rts_hw pwm_core \<Rightarrow> pwm_ptr \<Rightarrow> bool" where
  "rts_chan s p \<longleftrightarrow> ops (chip_at s (fst p)) = Some rtsx_pwm_ops \<and> valid_pwm s p \<and> rts_usable (hw s) \<and>
     agrees rts_on rts_cfg rts_cfg_of (hw s) (pwm_at s p)"

lemma rts_chan_apply:
  assumes "rts_chan s p" and "polarity st = polarity (state (pwm_at s p))"
    and "pwm_apply_state (Some p) (Some st) s = (r, s')"
  shows "rts_chan s' p" and "r = 0 \<longleftrightarrow> period st \<noteq> 0 \<and> duty_cycle st \<le> period st"
    and "r = 0 \<Longrightarrow> state (pwm_at s' p) = st" and "r \<noteq> 0 \<Longrightarrow> s' = s"
proof -
  have ops: "ops_at s p = rtsx_pwm_ops" and v: "valid_pwm s p" and u: "rts_usable (hw s)"
    and ag: "agrees rts_on rts_cfg rts_cfg_of (hw s) (pwm_at s p)"
    using assms(1) by (simp_all add: rts_chan_def)
  note tot = rts.apply_state_total [OF ops u v ag assms(3)]
  note sb = same_butD [OF apply_state_same_but [OF assms(3)]]
  show "rts_chan s' p" using assms(1) tot(4,5) sb(1,4) by (simp add: rts_chan_def)
  show "r = 0 \<longleftrightarrow> period st \<noteq> 0 \<and> duty_cycle st \<le> period st" using tot(1) assms(2) by (auto simp: not_less)
  show "r = 0 \<Longrightarrow> state (pwm_at s' p) = st" "r \<noteq> 0 \<Longrightarrow> s' = s" using tot(2,3) by blast+
qed

lemma word_of_int_30:
  assumes "0 \<le> (d :: int)" and "d < 0x40000000" and "0 \<le> e" and "e < 0x40000000"
  shows "(word_of_int d :: u32) \<le> word_of_int e \<longleftrightarrow> d \<le> e" and "(word_of_int d :: u32) = 0 \<longleftrightarrow> d = 0"
proof -
  have "uint (word_of_int x :: u32) = x" if "0 \<le> x" "x < 0x40000000" for x
    using that by (simp add: unsigned_of_int take_bit_int_eq_self)
  then show "(word_of_int d :: u32) \<le> word_of_int e \<longleftrightarrow> d \<le> e" "(word_of_int d :: u32) = 0 \<longleftrightarrow> d = 0"
    using assms unsigned_eq_0_iff [of "word_of_int d :: u32", where 'a = int] by (auto simp: word_le_def)
qed

lemma rts_chan_config:
  assumes "rts_chan s p" and "state_ok (state (pwm_at s p))" and "d < 0x40000000" and "e < 0x40000000"
    and "pwm_config (Some p) d e s = (r, s')"
  shows "rts_chan s' p" and
    "state (pwm_at s' p) = (if 0 \<le> d \<and> d \<le> e \<and> 0 < e
       then (state (pwm_at s p))\<lparr>duty_cycle := word_of_int d, period := word_of_int e\<rparr> else state (pwm_at s p))"
proof -
  let ?st = "(state (pwm_at s p))\<lparr>duty_cycle := word_of_int d, period := word_of_int e\<rparr>"
  have "rts_chan s' p \<and> state (pwm_at s' p) = (if 0 \<le> d \<and> d \<le> e \<and> 0 < e then ?st else state (pwm_at s p))"
  proof (cases "d < 0 \<or> e < 0")
    case True
    then have "s' = s" using assms(5) by (auto simp: pwm_config_def)
    with True assms(1) show ?thesis by auto
  next
    case False
    note w = word_of_int_30 [of d e] word_of_int_30(2) [of e e]
    show ?thesis
    proof (cases "duty_cycle (state (pwm_at s p)) = word_of_int d \<and> period (state (pwm_at s p)) = word_of_int e")
      case True
      have "s' = s" using assms(5) False True by (simp add: pwm_config_def pwm_get_state_def)
      moreover have "?st = state (pwm_at s p)" using True by (auto intro: pwm_state.equality)
      ultimately show ?thesis using assms(1) by simp
    next
      case ne: False
      have ap: "pwm_apply_state (Some p) (Some ?st) s = (r, s')"
        using assms(5) False ne by (auto simp: pwm_config_def pwm_get_state_def Let_def split: if_splits)
      have "r = 0 \<longleftrightarrow> 0 \<le> d \<and> d \<le> e \<and> 0 < e"
        using rts_chan_apply(2) [OF assms(1) _ ap] w False assms(3,4) by auto
      then show ?thesis using rts_chan_apply [OF assms(1) _ ap] by auto
    qed
  qed
  then show "rts_chan s' p" "state (pwm_at s' p) = (if 0 \<le> d \<and> d \<le> e \<and> 0 < e then ?st else state (pwm_at s p))"
    by auto
qed

lemma config_state_ok:
  assumes "state_ok st" and "d < 0x40000000" and "e < 0x40000000" and "0 \<le> d" and "d \<le> e"
  shows "state_ok (st\<lparr>duty_cycle := word_of_int d, period := word_of_int e\<rparr>)"
  using word_of_int_30(1) [of d e] assms by (simp add: state_ok_def)

text \<open>Writing a non-zero number to \<open>enable\<close> of a requested channel always reports success.
  When the stored duty cycle and period are valid the channel runs with them.  When they are
  not (negative, duty above period, or no period) the error of \<open>pwm_config\<close> is dropped: the
  channel is switched on with its previous configuration if it had one, and stays off if it had
  none.\<close>
theorem rts_enable_store_spec:
  assumes "kstrtol buf = (0, v)" and "v \<noteq> 0" and "d_dev d = dv" and "d_pwm d = Some p"
    and "\<forall>e \<in> set ds1 \<union> set ds2. d_dev e \<noteq> dv" and "duty_ns d < 0x40000000" and "period_ns d < 0x40000000"
    and "rts_chan s p" and "state_ok (state (pwm_at s p))"
    and "rts_enable_store kstrtol dv buf (ds1 @ d # ds2) s = (r, s')"
  shows "r = int (length buf) \<and> rts_chan s' p \<and>
    state (pwm_at s' p) =
      (if 0 \<le> duty_ns d \<and> duty_ns d \<le> period_ns d \<and> 0 < period_ns d
       then (state (pwm_at s p))\<lparr>duty_cycle := word_of_int (duty_ns d), period := word_of_int (period_ns d), enabled := True\<rparr>
       else if period (state (pwm_at s p)) \<noteq> 0 then (state (pwm_at s p))\<lparr>enabled := True\<rparr>
       else state (pwm_at s p))"
proof -
  obtain r1 s1 where c: "pwm_config (Some p) (duty_ns d) (period_ns d) s = (r1, s1)" by force
  obtain r2 s2 where en: "pwm_enable (Some p) s1 = (r2, s2)" by force
  have res: "r = int (length buf)" "s' = s2"
    using assms(10) enable_loop_unique [OF assms(3-5), of v s] assms(1,2) c en
    by (simp_all add: rts_enable_store_def size_or_def)
  note c1 = rts_chan_config [OF assms(8,9,6,7) c]
  let ?valid = "0 \<le> duty_ns d \<and> duty_ns d \<le> period_ns d \<and> 0 < period_ns d"
  have ok1: "state_ok (state (pwm_at s1 p))"
    using c1(2) assms(9) config_state_ok [OF assms(9,6,7)] by auto
  have per: "period (state (pwm_at s1 p)) = 0 \<longleftrightarrow> \<not> ?valid \<and> period (state (pwm_at s p)) = 0"
    using c1(2) word_of_int_30(2) [of "period_ns d" "period_ns d"] assms(7) by auto
  have "rts_chan s2 p \<and> state (pwm_at s2 p) =
      (if period (state (pwm_at s1 p)) \<noteq> 0 then (state (pwm_at s1 p))\<lparr>enabled := True\<rparr> else state (pwm_at s1 p))"
  proof (cases "enabled (state (pwm_at s1 p))")
    case True
    then have "s2 = s1" using en by (simp add: pwm_enable_def pwm_get_state_def)
    moreover have "(state (pwm_at s1 p))\<lparr>enabled := True\<rparr> = state (pwm_at s1 p)"
      using True by (auto intro: pwm_state.equality)
    ultimately show ?thesis using c1(1) by simp
  next
    case False
    have ap: "pwm_apply_state (Some p) (Some ((state (pwm_at s1 p))\<lparr>enabled := True\<rparr>)) s1 = (r2, s2)"
      using en False by (simp add: pwm_enable_def pwm_get_state_def Let_def)
    note a = rts_chan_apply [OF c1(1) _ ap]
    show ?thesis using a ok1 by (cases "r2 = 0") (auto simp: state_ok_def)
  qed
  then show ?thesis using res c1(2) per by auto
qed

section \<open>Two consequences of global numbering and of the probe order\<close>

text \<open>The request attribute asks for the global channel number \<open>i\<close>, although the chip registers
  with a dynamic base: what it gets is channel \<open>i\<close> of its own chip exactly when the base came
  out as 0.\<close>

lemma rts_request_own_channel:
  assumes "reg_inv s" and "c \<in> set (pwm_chips s)" and "i < npwm (chip_at s c)"
    and "pwm_request (int i) None s = (Inr p, s1)"
  shows "p = (c, i) \<longleftrightarrow> base (chip_at s c) = 0"
proof -
  have t: "pwm_tree s i = Some p"
    using assms(4) by (auto simp: pwm_request_def pwm_to_device_def split: if_splits option.splits prod.splits)
  have "0 \<le> base (chip_at s c)" using assms(1,2) by (auto simp: reg_inv_def chip_ok_def Let_def)
  moreover have "pwm_tree s i = Some (c, i) \<longleftrightarrow> i = nat (base (chip_at s c)) + i"
    using assms(1-3) unfolding reg_inv_def by blast
  ultimately show ?thesis using t by auto
qed

text \<open>A failure after \<open>pwmchip_add\<close> (here: creating the class) makes probe fail and leaves the chip
  registered.\<close>

lemma rts_probe_leaves_chip:
  assumes "rtsx_pwm_probe find_area E c dv s = (r, ds, s')" and "class_ret E < 0"
    and "kzalloc_ok E" "ioremap_ret E = 0" "clk_ret E = Inr rate" "pinctrl_ret E = 0" "default_ret E = 0" "select_ret E = 0"
    and "find_area_ok find_area" and "\<exists>a. area_free (allocated_pwms s) MAX_PWMS a NUM_PWM" and "add_kcalloc_ok E"
    and "reg_inv s" and "c \<notin> set (pwm_chips s)"
  shows "r < 0 \<and> c \<in> set (pwm_chips s')"
proof -
  define s2 where "s2 = (let s1 = upd_chip c (\<lambda>_. \<lparr>dev = Some dv, ops = Some rtsx_pwm_ops, base = - 1, npwm = NUM_PWM,
                                    of_xlate = None, of_pwm_n_cells = 0, pwms = []\<rparr>)
                     (s\<lparr>hw := (hw s)\<lparr>busclk := rate\<rparr>\<rparr>) in s1\<lparr>hw := keep_all (hw s1)\<rparr>)"
  obtain ret s3 where add: "pwmchip_add find_area True (add_create_ok E) (Some c) s2 = (ret, s3)" by force
  let ?b = "alloc_pwms find_area (allocated_pwms s) (- 1) NUM_PWM"
  have "0 < NUM_PWM" "NUM_PWM < 2 ^ 30" by (simp_all add: NUM_PWM_def)
  from alloc_pwms_spec [OF assms(9) this, of "allocated_pwms s" "- 1"] assms(10)
  have "0 \<le> ?b" by (simp add: Let_def MAX_PWMS_def)
  moreover have "pwm_ops_check rtsx_pwm_ops" by (simp add: pwm_ops_check_def rtsx_pwm_ops_def)
  moreover have "pwm_chips (fold (add_step c pol) [0..<n] t) = pwm_chips t" for pol n and t :: "rts_hw pwm_core"
  proof (induction n)
    case (Suc n)
    then show ?case using add_step_eq [of c pol n "fold (add_step c pol) [0..<n] t"] by auto
  qed simp
  ultimately have "ret = 0 \<and> c \<in> set (pwm_chips s3)"
    using add by (auto simp: pwmchip_add_def pwmchip_add_with_polarity_def s2_def Let_def NUM_PWM_def add_tail)
  then show ?thesis
    using assms(1-8,11) add by (simp add: rtsx_pwm_probe_def s2_def Let_def)
qed

section \<open>Witnesses\<close>

definition rts_demo :: "rts_hw pwm_core" where
  "rts_demo = \<lparr>chip_mem = (\<lambda>_. \<lparr>dev = Some \<lparr>dev_name = ''pwm'', of_node = None\<rparr>, ops = Some rtsx_pwm_ops,
       base = 0, npwm = 1, of_xlate = None, of_pwm_n_cells = 0, pwms = [zero_pwm]\<rparr>),
     pwm_chips = [0], allocated_pwms = {0}, pwm_tree = [0 \<mapsto> (0, 0)], pwm_lookup_list = [],
     mod_live = (\<lambda>_. True), mod_refs = (\<lambda>_. 0), node_refs = (\<lambda>_. 0), parents = [0], children = [],
     hw = \<lparr>regs = (\<lambda>_. 0), busclk = 50000000, fault = False\<rparr>\<rparr>"

lemma rts_demo_chan:
  "rts_chan rts_demo (0, 0)" "ops (chip_at rts_demo (fst (0, 0))) = Some rtsx_pwm_ops" "valid_pwm rts_demo (0, 0)"
  "rts_usable (hw rts_demo)" "agrees rts_on rts_cfg rts_cfg_of (hw rts_demo) (pwm_at rts_demo (0, 0))"
  by (simp_all add: rts_chan_def rts_demo_def valid_pwm_def rts_usable_def NS_IN_HZ_def agrees_def rts_on_def
      pwm_readl_def zero_pwm_def zero_state_def)

lemma rts_demo_values:
  "pwms (chip_at rts_demo 0) ! 0 = zero_pwm" "busclk (hw rts_demo) = 50000000" "hwpwm zero_pwm = 0"
  "polarity (state zero_pwm) = PWM_POLARITY_NORMAL"
  by (simp_all add: rts_demo_def zero_pwm_def zero_state_def)

theorem rts_apply_state_witness:
  "let st = \<lparr>period = 1000, duty_cycle = 250, polarity = PWM_POLARITY_NORMAL, enabled = True\<rparr>;
       out = pwm_apply_state (Some (0, 0)) (Some st) rts_demo
   in fst out = 0 \<and> unat (pwm_readl 0 XB2_PWM_HIGH (hw (snd out))) = 12 \<and>
      unat (pwm_readl 0 XB2_PWM_HIGH (hw (snd out))) + unat (pwm_readl 0 XB2_PWM_LOW (hw (snd out))) = 50"
  using rts_apply_state [OF rts_demo_chan(2-5) prod.collapse [symmetric],
      of "\<lparr>period = 1000, duty_cycle = 250, polarity = PWM_POLARITY_NORMAL, enabled = True\<rparr>"]
  by (simp add: Let_def rts_demo_values) arith

theorem rts_enable_store_spec_witness:
  "fst (rts_enable_store (\<lambda>_. (0, 1)) (Some 5) ''1'' ([] @ \<lparr>d_dev = Some 5, d_pwm = Some (0, 0), duty_ns = 7, period_ns = 3\<rparr> # []) rts_demo) = 1 \<and>
   \<not> enabled (state (pwm_at (snd (rts_enable_store (\<lambda>_. (0, 1)) (Some 5) ''1''
       ([] @ \<lparr>d_dev = Some 5, d_pwm = Some (0, 0), duty_ns = 7, period_ns = 3\<rparr> # []) rts_demo)) (0, 0)))"
proof -
  have ok: "state_ok (state (pwm_at rts_demo (0, 0)))"
    by (simp add: rts_demo_def zero_pwm_def zero_state_def state_ok_def)
  show ?thesis
    using rts_enable_store_spec [OF _ _ _ _ _ _ _ rts_demo_chan(1) ok prod.collapse [symmetric],
        where kstrtol = "\<lambda>_. (0, 1)" and buf = "''1''" and v = 1 and dv = "Some 5" and ?ds1.0 = "[]" and ?ds2.0 = "[]"
          and d = "\<lparr>d_dev = Some 5, d_pwm = Some (0, 0), duty_ns = 7, period_ns = 3\<rparr>"]
    by (simp add: rts_demo_def zero_pwm_def zero_state_def)
qed

end
