(* ===== verification/Pinmux.thy ===== *)
theory Pinmux
  imports Prelude
begin

text \<open>
  Ownership of pins (\<open>drivers/pinctrl/pinmux.c\<close> with the structures of
  \<open>drivers/pinctrl/core.h\<close>): claiming single pins for a function or for GPIO, and enabling and
  disabling a mux setting for a group of pins with its rollback.

  The state is one pin controller: the pin descriptors by pin number (\<open>pin_desc_tree\<close>), the
  reference count of the module that owns it, and the hardware state that the driver callbacks of
  \<open>struct pinmux_ops\<close> and \<open>struct pinctrl_ops\<close> act on.  A \<open>struct pinctrl_gpio_range\<close> is passed
  through to the callbacks and is of no further interest: it is its name.  A mux setting is
  known by its address, because \<open>pinmux_disable_setting\<close> compares addresses.
\<close>

section \<open>Data\<close>

record pin_desc =
  name :: string
  mux_usecount :: u32
  mux_owner :: "string option"
  mux_setting :: "nat option"
  gpio_owner :: "string option"

record 'h pinmux_ops =
  pm_request :: "(int \<Rightarrow> 'h \<Rightarrow> int \<times> 'h) option"
  pm_free :: "(int \<Rightarrow> 'h \<Rightarrow> 'h) option"
  get_functions_count :: "('h \<Rightarrow> nat) option"
  get_function_name :: "('h \<Rightarrow> nat \<Rightarrow> string option) option"
  get_function_groups :: "('h \<Rightarrow> nat \<Rightarrow> int \<times> string list) option"
  set_mux :: "(nat \<Rightarrow> nat \<Rightarrow> 'h \<Rightarrow> int \<times> 'h) option"
  gpio_request_enable :: "(string \<Rightarrow> int \<Rightarrow> 'h \<Rightarrow> int \<times> 'h) option"
  gpio_disable_free :: "(string \<Rightarrow> int \<Rightarrow> 'h \<Rightarrow> 'h) option"
  gpio_set_direction :: "(string \<Rightarrow> int \<Rightarrow> bool \<Rightarrow> 'h \<Rightarrow> int \<times> 'h) option"
  strict :: bool

record 'h pinctrl_ops =
  get_groups_count :: "'h \<Rightarrow> nat"
  get_group_name :: "'h \<Rightarrow> nat \<Rightarrow> string option"
  get_group_pins :: "('h \<Rightarrow> nat \<Rightarrow> int \<times> int list) option"

record 'h pinctrl_dev =
  pin_desc_tree :: "int \<rightharpoonup> pin_desc"
  pc_live :: bool
  pc_refs :: int
  pc_hw :: 'h

record pinctrl_setting_mux =
  group :: nat
  func :: nat

record pinctrl_setting =
  addr :: nat
  set_dev_name :: string
  mux :: pinctrl_setting_mux

record pinctrl_map_mux =
  map_group :: "string option"
  map_function :: "string option"

definition pin_desc_get :: "'h pinctrl_dev \<Rightarrow> int \<Rightarrow> pin_desc option" where
  "pin_desc_get s pin = pin_desc_tree s pin"

definition set_pin :: "int \<Rightarrow> pin_desc \<Rightarrow> 'h pinctrl_dev \<Rightarrow> 'h pinctrl_dev" where
  "set_pin pin d s = s\<lparr>pin_desc_tree := (pin_desc_tree s)(pin \<mapsto> d)\<rparr>"

section \<open>Checks of the driver tables\<close>

fun names_ok :: "('h \<Rightarrow> nat \<Rightarrow> string option) \<Rightarrow> 'h \<Rightarrow> nat list \<Rightarrow> bool" where
  "names_ok gfn h [] = True"
| "names_ok gfn h (i # is) = (gfn h i \<noteq> None \<and> names_ok gfn h is)"

definition pinmux_check_ops :: "'h pinmux_ops option \<Rightarrow> 'h \<Rightarrow> int" where
  "pinmux_check_ops oo h = (case oo of None \<Rightarrow> - EINVAL
   | Some o1 \<Rightarrow>
       (case (get_functions_count o1, get_function_name o1) of
          (Some gfc, Some gfn) \<Rightarrow>
            if get_function_groups o1 = None \<or> set_mux o1 = None then - EINVAL
            else if names_ok gfn h [0..<gfc h] then 0 else - EINVAL
        | _ \<Rightarrow> - EINVAL))"

definition pinmux_validate_map :: "pinctrl_map_mux \<Rightarrow> int" where
  "pinmux_validate_map mp = (if map_function mp = None then - EINVAL else 0)"

definition pinmux_can_be_used_for_gpio :: "'h pinmux_ops option \<Rightarrow> 'h pinctrl_dev \<Rightarrow> int \<Rightarrow> bool" where
  "pinmux_can_be_used_for_gpio oo s pin = (case (pin_desc_get s pin, oo) of
     (Some d, Some o1) \<Rightarrow>
       if strict o1 \<and> mux_usecount d \<noteq> 0 then False else \<not> (strict o1 \<and> gpio_owner d \<noteq> None)
   | _ \<Rightarrow> True)"

section \<open>Claiming and releasing a pin\<close>

text \<open>The claim before the driver is asked, and its withdrawal at \<open>out_free_pin\<close>.\<close>

definition claim :: "string option \<Rightarrow> string \<Rightarrow> pin_desc \<Rightarrow> pin_desc" where
  "claim gr own d = (case gr of
     Some _ \<Rightarrow> d\<lparr>gpio_owner := Some own\<rparr>
   | None \<Rightarrow> let d1 = d\<lparr>mux_usecount := mux_usecount d + 1\<rparr>
             in if mux_usecount d1 > 1 then d1 else d1\<lparr>mux_owner := Some own\<rparr>)"

definition unclaim :: "string option \<Rightarrow> pin_desc \<Rightarrow> pin_desc" where
  "unclaim gr d = (case gr of
     Some _ \<Rightarrow> d\<lparr>gpio_owner := None\<rparr>
   | None \<Rightarrow> let d1 = d\<lparr>mux_usecount := mux_usecount d - 1\<rparr>
             in if mux_usecount d1 = 0 then d1\<lparr>mux_owner := None\<rparr> else d1)"

definition ask_driver :: "'h pinmux_ops \<Rightarrow> string option \<Rightarrow> int \<Rightarrow> 'h \<Rightarrow> int \<times> 'h" where
  "ask_driver o1 gr pin h = (case (gr, gpio_request_enable o1) of
     (Some r, Some f) \<Rightarrow> f r pin h
   | _ \<Rightarrow> (case pm_request o1 of Some f \<Rightarrow> f pin h | None \<Rightarrow> (0, h)))"

definition pin_request ::
    "'h pinmux_ops \<Rightarrow> int \<Rightarrow> string \<Rightarrow> string option \<Rightarrow> 'h pinctrl_dev \<Rightarrow> int \<times> 'h pinctrl_dev" where
  "pin_request o1 pin own gr s = (case pin_desc_get s pin of
     None \<Rightarrow> (- EINVAL, s)
   | Some d \<Rightarrow>
       if (gr = None \<or> strict o1) \<and> mux_usecount d \<noteq> 0 \<and> mux_owner d \<noteq> Some own then (- EINVAL, s)
       else if (gr \<noteq> None \<or> strict o1) \<and> gpio_owner d \<noteq> None then (- EINVAL, s)
       else let s1 = set_pin pin (claim gr own d) s in
         if gr = None \<and> mux_usecount (claim gr own d) > 1 then (0, s1)
         else if \<not> pc_live s1 then (- EINVAL, set_pin pin (unclaim gr (claim gr own d)) s1)
         else let s2 = s1\<lparr>pc_refs := pc_refs s1 + 1\<rparr> in
           (case ask_driver o1 gr pin (pc_hw s2) of (status, h) \<Rightarrow>
              if status \<noteq> 0
              then (status, set_pin pin (unclaim gr (claim gr own d)) (s2\<lparr>pc_hw := h, pc_refs := pc_refs s2 - 1\<rparr>))
              else (0, s2\<lparr>pc_hw := h\<rparr>)))"

definition tell_driver :: "'h pinmux_ops \<Rightarrow> string option \<Rightarrow> int \<Rightarrow> 'h \<Rightarrow> 'h" where
  "tell_driver o1 gr pin h = (case (gr, gpio_disable_free o1) of
     (Some r, Some f) \<Rightarrow> f r pin h
   | _ \<Rightarrow> (case pm_free o1 of Some f \<Rightarrow> f pin h | None \<Rightarrow> h))"

text \<open>The result is the previous owner.\<close>

definition pin_free :: "'h pinmux_ops \<Rightarrow> int \<Rightarrow> string option \<Rightarrow> 'h pinctrl_dev \<Rightarrow> string option \<times> 'h pinctrl_dev" where
  "pin_free o1 pin gr s = (case pin_desc_get s pin of
     None \<Rightarrow> (None, s)
   | Some d \<Rightarrow>
       if gr = None \<and> mux_usecount d = 0 then (None, s)
       else let d1 = (if gr = None then d\<lparr>mux_usecount := mux_usecount d - 1\<rparr> else d) in
         if gr = None \<and> mux_usecount d1 \<noteq> 0 then (None, set_pin pin d1 s)
         else let h = tell_driver o1 gr pin (pc_hw s);
                  d2 = (if gr \<noteq> None then d1\<lparr>gpio_owner := None\<rparr> else d1\<lparr>mux_owner := None, mux_setting := None\<rparr>)
              in (if gr \<noteq> None then gpio_owner d1 else mux_owner d1,
                  (set_pin pin d2 s)\<lparr>pc_hw := h, pc_refs := pc_refs s - 1\<rparr>))"

text \<open>\<open>owner_name\<close> is the string \<open>name:gpio\<close> that \<open>kasprintf\<close> builds, if it could be allocated.\<close>

definition pinmux_request_gpio ::
    "'h pinmux_ops \<Rightarrow> string option \<Rightarrow> string \<Rightarrow> int \<Rightarrow> 'h pinctrl_dev \<Rightarrow> int \<times> 'h pinctrl_dev" where
  "pinmux_request_gpio o1 owner_name rng pin s = (case owner_name of
     None \<Rightarrow> (- ENOMEM, s)
   | Some own \<Rightarrow> pin_request o1 pin own (Some rng) s)"

definition pinmux_free_gpio :: "'h pinmux_ops \<Rightarrow> int \<Rightarrow> string \<Rightarrow> 'h pinctrl_dev \<Rightarrow> 'h pinctrl_dev" where
  "pinmux_free_gpio o1 pin rng s = snd (pin_free o1 pin (Some rng) s)"

definition pinmux_gpio_direction ::
    "'h pinmux_ops \<Rightarrow> string \<Rightarrow> int \<Rightarrow> bool \<Rightarrow> 'h pinctrl_dev \<Rightarrow> int \<times> 'h pinctrl_dev" where
  "pinmux_gpio_direction o1 rng pin input s = (case gpio_set_direction o1 of
     Some f \<Rightarrow> (case f rng pin input (pc_hw s) of (ret, h) \<Rightarrow> (ret, s\<lparr>pc_hw := h\<rparr>))
   | None \<Rightarrow> (0, s))"

section \<open>From a map entry to a setting\<close>

text \<open>The search loops over selectors; a missing function name is not tested by the code and does
  not occur for a table that passed \<^const>\<open>pinmux_check_ops\<close>.\<close>

fun selector_loop :: "(nat \<Rightarrow> string option) \<Rightarrow> string \<Rightarrow> nat list \<Rightarrow> int" where
  "selector_loop nm s [] = - EINVAL"
| "selector_loop nm s (i # is) = (if nm i = Some s then int i else selector_loop nm s is)"

definition pinmux_func_name_to_selector :: "'h pinmux_ops \<Rightarrow> 'h \<Rightarrow> string \<Rightarrow> int" where
  "pinmux_func_name_to_selector o1 h f =
     selector_loop (the (get_function_name o1) h) f [0..<the (get_functions_count o1) h]"

definition pinctrl_get_group_selector :: "'h pinctrl_ops \<Rightarrow> 'h \<Rightarrow> string \<Rightarrow> int" where
  "pinctrl_get_group_selector p1 h g = selector_loop (get_group_name p1 h) g [0..<get_groups_count p1 h]"

text \<open>\<open>match_string\<close> is library code: the position of a string in an array or \<open>-EINVAL\<close>.\<close>

definition match_string :: "string list \<Rightarrow> string \<Rightarrow> int" where
  "match_string gs g = selector_loop (\<lambda>i. Some (gs ! i)) g [0..<length gs]"

definition pinmux_map_to_setting ::
    "'h pinmux_ops option \<Rightarrow> 'h pinctrl_ops \<Rightarrow> 'h \<Rightarrow> pinctrl_map_mux \<Rightarrow> pinctrl_setting_mux \<Rightarrow> int \<times> pinctrl_setting_mux" where
  "pinmux_map_to_setting oo p1 h mp st = (case oo of None \<Rightarrow> (- EINVAL, st)
   | Some o1 \<Rightarrow>
       let ret = pinmux_func_name_to_selector o1 h (the (map_function mp)) in
       if ret < 0 then (ret, st)
       else let st1 = st\<lparr>func := nat ret\<rparr> in
         (case the (get_function_groups o1) h (func st1) of (ret, groups) \<Rightarrow>
            if ret < 0 then (ret, st1)
            else if groups = [] then (- EINVAL, st1)
            else let mret = (case map_group mp of None \<Rightarrow> 0 | Some g \<Rightarrow> match_string groups g) in
              if mret < 0 then (mret, st1)
              else let grp = (case map_group mp of None \<Rightarrow> groups ! 0 | Some g \<Rightarrow> g);
                       ret = pinctrl_get_group_selector p1 h grp
                   in if ret < 0 then (ret, st1) else (0, st1\<lparr>group := nat ret\<rparr>)))"

section \<open>Enabling and disabling a setting\<close>

text \<open>The pins of the group; an error of the callback leaves the group without pins.\<close>

definition group_pins :: "'h pinctrl_ops \<Rightarrow> 'h \<Rightarrow> nat \<Rightarrow> int list" where
  "group_pins p1 h g = (case get_group_pins p1 of None \<Rightarrow> []
     | Some f \<Rightarrow> (case f h g of (ret, pins) \<Rightarrow> if ret \<noteq> 0 then [] else pins))"

text \<open>The first loop: the result is the error, the pins taken so far (last one first) and the
  state.\<close>

fun request_pins ::
    "'h pinmux_ops \<Rightarrow> string \<Rightarrow> int list \<Rightarrow> int list \<Rightarrow> 'h pinctrl_dev \<Rightarrow> int \<times> int list \<times> 'h pinctrl_dev" where
  "request_pins o1 own taken [] s = (0, taken, s)"
| "request_pins o1 own taken (p # ps) s = (case pin_request o1 p own None s of
     (ret, s1) \<Rightarrow> if ret \<noteq> 0 then (ret, taken, s1) else request_pins o1 own (p # taken) ps s1)"

definition release_pins :: "'h pinmux_ops \<Rightarrow> int list \<Rightarrow> 'h pinctrl_dev \<Rightarrow> 'h pinctrl_dev" where
  "release_pins o1 ps s = fold (\<lambda>p t. snd (pin_free o1 p None t)) ps s"

definition mark_pin :: "nat option \<Rightarrow> int \<Rightarrow> 'h pinctrl_dev \<Rightarrow> 'h pinctrl_dev" where
  "mark_pin m p s = (case pin_desc_get s p of None \<Rightarrow> s | Some d \<Rightarrow> set_pin p (d\<lparr>mux_setting := m\<rparr>) s)"

definition pinmux_enable_setting ::
    "'h pinmux_ops \<Rightarrow> 'h pinctrl_ops \<Rightarrow> pinctrl_setting \<Rightarrow> 'h pinctrl_dev \<Rightarrow> int \<times> 'h pinctrl_dev" where
  "pinmux_enable_setting o1 p1 st s =
     (let pins = group_pins p1 (pc_hw s) (group (mux st)) in
      case request_pins o1 (set_dev_name st) [] pins s of
        (ret, taken, s1) \<Rightarrow>
          if ret \<noteq> 0 then (ret, release_pins o1 taken s1)
          else let s2 = fold (mark_pin (Some (addr st))) pins s1 in
            (case the (set_mux o1) (func (mux st)) (group (mux st)) (pc_hw s2) of
               (ret, h) \<Rightarrow>
                 let s3 = s2\<lparr>pc_hw := h\<rparr> in
                 if ret \<noteq> 0 then (ret, release_pins o1 taken (fold (mark_pin None) pins s3))
                 else (0, s3)))"

definition disable_pin :: "'h pinmux_ops \<Rightarrow> nat \<Rightarrow> int \<Rightarrow> 'h pinctrl_dev \<Rightarrow> 'h pinctrl_dev" where
  "disable_pin o1 a p s = (case pin_desc_get s p of None \<Rightarrow> s
     | Some d \<Rightarrow> if mux_setting d = Some a then snd (pin_free o1 p None s) else s)"

definition pinmux_disable_setting ::
    "'h pinmux_ops \<Rightarrow> 'h pinctrl_ops \<Rightarrow> pinctrl_setting \<Rightarrow> 'h pinctrl_dev \<Rightarrow> 'h pinctrl_dev" where
  "pinmux_disable_setting o1 p1 st s =
     fold (disable_pin o1 (addr st)) (group_pins p1 (pc_hw s) (group (mux st))) s"

section \<open>All-or-nothing claims\<close>

text \<open>Claiming a list of resources one by one until one is refused; the taken ones come out in
  reverse order.\<close>

fun take_all :: "('p \<Rightarrow> 's \<Rightarrow> int \<times> 's) \<Rightarrow> 'p list \<Rightarrow> 'p list \<Rightarrow> 's \<Rightarrow> int \<times> 'p list \<times> 's" where
  "take_all cl taken [] s = (0, taken, s)"
| "take_all cl taken (p # ps) s = (case cl p s of
     (ret, s1) \<Rightarrow> if ret \<noteq> 0 then (ret, taken, s1) else take_all cl (p # taken) ps s1)"

text \<open>The contract between the group operations and the single-pin operations: \<open>view\<close> is what
  claims are about, a release acts on the view as \<open>rel\<close>, a granted claim is undone by it, a
  refused one does not show in the view.  \<open>room n\<close> says that \<open>n\<close> more claims can be counted.\<close>

locale claims =
  fixes view :: "'s \<Rightarrow> 'v"
    and room :: "nat \<Rightarrow> 's \<Rightarrow> bool"
    and cl :: "'p \<Rightarrow> 's \<Rightarrow> int \<times> 's"
    and release :: "'p \<Rightarrow> 's \<Rightarrow> 's"
    and rel :: "'p \<Rightarrow> 'v \<Rightarrow> 'v"
  assumes release_view: "view (release p s) = rel p (view s)"
    and claim_granted: "room (Suc n) s \<Longrightarrow> cl p s = (0, s') \<Longrightarrow> rel p (view s') = view s \<and> room n s'"
    and claim_refused: "room (Suc n) s \<Longrightarrow> cl p s = (e, s') \<Longrightarrow> e \<noteq> 0 \<Longrightarrow> view s' = view s"
    and rel_commute: "rel p (rel q v) = rel q (rel p v)"
begin

lemma release_list_view: "view (fold release ps s) = fold rel ps (view s)"
  by (induction ps arbitrary: s) (simp_all add: release_view)

lemma take_all_view:
  assumes "room (length ps) s" and "take_all cl taken ps s = (e, taken', s')"
  shows "fold rel taken' (view s') = fold rel taken (view s) \<and> set taken' \<subseteq> set taken \<union> set ps \<and>
    (e = 0 \<longrightarrow> taken' = rev ps @ taken)"
  using assms
proof (induction ps arbitrary: taken s)
  case (Cons p ps)
  obtain r s1 where c: "cl p s = (r, s1)" by force
  show ?case
  proof (cases "r = 0")
    case True
    have g: "rel p (view s1) = view s" "room (length ps) s1"
      using claim_granted Cons.prems(1) c True by auto
    have "take_all cl (p # taken) ps s1 = (e, taken', s')" using Cons.prems(2) c True by simp
    from Cons.IH [OF g(2) this] g(1) show ?thesis by auto
  next
    case False
    then show ?thesis using claim_refused [of "length ps" s p r s1] Cons.prems c by auto
  qed
qed simp

text \<open>Rolling back after a refusal, and giving everything back in any order after success.\<close>

lemma rollback_view:
  assumes "room (length ps) s" and "take_all cl [] ps s = (e, taken, s1)" and "view s2 = view s1"
  shows "view (fold release taken s2) = view s"
  using take_all_view [OF assms(1,2)] by (simp add: release_list_view assms(3))

lemma give_back_view:
  assumes "room (length ps) s" and "take_all cl [] ps s = (0, taken, s1)" and "view s2 = view s1"
  shows "view (fold release ps s2) = view s"
proof -
  have "fold rel (rev ps) = fold rel ps"
    by (rule fold_rev) (simp add: fun_eq_iff rel_commute)
  with take_all_view [OF assms(1,2)] have "fold rel ps (view s1) = view s" by auto
  then show ?thesis by (simp add: release_list_view assms(3))
qed

end

section \<open>The view of the claims\<close>

type_synonym pin_view = "(int \<rightharpoonup> u32 \<times> string option \<times> string option) \<times> int"

definition pin_claims :: "'h pinctrl_dev \<Rightarrow> pin_view" where
  "pin_claims s = (\<lambda>p. map_option (\<lambda>d. (mux_usecount d, mux_owner d, gpio_owner d)) (pin_desc_tree s p), pc_refs s)"

definition rel_mux :: "int \<Rightarrow> pin_view \<Rightarrow> pin_view" where
  "rel_mux p v = (case v of (m, r) \<Rightarrow> (case m p of
     None \<Rightarrow> (m, r)
   | Some (u, mo, go) \<Rightarrow>
       if u = 0 then (m, r) else if u = 1 then (m(p \<mapsto> (0, None, go)), r - 1) else (m(p \<mapsto> (u - 1, mo, go)), r)))"

text \<open>A pin is owned by a device exactly while its function is in use; on a strict controller the
  function and the GPIO owner of a pin are the same if there are both.  (The request compares owner
  names only, so a GPIO request under the name of the device that muxes the pin is granted.)\<close>

definition pin_ok :: "bool \<Rightarrow> pin_desc \<Rightarrow> bool" where
  "pin_ok st d \<longleftrightarrow> (mux_usecount d = 0 \<longleftrightarrow> mux_owner d = None) \<and> 
     (st \<longrightarrow> mux_usecount d = 0 \<or> gpio_owner d = None \<or> gpio_owner d = mux_owner d)"

text \<open>Every pin is consistent, and the module reference count is the number of claims.\<close>

definition pin_uses :: "'h pinctrl_dev \<Rightarrow> nat" where
  "pin_uses s = card {p. \<exists>d. pin_desc_tree s p = Some d \<and> mux_usecount d \<noteq> 0} +
                card {p. \<exists>d. pin_desc_tree s p = Some d \<and> gpio_owner d \<noteq> None}"

definition pins_inv :: "bool \<Rightarrow> int \<Rightarrow> 'h pinctrl_dev \<Rightarrow> bool" where
  "pins_inv st r0 s \<longleftrightarrow> finite (dom (pin_desc_tree s)) \<and>
     (\<forall>p d. pin_desc_tree s p = Some d \<longrightarrow> pin_ok st d) \<and> pc_refs s = r0 + int (pin_uses s)"

definition no_wrap :: "nat \<Rightarrow> 'h pinctrl_dev \<Rightarrow> bool" where
  "no_wrap n s \<longleftrightarrow> (\<forall>p d. pin_desc_tree s p = Some d \<longrightarrow> unat (mux_usecount d) + n < 2 ^ 32)"

lemma no_wrap_mono: "no_wrap n s \<Longrightarrow> m \<le> n \<Longrightarrow> no_wrap m s"
  unfolding no_wrap_def by (meson add_left_mono le_less_trans)

lemma unat_plus_1:
  fixes u :: u32
  assumes "unat u + Suc n < 2 ^ 32"
  shows "unat (u + 1) = Suc (unat u)" and "u + 1 \<noteq> 0" and "u + 1 > 1 \<longleftrightarrow> u \<noteq> 0" and "u + 1 = 1 \<longleftrightarrow> u = 0"
proof -
  show u: "unat (u + 1) = Suc (unat u)" using assms by (simp add: unat_word_ariths)
  then show "u + 1 \<noteq> 0" by (metis nat.distinct(1) unat_0)
  show "u + 1 > 1 \<longleftrightarrow> u \<noteq> 0" using u by (simp add: word_less_nat_alt unat_gt_0 [symmetric])
  show "u + 1 = 1 \<longleftrightarrow> u = 0" by simp
qed

lemma set_pin_simps [simp]:
  "pin_desc_tree (set_pin p d s) = (pin_desc_tree s)(p \<mapsto> d)" "pc_refs (set_pin p d s) = pc_refs s"
  "pc_hw (set_pin p d s) = pc_hw s" "pc_live (set_pin p d s) = pc_live s"
  "set_pin p d (set_pin p e s) = set_pin p d s"
  by (simp_all add: set_pin_def)

lemma set_pin_same: "pin_desc_tree s p = Some d \<Longrightarrow> set_pin p d s = s"
  by (simp add: set_pin_def fun_upd_idem)

lemma free_claims: "pin_claims (snd (pin_free o1 p None s)) = rel_mux p (pin_claims s)"
  by (auto simp: pin_free_def pin_desc_get_def pin_claims_def rel_mux_def Let_def fun_eq_iff split: option.split)

lemma rel_mux_commute: "rel_mux p (rel_mux q v) = rel_mux q (rel_mux p v)"
proof (cases "p = q")
  case False
  obtain m r where v: "v = (m, r)" by force
  from False show ?thesis
    by (auto simp: v rel_mux_def fun_upd_twist split: option.split)
qed simp

definition pin_room :: "bool \<Rightarrow> nat \<Rightarrow> 'h pinctrl_dev \<Rightarrow> bool" where
  "pin_room st n s \<longleftrightarrow> (\<forall>p d. pin_desc_tree s p = Some d \<longrightarrow> pin_ok st d) \<and> no_wrap n s"

lemma pin_roomD: "pin_room st n s \<Longrightarrow> pin_desc_tree s p = Some d \<Longrightarrow> pin_ok st d"
  "pin_room st n s \<Longrightarrow> no_wrap n s"
  by (simp_all add: pin_room_def)

text \<open>The outcomes of a request.\<close>

lemma unclaim_claim:
  assumes "pin_ok st d" and "unat (mux_usecount d) + Suc n < 2 ^ 32" and "gr = None \<longrightarrow> mux_usecount d = 0"
    and "gr \<noteq> None \<longrightarrow> gpio_owner d = None"
  shows "unclaim gr (claim gr own d) = d"
  using assms unat_plus_1 [OF assms(2)]
  by (cases gr) (auto simp: unclaim_def claim_def Let_def pin_ok_def intro!: pin_desc.equality)

lemma pin_request_cases [consumes 2, case_names absent owned gpio shared nomodule refused granted]:
  assumes "pin_request o1 p own gr s = (r, s')" and "pin_room st (Suc n) s"
  obtains "pin_desc_tree s p = None" "r = - EINVAL" "s' = s"
  | d where "pin_desc_tree s p = Some d" "gr = None \<or> strict o1" "mux_usecount d \<noteq> 0" "mux_owner d \<noteq> Some own"
      "r = - EINVAL" "s' = s"
  | d where "pin_desc_tree s p = Some d" "gr \<noteq> None \<or> strict o1" "gpio_owner d \<noteq> None" "r = - EINVAL" "s' = s"
  | d where "pin_desc_tree s p = Some d" "gr = None" "mux_usecount d \<noteq> 0" "mux_owner d = Some own"
      "strict o1 \<longrightarrow> gpio_owner d = None" "r = 0" "s' = set_pin p (d\<lparr>mux_usecount := mux_usecount d + 1\<rparr>) s"
  | d where "pin_desc_tree s p = Some d" "\<not> pc_live s" "r = - EINVAL" "s' = s" "gr = None \<longrightarrow> mux_usecount d = 0"
  | d h where "pin_desc_tree s p = Some d" "pc_live s" "ask_driver o1 gr p (pc_hw s) = (r, h)" "r \<noteq> 0"
      "s' = s\<lparr>pc_hw := h\<rparr>" "gr = None \<longrightarrow> mux_usecount d = 0"
  | d h where "pin_desc_tree s p = Some d" "pc_live s" "ask_driver o1 gr p (pc_hw s) = (0, h)" "r = 0"
      "gr = None \<longrightarrow> mux_usecount d = 0" "gr \<noteq> None \<longrightarrow> strict o1 \<longrightarrow> mux_usecount d = 0 \<or> mux_owner d = Some own"
      "gr \<noteq> None \<or> strict o1 \<longrightarrow> gpio_owner d = None"
      "s' = (set_pin p (if gr = None then d\<lparr>mux_usecount := 1, mux_owner := Some own\<rparr> else d\<lparr>gpio_owner := Some own\<rparr>) s)
              \<lparr>pc_refs := pc_refs s + 1, pc_hw := h\<rparr>"
proof (cases "pin_desc_tree s p")
  case None
  then have "r = - EINVAL" "s' = s" using assms(1) by (auto simp: pin_request_def pin_desc_get_def)
  with None that(1) show thesis by blast
next
  case (Some d)
  have ok: "pin_ok st d" using pin_roomD(1) [OF assms(2) Some] .
  have w: "unat (mux_usecount d) + Suc n < 2 ^ 32" using pin_roomD(2) [OF assms(2)] Some by (simp add: no_wrap_def)
  note u = unat_plus_1 [OF w]
  show thesis
  proof (cases "((gr = None \<or> strict o1) \<and> mux_usecount d \<noteq> 0 \<and> mux_owner d \<noteq> Some own) \<or>
      ((gr \<noteq> None \<or> strict o1) \<and> gpio_owner d \<noteq> None)")
    case True
    then have rs: "r = - EINVAL" "s' = s"
      using assms(1) Some by (auto simp: pin_request_def pin_desc_get_def split: if_splits)
    from True that(2,3) [OF Some] rs show thesis by blast
  next
    case free: False
    show thesis
    proof (cases "gr = None \<and> mux_usecount d \<noteq> 0")
      case True
      then have "claim gr own d = d\<lparr>mux_usecount := mux_usecount d + 1\<rparr>" "mux_usecount (claim gr own d) > 1"
        using u by (simp_all add: claim_def)
      with True free Some assms(1) have rs: "r = 0" "s' = set_pin p (d\<lparr>mux_usecount := mux_usecount d + 1\<rparr>) s"
        by (auto simp: pin_request_def pin_desc_get_def Let_def)
      have "mux_owner d = Some own" "strict o1 \<longrightarrow> gpio_owner d = None" using True free by auto
      then show thesis using that(4) [OF Some _ _ _ _ rs] True by simp
    next
      case new: False
      have cl: "claim gr own d = (if gr = None then d\<lparr>mux_usecount := 1, mux_owner := Some own\<rparr> else d\<lparr>gpio_owner := Some own\<rparr>)"
        "\<not> (gr = None \<and> mux_usecount (claim gr own d) > 1)"
        using new by (cases gr; simp add: claim_def)+
      have "gr = None \<longrightarrow> mux_usecount d = 0" "gr \<noteq> None \<longrightarrow> gpio_owner d = None" using new free by auto
      then have un: "unclaim gr (claim gr own d) = d" by (rule unclaim_claim [OF ok w])
      obtain e h where eh: "ask_driver o1 gr p (pc_hw s) = (e, h)" by force
      have eq: "pin_request o1 p own gr s =
         (if \<not> pc_live s then (- EINVAL, s)
          else if e \<noteq> 0 then (e, s\<lparr>pc_hw := h\<rparr>)
          else (0, (set_pin p (claim gr own d) s)\<lparr>pc_refs := pc_refs s + 1, pc_hw := h\<rparr>))"
        using free cl(2) un eh Some unfolding pin_request_def pin_desc_get_def Let_def
        by (auto simp: set_pin_same) (simp_all add: set_pin_def fun_upd_idem)
      show thesis
      proof (cases "pc_live s")
        case False
        then have "r = - EINVAL" "s' = s" using eq assms(1) by auto
        with that(5) [OF Some False] new show thesis by blast
      next
        case live: True
        show thesis
        proof (cases "e = 0")
          case True
          then have rs: "r = 0" "s' = (set_pin p (claim gr own d) s)\<lparr>pc_refs := pc_refs s + 1, pc_hw := h\<rparr>"
            using eq assms(1) live by auto
          have "ask_driver o1 gr p (pc_hw s) = (0, h)" using eh True by simp
          then show thesis
            by (rule that(7) [OF Some live _ rs(1) _ _ _ rs(2) [unfolded cl(1)]]) (use new free in auto)
        next
          case False
          then have rs: "r = e" "s' = s\<lparr>pc_hw := h\<rparr>" using eq assms(1) live by auto
          show thesis by (rule that(6) [OF Some live _ _ rs(2)]) (use eh False rs(1) new in auto)
        qed
      qed
    qed
  qed
qed

section \<open>The single-pin operations keep the contract\<close>

lemma pin_room_set:
  assumes "pin_room st (Suc n) s" and "pin_ok st d'" and "unat (mux_usecount d') + n < 2 ^ 32"
  shows "pin_room st n ((set_pin p d' s)\<lparr>pc_refs := r, pc_hw := h\<rparr>)" "pin_room st n (set_pin p d' s)"
proof -
  have "no_wrap n s" using assms(1) no_wrap_mono [of "Suc n" s n] by (simp add: pin_room_def)
  then show "pin_room st n ((set_pin p d' s)\<lparr>pc_refs := r, pc_hw := h\<rparr>)" "pin_room st n (set_pin p d' s)"
    using assms by (auto simp: pin_room_def no_wrap_def)
qed

lemma request_refused_view:
  assumes "pin_room st (Suc n) s" and "pin_request o1 p own gr s = (r, s')" and "r \<noteq> 0"
  shows "s' = s\<lparr>pc_hw := pc_hw s'\<rparr>"
  using assms(2,1) by (cases rule: pin_request_cases) (use assms(3) in auto)

lemma claims_hw [simp]: "pin_claims (s\<lparr>pc_hw := h\<rparr>) = pin_claims s"
  by (simp add: pin_claims_def)

lemma request_mux_granted:
  assumes room: "pin_room (strict o1) (Suc n) s" and "pin_request o1 p own None s = (0, s')"
  shows "rel_mux p (pin_claims s') = pin_claims s" and "pin_room (strict o1) n s'"
proof -
  have "rel_mux p (pin_claims s') = pin_claims s \<and> pin_room (strict o1) n s'"
    using assms(2) room
  proof (cases rule: pin_request_cases)
    case (shared d)
    have w: "unat (mux_usecount d) + Suc n < 2 ^ 32" using room shared(1) by (auto simp: pin_room_def no_wrap_def)
    note u = unat_plus_1 [OF w]
    have "pin_ok (strict o1) (d\<lparr>mux_usecount := mux_usecount d + 1\<rparr>)" using shared u by (simp add: pin_ok_def)
    moreover have "unat (mux_usecount (d\<lparr>mux_usecount := mux_usecount d + 1\<rparr>)) + n < 2 ^ 32" using u(1) w by simp
    ultimately have "pin_room (strict o1) n s'" 
      using shared pin_room_set(2) [OF room] by simp
    moreover have "rel_mux p (pin_claims s') = pin_claims s"
      using u shared by (auto simp: rel_mux_def pin_claims_def fun_eq_iff)
    ultimately show ?thesis by blast
  next
    case (granted d h)
    have "pin_ok (strict o1) d" using pin_roomD(1) [OF room granted(1)] .
    then have "mux_owner d = None" using granted by (simp add: pin_ok_def)
    then have "rel_mux p (pin_claims s') = pin_claims s"
      using granted by (auto simp: rel_mux_def pin_claims_def fun_eq_iff)
    moreover have "unat (mux_usecount d) + Suc n < 2 ^ 32" using room granted(1) by (auto simp: pin_room_def no_wrap_def)
    then have "pin_room (strict o1) n s'"
      using granted by (auto simp: pin_ok_def intro!: pin_room_set(1) [OF room])
    ultimately show ?thesis by blast
  qed auto
  then show "rel_mux p (pin_claims s') = pin_claims s" "pin_room (strict o1) n s'" by blast+
qed

interpretation pins: claims pin_claims "pin_room (strict o1)" "\<lambda>p. pin_request o1 p own None"
    "\<lambda>p s. snd (pin_free o1 p None s)" rel_mux
  for o1 :: "'h pinmux_ops" and own :: string
proof (unfold_locales, goal_cases)
  case (1 p s)
  then show ?case by (rule free_claims)
next
  case (2 n s p s')
  then show ?case using request_mux_granted by blast
next
  case (3 n s p e s')
  have "s' = s\<lparr>pc_hw := pc_hw s'\<rparr>" by (rule request_refused_view [OF 3])
  from arg_cong [OF this, of pin_claims] show ?case by simp
next
  case (4 p q v)
  then show ?case by (rule rel_mux_commute)
qed

lemma request_pins_take_all:
  "request_pins o1 own taken ps s = take_all (\<lambda>p. pin_request o1 p own None) taken ps s"
  by (induction ps arbitrary: taken s) (auto split: prod.split)

lemma release_pins_fold: "release_pins o1 ps = fold (\<lambda>p s. snd (pin_free o1 p None s)) ps"
  by (simp add: release_pins_def fun_eq_iff)

lemma mark_claims [simp]: "pin_claims (mark_pin m p s) = pin_claims s" "pc_hw (mark_pin m p s) = pc_hw s"
  by (auto simp: mark_pin_def pin_desc_get_def pin_claims_def fun_eq_iff split: option.split)

lemma mark_pins_claims [simp]:
  "pin_claims (fold (mark_pin m) ps s) = pin_claims s" "pc_hw (fold (mark_pin m) ps s) = pc_hw s"
  by (induction ps arbitrary: s) simp_all

section \<open>Counting claims\<close>

definition pins_where :: "(pin_desc \<Rightarrow> bool) \<Rightarrow> (int \<rightharpoonup> pin_desc) \<Rightarrow> int set" where
  "pins_where P m = {p. \<exists>d. m p = Some d \<and> P d}"

lemma pin_uses_where:
  "pin_uses s = card (pins_where (\<lambda>d. mux_usecount d \<noteq> 0) (pin_desc_tree s)) +
                card (pins_where (\<lambda>d. gpio_owner d \<noteq> None) (pin_desc_tree s))"
  by (simp add: pin_uses_def pins_where_def)

lemma pins_where_upd:
  "pins_where P (m(p \<mapsto> d')) = (if P d' then insert p (pins_where P m - {p}) else pins_where P m - {p})"
  by (auto simp: pins_where_def)

lemma card_pins_where:
  assumes "finite (dom m)" and "m p = Some d"
  shows "int (card (pins_where P (m(p \<mapsto> d')))) = int (card (pins_where P m)) - of_bool (P d) + of_bool (P d')"
proof -
  have fin: "finite (pins_where P m)" by (rule finite_subset [OF _ assms(1)]) (auto simp: pins_where_def)
  have mem: "p \<in> pins_where P m \<longleftrightarrow> P d" using assms(2) by (simp add: pins_where_def)
  have "int (card (pins_where P m - {p})) = int (card (pins_where P m)) - of_bool (P d)"
  proof (cases "P d")
    case True
    then have "card (pins_where P m) = Suc (card (pins_where P m - {p}))"
      using mem fin by (intro card.remove) simp_all
    with True show ?thesis by simp
  next
    case False
    then show ?thesis using mem by simp
  qed
  moreover have "card (insert p (pins_where P m - {p})) = Suc (card (pins_where P m - {p}))"
    using fin by (intro card_insert_disjoint) simp_all
  ultimately show ?thesis by (simp only: pins_where_upd split: if_split) simp
qed

lemma pin_uses_set:
  assumes "finite (dom (pin_desc_tree s))" and "pin_desc_tree s p = Some d"
  shows "int (pin_uses (set_pin p d' s)) = int (pin_uses s)
    - of_bool (mux_usecount d \<noteq> 0) - of_bool (gpio_owner d \<noteq> None)
    + of_bool (mux_usecount d' \<noteq> 0) + of_bool (gpio_owner d' \<noteq> None)"
  unfolding pin_uses_where set_pin_simps of_nat_add card_pins_where [OF assms] by linarith

lemma pin_uses_simps [simp]: "pin_uses (s\<lparr>pc_hw := h\<rparr>) = pin_uses s" "pin_uses (s\<lparr>pc_refs := r\<rparr>) = pin_uses s"
  by (simp_all add: pin_uses_def)

lemma pins_inv_set:
  assumes "pins_inv st r0 s" and "pin_desc_tree s p = Some d" and "pin_ok st d'"
    and "r = pc_refs s - of_bool (mux_usecount d \<noteq> 0) - of_bool (gpio_owner d \<noteq> None)
               + of_bool (mux_usecount d' \<noteq> 0) + of_bool (gpio_owner d' \<noteq> None)"
  shows "pins_inv st r0 ((set_pin p d' s)\<lparr>pc_refs := r, pc_hw := h\<rparr>)"
proof -
  have "int (pin_uses (set_pin p d' s)) = r - r0"
    using pin_uses_set [OF _ assms(2), of d'] assms(1,4) by (simp add: pins_inv_def)
  then show ?thesis using assms(1-3) by (auto simp: pins_inv_def)
qed

lemma pins_inv_set_same:
  assumes "pins_inv st r0 s" and "pin_desc_tree s p = Some d" and "pin_ok st d'"
    and "mux_usecount d' \<noteq> 0 \<longleftrightarrow> mux_usecount d \<noteq> 0" and "gpio_owner d' \<noteq> None \<longleftrightarrow> gpio_owner d \<noteq> None"
  shows "pins_inv st r0 (set_pin p d' s)"
proof -
  have "set_pin p d' s = (set_pin p d' s)\<lparr>pc_refs := pc_refs s, pc_hw := pc_hw s\<rparr>" by (simp add: set_pin_def)
  also have "pins_inv st r0 \<dots>" using assms by (intro pins_inv_set) auto
  finally show ?thesis .
qed

lemma pins_inv_claims:
  assumes "pin_claims s' = pin_claims s" and "pins_inv st r0 s"
  shows "pins_inv st r0 s'"
proof -
  have m: "map_option (\<lambda>d. (mux_usecount d, mux_owner d, gpio_owner d)) (pin_desc_tree s' p) =
      map_option (\<lambda>d. (mux_usecount d, mux_owner d, gpio_owner d)) (pin_desc_tree s p)" for p
    using assms(1) by (simp add: pin_claims_def fun_eq_iff)
  have ex: "(\<exists>d. pin_desc_tree s' p = Some d \<and> P (mux_usecount d) (mux_owner d) (gpio_owner d)) \<longleftrightarrow>
      (\<exists>d. pin_desc_tree s p = Some d \<and> P (mux_usecount d) (mux_owner d) (gpio_owner d))" for p P
    using m [of p] by (cases "pin_desc_tree s p"; cases "pin_desc_tree s' p") auto
  have "dom (pin_desc_tree s') = dom (pin_desc_tree s)" using ex [of _ "\<lambda>_ _ _. True"] by (auto simp: dom_def)
  moreover have "pin_uses s' = pin_uses s"
    unfolding pin_uses_def using ex [of _ "\<lambda>u _ _. u \<noteq> 0"] ex [of _ "\<lambda>_ _ g. g \<noteq> None"] by simp
  moreover have "pin_ok st d" if sp: "pin_desc_tree s' p = Some d" for p d
  proof -
    obtain e where e: "pin_desc_tree s p = Some e" "mux_usecount e = mux_usecount d" "mux_owner e = mux_owner d"
      "gpio_owner e = gpio_owner d" using m [of p] sp by (cases "pin_desc_tree s p") auto
    then have "pin_ok st e" using assms(2) by (simp add: pins_inv_def)
    with e show ?thesis by (auto simp: pin_ok_def)
  qed
  moreover have "pc_refs s' = pc_refs s" using assms(1) by (simp add: pin_claims_def)
  ultimately show ?thesis using assms(2) by (simp add: pins_inv_def)
qed

lemma pins_inv_room: "pins_inv st r0 s \<Longrightarrow> no_wrap n s \<Longrightarrow> pin_room st n s"
  by (simp add: pins_inv_def pin_room_def)

lemma pin_request_inv [inv_intros]:
  assumes "pins_inv (strict o1) r0 s" and "no_wrap (Suc n) s" and "pin_request o1 p own gr s = (r, s')"
  shows "pins_inv (strict o1) r0 s'"
  using assms(3) pins_inv_room [OF assms(1,2)]
proof (cases rule: pin_request_cases)
  case (shared d)
  have "unat (mux_usecount d) + Suc n < 2 ^ 32" using assms(2) shared(1) by (simp add: no_wrap_def)
  note u = unat_plus_1(2) [OF this]
  show ?thesis unfolding shared(7)
    using shared u by (intro pins_inv_set_same [OF assms(1) shared(1)]) (simp_all add: pin_ok_def)
next
  case (refused d h)
  show ?thesis unfolding refused(5) by (rule pins_inv_claims [OF _ assms(1)]) simp
next
  case (granted d h)
  have ok: "pin_ok (strict o1) d" using assms(1) granted(1) by (simp add: pins_inv_def)
  show ?thesis
  proof (cases gr)
    case None
    then have g: "mux_usecount d = 0" "strict o1 \<longrightarrow> gpio_owner d = None" using granted by auto
    show ?thesis unfolding granted(8) using None g
      by (intro pins_inv_set [OF assms(1) granted(1)]) (simp_all add: pin_ok_def)
  next
    case (Some rg)
    then have g: "gpio_owner d = None" "strict o1 \<longrightarrow> mux_usecount d = 0 \<or> mux_owner d = Some own" using granted by auto
    show ?thesis unfolding granted(8) using Some g ok
      by (intro pins_inv_set [OF assms(1) granted(1)]) (auto simp: pin_ok_def)
  qed
qed (use assms(1) in simp_all)

lemma hw_refs_order: "s\<lparr>pc_hw := h, pc_refs := r\<rparr> = s\<lparr>pc_refs := r, pc_hw := h\<rparr>"
  by simp

lemma pin_free_mux_inv [inv_intros]:
  assumes inv: "pins_inv st r0 s"
  shows "pins_inv st r0 (snd (pin_free o1 p None s))"
proof (cases "pin_desc_tree s p")
  case None
  then show ?thesis using inv by (simp add: pin_free_def pin_desc_get_def)
next
  case (Some d)
  have ok: "pin_ok st d" using inv Some by (simp add: pins_inv_def)
  consider (zero) "mux_usecount d = 0" | (one) "mux_usecount d = 1" | (more) "mux_usecount d \<noteq> 0" "mux_usecount d \<noteq> 1"
    by blast
  then show ?thesis
  proof cases
    case zero
    then show ?thesis using inv Some by (simp add: pin_free_def pin_desc_get_def)
  next
    case one
    then show ?thesis using Some ok
      by (simp add: pin_free_def pin_desc_get_def Let_def hw_refs_order) (rule pins_inv_set [OF inv Some]; simp add: pin_ok_def)
  next
    case more
    then show ?thesis using Some ok
      by (simp add: pin_free_def pin_desc_get_def Let_def) (rule pins_inv_set_same [OF inv Some]; auto simp add: pin_ok_def)
  qed
qed

lemma pin_free_gpio_inv [inv_intros]:
  assumes inv: "pins_inv st r0 s" and "pin_desc_tree s p = Some d" and "gpio_owner d \<noteq> None"
  shows "pins_inv st r0 (snd (pin_free o1 p (Some rg) s))"
proof -
  have ok: "pin_ok st d" using assms(1,2) by (simp add: pins_inv_def)
  show ?thesis using assms ok
    by (simp add: pin_free_def pin_desc_get_def Let_def hw_refs_order) (rule pins_inv_set [OF inv assms(2)]; auto simp add: pin_ok_def)
qed

section \<open>Enabling and disabling keep the invariant\<close>

lemma request_pins_inv:
  assumes "pins_inv (strict o1) r0 s" and "no_wrap (length ps) s" and "request_pins o1 own taken ps s = (r, taken', s')"
  shows "pins_inv (strict o1) r0 s'"
  using assms
proof (induction ps arbitrary: taken s)
  case (Cons p ps)
  obtain e s1 where e: "pin_request o1 p own None s = (e, s1)" by force
  have w: "no_wrap (Suc (length ps)) s" using Cons.prems(2) by simp
  have i1: "pins_inv (strict o1) r0 s1" by (rule pin_request_inv [OF Cons.prems(1) w e])
  show ?case
  proof (cases "e = 0")
    case True
    have "pin_room (strict o1) (length ps) s1"
      by (rule request_mux_granted(2) [OF pins_inv_room [OF Cons.prems(1) w]]) (use e True in simp)
    then have "no_wrap (length ps) s1" by (rule pin_roomD(2))
    from Cons.IH [OF i1 this] show ?thesis using Cons.prems(3) e True by simp
  next
    case False
    then show ?thesis using Cons.prems(3) e i1 by simp
  qed
qed simp

lemma release_pins_inv: "pins_inv st r0 s \<Longrightarrow> pins_inv st r0 (release_pins o1 ps s)"
  unfolding release_pins_def by (induction ps arbitrary: s) (simp_all add: pin_free_mux_inv)

lemma mark_pins_inv: "pins_inv st r0 s \<Longrightarrow> pins_inv st r0 (fold (mark_pin m) ps s)"
  by (rule pins_inv_claims) simp_all

lemma enable_setting_inv [inv_intros]:
  assumes inv: "pins_inv (strict o1) r0 s" and w: "no_wrap (length (group_pins p1 (pc_hw s) (group (mux st)))) s"
  shows "pins_inv (strict o1) r0 (snd (pinmux_enable_setting o1 p1 st s))"
proof -
  let ?pins = "group_pins p1 (pc_hw s) (group (mux st))"
  obtain r taken s1 where q: "request_pins o1 (set_dev_name st) [] ?pins s = (r, taken, s1)" by (metis prod_cases3)
  have i1: "pins_inv (strict o1) r0 s1" by (rule request_pins_inv [OF inv w q])
  have i3: "pins_inv (strict o1) r0 ((fold (mark_pin m) ?pins s1)\<lparr>pc_hw := h\<rparr>)" for h m
    by (rule pins_inv_claims [OF _ i1]) simp
  show ?thesis using i1 i3
    by (auto simp: pinmux_enable_setting_def Let_def q split: prod.split intro!: release_pins_inv mark_pins_inv)
qed

lemma disable_pin_inv: "pins_inv st r0 s \<Longrightarrow> pins_inv st r0 (disable_pin o1 a p s)"
  by (auto simp: disable_pin_def intro: pin_free_mux_inv split: option.split)

lemma disable_setting_inv [inv_intros]:
  "pins_inv st r0 s \<Longrightarrow> pins_inv st r0 (pinmux_disable_setting o1 p1 x s)"
proof -
  have "pins_inv st r0 s \<Longrightarrow> pins_inv st r0 (fold (disable_pin o1 a) ps s)" for a ps s
    by (induction ps arbitrary: s) (simp_all add: disable_pin_inv)
  then show "pins_inv st r0 s \<Longrightarrow> pins_inv st r0 (pinmux_disable_setting o1 p1 x s)"
    by (simp add: pinmux_disable_setting_def)
qed

section \<open>Reachable states of a controller\<close>

text \<open>The calls of the pin control core.  The GPIO side frees a pin only while it owns it
  (\<open>pin_free\<close> does not test it), and fewer than \<open>2 ^ 32\<close> users share one pin.\<close>

inductive pin_step :: "'h pinmux_ops \<Rightarrow> 'h pinctrl_ops \<Rightarrow> 'h pinctrl_dev \<Rightarrow> 'h pinctrl_dev \<Rightarrow> bool"
  for o1 :: "'h pinmux_ops" and p1 :: "'h pinctrl_ops" where
  request_gpio: "no_wrap 1 s \<Longrightarrow> pinmux_request_gpio o1 own rng pin s = (r, s') \<Longrightarrow> pin_step o1 p1 s s'"
| free_gpio: "pin_desc_tree s pin = Some d \<Longrightarrow> gpio_owner d \<noteq> None \<Longrightarrow> pin_step o1 p1 s (pinmux_free_gpio o1 pin rng s)"
| direction: "pinmux_gpio_direction o1 rng pin input s = (r, s') \<Longrightarrow> pin_step o1 p1 s s'"
| enable: "no_wrap (length (group_pins p1 (pc_hw s) (group (mux st)))) s \<Longrightarrow>
    pinmux_enable_setting o1 p1 st s = (r, s') \<Longrightarrow> pin_step o1 p1 s s'"
| disable: "pin_step o1 p1 s (pinmux_disable_setting o1 p1 st s)"

definition pins_fresh :: "'h pinctrl_dev \<Rightarrow> bool" where
  "pins_fresh s \<longleftrightarrow> finite (dom (pin_desc_tree s)) \<and> (\<forall>p d. pin_desc_tree s p = Some d \<longrightarrow>
     mux_usecount d = 0 \<and> mux_owner d = None \<and> gpio_owner d = None)"

lemma pin_step_inv:
  assumes "pin_step o1 p1 s s'" and "pins_inv (strict o1) r0 s"
  shows "pins_inv (strict o1) r0 s'"
  using assms
proof cases
  case (request_gpio own rng pin r)
  then show ?thesis using pin_request_inv [OF assms(2), of 0] assms(2)
    by (auto simp: pinmux_request_gpio_def split: option.splits)
next
  case (free_gpio pin d rng)
  then show ?thesis using pin_free_gpio_inv [OF assms(2)] by (simp add: pinmux_free_gpio_def)
next
  case (direction rng pin input r)
  have "pin_claims s' = pin_claims s"
    using direction by (auto simp: pinmux_gpio_direction_def split: option.splits prod.splits)
  then show ?thesis by (rule pins_inv_claims [OF _ assms(2)])
next
  case (enable st r)
  then show ?thesis using enable_setting_inv [OF assms(2) enable(1)] by simp
next
  case (disable st)
  then show ?thesis using disable_setting_inv [OF assms(2)] by simp
qed

lemma pins_fresh_inv:
  assumes "pins_fresh s" shows "pins_inv st (pc_refs s) s"
proof -
  have "{p. \<exists>d. pin_desc_tree s p = Some d \<and> mux_usecount d \<noteq> 0} = {}"
    "{p. \<exists>d. pin_desc_tree s p = Some d \<and> gpio_owner d \<noteq> None} = {}"
    using assms by (auto simp: pins_fresh_def)
  then have "pin_uses s = 0" unfolding pin_uses_def by (simp only: card.empty)
  then show ?thesis using assms by (auto simp: pins_inv_def pins_fresh_def pin_ok_def)
qed

lemma pin_steps_inv:
  assumes "(pin_step o1 p1)\<^sup>*\<^sup>* s s'" and "pins_inv (strict o1) r0 s"
  shows "pins_inv (strict o1) r0 s'"
  using assms by (induction rule: rtranclp_induct) (auto intro: pin_step_inv)

section \<open>What a successful enabling leaves behind\<close>

definition owned :: "string \<Rightarrow> int \<Rightarrow> 'h pinctrl_dev \<Rightarrow> bool" where
  "owned own p s \<longleftrightarrow> (\<exists>d. pin_desc_tree s p = Some d \<and> mux_usecount d \<noteq> 0 \<and> mux_owner d = Some own)"

lemma request_owned:
  assumes "pin_room st (Suc n) s" and "pin_request o1 p own None s = (0, s')"
  shows "owned own p s'" and "owned own q s \<Longrightarrow> owned own q s'"
proof -
  have "owned own p s' \<and> (owned own q s \<longrightarrow> owned own q s')"
    using assms(2,1)
  proof (cases rule: pin_request_cases)
    case (shared d)
    have "unat (mux_usecount d) + Suc n < 2 ^ 32" using assms(1) shared(1) by (simp add: pin_room_def no_wrap_def)
    from unat_plus_1(2) [OF this] shared show ?thesis by (auto simp: owned_def)
  qed (auto simp: owned_def)
  then show "owned own p s'" "owned own q s \<Longrightarrow> owned own q s'" by blast+
qed

lemma request_pins_owned:
  assumes "pin_room (strict o1) (length ps) s" and "request_pins o1 own taken ps s = (0, taken', s')"
    and "q \<in> set ps \<or> owned own q s"
  shows "owned own q s'"
  using assms
proof (induction ps arbitrary: taken s)
  case (Cons p ps)
  obtain e s1 where e: "pin_request o1 p own None s = (e, s1)" by force
  have z: "e = 0" using Cons.prems(2) e by (auto split: if_splits)
  have room: "pin_room (strict o1) (Suc (length ps)) s" using Cons.prems(1) by simp
  have o: "q \<in> set ps \<or> owned own q s1"
    using Cons.prems(3) request_owned [OF room, of o1 p own s1] e z by auto
  have r: "pin_room (strict o1) (length ps) s1" using request_mux_granted(2) [OF room, of p own s1] e z by simp
  have "request_pins o1 own (p # taken) ps s1 = (0, taken', s')" using Cons.prems(2) e z by simp
  from Cons.IH [OF r this o] show ?case .
qed simp

lemma mark_pin_tree:
  "pin_desc_tree (mark_pin m p s) = (\<lambda>q. if q = p then map_option (mux_setting_update (\<lambda>_. m)) (pin_desc_tree s q)
     else pin_desc_tree s q)"
  by (auto simp: mark_pin_def pin_desc_get_def fun_eq_iff split: option.split)

lemma mark_pins_tree:
  "pin_desc_tree (fold (mark_pin m) ps s) q = (if q \<in> set ps
     then map_option (mux_setting_update (\<lambda>_. m)) (pin_desc_tree s q) else pin_desc_tree s q)"
  by (induction ps arbitrary: s) (auto simp: mark_pin_tree option.map_comp comp_def)

lemma pin_free_other: "q \<noteq> p \<Longrightarrow> pin_desc_tree (snd (pin_free o1 p gr s)) q = pin_desc_tree s q"
  by (auto simp: pin_free_def Let_def split: option.split)

text \<open>While every pin still carries the setting, disabling is releasing.\<close>

lemma disable_pins_release:
  assumes "distinct ps" and "\<And>p. p \<in> set ps \<Longrightarrow> \<exists>d. pin_desc_tree s p = Some d \<and> mux_setting d = Some a"
  shows "fold (disable_pin o1 a) ps s = fold (\<lambda>p s. snd (pin_free o1 p None s)) ps s"
  using assms
proof (induction ps arbitrary: s)
  case (Cons p ps)
  have "disable_pin o1 a p s = snd (pin_free o1 p None s)"
    using Cons.prems(2) [of p] by (auto simp: disable_pin_def pin_desc_get_def)
  moreover have "\<exists>d. pin_desc_tree (snd (pin_free o1 p None s)) q = Some d \<and> mux_setting d = Some a" if "q \<in> set ps" for q
    using Cons.prems that by (metis distinct.simps(2) list.set_intros(2) pin_free_other)
  ultimately show ?case using Cons.IH Cons.prems(1) by simp
qed simp

lemma enable_outcome:
  assumes "pinmux_enable_setting o1 p1 st s = (r, s')"
  obtains (refused) taken s1 where
    "request_pins o1 (set_dev_name st) [] (group_pins p1 (pc_hw s) (group (mux st))) s = (r, taken, s1)"
    "r \<noteq> 0" "s' = release_pins o1 taken s1"
  | (set_mux_failed) taken s1 h where
    "request_pins o1 (set_dev_name st) [] (group_pins p1 (pc_hw s) (group (mux st))) s = (0, taken, s1)" "r \<noteq> 0"
    "s' = release_pins o1 taken (fold (mark_pin None) (group_pins p1 (pc_hw s) (group (mux st)))
       ((fold (mark_pin (Some (addr st))) (group_pins p1 (pc_hw s) (group (mux st))) s1)\<lparr>pc_hw := h\<rparr>))"
  | (enabled) taken s1 h where
    "request_pins o1 (set_dev_name st) [] (group_pins p1 (pc_hw s) (group (mux st))) s = (0, taken, s1)" "r = 0"
    "the (set_mux o1) (func (mux st)) (group (mux st)) (pc_hw s1) = (0, h)"
    "s' = (fold (mark_pin (Some (addr st))) (group_pins p1 (pc_hw s) (group (mux st))) s1)\<lparr>pc_hw := h\<rparr>"
proof -
  let ?pins = "group_pins p1 (pc_hw s) (group (mux st))"
  obtain e taken s1 where q: "request_pins o1 (set_dev_name st) [] ?pins s = (e, taken, s1)" by (metis prod_cases3)
  obtain e2 h where m: "the (set_mux o1) (func (mux st)) (group (mux st)) (pc_hw s1) = (e2, h)" by force
  show thesis
  proof (cases "e = 0")
    case False
    then have "r = e" "s' = release_pins o1 taken s1" using assms q by (auto simp: pinmux_enable_setting_def)
    with refused q False show thesis by blast
  next
    case ok: True
    show thesis
    proof (cases "e2 = 0")
      case True
      then have "r = 0" "s' = (fold (mark_pin (Some (addr st))) ?pins s1)\<lparr>pc_hw := h\<rparr>"
        using assms q m ok by (auto simp: pinmux_enable_setting_def Let_def)
      with enabled q m ok True show thesis by blast
    next
      case False
      then have "r = e2" "s' = release_pins o1 taken (fold (mark_pin None) ?pins ((fold (mark_pin (Some (addr st))) ?pins s1)\<lparr>pc_hw := h\<rparr>))"
        using assms q m ok by (auto simp: pinmux_enable_setting_def Let_def)
      with set_mux_failed q ok False show thesis by blast
    qed
  qed
qed

lemma owned_claims: "pin_claims s' = pin_claims s \<Longrightarrow> owned own p s' \<longleftrightarrow> owned own p s"
proof -
  assume "pin_claims s' = pin_claims s"
  then have "map_option (\<lambda>d. (mux_usecount d, mux_owner d, gpio_owner d)) (pin_desc_tree s' p) =
      map_option (\<lambda>d. (mux_usecount d, mux_owner d, gpio_owner d)) (pin_desc_tree s p)"
    by (simp add: pin_claims_def fun_eq_iff)
  then show ?thesis
    by (cases "pin_desc_tree s p"; cases "pin_desc_tree s' p") (auto simp: owned_def)
qed

lemma selector_split:
  "\<not> selector_loop nm x is < 0 \<Longrightarrow>
    \<exists>as i bs. is = as @ i # bs \<and> selector_loop nm x is = int i \<and> nm i = Some x \<and> (\<forall>j \<in> set as. nm j \<noteq> Some x)"
proof (induction "is")
  case (Cons k ks)
  show ?case
  proof (cases "nm k = Some x")
    case True
    then show ?thesis by (intro exI [of _ "[]"]) simp
  next
    case False
    with Cons obtain as i bs where "ks = as @ i # bs" "selector_loop nm x ks = int i" "nm i = Some x"
      "\<forall>j \<in> set as. nm j \<noteq> Some x" by auto
    then show ?thesis using False by (intro exI [of _ "k # as"]) auto
  qed
qed simp

lemma selector_found:
  assumes "\<not> selector_loop nm x [0..<n] < 0"
  shows "nat (selector_loop nm x [0..<n]) < n" "nm (nat (selector_loop nm x [0..<n])) = Some x"
    "\<forall>i < nat (selector_loop nm x [0..<n]). nm i \<noteq> Some x"
proof -
  from selector_split [OF assms] obtain as i bs where *: "[0..<n] = as @ i # bs"
    "selector_loop nm x [0..<n] = int i" "nm i = Some x" "\<forall>j \<in> set as. nm j \<noteq> Some x" by blast
  have "length as < n" using arg_cong [OF *(1), of length] by simp
  moreover have "i = length as" using arg_cong [OF *(1), of "\<lambda>l. l ! length as"] calculation by (simp add: nth_append)
  moreover have "as = [0..<length as]" using arg_cong [OF *(1), of "take (length as)"] calculation(1) by (simp add: take_upt)
  then have "set as = {0..<length as}" using set_upt by metis
  ultimately show "nat (selector_loop nm x [0..<n]) < n" "nm (nat (selector_loop nm x [0..<n])) = Some x"
    "\<forall>i < nat (selector_loop nm x [0..<n]). nm i \<noteq> Some x" using * by auto
qed

section \<open>A controller for the witnesses\<close>

text \<open>A strict controller with three pins; a group of the pins 1 and 2, and one of the pins 2 and 9, the
  last of which does not exist.\<close>

definition demo_mux_ops :: "unit pinmux_ops" where
  "demo_mux_ops = \<lparr>pm_request = None, pm_free = None, get_functions_count = Some (\<lambda>h. 1),
     get_function_name = Some (\<lambda>h i. Some ''uart''), get_function_groups = Some (\<lambda>h i. (0, [''a'', ''b''])),
     set_mux = Some (\<lambda>f g h. (0, h)), gpio_request_enable = None, gpio_disable_free = None,
     gpio_set_direction = None, strict = True\<rparr>"

definition demo_ctl_ops :: "unit pinctrl_ops" where
  "demo_ctl_ops = \<lparr>get_groups_count = (\<lambda>h. 2), get_group_name = (\<lambda>h i. Some (if i = 0 then ''a'' else ''b'')),
     get_group_pins = Some (\<lambda>h g. (0, if g = 0 then [1, 2] else [2, 9]))\<rparr>"

definition demo_pin :: pin_desc where
  "demo_pin = \<lparr>name = ''p'', mux_usecount = 0, mux_owner = None, mux_setting = None, gpio_owner = None\<rparr>"

definition demo_ctl :: "unit pinctrl_dev" where
  "demo_ctl = \<lparr>pin_desc_tree = [0 \<mapsto> demo_pin, 1 \<mapsto> demo_pin, 2 \<mapsto> demo_pin], pc_live = True, pc_refs = 1, pc_hw = ()\<rparr>"

definition demo_setting :: "nat \<Rightarrow> pinctrl_setting" where
  "demo_setting g = \<lparr>addr = 100 + g, set_dev_name = ''uart0'', mux = \<lparr>group = g, func = 0\<rparr>\<rparr>"

lemmas demo_defs = demo_mux_ops_def demo_ctl_ops_def demo_pin_def demo_ctl_def demo_setting_def

lemmas mux_run_defs = pinmux_enable_setting_def pin_request_def pin_desc_get_def claim_def ask_driver_def
  group_pins_def set_pin_def mark_pin_def release_pins_def pin_free_def tell_driver_def Let_def

lemma demo_room: "n < 2 ^ 32 \<Longrightarrow> pin_room st n demo_ctl" "pins_fresh demo_ctl"
  by (auto simp: pin_room_def no_wrap_def demo_defs pin_ok_def pins_fresh_def split: if_splits)

section \<open>Properties\<close>

text \<open>C2: In every state that any sequence of pin control calls reaches from a fresh controller, a pin has
  a device owner exactly while its function is in use, a strict controller never lets a device and
  another GPIO user share a pin, the reference count of the driver module has grown by exactly the
  number of claims (functions in use plus pins taken for GPIO), and a request of a function by
  another device than the owner, or on a strict controller by another GPIO user, is refused and
  changes nothing.\<close>

theorem pinmux_ownership:
  assumes "pins_fresh s0" and "(pin_step o1 p1)\<^sup>*\<^sup>* s0 s" and "pin_desc_tree s p = Some d"
  shows "(mux_usecount d = 0 \<longleftrightarrow> mux_owner d = None) \<and>
    (strict o1 \<and> mux_owner d \<noteq> None \<and> gpio_owner d \<noteq> None \<longrightarrow> gpio_owner d = mux_owner d) \<and>
    pc_refs s = pc_refs s0 + int (pin_uses s) \<and>
    (\<forall>own gr. mux_owner d \<noteq> None \<and> mux_owner d \<noteq> Some own \<and> (gr = None \<or> strict o1) \<longrightarrow>
       pin_request o1 p own gr s = (- EINVAL, s))"
proof -
  have inv: "pins_inv (strict o1) (pc_refs s0) s" by (rule pin_steps_inv [OF assms(2) pins_fresh_inv [OF assms(1)]])
  then have ok: "pin_ok (strict o1) d" using assms(3) by (simp add: pins_inv_def)
  then have "pin_request o1 p own gr s = (- EINVAL, s)"
    if "mux_owner d \<noteq> None" "mux_owner d \<noteq> Some own" "gr = None \<or> strict o1" for own gr
    using that assms(3) by (auto simp: pin_ok_def pin_request_def pin_desc_get_def)
  with ok inv show ?thesis by (auto simp: pin_ok_def pins_inv_def)
qed

theorem pinmux_ownership_witness:
  "pin_request demo_mux_ops 1 ''spi0'' None (snd (pinmux_enable_setting demo_mux_ops demo_ctl_ops (demo_setting 0) demo_ctl)) =
     (- EINVAL, snd (pinmux_enable_setting demo_mux_ops demo_ctl_ops (demo_setting 0) demo_ctl))"
proof -
  let ?s = "snd (pinmux_enable_setting demo_mux_ops demo_ctl_ops (demo_setting 0) demo_ctl)"
  have "no_wrap (length (group_pins demo_ctl_ops (pc_hw demo_ctl) (group (mux (demo_setting 0))))) demo_ctl"
    using demo_room(1) by (simp add: pin_room_def demo_defs group_pins_def)
  then have step: "(pin_step demo_mux_ops demo_ctl_ops)\<^sup>*\<^sup>* demo_ctl ?s"
    by (blast intro: r_into_rtranclp pin_step.enable prod.collapse [symmetric])
  have pin: "pin_desc_tree ?s 1 = Some (demo_pin\<lparr>mux_usecount := 1, mux_owner := Some ''uart0'', mux_setting := Some 100\<rparr>)"
    by (simp add: mux_run_defs demo_defs)
  from pinmux_ownership [OF demo_room(2) step pin] show ?thesis by (simp add: demo_pin_def)
qed


text \<open>\<open>pin_request\<close> is decided exactly: it succeeds if and only if the pin is registered, no other device
  uses its function (asked for by a function request, and by a GPIO request on a strict
  controller), it is not taken for GPIO (asked for by a GPIO request, and by a function request on
  a strict controller), and either the device shares its own function or the module is alive and
  the driver agrees.  On failure nothing but the hardware has changed.\<close>

theorem pin_request_decided:
  assumes "pin_room (strict o1) 1 s" and "pin_request o1 p own gr s = (r, s')"
  shows "(r = 0 \<longleftrightarrow> (\<exists>d. pin_desc_tree s p = Some d \<and>
      ((gr = None \<or> strict o1) \<and> mux_usecount d \<noteq> 0 \<longrightarrow> mux_owner d = Some own) \<and>
      (gr \<noteq> None \<or> strict o1 \<longrightarrow> gpio_owner d = None) \<and>
      (gr = None \<and> mux_usecount d \<noteq> 0 \<or> pc_live s \<and> fst (ask_driver o1 gr p (pc_hw s)) = 0))) \<and>
    (r \<noteq> 0 \<longrightarrow> s' = s\<lparr>pc_hw := pc_hw s'\<rparr>)"
proof -
  have "pin_room (strict o1) (Suc 0) s" using assms(1) by simp
  note refused = request_refused_view [OF this assms(2)] and c = pin_request_cases [OF assms(2) this]
  from c have "r = 0 \<longleftrightarrow> (\<exists>d. pin_desc_tree s p = Some d \<and>
      ((gr = None \<or> strict o1) \<and> mux_usecount d \<noteq> 0 \<longrightarrow> mux_owner d = Some own) \<and>
      (gr \<noteq> None \<or> strict o1 \<longrightarrow> gpio_owner d = None) \<and>
      (gr = None \<and> mux_usecount d \<noteq> 0 \<or> pc_live s \<and> fst (ask_driver o1 gr p (pc_hw s)) = 0))"
    by cases auto
  with refused show ?thesis by blast
qed

theorem pin_request_decided_witness:
  "fst (pin_request demo_mux_ops 1 ''uart0'' None demo_ctl) = 0 \<and> fst (pin_request demo_mux_ops 7 ''uart0'' None demo_ctl) \<noteq> 0"
  using pin_request_decided [OF demo_room(1) prod.collapse [symmetric], of demo_mux_ops 1 "''uart0''" None]
    pin_request_decided [OF demo_room(1) prod.collapse [symmetric], of demo_mux_ops 7 "''uart0''" None]
  by (simp add: demo_defs ask_driver_def)


text \<open>C27: Enabling a mux setting is all or nothing: when it fails, because some pin of the group cannot be
  taken or because the driver refuses to program the function, the use counts, owners and module
  references of all pins are as before.\<close>

theorem enable_setting_rollback:
  assumes "pin_room (strict o1) (length (group_pins p1 (pc_hw s) (group (mux st)))) s"
    and "pinmux_enable_setting o1 p1 st s = (r, s')" and "r \<noteq> 0"
  shows "pin_claims s' = pin_claims s"
  using assms(2)
proof (cases rule: enable_outcome)
  case (refused taken s1)
  then show ?thesis using pins.rollback_view [OF assms(1)] by (simp add: request_pins_take_all release_pins_fold)
next
  case (set_mux_failed taken s1 h)
  then show ?thesis using pins.rollback_view [OF assms(1)] by (simp add: request_pins_take_all release_pins_fold)
next
  case (enabled taken s1 h)
  then show ?thesis using assms(3) by simp
qed

theorem enable_setting_rollback_witness:
  "fst (pinmux_enable_setting demo_mux_ops demo_ctl_ops (demo_setting 1) demo_ctl) = - EINVAL \<and>
   pin_claims (snd (pinmux_enable_setting demo_mux_ops demo_ctl_ops (demo_setting 1) demo_ctl)) = pin_claims demo_ctl"
proof -
  have "fst (pinmux_enable_setting demo_mux_ops demo_ctl_ops (demo_setting 1) demo_ctl) = - EINVAL"
    by (simp add: mux_run_defs demo_defs)
  with enable_setting_rollback [OF demo_room(1) prod.collapse [symmetric], of demo_ctl_ops "demo_setting 1" demo_mux_ops]
  show ?thesis by (simp add: demo_defs group_pins_def)
qed


text \<open>After a successful enabling every pin of the group is in use by the device of the setting and
  carries the setting; disabling the setting then restores the use counts, owners and module
  references of all pins.  The pins of a group are distinct and the driver describes the same
  group at both times.\<close>

theorem enable_disable_roundtrip:
  assumes "pin_room (strict o1) (length (group_pins p1 (pc_hw s) (group (mux st)))) s"
    and "pinmux_enable_setting o1 p1 st s = (0, s')"
    and "distinct (group_pins p1 (pc_hw s) (group (mux st)))"
    and "group_pins p1 (pc_hw s') (group (mux st)) = group_pins p1 (pc_hw s) (group (mux st))"
  shows "(\<forall>p \<in> set (group_pins p1 (pc_hw s) (group (mux st))). owned (set_dev_name st) p s' \<and>
      map_option mux_setting (pin_desc_tree s' p) = Some (Some (addr st))) \<and>
    pin_claims (pinmux_disable_setting o1 p1 st s') = pin_claims s"
  using assms(2)
proof (cases rule: enable_outcome)
  case (enabled taken s1 h)
  let ?pins = "group_pins p1 (pc_hw s) (group (mux st))"
  have claims: "pin_claims s' = pin_claims s1" by (simp add: enabled(4))
  have own: "owned (set_dev_name st) p s'" if "p \<in> set ?pins" for p
    using request_pins_owned [OF assms(1) enabled(1), of p] that owned_claims [OF claims] by simp
  have marked: "map_option mux_setting (pin_desc_tree s' p) = Some (Some (addr st))" if p: "p \<in> set ?pins" for p
  proof -
    obtain d where "pin_desc_tree s1 p = Some d"
      using request_pins_owned [OF assms(1) enabled(1) disjI1, OF p] by (auto simp: owned_def)
    then show ?thesis using p by (simp add: enabled(4) mark_pins_tree)
  qed
  then have "pinmux_disable_setting o1 p1 st s' = fold (\<lambda>p s. snd (pin_free o1 p None s)) ?pins s'"
    unfolding pinmux_disable_setting_def assms(4) by (intro disable_pins_release [OF assms(3)]) auto
  also have "pin_claims \<dots> = pin_claims s"
    using pins.give_back_view [OF assms(1) _ claims] enabled(1) by (simp add: request_pins_take_all)
  finally show ?thesis using own marked by blast
qed simp_all

theorem enable_disable_roundtrip_witness:
  "pin_claims (pinmux_disable_setting demo_mux_ops demo_ctl_ops (demo_setting 0)
     (snd (pinmux_enable_setting demo_mux_ops demo_ctl_ops (demo_setting 0) demo_ctl))) = pin_claims demo_ctl"
proof -
  have e: "pinmux_enable_setting demo_mux_ops demo_ctl_ops (demo_setting 0) demo_ctl =
      (0, snd (pinmux_enable_setting demo_mux_ops demo_ctl_ops (demo_setting 0) demo_ctl))"
    by (simp add: mux_run_defs demo_defs)
  show ?thesis
    using enable_disable_roundtrip [OF demo_room(1) e] by (simp add: demo_defs group_pins_def)
qed


text \<open>A map entry that \<open>pinmux_map_to_setting\<close> accepts is resolved to the first function of the requested
  name and to the first group of the controller whose name is the requested one (or, if the entry
  names no group, the first group of the function), and that group belongs to the function.\<close>

theorem map_to_setting_sound:
  assumes "pinmux_map_to_setting (Some o1) p1 h mp st = (0, st')" and "map_function mp = Some f"
  shows "func st' < the (get_functions_count o1) h \<and> the (get_function_name o1) h (func st') = Some f \<and>
    (\<forall>i < func st'. the (get_function_name o1) h i \<noteq> Some f) \<and>
    (\<exists>g. g \<in> set (snd (the (get_function_groups o1) h (func st'))) \<and>
       (case map_group mp of Some g' \<Rightarrow> g = g' | None \<Rightarrow> g = snd (the (get_function_groups o1) h (func st')) ! 0) \<and>
       group st' < get_groups_count p1 h \<and> get_group_name p1 h (group st') = Some g \<and>
       (\<forall>i < group st'. get_group_name p1 h i \<noteq> Some g))"
proof -
  let ?ff = "pinmux_func_name_to_selector o1 h f"
  have f0: "\<not> ?ff < 0" using assms by (auto simp: pinmux_map_to_setting_def)
  obtain ret gs where gs: "the (get_function_groups o1) h (nat ?ff) = (ret, gs)" by force
  define g where "g = (case map_group mp of None \<Rightarrow> gs ! 0 | Some g \<Rightarrow> g)"
  have "gs \<noteq> []" and g0: "\<not> pinctrl_get_group_selector p1 h g < 0"
    and st': "func st' = nat ?ff" "group st' = nat (pinctrl_get_group_selector p1 h g)"
    and mg: "map_group mp = Some g' \<Longrightarrow> \<not> match_string gs g' < 0" for g'
    using assms f0 gs by (auto simp: pinmux_map_to_setting_def Let_def g_def split: if_splits option.splits)
  have "g \<in> set gs"
  proof (cases "map_group mp")
    case None
    then show ?thesis using \<open>gs \<noteq> []\<close> by (simp add: g_def)
  next
    case (Some g')
    from selector_found [OF mg [OF Some, unfolded match_string_def]] show ?thesis
      using Some nth_mem by (fastforce simp: g_def)
  qed
  moreover note selector_found [OF f0 [unfolded pinmux_func_name_to_selector_def]]
    selector_found [OF g0 [unfolded pinctrl_get_group_selector_def]]
  ultimately show ?thesis
    using st' gs by (auto simp: g_def pinmux_func_name_to_selector_def pinctrl_get_group_selector_def split: option.splits)
qed

theorem map_to_setting_sound_witness:
  "get_group_name demo_ctl_ops () (group (snd (pinmux_map_to_setting (Some demo_mux_ops) demo_ctl_ops ()
     \<lparr>map_group = Some ''b'', map_function = Some ''uart''\<rparr> \<lparr>group = 7, func = 7\<rparr>))) = Some ''b''"
proof -
  let ?m = "\<lparr>map_group = Some ''b'', map_function = Some ''uart''\<rparr>"
  have r: "pinmux_map_to_setting (Some demo_mux_ops) demo_ctl_ops () ?m \<lparr>group = 7, func = 7\<rparr> = (0, \<lparr>group = 1, func = 0\<rparr>)"
    by (simp add: pinmux_map_to_setting_def pinmux_func_name_to_selector_def pinctrl_get_group_selector_def
        match_string_def demo_defs upt_rec Let_def)
  have "map_function ?m = Some ''uart''" by simp
  from map_to_setting_sound [OF r this] show ?thesis unfolding r by auto
qed

end
