(* ===== verification/Pinctrl_Rts_Tables.thy ===== *)
theory Pinctrl_Rts_Tables
  imports Pinmux
begin

text \<open>
  The tables of the Realtek pin controller driver (\<open>drivers/pinctrl/pinctrl-rts3917.c\<close>): register
  addresses, selector numbers, the pins, the register blocks that serve ranges of pins, the pin
  groups and the functions with the groups they can use.
\<close>

section \<open>Register addresses and selectors\<close>

text \<open>The first register of every block is its output enable register; the others follow in the order
  of \<open>struct pinregs\<close>.\<close>

definition GPIO_OE :: nat where "GPIO_OE = 0x0000"
definition GPIO_0_15_PAD_CFG :: nat where "GPIO_0_15_PAD_CFG = 0x001c"
definition UART0_GPIO_OE :: nat where "UART0_GPIO_OE = 0x0020"
definition UART0_PAD_CFG :: nat where "UART0_PAD_CFG = 0x003C"
definition UART1_GPIO_OE :: nat where "UART1_GPIO_OE = 0x0040"
definition UART1_PAD_CFG :: nat where "UART1_PAD_CFG = 0x005C"
definition UART2_GPIO_OE :: nat where "UART2_GPIO_OE = 0x0060"
definition UART2_PAD_CFG :: nat where "UART2_PAD_CFG = 0x007C"
definition PWM_GPIO_OE :: nat where "PWM_GPIO_OE = 0x0080"
definition PWM_PAD_CFG :: nat where "PWM_PAD_CFG = 0x009C"
definition XB2_I2C_GPIO_OE :: nat where "XB2_I2C_GPIO_OE = 0x00a0"
definition XB2_I2C_PAD_CFG :: nat where "XB2_I2C_PAD_CFG = 0x00bC"
definition SD0_GPIO_OE :: nat where "SD0_GPIO_OE = 0x00c0"
definition SD0_PAD_CFG :: nat where "SD0_PAD_CFG = 0x00dC"
definition SD1_GPIO_OE :: nat where "SD1_GPIO_OE = 0x00e0"
definition SD1_PAD_CFG :: nat where "SD1_PAD_CFG = 0x00fC"
definition VIDEO_GPIO_OE :: nat where "VIDEO_GPIO_OE = 0x0100"
definition VIDEO_PAD_CFG :: nat where "VIDEO_PAD_CFG = 0x011c"
definition DMIC_GPIO_OE :: nat where "DMIC_GPIO_OE = 0x0130"
definition DMIC_PAD_CFG :: nat where "DMIC_PAD_CFG = 0x014C"
definition AUDIO_ADDA_GPIO_OE :: nat where "AUDIO_ADDA_GPIO_OE = 0x0150"
definition AUDIO_ADDA_PAD_CFG :: nat where "AUDIO_ADDA_PAD_CFG = 0x016C"
definition I2S_GPIO_OE :: nat where "I2S_GPIO_OE = 0x0170"
definition I2S_PAD_CFG :: nat where "I2S_PAD_CFG = 0x018C"
definition SARADC_GPIO_OE :: nat where "SARADC_GPIO_OE = 0x0190"
definition SARADC_PAD_CFG :: nat where "SARADC_PAD_CFG = 0x01aC"
definition USB0_GPIO_OE :: nat where "USB0_GPIO_OE = 0x01f0"
definition USB0_PAD_CFG :: nat where "USB0_PAD_CFG = 0x020c"
definition USB1_GPIO_OE :: nat where "USB1_GPIO_OE = 0x0210"
definition USB1_PAD_CFG :: nat where "USB1_PAD_CFG = 0x022C"
definition USB2_GPIO_OE :: nat where "USB2_GPIO_OE = 0x0230"
definition USB2_PAD_CFG :: nat where "USB2_PAD_CFG = 0x024C"
definition SPI_GPIO_OE :: nat where "SPI_GPIO_OE = 0x0250"
definition SPI_PAD_CFG :: nat where "SPI_PAD_CFG = 0x026C"
definition SSOR_I2C_GPIO_OE :: nat where "SSOR_I2C_GPIO_OE = 0x0270"
definition SSOR_I2C_PAD_CFG :: nat where "SSOR_I2C_PAD_CFG = 0x028c"
definition PAD_V18_EN :: nat where "PAD_V18_EN = 0x0298"
definition PWM_LED_SEL :: nat where "PWM_LED_SEL = 0x02a0"
definition GPIO_FUNC_SELECT :: nat where "GPIO_FUNC_SELECT = 0"
definition SDIO0_FUNC_SELECT :: nat where "SDIO0_FUNC_SELECT = 1"
definition SDIO1_FUNC_SELECT :: nat where "SDIO1_FUNC_SELECT = 2"
definition UART_FUNC_SELECT :: nat where "UART_FUNC_SELECT = 3"
definition PWM_FUNC_SELECT :: nat where "PWM_FUNC_SELECT = 4"
definition AUDIO_FUNC_SELECT :: nat where "AUDIO_FUNC_SELECT = 5"
definition USBD_FUNC_SELECT :: nat where "USBD_FUNC_SELECT = 6"
definition ETNLED_FUNC_SELECT :: nat where "ETNLED_FUNC_SELECT = 7"
definition USBHST_FUNC_SELECT :: nat where "USBHST_FUNC_SELECT = 8"
definition SARADC_FUNC_SELECT :: nat where "SARADC_FUNC_SELECT = 9"
definition SSOR_FUNC_SELECT :: nat where "SSOR_FUNC_SELECT = 10"
definition SSI_FUNC_SELECT :: nat where "SSI_FUNC_SELECT = 11"
definition I2C_FUNC_SELECT :: nat where "I2C_FUNC_SELECT = 12"
definition SPI_FUNC_SELECT :: nat where "SPI_FUNC_SELECT = 13"
definition H265_UART_FUNC_SELECT :: nat where "H265_UART_FUNC_SELECT = 14"
definition RTS_MAX_NGPIO :: int where "RTS_MAX_NGPIO = 89"
definition GPIO_GROUP_SELECT :: nat where "GPIO_GROUP_SELECT = 0"
definition UART0_GROUP_SELECT :: nat where "UART0_GROUP_SELECT = 1"
definition UART1_GROUP_SELECT :: nat where "UART1_GROUP_SELECT = 2"
definition UART2_GROUP_SELECT :: nat where "UART2_GROUP_SELECT = 3"
definition PWM0_GROUP_SELECT :: nat where "PWM0_GROUP_SELECT = 4"
definition PWM1_GROUP_SELECT :: nat where "PWM1_GROUP_SELECT = 5"
definition PWM2_GROUP_SELECT :: nat where "PWM2_GROUP_SELECT = 6"
definition PWM3_GROUP_SELECT :: nat where "PWM3_GROUP_SELECT = 7"
definition DMIC1_GROUP_SELECT :: nat where "DMIC1_GROUP_SELECT = 8"
definition DMIC2_GROUP_SELECT :: nat where "DMIC2_GROUP_SELECT = 9"
definition I2S_GROUP_SELECT :: nat where "I2S_GROUP_SELECT = 10"
definition I2SXB2_GROUP_SELECT :: nat where "I2SXB2_GROUP_SELECT = 11"
definition I2SDVP_GROUP_SELECT :: nat where "I2SDVP_GROUP_SELECT = 12"
definition AMIC_GROUP_SELECT :: nat where "AMIC_GROUP_SELECT = 13"
definition LINEOUT_GROUP_SELECT :: nat where "LINEOUT_GROUP_SELECT = 14"
definition USBD_GROUP_SELECT :: nat where "USBD_GROUP_SELECT = 15"
definition ETNLED0_GROUP_SELECT :: nat where "ETNLED0_GROUP_SELECT = 16"
definition ETNLED1_GROUP_SELECT :: nat where "ETNLED1_GROUP_SELECT = 17"
definition ETNLED2_GROUP_SELECT :: nat where "ETNLED2_GROUP_SELECT = 18"
definition USBH_GROUP_SELECT :: nat where "USBH_GROUP_SELECT = 19"
definition SARADC0_GROUP_SELECT :: nat where "SARADC0_GROUP_SELECT = 20"
definition SARADC1_GROUP_SELECT :: nat where "SARADC1_GROUP_SELECT = 21"
definition SARADC2_GROUP_SELECT :: nat where "SARADC2_GROUP_SELECT = 22"
definition SARADC3_GROUP_SELECT :: nat where "SARADC3_GROUP_SELECT = 23"
definition MIPI_GROUP_SELECT :: nat where "MIPI_GROUP_SELECT = 24"
definition DVP_GROUP_SELECT :: nat where "DVP_GROUP_SELECT = 25"
definition SSI_GROUP_SELECT :: nat where "SSI_GROUP_SELECT = 26"
definition SDIO0_GROUP_SELECT :: nat where "SDIO0_GROUP_SELECT = 27"
definition SDIO0WP_GROUP_SELECT :: nat where "SDIO0WP_GROUP_SELECT = 28"
definition SDIO0CD_GROUP_SELECT :: nat where "SDIO0CD_GROUP_SELECT = 29"
definition SDIO1_GROUP_SELECT :: nat where "SDIO1_GROUP_SELECT = 30"
definition SDIO1VIDEO_GROUP_SELECT :: nat where "SDIO1VIDEO_GROUP_SELECT = 31"
definition SDIO1WP_GROUP_SELECT :: nat where "SDIO1WP_GROUP_SELECT = 32"
definition SDIO1CD_GROUP_SELECT :: nat where "SDIO1CD_GROUP_SELECT = 33"
definition I2C0_GROUP_SELECT :: nat where "I2C0_GROUP_SELECT = 34"
definition I2CPWM_GROUP_SELECT :: nat where "I2CPWM_GROUP_SELECT = 35"
definition UART2_USB_GROUP_SELECT :: nat where "UART2_USB_GROUP_SELECT = 36"
definition DMIC_GROUP_SELECT :: nat where "DMIC_GROUP_SELECT = 37"
definition I2C1_GROUP_SELECT :: nat where "I2C1_GROUP_SELECT = 38"
definition SPI_GROUP_SELECT :: nat where "SPI_GROUP_SELECT = 39"
definition H265_UART_GROUP_SELECT :: nat where "H265_UART_GROUP_SELECT = 40"
definition PDM_GROUP_SELECT :: nat where "PDM_GROUP_SELECT = 41"
definition SPDIF_OUT_GROUP_SELECT :: nat where "SPDIF_OUT_GROUP_SELECT = 42"
definition PWMSD_GROUP_SELECT :: nat where "PWMSD_GROUP_SELECT = 43"
definition DEFAULT_GROUP_SELECT :: nat where "DEFAULT_GROUP_SELECT = 43"

lemmas rts_addrs = GPIO_OE_def GPIO_0_15_PAD_CFG_def UART0_GPIO_OE_def UART0_PAD_CFG_def UART1_GPIO_OE_def
  UART1_PAD_CFG_def UART2_GPIO_OE_def UART2_PAD_CFG_def PWM_GPIO_OE_def PWM_PAD_CFG_def XB2_I2C_GPIO_OE_def
  XB2_I2C_PAD_CFG_def SD0_GPIO_OE_def SD0_PAD_CFG_def SD1_GPIO_OE_def SD1_PAD_CFG_def VIDEO_GPIO_OE_def
  VIDEO_PAD_CFG_def DMIC_GPIO_OE_def DMIC_PAD_CFG_def AUDIO_ADDA_GPIO_OE_def AUDIO_ADDA_PAD_CFG_def
  I2S_GPIO_OE_def I2S_PAD_CFG_def SARADC_GPIO_OE_def SARADC_PAD_CFG_def USB0_GPIO_OE_def USB0_PAD_CFG_def
  USB1_GPIO_OE_def USB1_PAD_CFG_def USB2_GPIO_OE_def USB2_PAD_CFG_def SPI_GPIO_OE_def SPI_PAD_CFG_def
  SSOR_I2C_GPIO_OE_def SSOR_I2C_PAD_CFG_def PAD_V18_EN_def PWM_LED_SEL_def

lemmas rts_selectors = GPIO_FUNC_SELECT_def SDIO0_FUNC_SELECT_def SDIO1_FUNC_SELECT_def UART_FUNC_SELECT_def
  PWM_FUNC_SELECT_def AUDIO_FUNC_SELECT_def USBD_FUNC_SELECT_def ETNLED_FUNC_SELECT_def USBHST_FUNC_SELECT_def
  SARADC_FUNC_SELECT_def SSOR_FUNC_SELECT_def SSI_FUNC_SELECT_def I2C_FUNC_SELECT_def SPI_FUNC_SELECT_def
  H265_UART_FUNC_SELECT_def GPIO_GROUP_SELECT_def UART0_GROUP_SELECT_def UART1_GROUP_SELECT_def
  UART2_GROUP_SELECT_def PWM0_GROUP_SELECT_def PWM1_GROUP_SELECT_def PWM2_GROUP_SELECT_def
  PWM3_GROUP_SELECT_def DMIC1_GROUP_SELECT_def DMIC2_GROUP_SELECT_def I2S_GROUP_SELECT_def
  I2SXB2_GROUP_SELECT_def I2SDVP_GROUP_SELECT_def AMIC_GROUP_SELECT_def LINEOUT_GROUP_SELECT_def
  USBD_GROUP_SELECT_def ETNLED0_GROUP_SELECT_def ETNLED1_GROUP_SELECT_def ETNLED2_GROUP_SELECT_def
  USBH_GROUP_SELECT_def SARADC0_GROUP_SELECT_def SARADC1_GROUP_SELECT_def SARADC2_GROUP_SELECT_def
  SARADC3_GROUP_SELECT_def MIPI_GROUP_SELECT_def DVP_GROUP_SELECT_def SSI_GROUP_SELECT_def
  SDIO0_GROUP_SELECT_def SDIO0WP_GROUP_SELECT_def SDIO0CD_GROUP_SELECT_def SDIO1_GROUP_SELECT_def
  SDIO1VIDEO_GROUP_SELECT_def SDIO1WP_GROUP_SELECT_def SDIO1CD_GROUP_SELECT_def I2C0_GROUP_SELECT_def
  I2CPWM_GROUP_SELECT_def UART2_USB_GROUP_SELECT_def DMIC_GROUP_SELECT_def I2C1_GROUP_SELECT_def
  SPI_GROUP_SELECT_def H265_UART_GROUP_SELECT_def PDM_GROUP_SELECT_def SPDIF_OUT_GROUP_SELECT_def
  PWMSD_GROUP_SELECT_def DEFAULT_GROUP_SELECT_def

text \<open>The offsets of \<open>struct pinregs\<close>.\<close>

definition pr_gpio_oe :: nat where "pr_gpio_oe = 0"
definition pr_gpio_value :: nat where "pr_gpio_value = 4"
definition pr_pullctrl :: nat where "pr_pullctrl = 8"
definition pr_gpio_int_en :: nat where "pr_gpio_int_en = 12"
definition pr_gpio_int :: nat where "pr_gpio_int = 16"
definition pr_drv_sel :: nat where "pr_drv_sel = 20"
definition pr_sr_ctrl :: nat where "pr_sr_ctrl = 24"
definition pr_pad_cfg :: nat where "pr_pad_cfg = 28"

lemmas pinregs_defs = pr_gpio_oe_def pr_gpio_value_def pr_pullctrl_def pr_gpio_int_en_def pr_gpio_int_def
  pr_drv_sel_def pr_sr_ctrl_def pr_pad_cfg_def

section \<open>Pins and register blocks\<close>

datatype gpio_type = GPIO_TYPE_GENERIC | GPIO_TYPE_UART0 | GPIO_TYPE_UART1 | GPIO_TYPE_UART2 | GPIO_TYPE_PWM |
  GPIO_TYPE_I2C | GPIO_TYPE_SDIO0 | GPIO_TYPE_SDIO1 | GPIO_TYPE_SSOR | GPIO_TYPE_DMIC | GPIO_TYPE_ADDA |
  GPIO_TYPE_I2S | GPIO_TYPE_SARADC | GPIO_TYPE_USBH | GPIO_TYPE_USBD | GPIO_TYPE_USB3 | GPIO_TYPE_SSORI2C |
  GPIO_TYPE_SPI

record sharepin_cfg_addr =
  pinl :: int
  pinh :: int
  pint :: gpio_type
  pinaddr :: nat

definition rts_gpio_pins :: "(int \<times> string) list" where
  "rts_gpio_pins =
     [(0, ''GPIO0''), (1, ''GPIO1''), (2, ''GPIO2''), (3, ''GPIO3''),
      (4, ''GPIO4''), (5, ''GPIO5''), (6, ''GPIO6''), (7, ''GPIO7''),
      (8, ''GPIO8''), (9, ''GPIO9''), (10, ''GPIO10''), (11, ''GPIO11''),
      (12, ''GPIO12''), (13, ''GPIO13''), (14, ''GPIO14''), (15, ''GPIO15''),
      (16, ''UART0RXD''), (17, ''UART0TXD''), (18, ''UART0RTS''), (19, ''UART0CTS''),
      (20, ''UART1RXD''), (21, ''UART1TXD''), (22, ''UART2RXD''), (23, ''UART2TXD''),
      (24, ''UART2RTS''), (25, ''UART2CTS''), (26, ''PWMGPIO0''), (27, ''PWMGPIO1''),
      (28, ''PWMGPIO2''), (29, ''PWMGPIO3''), (30, ''I2CSCL''), (31, ''I2CSDA''),
      (32, ''SDIO0_CMD''), (33, ''SDIO0_DATA0''), (34, ''SDIO0_DATA1''), (35, ''SDIO0_DATA2''),
      (36, ''SDIO0_DATA3''), (37, ''SDIO0_CLK''), (38, ''SDIO0_WP''), (39, ''SDIO0_CD''),
      (40, ''SDIO1_CMD''), (41, ''SDIO1_DATA0''), (42, ''SDIO1_DATA1''), (43, ''SDIO1_DATA2''),
      (44, ''SDIO1_DATA3''), (45, ''SDIO1_CLK''), (46, ''SDIO1_WP''), (47, ''SDIO1_CD''),
      (48, ''PAD_SSOR_PIXDIN_EXT_0''), (49, ''PAD_SSOR_PIXDIN_EXT_1''), (50, ''PAD_SSOR_PIXDIN_0''), (51, ''PAD_SSOR_PIXDIN_1''),
      (52, ''PAD_SSOR_PIXDIN_2''), (53, ''PAD_SSOR_PIXDIN_3''), (54, ''PAD_SSOR_PIXDIN_6''), (55, ''PAD_SSOR_PIXDIN_7''),
      (56, ''PAD_SSOR_PIXDIN_8''), (57, ''PAD_SSOR_PIXDIN_9''), (58, ''PAD_SSOR_HSYNC''), (59, ''PAD_SSOR_VSYNC''),
      (60, ''PAD_SSOR_PIXCLK''), (61, ''PAD_CLK_DMIC1''), (62, ''PAD_DMIC1_IN''), (63, ''PAD_CLK_DMIC2''),
      (64, ''PAD_DMIC2_IN''), (65, ''LINE_OUTL''), (66, ''LINE_OUTR''), (67, ''MIC_INL''),
      (68, ''MIC_INR''), (69, ''PAD_I2S_MCLK''), (70, ''PAD_I2S_SCK''), (71, ''PAD_I2S_WS''),
      (72, ''PAD_I2S_SD_IN''), (73, ''PAD_I2S_SD_OUT''), (74, ''CH_SAR_PAD0''), (75, ''CH_SAR_PAD1''),
      (76, ''CH_SAR_PAD2''), (77, ''CH_SAR_PAD3''), (78, ''USB_HOST_DP''), (79, ''USB_HOST_DM''),
      (80, ''USB_DEV_DP''), (81, ''USB_DEV_DM''), (82, ''USB_HOST_PWREN''), (83, ''USB_HOST_OCD''),
      (84, ''USB_DEV_VBUS''), (85, ''SSOR_I2C_SCL''), (86, ''SSOR_I2C_SDA''), (87, ''SPI_HOLD''),
      (88, ''SPI_WP''), (89, ''SPI_SO''), (90, ''SPI_SI''), (91, ''SPI_SCK''),
      (92, ''SPI_CSN'')]"

definition pincfgaddr :: "sharepin_cfg_addr list" where
  "pincfgaddr =
     [\<lparr>pinl = 0, pinh = 15, pint = GPIO_TYPE_GENERIC, pinaddr = GPIO_OE\<rparr>,
      \<lparr>pinl = 16, pinh = 19, pint = GPIO_TYPE_UART0, pinaddr = UART0_GPIO_OE\<rparr>,
      \<lparr>pinl = 20, pinh = 21, pint = GPIO_TYPE_UART1, pinaddr = UART1_GPIO_OE\<rparr>,
      \<lparr>pinl = 22, pinh = 25, pint = GPIO_TYPE_UART2, pinaddr = UART2_GPIO_OE\<rparr>,
      \<lparr>pinl = 26, pinh = 29, pint = GPIO_TYPE_PWM, pinaddr = PWM_GPIO_OE\<rparr>,
      \<lparr>pinl = 30, pinh = 31, pint = GPIO_TYPE_I2C, pinaddr = XB2_I2C_GPIO_OE\<rparr>,
      \<lparr>pinl = 32, pinh = 39, pint = GPIO_TYPE_SDIO0, pinaddr = SD0_GPIO_OE\<rparr>,
      \<lparr>pinl = 40, pinh = 47, pint = GPIO_TYPE_SDIO1, pinaddr = SD1_GPIO_OE\<rparr>,
      \<lparr>pinl = 48, pinh = 60, pint = GPIO_TYPE_SSOR, pinaddr = VIDEO_GPIO_OE\<rparr>,
      \<lparr>pinl = 61, pinh = 64, pint = GPIO_TYPE_DMIC, pinaddr = DMIC_GPIO_OE\<rparr>,
      \<lparr>pinl = 65, pinh = 68, pint = GPIO_TYPE_ADDA, pinaddr = AUDIO_ADDA_GPIO_OE\<rparr>,
      \<lparr>pinl = 69, pinh = 73, pint = GPIO_TYPE_I2S, pinaddr = I2S_GPIO_OE\<rparr>,
      \<lparr>pinl = 74, pinh = 77, pint = GPIO_TYPE_SARADC, pinaddr = SARADC_GPIO_OE\<rparr>,
      \<lparr>pinl = 78, pinh = 79, pint = GPIO_TYPE_USBH, pinaddr = USB0_GPIO_OE\<rparr>,
      \<lparr>pinl = 80, pinh = 81, pint = GPIO_TYPE_USBD, pinaddr = USB1_GPIO_OE\<rparr>,
      \<lparr>pinl = 82, pinh = 84, pint = GPIO_TYPE_USB3, pinaddr = USB2_GPIO_OE\<rparr>,
      \<lparr>pinl = 85, pinh = 86, pint = GPIO_TYPE_SSORI2C, pinaddr = SSOR_I2C_GPIO_OE\<rparr>,
      \<lparr>pinl = 87, pinh = 88, pint = GPIO_TYPE_SPI, pinaddr = SPI_GPIO_OE\<rparr>]"

section \<open>Groups of pins\<close>

definition gpio_pins :: "int list" where
  "gpio_pins = [0, 1, 2, 3, 4, 5, 6, 7, 8, 9, 10, 11, 12, 13, 14, 15, 16, 17, 18, 19,
     20, 21, 22, 23, 24, 25, 26, 27, 28, 29, 30, 31, 32, 33, 34, 35, 36, 37, 38, 39,
     40, 41, 42, 43, 44, 45, 46, 47, 48, 49, 50, 51, 52, 53, 54, 55, 56, 57, 58, 59,
     60, 61, 62, 63, 64, 65, 66, 67, 68, 69, 70, 71, 72, 73, 74, 75, 76, 77, 78, 79,
     80, 81, 82, 83, 84, 85, 86, 87, 88]"

definition uart0_pins :: "int list" where
  "uart0_pins = [16, 17, 18, 19]"

definition ssi_pins :: "int list" where
  "ssi_pins = [16, 17, 18, 19]"

definition uart1_pins :: "int list" where
  "uart1_pins = [20, 21]"

definition uart2_pins :: "int list" where
  "uart2_pins = [22, 23, 24, 25]"

definition pwm0_pins :: "int list" where
  "pwm0_pins = [26]"

definition pwm1_pins :: "int list" where
  "pwm1_pins = [27]"

definition pwm2_pins :: "int list" where
  "pwm2_pins = [28]"

definition pwm3_pins :: "int list" where
  "pwm3_pins = [29]"

definition i2c0_pins :: "int list" where
  "i2c0_pins = [30, 31]"

definition i2cpwm_pins :: "int list" where
  "i2cpwm_pins = [26, 27]"

definition sdio0_pins :: "int list" where
  "sdio0_pins = [32, 33, 34, 35, 36, 37]"

definition sdio0_wp_pins :: "int list" where
  "sdio0_wp_pins = [38]"

definition sdio0_cd_pins :: "int list" where
  "sdio0_cd_pins = [39]"

definition sdio1_pins :: "int list" where
  "sdio1_pins = [40, 41, 42, 43, 44, 45]"

definition sdio1_video_pins :: "int list" where
  "sdio1_video_pins = [8, 48, 49, 58, 59, 60]"

definition sdio1_wp_pins :: "int list" where
  "sdio1_wp_pins = [46]"

definition sdio1_cd_pins :: "int list" where
  "sdio1_cd_pins = [47]"

definition dvp_pins :: "int list" where
  "dvp_pins = [48, 49, 50, 51, 52, 53, 54, 55, 56, 57, 58, 59, 60]"

definition mipi_pins :: "int list" where
  "mipi_pins = [50, 51, 52, 53, 54, 55, 56, 57]"

definition dmic1_pins :: "int list" where
  "dmic1_pins = [61, 62]"

definition dmic2_pins :: "int list" where
  "dmic2_pins = [63, 64]"

definition lineout_pins :: "int list" where
  "lineout_pins = [65, 66]"

definition amic_pins :: "int list" where
  "amic_pins = [65, 66]"

definition dmic_pins :: "int list" where
  "dmic_pins = [67, 68]"

definition i2s_pins :: "int list" where
  "i2s_pins = [69, 70, 71, 72, 73]"

definition i2sxb2_pins :: "int list" where
  "i2sxb2_pins = [16, 17, 18, 19, 29]"

definition i2sdvp_pins :: "int list" where
  "i2sdvp_pins = [8, 48, 49, 58, 59]"

definition saradc0_pins :: "int list" where
  "saradc0_pins = [74]"

definition saradc1_pins :: "int list" where
  "saradc1_pins = [75]"

definition saradc2_pins :: "int list" where
  "saradc2_pins = [76]"

definition saradc3_pins :: "int list" where
  "saradc3_pins = [77]"

definition usbh_pins :: "int list" where
  "usbh_pins = [78, 79, 82, 83]"

definition usbd_pins :: "int list" where
  "usbd_pins = [80, 81, 84]"

definition etnled0_pins :: "int list" where
  "etnled0_pins = [26]"

definition etnled1_pins :: "int list" where
  "etnled1_pins = [27]"

definition etnled2_pins :: "int list" where
  "etnled2_pins = [28]"

definition usbd_uart2_pins :: "int list" where
  "usbd_uart2_pins = [80, 81]"

definition i2c1_pins :: "int list" where
  "i2c1_pins = [85, 86]"

definition spi_pins :: "int list" where
  "spi_pins = [87, 88, 89, 90, 91, 92]"

definition h265_uart_pins :: "int list" where
  "h265_uart_pins = [0, 1]"

definition pdm_pins :: "int list" where
  "pdm_pins = [70, 73]"

definition spdifout_pins :: "int list" where
  "spdifout_pins = [69]"

definition pwmsd_pins :: "int list" where
  "pwmsd_pins = [41, 42, 42, 44]"

definition default_pins :: "int list" where
  "default_pins = []"

lemmas rts_pins_defs = gpio_pins_def uart0_pins_def ssi_pins_def uart1_pins_def uart2_pins_def pwm0_pins_def
  pwm1_pins_def pwm2_pins_def pwm3_pins_def i2c0_pins_def i2cpwm_pins_def sdio0_pins_def sdio0_wp_pins_def
  sdio0_cd_pins_def sdio1_pins_def sdio1_video_pins_def sdio1_wp_pins_def sdio1_cd_pins_def dvp_pins_def
  mipi_pins_def dmic1_pins_def dmic2_pins_def lineout_pins_def amic_pins_def dmic_pins_def i2s_pins_def
  i2sxb2_pins_def i2sdvp_pins_def saradc0_pins_def saradc1_pins_def saradc2_pins_def saradc3_pins_def
  usbh_pins_def usbd_pins_def etnled0_pins_def etnled1_pins_def etnled2_pins_def usbd_uart2_pins_def
  i2c1_pins_def spi_pins_def h265_uart_pins_def pdm_pins_def spdifout_pins_def pwmsd_pins_def default_pins_def

record rts_pin_group =
  grp_name :: string
  grp_pins :: "int list"

definition rts_pin_groups :: "rts_pin_group list" where
  "rts_pin_groups =
     [\<lparr>grp_name = ''gpiogrp'', grp_pins = gpio_pins\<rparr>,
      \<lparr>grp_name = ''uart0grp'', grp_pins = uart0_pins\<rparr>,
      \<lparr>grp_name = ''uart1grp'', grp_pins = uart1_pins\<rparr>,
      \<lparr>grp_name = ''uart2grp'', grp_pins = uart2_pins\<rparr>,
      \<lparr>grp_name = ''pwm0grp'', grp_pins = pwm0_pins\<rparr>,
      \<lparr>grp_name = ''pwm1grp'', grp_pins = pwm1_pins\<rparr>,
      \<lparr>grp_name = ''pwm2grp'', grp_pins = pwm2_pins\<rparr>,
      \<lparr>grp_name = ''pwm3grp'', grp_pins = pwm3_pins\<rparr>,
      \<lparr>grp_name = ''dmic1grp'', grp_pins = dmic1_pins\<rparr>,
      \<lparr>grp_name = ''dmic2grp'', grp_pins = dmic2_pins\<rparr>,
      \<lparr>grp_name = ''i2sgrp'', grp_pins = i2s_pins\<rparr>,
      \<lparr>grp_name = ''i2sxb2grp'', grp_pins = i2sxb2_pins\<rparr>,
      \<lparr>grp_name = ''i2sdvpgrp'', grp_pins = i2sdvp_pins\<rparr>,
      \<lparr>grp_name = ''amicgrp'', grp_pins = amic_pins\<rparr>,
      \<lparr>grp_name = ''lineoutgrp'', grp_pins = lineout_pins\<rparr>,
      \<lparr>grp_name = ''usbdgrp'', grp_pins = usbd_pins\<rparr>,
      \<lparr>grp_name = ''etnled0grp'', grp_pins = etnled0_pins\<rparr>,
      \<lparr>grp_name = ''etnled1grp'', grp_pins = etnled1_pins\<rparr>,
      \<lparr>grp_name = ''etnled2grp'', grp_pins = etnled2_pins\<rparr>,
      \<lparr>grp_name = ''usbhgrp'', grp_pins = usbh_pins\<rparr>,
      \<lparr>grp_name = ''saradc0grp'', grp_pins = saradc0_pins\<rparr>,
      \<lparr>grp_name = ''saradc1grp'', grp_pins = saradc1_pins\<rparr>,
      \<lparr>grp_name = ''saradc2grp'', grp_pins = saradc2_pins\<rparr>,
      \<lparr>grp_name = ''saradc3grp'', grp_pins = saradc3_pins\<rparr>,
      \<lparr>grp_name = ''mipigrp'', grp_pins = mipi_pins\<rparr>,
      \<lparr>grp_name = ''dvpgrp'', grp_pins = dvp_pins\<rparr>,
      \<lparr>grp_name = ''ssigrp'', grp_pins = ssi_pins\<rparr>,
      \<lparr>grp_name = ''sdio0grp'', grp_pins = sdio0_pins\<rparr>,
      \<lparr>grp_name = ''sdio0wpgrp'', grp_pins = sdio0_wp_pins\<rparr>,
      \<lparr>grp_name = ''sdio0cdgrp'', grp_pins = sdio0_cd_pins\<rparr>,
      \<lparr>grp_name = ''sdio1grp'', grp_pins = sdio1_pins\<rparr>,
      \<lparr>grp_name = ''sdio1videogrp'', grp_pins = sdio1_video_pins\<rparr>,
      \<lparr>grp_name = ''sdio1wpgrp'', grp_pins = sdio1_wp_pins\<rparr>,
      \<lparr>grp_name = ''sdio1cdgrp'', grp_pins = sdio1_cd_pins\<rparr>,
      \<lparr>grp_name = ''i2c0grp'', grp_pins = i2c0_pins\<rparr>,
      \<lparr>grp_name = ''i2cpwmgrp'', grp_pins = i2cpwm_pins\<rparr>,
      \<lparr>grp_name = ''uart2usbdgrp'', grp_pins = usbd_uart2_pins\<rparr>,
      \<lparr>grp_name = ''dmicgrp'', grp_pins = dmic_pins\<rparr>,
      \<lparr>grp_name = ''i2c1grp'', grp_pins = i2c1_pins\<rparr>,
      \<lparr>grp_name = ''spigrp'', grp_pins = spi_pins\<rparr>,
      \<lparr>grp_name = ''h265uartgrp'', grp_pins = h265_uart_pins\<rparr>,
      \<lparr>grp_name = ''pdmgrp'', grp_pins = pdm_pins\<rparr>,
      \<lparr>grp_name = ''spdifoutgrp'', grp_pins = spdifout_pins\<rparr>,
      \<lparr>grp_name = ''pwmsdgrp'', grp_pins = pwmsd_pins\<rparr>,
      \<lparr>grp_name = ''default'', grp_pins = default_pins\<rparr>]"

section \<open>Functions\<close>

definition gpiogrps :: "string list" where
  "gpiogrps = [''gpiogrp'']"

definition uartgrps :: "string list" where
  "uartgrps = [''uart0grp'', ''uart1grp'', ''uart2grp'', ''uart2usbdgrp'']"

definition pwmgrps :: "string list" where
  "pwmgrps = [''pwm0grp'', ''pwm1grp'', ''pwm2grp'', ''pwm3grp'', ''pwmsdgrp'']"

definition audiogrps :: "string list" where
  "audiogrps = [''dmic1grp'', ''dmic2grp'', ''dmicgrp'', ''amicgrp'', ''lineoutgrp'', ''i2sgrp'', ''i2sxb2grp'', ''i2sdvpgrp'', ''pdmgrp'', ''spdifoutgrp'', ''default'']"

definition usbdgrps :: "string list" where
  "usbdgrps = [''usbdgrp'', ''default'']"

definition etnledgrps :: "string list" where
  "etnledgrps = [''etnled0grp'', ''etnled1grp'', ''etnled2grp'']"

definition saradcgrps :: "string list" where
  "saradcgrps = [''saradc0grp'', ''saradc1grp'', ''saradc2grp'', ''saradc3grp'']"

definition usbhgrps :: "string list" where
  "usbhgrps = [''usbhgrp'']"

definition ssorgrps :: "string list" where
  "ssorgrps = [''mipigrp'', ''dvpgrp'', ''default'']"

definition ssigrps :: "string list" where
  "ssigrps = [''ssigrp'']"

definition sdio0grps :: "string list" where
  "sdio0grps = [''sdio0grp'', ''sdio0wpgrp'', ''sdio0cdgrp'']"

definition sdio1grps :: "string list" where
  "sdio1grps = [''sdio1grp'', ''sdio1wpgrp'', ''sdio1cdgrp'', ''sdio1videogrp'']"

definition i2cgrps :: "string list" where
  "i2cgrps = [''i2c0grp'', ''i2cpwmgrp'', ''i2c1grp'']"

definition spigrps :: "string list" where
  "spigrps = [''spigrp'']"

definition h265uartgrps :: "string list" where
  "h265uartgrps = [''h265uartgrp'']"

lemmas rts_grps_defs = gpiogrps_def uartgrps_def pwmgrps_def audiogrps_def usbdgrps_def etnledgrps_def
  saradcgrps_def usbhgrps_def ssorgrps_def ssigrps_def sdio0grps_def sdio1grps_def i2cgrps_def spigrps_def
  h265uartgrps_def

record rts_func =
  fn_name :: string
  fn_groups :: "string list"

definition rts_functions :: "rts_func list" where
  "rts_functions =
     [\<lparr>fn_name = ''gpiofunc'', fn_groups = gpiogrps\<rparr>,
      \<lparr>fn_name = ''sdio0func'', fn_groups = sdio0grps\<rparr>,
      \<lparr>fn_name = ''sdio1func'', fn_groups = sdio1grps\<rparr>,
      \<lparr>fn_name = ''uartfunc'', fn_groups = uartgrps\<rparr>,
      \<lparr>fn_name = ''pwmfunc'', fn_groups = pwmgrps\<rparr>,
      \<lparr>fn_name = ''audiofunc'', fn_groups = audiogrps\<rparr>,
      \<lparr>fn_name = ''usbdfunc'', fn_groups = usbdgrps\<rparr>,
      \<lparr>fn_name = ''etnledfunc'', fn_groups = etnledgrps\<rparr>,
      \<lparr>fn_name = ''usbhfunc'', fn_groups = usbhgrps\<rparr>,
      \<lparr>fn_name = ''saradcfunc'', fn_groups = saradcgrps\<rparr>,
      \<lparr>fn_name = ''ssorfunc'', fn_groups = ssorgrps\<rparr>,
      \<lparr>fn_name = ''ssifunc'', fn_groups = ssigrps\<rparr>,
      \<lparr>fn_name = ''i2cfunc'', fn_groups = i2cgrps\<rparr>,
      \<lparr>fn_name = ''spifunc'', fn_groups = spigrps\<rparr>,
      \<lparr>fn_name = ''h265uartfunc'', fn_groups = h265uartgrps\<rparr>]"

end
