(* ===== verification/Pinctrl_Core.thy ===== *)
theory Pinctrl_Core
  imports Pinmux
begin

text \<open>
  The pin control core (\<open>drivers/pinctrl/core.c\<close>) above \<open>Pinmux\<close>: pin controllers and their GPIO
  ranges, mapping tables, the handles of consumer devices with their states, and the selection of a
  state with its rollback.

  The state holds the objects of the core by address: controllers (each with the \<open>pinctrl_dev\<close> that
  \<open>Pinmux\<close> works on) and handles, the three global lists, and the outcomes \<open>mem\<close> of the next memory
  allocations (they succeed when the list is empty).  A state of a handle is known by its position,
  because states are only appended.  An operation through a dangling address has no meaning in C;
  it does nothing here.  The functions of \<open>pinconf.c\<close> and \<open>devicetree.c\<close> are parameters.
\<close>

section \<open>Data\<close>

datatype pinctrl_map_type = PIN_MAP_TYPE_INVALID | PIN_MAP_TYPE_DUMMY_STATE | PIN_MAP_TYPE_MUX_GROUP
  | PIN_MAP_TYPE_CONFIGS_PIN | PIN_MAP_TYPE_CONFIGS_GROUP

record pinctrl_map =
  map_dev_name :: "string option"
  map_name :: "string option"
  map_type :: pinctrl_map_type
  ctrl_dev_name :: "string option"
  map_mux :: pinctrl_map_mux
  map_configs :: "string \<times> u32 list"

record pinctrl_gpio_range =
  range_name :: string
  range_base :: u32
  range_npins :: u32
  range_pin_base :: u32
  range_pins :: "u32 list option"

record pinctrl_pin_desc =
  pin_number :: int
  pin_name :: "string option"

record device =
  dev_id :: nat
  dev_name :: string

record 'h pinctrl_desc =
  pcd_name :: "string option"
  pcd_pins :: "pinctrl_pin_desc list"
  pctlops :: "'h pinctrl_ops option"
  pmxops :: "'h pinmux_ops option"
  confops :: bool
  link_consumers :: bool

text \<open>Pointers that may hold an error are sums; \<open>None\<close> is the null pointer.\<close>

record 'h controller =
  pctl :: "'h pinctrl_dev"
  ctl_dev :: device
  desc :: "'h pinctrl_desc"
  gpio_ranges :: "pinctrl_gpio_range list"
  hog :: "nat err_ptr option"
  hog_default :: "nat err_ptr option"
  hog_sleep :: "nat err_ptr option"

text \<open>Of the union \<open>data\<close> only the part of the type is in use; the device name of the setting is in
  \<open>set_mux_data\<close>.\<close>

record pc_setting =
  set_type :: pinctrl_map_type
  set_ctl :: nat
  set_mux_data :: pinctrl_setting
  set_configs :: "nat \<times> u32 list"

record pinctrl_state =
  state_name :: string
  settings :: "pc_setting list"

record pinctrl =
  p_dev :: device
  states :: "pinctrl_state list"
  p_state :: "nat option"
  users :: nat

record 'h pinctrl_world =
  controllers :: "nat \<rightharpoonup> 'h controller"
  pinctrldev_list :: "nat list"
  handles :: "nat \<rightharpoonup> pinctrl"
  pinctrl_list :: "nat list"
  pinctrl_maps :: "(nat \<times> pinctrl_map list) list"
  pinctrl_dummy_state :: bool
  links :: "(device \<times> device) list"
  next_addr :: nat
  mem :: "bool list"

text \<open>What the core calls outside the repository.  \<open>gpio_to_chip\<close> gives the first number and the
  length of the GPIO chip of a number.\<close>

record 'h pinctrl_env =
  dt_to_map :: "device \<Rightarrow> nat option \<Rightarrow> 'h pinctrl_world \<Rightarrow> int \<times> 'h pinctrl_world"
  dt_free_maps :: "device \<Rightarrow> 'h pinctrl_world \<Rightarrow> 'h pinctrl_world"
  pinconf_map_to_setting :: "pinctrl_map \<Rightarrow> 'h controller \<Rightarrow> int \<times> nat \<times> u32 list"
  pinconf_apply_setting :: "pinctrl_map_type \<Rightarrow> nat \<times> u32 list \<Rightarrow> 'h \<Rightarrow> int \<times> 'h"
  pinconf_validate_map :: "pinctrl_map \<Rightarrow> int"
  pinconf_check_ops :: "'h pinctrl_desc \<Rightarrow> int"
  pinconf_set_config :: "int \<Rightarrow> u32 list \<Rightarrow> 'h \<Rightarrow> int \<times> 'h"
  gpio_to_chip :: "u32 \<Rightarrow> (u32 \<times> u32) option"
  pin_label :: "int \<Rightarrow> string"
  gpio_label :: "string \<Rightarrow> u32 \<Rightarrow> string"

definition kzalloc :: "'h pinctrl_world \<Rightarrow> bool \<times> 'h pinctrl_world" where
  "kzalloc w = (case mem w of [] \<Rightarrow> (True, w) | b # bs \<Rightarrow> (b, w\<lparr>mem := bs\<rparr>))"

text \<open>Running an operation on a controller.\<close>

definition run_ctl :: "nat \<Rightarrow> ('h controller \<Rightarrow> int \<times> 'h pinctrl_dev) \<Rightarrow> 'h pinctrl_world \<Rightarrow> int \<times> 'h pinctrl_world" where
  "run_ctl c f w = (case controllers w c of
     None \<Rightarrow> (0, w)
   | Some k \<Rightarrow> (case f k of (ret, s) \<Rightarrow> (ret, w\<lparr>controllers := (controllers w)(c \<mapsto> k\<lparr>pctl := s\<rparr>)\<rparr>)))"

section \<open>Controllers and pins\<close>

definition pinctrl_provide_dummies :: "'h pinctrl_world \<Rightarrow> 'h pinctrl_world" where
  "pinctrl_provide_dummies w = w\<lparr>pinctrl_dummy_state := True\<rparr>"

definition ctl_at :: "'h pinctrl_world \<Rightarrow> nat \<Rightarrow> 'h controller" where
  "ctl_at w c = the (controllers w c)"

definition pinctrl_dev_get_name :: "'h controller \<Rightarrow> string option" where
  "pinctrl_dev_get_name k = pcd_name (desc k)"

definition pinctrl_dev_get_devname :: "'h controller \<Rightarrow> string" where
  "pinctrl_dev_get_devname k = dev_name (ctl_dev k)"

definition get_pinctrl_dev_from_devname :: "string option \<Rightarrow> 'h pinctrl_world \<Rightarrow> nat option" where
  "get_pinctrl_dev_from_devname nm w = (case nm of None \<Rightarrow> None
     | Some n \<Rightarrow> find (\<lambda>c. dev_name (ctl_dev (ctl_at w c)) = n) (pinctrldev_list w))"

definition pin_get_from_name :: "'h controller \<Rightarrow> string \<Rightarrow> int" where
  "pin_get_from_name k nm =
     (case find (\<lambda>d. case pin_desc_get (pctl k) (pin_number d) of None \<Rightarrow> False | Some pd \<Rightarrow> name pd = nm) (pcd_pins (desc k)) of
        Some d \<Rightarrow> pin_number d
      | None \<Rightarrow> - EINVAL)"

definition pin_get_name :: "'h controller \<Rightarrow> int \<Rightarrow> string option" where
  "pin_get_name k pin = map_option name (pin_desc_get (pctl k) pin)"

definition pinctrl_free_pindescs :: "pinctrl_pin_desc list \<Rightarrow> 'h pinctrl_dev \<Rightarrow> 'h pinctrl_dev" where
  "pinctrl_free_pindescs pins s = fold (\<lambda>d t. t\<lparr>pin_desc_tree := (pin_desc_tree t)(pin_number d := None)\<rparr>) pins s"

definition pinctrl_register_one_pin ::
    "'h pinctrl_env \<Rightarrow> pinctrl_pin_desc \<Rightarrow> 'h pinctrl_dev \<times> 'h pinctrl_world \<Rightarrow> int \<times> 'h pinctrl_dev \<times> 'h pinctrl_world" where
  "pinctrl_register_one_pin e d sw = (case sw of (s, w) \<Rightarrow>
     if pin_desc_get s (pin_number d) \<noteq> None then (- EINVAL, s, w)
     else
       case kzalloc w of (ok, w1) \<Rightarrow>
       if \<not> ok then (- ENOMEM, s, w1)
       else
         case (case pin_name d of Some n \<Rightarrow> (Some n, w1)
               | None \<Rightarrow> (case kzalloc w1 of (ok, w2) \<Rightarrow> (if ok then Some (pin_label e (pin_number d)) else None, w2))) of
           (None, w2) \<Rightarrow> (- ENOMEM, s, w2)
         | (Some n, w2) \<Rightarrow>
             (0, set_pin (pin_number d) \<lparr>name = n, mux_usecount = 0, mux_owner = None, mux_setting = None, gpio_owner = None\<rparr> s, w2))"

fun pinctrl_register_pins ::
    "'h pinctrl_env \<Rightarrow> pinctrl_pin_desc list \<Rightarrow> 'h pinctrl_dev \<times> 'h pinctrl_world \<Rightarrow> int \<times> 'h pinctrl_dev \<times> 'h pinctrl_world" where
  "pinctrl_register_pins e [] sw = (0, sw)"
| "pinctrl_register_pins e (d # ds) sw = (case pinctrl_register_one_pin e d sw of
     (ret, sw1) \<Rightarrow> if ret \<noteq> 0 then (ret, sw1) else pinctrl_register_pins e ds sw1)"

section \<open>GPIO ranges\<close>

definition gpio_to_pin :: "pinctrl_gpio_range \<Rightarrow> u32 \<Rightarrow> int" where
  "gpio_to_pin r gpio =
     (let offset = gpio - range_base r in
      case range_pins r of Some ps \<Rightarrow> sint (ps ! unat offset) | None \<Rightarrow> sint (range_pin_base r + offset))"

definition pinctrl_match_gpio_range :: "'h controller \<Rightarrow> u32 \<Rightarrow> pinctrl_gpio_range option" where
  "pinctrl_match_gpio_range k gpio =
     find (\<lambda>r. range_base r \<le> gpio \<and> gpio < range_base r + range_npins r) (gpio_ranges k)"

definition pinctrl_ready_for_gpio_range :: "'h pinctrl_env \<Rightarrow> u32 \<Rightarrow> 'h pinctrl_world \<Rightarrow> bool" where
  "pinctrl_ready_for_gpio_range e gpio w = (case gpio_to_chip e gpio of
     None \<Rightarrow> False
   | Some (base, ngpio) \<Rightarrow>
       list_ex (\<lambda>c. list_ex (\<lambda>r. \<not> (range_base r + range_npins r - 1 < base \<or> base + ngpio - 1 < range_base r))
         (gpio_ranges (ctl_at w c))) (pinctrldev_list w))"

fun gpio_range_loop :: "nat list \<Rightarrow> u32 \<Rightarrow> 'h pinctrl_world \<Rightarrow> (nat \<times> pinctrl_gpio_range) option" where
  "gpio_range_loop [] gpio w = None"
| "gpio_range_loop (c # cs) gpio w = (case pinctrl_match_gpio_range (ctl_at w c) gpio of
     Some r \<Rightarrow> Some (c, r)
   | None \<Rightarrow> gpio_range_loop cs gpio w)"

definition pinctrl_get_device_gpio_range :: "u32 \<Rightarrow> 'h pinctrl_world \<Rightarrow> (nat \<times> pinctrl_gpio_range) err_ptr" where
  "pinctrl_get_device_gpio_range gpio w = (case gpio_range_loop (pinctrldev_list w) gpio w of
     Some cr \<Rightarrow> Inr cr | None \<Rightarrow> Inl (- EPROBE_DEFER))"

definition upd_ctl :: "nat \<Rightarrow> ('h controller \<Rightarrow> 'h controller) \<Rightarrow> 'h pinctrl_world \<Rightarrow> 'h pinctrl_world" where
  "upd_ctl c f w = w\<lparr>controllers := (controllers w)(c := map_option f (controllers w c))\<rparr>"

definition pinctrl_add_gpio_range :: "nat \<Rightarrow> pinctrl_gpio_range \<Rightarrow> 'h pinctrl_world \<Rightarrow> 'h pinctrl_world" where
  "pinctrl_add_gpio_range c r w = upd_ctl c (\<lambda>k. k\<lparr>gpio_ranges := gpio_ranges k @ [r]\<rparr>) w"

definition pinctrl_add_gpio_ranges :: "nat \<Rightarrow> pinctrl_gpio_range list \<Rightarrow> 'h pinctrl_world \<Rightarrow> 'h pinctrl_world" where
  "pinctrl_add_gpio_ranges c rs w = fold (pinctrl_add_gpio_range c) rs w"

definition pinctrl_find_and_add_gpio_range ::
    "string \<Rightarrow> pinctrl_gpio_range \<Rightarrow> 'h pinctrl_world \<Rightarrow> nat err_ptr \<times> 'h pinctrl_world" where
  "pinctrl_find_and_add_gpio_range nm r w = (case get_pinctrl_dev_from_devname (Some nm) w of
     None \<Rightarrow> (Inl (- EPROBE_DEFER), w)
   | Some c \<Rightarrow> (Inr c, pinctrl_add_gpio_range c r w))"

definition pinctrl_remove_gpio_range :: "nat \<Rightarrow> pinctrl_gpio_range \<Rightarrow> 'h pinctrl_world \<Rightarrow> 'h pinctrl_world" where
  "pinctrl_remove_gpio_range c r w = upd_ctl c (\<lambda>k. k\<lparr>gpio_ranges := remove1 r (gpio_ranges k)\<rparr>) w"

definition pinctrl_find_gpio_range_from_pin :: "'h controller \<Rightarrow> u32 \<Rightarrow> pinctrl_gpio_range option" where
  "pinctrl_find_gpio_range_from_pin k pin =
     find (\<lambda>r. case range_pins r of
        Some ps \<Rightarrow> pin \<in> set (take (unat (range_npins r)) ps)
      | None \<Rightarrow> range_pin_base r \<le> pin \<and> pin < range_pin_base r + range_npins r) (gpio_ranges k)"

definition pinctrl_get_group_pins :: "'h controller \<Rightarrow> string \<Rightarrow> int \<times> int list" where
  "pinctrl_get_group_pins k grp =
     (let o1 = the (pctlops (desc k)) in
      case get_group_pins o1 of
        None \<Rightarrow> (- EINVAL, [])
      | Some f \<Rightarrow>
          let gs = pinctrl_get_group_selector o1 (pc_hw (pctl k)) grp in
          if gs < 0 then (gs, []) else f (pc_hw (pctl k)) (nat gs))"

section \<open>GPIO requests\<close>

text \<open>Every call translates the number, then acts on the pin of the controller that has the range.\<close>

definition with_gpio :: "u32 \<Rightarrow> 'h pinctrl_world \<Rightarrow> (int \<Rightarrow> 'r) \<Rightarrow> (nat \<Rightarrow> pinctrl_gpio_range \<Rightarrow> int \<Rightarrow> 'r) \<Rightarrow> 'r" where
  "with_gpio gpio w no yes = (case pinctrl_get_device_gpio_range gpio w of
     Inl ret \<Rightarrow> no ret
   | Inr (c, r) \<Rightarrow> yes c r (gpio_to_pin r gpio))"

definition mux_of :: "'h controller \<Rightarrow> 'h pinmux_ops" where
  "mux_of k = the (pmxops (desc k))"

definition pinctrl_gpio_can_use_line :: "u32 \<Rightarrow> 'h pinctrl_world \<Rightarrow> bool" where
  "pinctrl_gpio_can_use_line gpio w =
     with_gpio gpio w (\<lambda>_. True)
       (\<lambda>c r pin. pinmux_can_be_used_for_gpio (pmxops (desc (ctl_at w c))) (pctl (ctl_at w c)) pin)"

definition pinctrl_gpio_request :: "'h pinctrl_env \<Rightarrow> u32 \<Rightarrow> 'h pinctrl_world \<Rightarrow> int \<times> 'h pinctrl_world" where
  "pinctrl_gpio_request e gpio w =
     with_gpio gpio w (\<lambda>ret. (if pinctrl_ready_for_gpio_range e gpio w then 0 else ret, w))
       (\<lambda>c r pin. case kzalloc w of (ok, w1) \<Rightarrow>
          run_ctl c (\<lambda>k. pinmux_request_gpio (mux_of k) (if ok then Some (gpio_label e (range_name r) gpio) else None)
                           (range_name r) pin (pctl k)) w1)"

definition pinctrl_gpio_free :: "u32 \<Rightarrow> 'h pinctrl_world \<Rightarrow> 'h pinctrl_world" where
  "pinctrl_gpio_free gpio w =
     with_gpio gpio w (\<lambda>ret. w)
       (\<lambda>c r pin. snd (run_ctl c (\<lambda>k. (0, pinmux_free_gpio (mux_of k) pin (range_name r) (pctl k))) w))"

definition pinctrl_gpio_direction :: "u32 \<Rightarrow> bool \<Rightarrow> 'h pinctrl_world \<Rightarrow> int \<times> 'h pinctrl_world" where
  "pinctrl_gpio_direction gpio input w =
     with_gpio gpio w (\<lambda>ret. (ret, w))
       (\<lambda>c r pin. run_ctl c (\<lambda>k. pinmux_gpio_direction (mux_of k) (range_name r) pin input (pctl k)) w)"

definition pinctrl_gpio_direction_input :: "u32 \<Rightarrow> 'h pinctrl_world \<Rightarrow> int \<times> 'h pinctrl_world" where
  "pinctrl_gpio_direction_input gpio w = pinctrl_gpio_direction gpio True w"

definition pinctrl_gpio_direction_output :: "u32 \<Rightarrow> 'h pinctrl_world \<Rightarrow> int \<times> 'h pinctrl_world" where
  "pinctrl_gpio_direction_output gpio w = pinctrl_gpio_direction gpio False w"

definition on_hw :: "('h \<Rightarrow> int \<times> 'h) \<Rightarrow> 'h controller \<Rightarrow> int \<times> 'h pinctrl_dev" where
  "on_hw f k = (case f (pc_hw (pctl k)) of (ret, h) \<Rightarrow> (ret, (pctl k)\<lparr>pc_hw := h\<rparr>))"

definition pinctrl_gpio_set_config :: "'h pinctrl_env \<Rightarrow> u32 \<Rightarrow> u32 \<Rightarrow> 'h pinctrl_world \<Rightarrow> int \<times> 'h pinctrl_world" where
  "pinctrl_gpio_set_config e gpio config w =
     with_gpio gpio w (\<lambda>ret. (ret, w)) (\<lambda>c r pin. run_ctl c (on_hw (pinconf_set_config e pin [config])) w)"

section \<open>States and settings of a handle\<close>

definition find_state :: "pinctrl \<Rightarrow> string \<Rightarrow> nat option" where
  "find_state p nm = find (\<lambda>i. state_name (states p ! i) = nm) [0..<length (states p)]"

definition create_state :: "pinctrl \<Rightarrow> string \<Rightarrow> 'h pinctrl_world \<Rightarrow> nat err_ptr \<times> pinctrl \<times> 'h pinctrl_world" where
  "create_state p nm w = (case kzalloc w of (ok, w1) \<Rightarrow>
     if \<not> ok then (Inl (- ENOMEM), p, w1)
     else (Inr (length (states p)), p\<lparr>states := states p @ [\<lparr>state_name = nm, settings = []\<rparr>]\<rparr>, w1))"

definition append_setting :: "nat \<Rightarrow> pc_setting \<Rightarrow> pinctrl \<Rightarrow> pinctrl" where
  "append_setting i x p = p\<lparr>states := (states p)[i := (states p ! i)\<lparr>settings := settings (states p ! i) @ [x]\<rparr>]\<rparr>"

text \<open>From a map entry to the data of a setting: the return code and the finished setting.\<close>

definition map_to_setting :: "'h pinctrl_env \<Rightarrow> 'h controller \<Rightarrow> pinctrl_map \<Rightarrow> pc_setting \<Rightarrow> int \<times> pc_setting" where
  "map_to_setting e k m x =
     (if map_type m = PIN_MAP_TYPE_MUX_GROUP then
        (case pinmux_map_to_setting (pmxops (desc k)) (the (pctlops (desc k))) (pc_hw (pctl k)) (map_mux m) (mux (set_mux_data x)) of
           (ret, md) \<Rightarrow> (ret, x\<lparr>set_mux_data := (set_mux_data x)\<lparr>mux := md\<rparr>\<rparr>))
      else if map_type m = PIN_MAP_TYPE_CONFIGS_PIN \<or> map_type m = PIN_MAP_TYPE_CONFIGS_GROUP then
        (case pinconf_map_to_setting e m k of (ret, cf) \<Rightarrow> (ret, x\<lparr>set_configs := cf\<rparr>))
      else (- EINVAL, x))"

definition add_setting ::
    "'h pinctrl_env \<Rightarrow> nat option \<Rightarrow> pinctrl_map \<Rightarrow> pinctrl \<Rightarrow> 'h pinctrl_world \<Rightarrow> int \<times> pinctrl \<times> 'h pinctrl_world" where
  "add_setting e pctldev m p w =
     (case (case find_state p (the (map_name m)) of
              Some i \<Rightarrow> (Inr i, p, w)
            | None \<Rightarrow> create_state p (the (map_name m)) w) of
        (Inl err, p1, w1) \<Rightarrow> (err, p1, w1)
      | (Inr i, p1, w1) \<Rightarrow>
          if map_type m = PIN_MAP_TYPE_DUMMY_STATE then (0, p1, w1)
          else
            case kzalloc w1 of (ok, w2) \<Rightarrow>
            if \<not> ok then (- ENOMEM, p1, w2)
            else
              case (case pctldev of Some c \<Rightarrow> Some c | None \<Rightarrow> get_pinctrl_dev_from_devname (ctrl_dev_name m) w2) of
                None \<Rightarrow> (if ctrl_dev_name m = map_dev_name m then - ENODEV else - EPROBE_DEFER, p1, w2)
              | Some c \<Rightarrow>
                  let x = \<lparr>set_type = map_type m, set_ctl = c,
                           set_mux_data = \<lparr>addr = next_addr w2, set_dev_name = the (map_dev_name m), mux = \<lparr>group = 0, func = 0\<rparr>\<rparr>,
                           set_configs = (0, [])\<rparr>;
                      w3 = w2\<lparr>next_addr := Suc (next_addr w2)\<rparr>
                  in case map_to_setting e (ctl_at w3 c) m x of (ret, x1) \<Rightarrow>
                     if ret < 0 then (ret, p1, w3) else (0, append_setting i x1 p1, w3))"

section \<open>Handles\<close>

definition handle_at :: "'h pinctrl_world \<Rightarrow> nat \<Rightarrow> pinctrl" where
  "handle_at w a = the (handles w a)"

definition find_pinctrl :: "device \<Rightarrow> 'h pinctrl_world \<Rightarrow> nat option" where
  "find_pinctrl dev w = find (\<lambda>a. dev_id (p_dev (handle_at w a)) = dev_id dev) (pinctrl_list w)"

text \<open>The entries that \<open>create_pinctrl\<close> looks at.  A dummy entry may have no controller name, which the
  code would pass to \<open>strcmp\<close> when it claims hogs; here such a name differs from every name.\<close>

definition map_for :: "device \<Rightarrow> string option \<Rightarrow> pinctrl_map \<Rightarrow> bool" where
  "map_for dev ctlname m \<longleftrightarrow> map_dev_name m = Some (dev_name dev) \<and> (ctlname \<noteq> None \<longrightarrow> ctrl_dev_name m = ctlname)"

fun maps_loop ::
    "'h pinctrl_env \<Rightarrow> device \<Rightarrow> nat option \<Rightarrow> pinctrl_map list \<Rightarrow> int \<Rightarrow> pinctrl \<Rightarrow> 'h pinctrl_world \<Rightarrow> int \<times> pinctrl \<times> 'h pinctrl_world" where
  "maps_loop e dev pctldev [] ret p w = (ret, p, w)"
| "maps_loop e dev pctldev (m # ms) ret p w =
     (if \<not> map_for dev (map_option (\<lambda>c. dev_name (ctl_dev (ctl_at w c))) pctldev) m
      then maps_loop e dev pctldev ms ret p w
      else case add_setting e pctldev m p w of (ret1, p1, w1) \<Rightarrow>
        if ret1 = - EPROBE_DEFER then (ret1, p1, w1) else maps_loop e dev pctldev ms ret1 p1 w1)"

text \<open>A handle that was never registered has no current state: freeing it only frees its maps.\<close>

definition create_pinctrl :: "'h pinctrl_env \<Rightarrow> device \<Rightarrow> nat option \<Rightarrow> 'h pinctrl_world \<Rightarrow> nat err_ptr \<times> 'h pinctrl_world" where
  "create_pinctrl e dev pctldev w =
     (case kzalloc w of (ok, w1) \<Rightarrow>
      if \<not> ok then (Inl (- ENOMEM), w1)
      else
        case dt_to_map e dev pctldev w1 of (ret, w2) \<Rightarrow>
        if ret < 0 then (Inl ret, w2)
        else
          case maps_loop e dev pctldev (concat (map snd (pinctrl_maps w2))) ret
                 \<lparr>p_dev = dev, states = [], p_state = None, users = 0\<rparr> w2 of (ret, p, w3) \<Rightarrow>
          if ret < 0 then (Inl ret, dt_free_maps e dev w3)
          else
            let a = next_addr w3 in
            (Inr a, w3\<lparr>next_addr := Suc a, handles := (handles w3)(a \<mapsto> p\<lparr>users := 1\<rparr>), pinctrl_list := pinctrl_list w3 @ [a]\<rparr>))"

definition upd_handle :: "nat \<Rightarrow> (pinctrl \<Rightarrow> pinctrl) \<Rightarrow> 'h pinctrl_world \<Rightarrow> 'h pinctrl_world" where
  "upd_handle a f w = w\<lparr>handles := (handles w)(a := map_option f (handles w a))\<rparr>"

definition pinctrl_get :: "'h pinctrl_env \<Rightarrow> device option \<Rightarrow> 'h pinctrl_world \<Rightarrow> nat err_ptr \<times> 'h pinctrl_world" where
  "pinctrl_get e od w = (case od of
     None \<Rightarrow> (Inl (- EINVAL), w)
   | Some dev \<Rightarrow> (case find_pinctrl dev w of
        Some a \<Rightarrow> (Inr a, upd_handle a (\<lambda>p. p\<lparr>users := Suc (users p)\<rparr>) w)
      | None \<Rightarrow> create_pinctrl e dev None w))"

definition disable_mux :: "pc_setting \<Rightarrow> 'h pinctrl_world \<Rightarrow> 'h pinctrl_world" where
  "disable_mux x w =
     (if set_type x = PIN_MAP_TYPE_MUX_GROUP
      then snd (run_ctl (set_ctl x) (\<lambda>k. (0, pinmux_disable_setting (mux_of k) (the (pctlops (desc k))) (set_mux_data x) (pctl k))) w)
      else w)"

text \<open>\<open>pinctrl_free_setting\<close>: apart from releasing memory, only the settings of the current state have
  an effect.\<close>

definition pinctrl_free_setting :: "bool \<Rightarrow> pc_setting \<Rightarrow> 'h pinctrl_world \<Rightarrow> 'h pinctrl_world" where
  "pinctrl_free_setting disable_setting x w = (if disable_setting then disable_mux x w else w)"

definition pinctrl_free :: "'h pinctrl_env \<Rightarrow> nat \<Rightarrow> 'h pinctrl_world \<Rightarrow> 'h pinctrl_world" where
  "pinctrl_free e a w =
     (let p = handle_at w a;
          w1 = fold (\<lambda>i. fold (pinctrl_free_setting (p_state p = Some i)) (settings (states p ! i))) [0..<length (states p)] w;
          w2 = dt_free_maps e (p_dev p) w1
      in w2\<lparr>pinctrl_list := remove1 a (pinctrl_list w2), handles := (handles w2)(a := None)\<rparr>)"

definition pinctrl_put :: "'h pinctrl_env \<Rightarrow> nat \<Rightarrow> 'h pinctrl_world \<Rightarrow> 'h pinctrl_world" where
  "pinctrl_put e a w = (case handles w a of
     None \<Rightarrow> w
   | Some p \<Rightarrow> if users p = 1 then pinctrl_free e a w else upd_handle a (\<lambda>p. p\<lparr>users := users p - 1\<rparr>) w)"

definition pinctrl_lookup_state :: "nat \<Rightarrow> string \<Rightarrow> 'h pinctrl_world \<Rightarrow> nat err_ptr \<times> 'h pinctrl_world" where
  "pinctrl_lookup_state a nm w = (case find_state (handle_at w a) nm of
     Some i \<Rightarrow> (Inr i, w)
   | None \<Rightarrow> if pinctrl_dummy_state w
       then (case create_state (handle_at w a) nm w of (r, p, w1) \<Rightarrow> (r, upd_handle a (\<lambda>_. p) w1))
       else (Inl (- ENODEV), w))"

section \<open>Selecting a state\<close>

text \<open>\<open>pinctrl_link_add\<close> for the consumer, unless the handle is the controller's own.\<close>

definition pinctrl_link_add :: "nat \<Rightarrow> nat \<Rightarrow> 'h pinctrl_world \<Rightarrow> 'h pinctrl_world" where
  "pinctrl_link_add a c w = (case controllers w c of
     None \<Rightarrow> w
   | Some k \<Rightarrow> if hog k \<noteq> Some (Inr a) \<and> link_consumers (desc k)
       then w\<lparr>links := (p_dev (handle_at w a), ctl_dev k) # links w\<rparr> else w)"

definition apply_setting :: "'h pinctrl_env \<Rightarrow> pc_setting \<Rightarrow> 'h pinctrl_world \<Rightarrow> int \<times> 'h pinctrl_world" where
  "apply_setting e x w = (case set_type x of
     PIN_MAP_TYPE_MUX_GROUP \<Rightarrow>
       run_ctl (set_ctl x) (\<lambda>k. pinmux_enable_setting (mux_of k) (the (pctlops (desc k))) (set_mux_data x) (pctl k)) w
   | PIN_MAP_TYPE_CONFIGS_PIN \<Rightarrow> run_ctl (set_ctl x) (on_hw (pinconf_apply_setting e (set_type x) (set_configs x))) w
   | PIN_MAP_TYPE_CONFIGS_GROUP \<Rightarrow> run_ctl (set_ctl x) (on_hw (pinconf_apply_setting e (set_type x) (set_configs x))) w
   | _ \<Rightarrow> (- EINVAL, w))"

text \<open>The loop over the settings of the new state: return code, the settings applied so far, new state.\<close>

fun apply_settings ::
    "'h pinctrl_env \<Rightarrow> nat \<Rightarrow> pc_setting list \<Rightarrow> pc_setting list \<Rightarrow> 'h pinctrl_world \<Rightarrow> int \<times> pc_setting list \<times> 'h pinctrl_world" where
  "apply_settings e a applied [] w = (0, applied, w)"
| "apply_settings e a applied (x # xs) w = (case apply_setting e x w of
     (ret, w1) \<Rightarrow> if ret < 0 then (ret, applied, w1)
       else apply_settings e a (applied @ [x]) xs (pinctrl_link_add a (set_ctl x) w1))"

definition set_state :: "nat \<Rightarrow> nat option \<Rightarrow> 'h pinctrl_world \<Rightarrow> 'h pinctrl_world" where
  "set_state a st w = upd_handle a (\<lambda>p. p\<lparr>p_state := st\<rparr>) w"

definition settings_of :: "'h pinctrl_world \<Rightarrow> nat \<Rightarrow> nat \<Rightarrow> pc_setting list" where
  "settings_of w a i = settings (states (handle_at w a) ! i)"

definition leave_state :: "nat \<Rightarrow> 'h pinctrl_world \<Rightarrow> 'h pinctrl_world" where
  "leave_state a w = (case p_state (handle_at w a) of
     None \<Rightarrow> w
   | Some old \<Rightarrow> fold disable_mux (settings_of w a old) w)"

lemma run_ctl_handles [simp]:
  "handles (snd (run_ctl c f w)) = handles w" "pinctrl_list (snd (run_ctl c f w)) = pinctrl_list w"
  "pinctrldev_list (snd (run_ctl c f w)) = pinctrldev_list w" "links (snd (run_ctl c f w)) = links w"
  "next_addr (snd (run_ctl c f w)) = next_addr w" "mem (snd (run_ctl c f w)) = mem w"
  "pinctrl_maps (snd (run_ctl c f w)) = pinctrl_maps w"
  by (simp_all add: run_ctl_def split: option.splits prod.splits)

lemma disable_mux_handles [simp]:
  "handles (disable_mux x w) = handles w" "pinctrl_list (disable_mux x w) = pinctrl_list w"
  "next_addr (disable_mux x w) = next_addr w"
  by (simp_all add: disable_mux_def)

lemma disable_all_handles [simp]:
  "handles (fold disable_mux xs w) = handles w" "pinctrl_list (fold disable_mux xs w) = pinctrl_list w"
  "next_addr (fold disable_mux xs w) = next_addr w"
  by (induction xs arbitrary: w) simp_all

lemma link_add_handles [simp]:
  "handles (pinctrl_link_add a c w) = handles w" "controllers (pinctrl_link_add a c w) = controllers w"
  "pinctrl_list (pinctrl_link_add a c w) = pinctrl_list w" "next_addr (pinctrl_link_add a c w) = next_addr w"
  by (simp_all add: pinctrl_link_add_def split: option.splits)

lemma apply_setting_handles:
  "apply_setting e x w = (r, w') \<Longrightarrow> handles w' = handles w \<and> pinctrl_list w' = pinctrl_list w \<and> next_addr w' = next_addr w"
  by (auto simp: apply_setting_def split: pinctrl_map_type.splits dest!: arg_cong [of _ _ snd])

lemma apply_settings_handles:
  "apply_settings e a applied xs w = (r, applied', w') \<Longrightarrow>
     handles w' = handles w \<and> pinctrl_list w' = pinctrl_list w \<and> next_addr w' = next_addr w"
  by (induction e a applied xs w rule: apply_settings.induct)
     (auto split: prod.splits if_splits dest!: apply_setting_handles)

lemma leave_state_handles [simp]:
  "handles (leave_state a w) = handles w" "pinctrl_list (leave_state a w) = pinctrl_list w"
  "next_addr (leave_state a w) = next_addr w"
  by (simp_all add: leave_state_def split: option.splits)

text \<open>The recursion through \<open>pinctrl_select_state\<close> ends because the current state is cleared first.\<close>

function pinctrl_commit_state :: "'h pinctrl_env \<Rightarrow> nat \<Rightarrow> nat \<Rightarrow> 'h pinctrl_world \<Rightarrow> int \<times> 'h pinctrl_world" where
  "pinctrl_commit_state e a st w =
     (let old_state = p_state (handle_at w a);
          w2 = set_state a None (leave_state a w)
      in case apply_settings e a [] (settings_of w a st) w2 of (ret, applied, w3) \<Rightarrow>
         if \<not> ret < 0 then (0, set_state a (Some st) w3)
         else
           let w4 = fold disable_mux applied w3 in
           case old_state of
             None \<Rightarrow> (ret, w4)
           | Some old \<Rightarrow>
               (ret, if handles w a = None \<or> p_state (handle_at w4 a) = Some old then w4
                     else snd (pinctrl_commit_state e a old w4)))"
  by pat_completeness auto

termination
proof (relation "measure (\<lambda>(e, a, st, w). if p_state (handle_at w a) = None then 0 else 1)", goal_cases)
  case (2 e a st w old w2 ret y applied w3 w4 x2)
  have "handles w4 = handles w2" using 2(3-6) apply_settings_handles by (metis disable_all_handles(1))
  moreover have "p_state (handle_at w a) = Some x2" using 2 by simp
  ultimately show ?case using 2 by (auto simp: handle_at_def set_state_def upd_handle_def)
qed simp

declare pinctrl_commit_state.simps [simp del]

definition pinctrl_select_state :: "'h pinctrl_env \<Rightarrow> nat \<Rightarrow> nat \<Rightarrow> 'h pinctrl_world \<Rightarrow> int \<times> 'h pinctrl_world" where
  "pinctrl_select_state e a st w =
     (if p_state (handle_at w a) = Some st then (0, w) else pinctrl_commit_state e a st w)"

text \<open>The default and sleep states of a controller's own handle.  The result is \<open>None\<close> where the code would
  follow a null pointer.\<close>

definition pinctrl_force ::
    "('h controller \<Rightarrow> nat err_ptr option) \<Rightarrow> 'h pinctrl_env \<Rightarrow> nat \<Rightarrow> 'h pinctrl_world \<Rightarrow> (int \<times> 'h pinctrl_world) option" where
  "pinctrl_force which e c w = (case (hog (ctl_at w c), which (ctl_at w c)) of
     (Some (Inl _), _) \<Rightarrow> Some (0, w)
   | (_, Some (Inl _)) \<Rightarrow> Some (0, w)
   | (Some (Inr a), Some (Inr st)) \<Rightarrow> Some (pinctrl_commit_state e a st w)
   | _ \<Rightarrow> None)"

definition pinctrl_force_sleep :: "'h pinctrl_env \<Rightarrow> nat \<Rightarrow> 'h pinctrl_world \<Rightarrow> (int \<times> 'h pinctrl_world) option" where
  "pinctrl_force_sleep = pinctrl_force hog_sleep"

definition pinctrl_force_default :: "'h pinctrl_env \<Rightarrow> nat \<Rightarrow> 'h pinctrl_world \<Rightarrow> (int \<times> 'h pinctrl_world) option" where
  "pinctrl_force_default = pinctrl_force hog_default"

text \<open>What the device core keeps for a consumer (\<open>struct dev_pin_info\<close>).\<close>

record dev_pin_info =
  pins_p :: nat
  default_state :: "nat err_ptr"
  init_state :: "nat err_ptr"
  sleep_state :: "nat err_ptr"
  idle_state :: "nat err_ptr"

definition pinctrl_init_done :: "'h pinctrl_env \<Rightarrow> dev_pin_info option \<Rightarrow> 'h pinctrl_world \<Rightarrow> int \<times> 'h pinctrl_world" where
  "pinctrl_init_done e op w = (case op of
     None \<Rightarrow> (0, w)
   | Some pins \<Rightarrow> (case (init_state pins, default_state pins) of
        (Inl _, _) \<Rightarrow> (0, w)
      | (Inr i, d) \<Rightarrow>
          if p_state (handle_at w (pins_p pins)) \<noteq> Some i then (0, w)
          else (case d of Inl _ \<Rightarrow> (0, w) | Inr st \<Rightarrow> pinctrl_select_state e (pins_p pins) st w)))"

definition pinctrl_pm_select_state :: "'h pinctrl_env \<Rightarrow> dev_pin_info \<Rightarrow> nat err_ptr \<Rightarrow> 'h pinctrl_world \<Rightarrow> int \<times> 'h pinctrl_world" where
  "pinctrl_pm_select_state e pins st w = (case st of Inl _ \<Rightarrow> (0, w) | Inr i \<Rightarrow> pinctrl_select_state e (pins_p pins) i w)"

definition pm_select ::
    "(dev_pin_info \<Rightarrow> nat err_ptr) \<Rightarrow> 'h pinctrl_env \<Rightarrow> dev_pin_info option \<Rightarrow> 'h pinctrl_world \<Rightarrow> int \<times> 'h pinctrl_world" where
  "pm_select which e op w = (case op of None \<Rightarrow> (0, w) | Some pins \<Rightarrow> pinctrl_pm_select_state e pins (which pins) w)"

definition pinctrl_pm_select_default_state :: "'h pinctrl_env \<Rightarrow> dev_pin_info option \<Rightarrow> 'h pinctrl_world \<Rightarrow> int \<times> 'h pinctrl_world" where
  "pinctrl_pm_select_default_state = pm_select default_state"

definition pinctrl_pm_select_sleep_state :: "'h pinctrl_env \<Rightarrow> dev_pin_info option \<Rightarrow> 'h pinctrl_world \<Rightarrow> int \<times> 'h pinctrl_world" where
  "pinctrl_pm_select_sleep_state = pm_select sleep_state"

definition pinctrl_pm_select_idle_state :: "'h pinctrl_env \<Rightarrow> dev_pin_info option \<Rightarrow> 'h pinctrl_world \<Rightarrow> int \<times> 'h pinctrl_world" where
  "pinctrl_pm_select_idle_state = pm_select idle_state"

section \<open>Mapping tables\<close>

definition check_map :: "'h pinctrl_env \<Rightarrow> pinctrl_map \<Rightarrow> int" where
  "check_map e m =
     (if map_dev_name m = None then - EINVAL
      else if map_name m = None then - EINVAL
      else if map_type m \<noteq> PIN_MAP_TYPE_DUMMY_STATE \<and> ctrl_dev_name m = None then - EINVAL
      else case map_type m of
        PIN_MAP_TYPE_DUMMY_STATE \<Rightarrow> 0
      | PIN_MAP_TYPE_MUX_GROUP \<Rightarrow> min 0 (pinmux_validate_map (map_mux m))
      | PIN_MAP_TYPE_CONFIGS_PIN \<Rightarrow> min 0 (pinconf_validate_map e m)
      | PIN_MAP_TYPE_CONFIGS_GROUP \<Rightarrow> min 0 (pinconf_validate_map e m)
      | PIN_MAP_TYPE_INVALID \<Rightarrow> - EINVAL)"

fun check_maps :: "'h pinctrl_env \<Rightarrow> pinctrl_map list \<Rightarrow> int" where
  "check_maps e [] = 0"
| "check_maps e (m # ms) = (if check_map e m < 0 then check_map e m else check_maps e ms)"

text \<open>A table is known by the address of its entries, which are copied if \<open>dup\<close>.\<close>

definition pinctrl_register_map ::
    "'h pinctrl_env \<Rightarrow> nat \<Rightarrow> pinctrl_map list \<Rightarrow> bool \<Rightarrow> 'h pinctrl_world \<Rightarrow> int \<times> 'h pinctrl_world" where
  "pinctrl_register_map e tbl ms dup w =
     (if check_maps e ms < 0 then (check_maps e ms, w)
      else
        case kzalloc w of (ok, w1) \<Rightarrow>
        if \<not> ok then (- ENOMEM, w1)
        else if dup then
          (case kzalloc w1 of (ok, w2) \<Rightarrow>
             if \<not> ok then (- ENOMEM, w2)
             else (0, w2\<lparr>pinctrl_maps := pinctrl_maps w2 @ [(next_addr w2, ms)], next_addr := Suc (next_addr w2)\<rparr>))
        else (0, w1\<lparr>pinctrl_maps := pinctrl_maps w1 @ [(tbl, ms)]\<rparr>))"

definition pinctrl_register_mappings :: "'h pinctrl_env \<Rightarrow> nat \<Rightarrow> pinctrl_map list \<Rightarrow> 'h pinctrl_world \<Rightarrow> int \<times> 'h pinctrl_world" where
  "pinctrl_register_mappings e tbl ms w = pinctrl_register_map e tbl ms True w"

fun drop_table :: "nat \<Rightarrow> (nat \<times> pinctrl_map list) list \<Rightarrow> (nat \<times> pinctrl_map list) list" where
  "drop_table tbl [] = []"
| "drop_table tbl (x # xs) = (if fst x = tbl then xs else x # drop_table tbl xs)"

definition pinctrl_unregister_map :: "nat \<Rightarrow> 'h pinctrl_world \<Rightarrow> 'h pinctrl_world" where
  "pinctrl_unregister_map tbl w = w\<lparr>pinctrl_maps := drop_table tbl (pinctrl_maps w)\<rparr>"

section \<open>Registering a controller\<close>

text \<open>The callbacks \<open>get_groups_count\<close> and \<open>get_group_name\<close> are mandatory in the record of the table,
  so that only a missing table is left to test.\<close>

definition pinctrl_check_ops :: "'h pinctrl_desc \<Rightarrow> int" where
  "pinctrl_check_ops d = (if pctlops d = None then - EINVAL else 0)"

text \<open>\<open>s0\<close> is the state of the driver behind the controller: its module and its hardware, without pins.\<close>

definition check_desc :: "'h pinctrl_env \<Rightarrow> 'h pinctrl_desc \<Rightarrow> 'h \<Rightarrow> int" where
  "check_desc e d h =
     (if pinctrl_check_ops d \<noteq> 0 then pinctrl_check_ops d
      else if pmxops d \<noteq> None \<and> pinmux_check_ops (pmxops d) h \<noteq> 0 then pinmux_check_ops (pmxops d) h
      else if confops d \<and> pinconf_check_ops e d \<noteq> 0 then pinconf_check_ops e d
      else 0)"

definition pinctrl_init_controller ::
    "'h pinctrl_env \<Rightarrow> 'h pinctrl_desc option \<Rightarrow> device \<Rightarrow> 'h pinctrl_dev \<Rightarrow> 'h pinctrl_world \<Rightarrow> nat err_ptr \<times> 'h pinctrl_world" where
  "pinctrl_init_controller e od dev s0 w = (case od of
     None \<Rightarrow> (Inl (- EINVAL), w)
   | Some d \<Rightarrow>
       if pcd_name d = None then (Inl (- EINVAL), w)
       else
         case kzalloc w of (ok, w1) \<Rightarrow>
         if \<not> ok then (Inl (- ENOMEM), w1)
         else if check_desc e d (pc_hw s0) \<noteq> 0 then (Inl (check_desc e d (pc_hw s0)), w1)
         else
           case pinctrl_register_pins e (pcd_pins d) (s0\<lparr>pin_desc_tree := Map.empty\<rparr>, w1) of (ret, s, w2) \<Rightarrow>
           if ret \<noteq> 0 then (Inl ret, w2)
           else
             let c = next_addr w2 in
             (Inr c, w2\<lparr>next_addr := Suc c, controllers := (controllers w2)(c \<mapsto>
                \<lparr>pctl = s, ctl_dev = dev, desc = d, gpio_ranges = [], hog = None, hog_default = None, hog_sleep = None\<rparr>)\<rparr>))"

definition PINCTRL_STATE_DEFAULT :: string where "PINCTRL_STATE_DEFAULT = ''default''"

definition PINCTRL_STATE_SLEEP :: string where "PINCTRL_STATE_SLEEP = ''sleep''"

definition pinctrl_claim_hogs :: "'h pinctrl_env \<Rightarrow> nat \<Rightarrow> 'h pinctrl_world \<Rightarrow> int \<times> 'h pinctrl_world" where
  "pinctrl_claim_hogs e c w =
     (case create_pinctrl e (ctl_dev (ctl_at w c)) (Some c) w of (r, w1) \<Rightarrow>
      let w2 = upd_ctl c (\<lambda>k. k\<lparr>hog := Some r\<rparr>) w1 in
      case r of
        Inl err \<Rightarrow> (if err = - ENODEV then 0 else err, w2)
      | Inr a \<Rightarrow>
          case pinctrl_lookup_state a PINCTRL_STATE_DEFAULT w2 of (rd, w3) \<Rightarrow>
          let w4 = upd_ctl c (\<lambda>k. k\<lparr>hog_default := Some rd\<rparr>) w3;
              w5 = (case rd of Inl _ \<Rightarrow> w4 | Inr st \<Rightarrow> snd (pinctrl_select_state e a st w4))
          in case pinctrl_lookup_state a PINCTRL_STATE_SLEEP w5 of (rs, w6) \<Rightarrow>
             (0, upd_ctl c (\<lambda>k. k\<lparr>hog_sleep := Some rs\<rparr>) w6))"

definition free_controller :: "nat \<Rightarrow> 'h pinctrl_world \<Rightarrow> 'h pinctrl_world" where
  "free_controller c w = w\<lparr>controllers := (controllers w)(c := None)\<rparr>"

definition pinctrl_enable :: "'h pinctrl_env \<Rightarrow> nat \<Rightarrow> 'h pinctrl_world \<Rightarrow> int \<times> 'h pinctrl_world" where
  "pinctrl_enable e c w = (case pinctrl_claim_hogs e c w of (err, w1) \<Rightarrow>
     if err \<noteq> 0 then (err, free_controller c w1)
     else (0, w1\<lparr>pinctrldev_list := pinctrldev_list w1 @ [c]\<rparr>))"

definition pinctrl_register ::
    "'h pinctrl_env \<Rightarrow> 'h pinctrl_desc option \<Rightarrow> device \<Rightarrow> 'h pinctrl_dev \<Rightarrow> 'h pinctrl_world \<Rightarrow> nat err_ptr \<times> 'h pinctrl_world" where
  "pinctrl_register e od dev s0 w = (case pinctrl_init_controller e od dev s0 w of
     (Inl err, w1) \<Rightarrow> (Inl err, w1)
   | (Inr c, w1) \<Rightarrow> (case pinctrl_enable e c w1 of (err, w2) \<Rightarrow> if err \<noteq> 0 then (Inl err, w2) else (Inr c, w2)))"

definition pinctrl_register_and_init ::
    "'h pinctrl_env \<Rightarrow> 'h pinctrl_desc option \<Rightarrow> device \<Rightarrow> 'h pinctrl_dev \<Rightarrow> 'h pinctrl_world \<Rightarrow> int \<times> nat option \<times> 'h pinctrl_world" where
  "pinctrl_register_and_init e od dev s0 w = (case pinctrl_init_controller e od dev s0 w of
     (Inl err, w1) \<Rightarrow> (err, None, w1)
   | (Inr c, w1) \<Rightarrow> (0, Some c, w1))"

definition pinctrl_unregister :: "'h pinctrl_env \<Rightarrow> nat option \<Rightarrow> 'h pinctrl_world \<Rightarrow> 'h pinctrl_world" where
  "pinctrl_unregister e oc w = (case oc of
     None \<Rightarrow> w
   | Some c \<Rightarrow>
       let w1 = (case hog (ctl_at w c) of Some (Inr a) \<Rightarrow> pinctrl_put e a w | _ \<Rightarrow> w)
       in free_controller c (w1\<lparr>pinctrldev_list := remove1 c (pinctrldev_list w1)\<rparr>))"

end
