(* ===== verification/Pinctrl_States.thy ===== *)
theory Pinctrl_States
  imports Pinctrl_Core
begin

text \<open>
  What the pin control core guarantees: the outcome of a state selection and its effect on the claims
  of all controllers, GPIO requests through ranges, the creation of handles from mapping tables, and
  the registration of controllers.

  Assumptions on the drivers: the groups of a controller do not depend on its hardware
  (\<open>static_groups\<close>), callbacks return no positive code (\<open>drivers_ok\<close>), and use counts have room
  (\<open>wroom\<close>).
\<close>

section \<open>The outcome of a selection\<close>

lemma set_state_handle:
  "handles (set_state a st w) b = (if b = a then map_option (\<lambda>p. p\<lparr>p_state := st\<rparr>) (handles w a) else handles w b)"
  by (simp add: set_state_def upd_handle_def)

text \<open>One round: the settings of the new state, applied after the old state was left.\<close>

lemma commit_round:
  assumes "pinctrl_commit_state e a st w = (r, w')" and "handles w a = Some p"
  obtains r1 applied w3 where
    "apply_settings e a [] (settings_of w a st) (set_state a None (leave_state a w)) = (r1, applied, w3)"
    "handles w3 = (handles w)(a \<mapsto> p\<lparr>p_state := None\<rparr>)"
    "r1 \<ge> 0 \<Longrightarrow> r = 0 \<and> w' = set_state a (Some st) w3"
    "r1 < 0 \<Longrightarrow> r = r1 \<and> w' = (case p_state p of None \<Rightarrow> fold disable_mux applied w3
        | Some old \<Rightarrow> snd (pinctrl_commit_state e a old (fold disable_mux applied w3)))"
proof -
  obtain r1 applied w3 where r: "apply_settings e a [] (settings_of w a st) (set_state a None (leave_state a w)) = (r1, applied, w3)"
    by (metis prod_cases3)
  have h: "handles w3 = (handles w)(a \<mapsto> p\<lparr>p_state := None\<rparr>)"
    using apply_settings_handles [OF r] assms(2) by (auto simp: fun_eq_iff set_state_handle)
  have p: "p_state (handle_at (fold disable_mux applied w3) a) = None" using h by (simp add: handle_at_def)
  show thesis
    by (rule that [OF r h])
      (use assms r p in \<open>auto simp: pinctrl_commit_state.simps [of e a st w] Let_def handle_at_def split: option.splits\<close>)
qed

lemma commit_handles:
  assumes "pinctrl_commit_state e a st w = (r, w')" and "handles w a = Some p"
  shows "\<exists>st'. handles w' = (handles w)(a \<mapsto> p\<lparr>p_state := st'\<rparr>) \<and> (r = 0 \<longrightarrow> st' = Some st) \<and>
    (r \<noteq> 0 \<longrightarrow> r < 0 \<and> (st' = None \<or> st' = p_state p)) \<and> r \<le> 0"
proof -
  have base: "\<exists>st'. handles w' = (handles w)(a \<mapsto> q\<lparr>p_state := st'\<rparr>) \<and> (r = 0 \<longrightarrow> st' = Some st) \<and>
      (r \<noteq> 0 \<longrightarrow> st' = None) \<and> r \<le> 0"
    if "pinctrl_commit_state e a st w = (r, w')" "handles w a = Some q" "p_state q = None" for st w r w' q
    using that(1,2)
  proof (cases rule: commit_round)
    case (1 r1 applied w3)
    then show ?thesis
      using that(3) by (cases "r1 < 0") (auto simp: set_state_handle fun_eq_iff intro: exI [of _ None] exI [of _ "Some st"])
  qed
  show ?thesis
    using assms
  proof (cases rule: commit_round)
    case (1 r1 applied w3)
    show ?thesis
    proof (cases "r1 < 0")
      case False
      then show ?thesis using 1 by (intro exI [of _ "Some st"]) (auto simp: set_state_handle fun_eq_iff)
    next
      case True
      let ?w4 = "fold disable_mux applied w3"
      show ?thesis
      proof (cases "p_state p")
        case None
        then show ?thesis using 1 True by (intro exI [of _ None]) auto
      next
        case (Some old)
        have "handles ?w4 a = Some (p\<lparr>p_state := None\<rparr>)" using 1(2) by simp
        from base [OF prod.collapse [symmetric] this, where st = old]
        obtain st' where "handles (snd (pinctrl_commit_state e a old ?w4)) = (handles ?w4)(a \<mapsto> p\<lparr>p_state := st'\<rparr>)"
          "st' = Some old \<or> st' = None" by auto
        then show ?thesis using 1(2) 1(4) [OF True] True Some by (intro exI [of _ st']) auto
      qed
    qed
  qed
qed

lemma set_state_lists [simp]:
  "pinctrl_list (set_state a st w) = pinctrl_list w" "next_addr (set_state a st w) = next_addr w"
  by (simp_all add: set_state_def upd_handle_def)

lemma commit_frame:
  "pinctrl_commit_state e a st w = (r, w') \<Longrightarrow> pinctrl_list w' = pinctrl_list w \<and> next_addr w' = next_addr w"
proof (induction e a st w arbitrary: r w' rule: pinctrl_commit_state.induct)
  case (1 e a st w)
  let ?w2 = "set_state a None (leave_state a w)"
  obtain r1 applied w3 where r: "apply_settings e a [] (settings_of w a st) ?w2 = (r1, applied, w3)" by (metis prod_cases3)
  have f: "pinctrl_list w3 = pinctrl_list w" "next_addr w3 = next_addr w" using apply_settings_handles [OF r] by simp_all
  show ?case
  proof (cases "r1 < 0 \<and> p_state (handle_at w a) \<noteq> None \<and> \<not> (handles w a = None \<or> p_state (handle_at (fold disable_mux applied w3) a) = p_state (handle_at w a))")
    case False
    then show ?thesis using 1(2) r f
      by (auto simp: pinctrl_commit_state.simps [of e a st w] Let_def split: option.splits if_splits)
  next
    case True
    then obtain old where old: "p_state (handle_at w a) = Some old" by auto
    moreover have "handles w a \<noteq> None" using True by simp
    ultimately have "w' = snd (pinctrl_commit_state e a old (fold disable_mux applied w3))"
      using 1(2) r True by (auto simp: pinctrl_commit_state.simps [of e a st w] Let_def)
    with 1(1) [OF refl refl r [symmetric] refl _ refl old _ prod.collapse [symmetric]] True old f show ?thesis by simp
  qed
qed

section \<open>Claims of all controllers\<close>

definition claims_of :: "'h pinctrl_world \<Rightarrow> nat \<rightharpoonup> pin_view" where
  "claims_of w c = map_option (\<lambda>k. pin_claims (pctl k)) (controllers w c)"

definition static_groups :: "(nat \<Rightarrow> nat \<Rightarrow> int list) \<Rightarrow> 'h pinctrl_world \<Rightarrow> bool" where
  "static_groups G w \<longleftrightarrow> (\<forall>c k h g. controllers w c = Some k \<longrightarrow> group_pins (the (pctlops (desc k))) h g = G c g)"

definition drivers_ok :: "'h pinctrl_world \<Rightarrow> bool" where
  "drivers_ok w \<longleftrightarrow> (\<forall>c k. controllers w c = Some k \<longrightarrow>
     (\<forall>f g h. fst (the (set_mux (mux_of k)) f g h) \<le> 0) \<and> (\<forall>gr p h. fst (ask_driver (mux_of k) gr p h) \<le> 0))"

definition wroom :: "nat \<Rightarrow> 'h pinctrl_world \<Rightarrow> bool" where
  "wroom n w \<longleftrightarrow> (\<forall>c k. controllers w c = Some k \<longrightarrow> pin_room (strict (mux_of k)) n (pctl k))"

definition is_mux :: "pc_setting \<Rightarrow> bool" where
  "is_mux x \<longleftrightarrow> set_type x = PIN_MAP_TYPE_MUX_GROUP"

definition pins_of :: "(nat \<Rightarrow> nat \<Rightarrow> int list) \<Rightarrow> pc_setting \<Rightarrow> int list" where
  "pins_of G x = (if is_mux x then G (set_ctl x) (group (mux (set_mux_data x))) else [])"

definition release_of :: "(nat \<Rightarrow> nat \<Rightarrow> int list) \<Rightarrow> pc_setting \<Rightarrow> (nat \<rightharpoonup> pin_view) \<Rightarrow> nat \<rightharpoonup> pin_view" where
  "release_of G x v = v(set_ctl x := map_option (fold rel_mux (pins_of G x)) (v (set_ctl x)))"

definition marked :: "(nat \<Rightarrow> nat \<Rightarrow> int list) \<Rightarrow> pc_setting \<Rightarrow> 'h pinctrl_world \<Rightarrow> bool" where
  "marked G x w \<longleftrightarrow> (\<forall>k p. controllers w (set_ctl x) = Some k \<longrightarrow> p \<in> set (pins_of G x) \<longrightarrow>
     map_option mux_setting (pin_desc_tree (pctl k) p) = Some (Some (addr (set_mux_data x))))"

definition apart :: "(nat \<Rightarrow> nat \<Rightarrow> int list) \<Rightarrow> pc_setting \<Rightarrow> pc_setting \<Rightarrow> bool" where
  "apart G x y \<longleftrightarrow> set_ctl x \<noteq> set_ctl y \<or> set (pins_of G x) \<inter> set (pins_of G y) = {}"

lemma pin_request_other: "pin_request o1 p own gr s = (r, s') \<Longrightarrow> q \<noteq> p \<Longrightarrow> pin_desc_tree s' q = pin_desc_tree s q"
  by (auto simp: pin_request_def Let_def split: option.splits if_splits prod.splits)

lemma request_pins_other:
  "request_pins o1 own taken ps s = (r, taken', s') \<Longrightarrow> q \<notin> set ps \<Longrightarrow> pin_desc_tree s' q = pin_desc_tree s q"
  by (induction o1 own taken ps s rule: request_pins.induct) (auto split: prod.splits if_splits dest: pin_request_other)

lemma request_pins_subset: "request_pins o1 own taken ps s = (r, taken', s') \<Longrightarrow> set taken' \<subseteq> set taken \<union> set ps"
  by (induction o1 own taken ps s rule: request_pins.induct) (auto split: prod.splits if_splits)

lemma release_pins_other: "q \<notin> set ps \<Longrightarrow> pin_desc_tree (release_pins o1 ps s) q = pin_desc_tree s q"
  by (induction ps arbitrary: s) (simp_all add: release_pins_def pin_free_other)

lemma enable_other:
  assumes "pinmux_enable_setting o1 p1 st s = (r, s')" and "q \<notin> set (group_pins p1 (pc_hw s) (group (mux st)))"
  shows "pin_desc_tree s' q = pin_desc_tree s q"
  using assms(1)
proof (cases rule: enable_outcome)
  case (refused taken s1)
  then show ?thesis using assms(2) request_pins_other [OF refused(1)] request_pins_subset [OF refused(1)]
    by (subst refused(3), subst release_pins_other) auto
next
  case (set_mux_failed taken s1 h)
  then show ?thesis using assms(2) request_pins_other [OF set_mux_failed(1)] request_pins_subset [OF set_mux_failed(1)]
    by (subst set_mux_failed(3), subst release_pins_other) (auto simp: mark_pins_tree)
next
  case (enabled taken s1 h)
  then show ?thesis using assms(2) request_pins_other [OF enabled(1)] by (simp add: mark_pins_tree)
qed

lemma disable_other:
  "q \<notin> set (group_pins p1 (pc_hw s) (group (mux st))) \<Longrightarrow> pin_desc_tree (pinmux_disable_setting o1 p1 st s) q = pin_desc_tree s q"
proof -
  have "q \<notin> set ps \<Longrightarrow> pin_desc_tree (fold (disable_pin o1 a) ps t) q = pin_desc_tree t q" for a ps t
    by (induction ps arbitrary: t) (auto simp: disable_pin_def pin_free_other split: option.splits)
  then show "q \<notin> set (group_pins p1 (pc_hw s) (group (mux st))) \<Longrightarrow> ?thesis" by (simp add: pinmux_disable_setting_def)
qed

lemma request_pins_room:
  "request_pins o1 own taken ps s = (0, taken', s') \<Longrightarrow> pin_room (strict o1) (length ps + n) s \<Longrightarrow> pin_room (strict o1) n s'"
proof (induction ps arbitrary: taken s)
  case (Cons p ps)
  obtain e s1 where e: "pin_request o1 p own None s = (e, s1)" by force
  have z: "e = 0" using Cons.prems(1) e by (auto split: if_splits)
  have "pin_room (strict o1) (Suc (length ps + n)) s" using Cons.prems(2) by simp
  from request_mux_granted(2) [OF this, of p own s1] e z have "pin_room (strict o1) (length ps + n) s1" by simp
  moreover have "request_pins o1 own (p # taken) ps s1 = (0, taken', s')" using Cons.prems(1) e z by simp
  ultimately show ?case using Cons.IH by blast
qed simp

lemma request_pins_nonpos:
  "request_pins o1 own taken ps s = (r, taken', s') \<Longrightarrow> (\<And>gr p h. fst (ask_driver o1 gr p h) \<le> 0) \<Longrightarrow> r \<le> 0"
proof (induction o1 own taken ps s rule: request_pins.induct)
  case (2 o1 own taken p ps s)
  obtain e s1 where e: "pin_request o1 p own None s = (e, s1)" by force
  have "fst (pin_request o1 p own None s) \<le> 0"
    using 2(3) [of None p] by (auto simp: pin_request_def Let_def split: option.splits prod.splits) (metis fst_conv)+
  with e have "e \<le> 0" by simp
  then show ?case using 2 e by (cases "e = 0") auto
qed simp

lemma pin_ok_mark: "pin_ok st (mux_setting_update f d) \<longleftrightarrow> pin_ok st d"
  by (simp add: pin_ok_def)

text \<open>A granted setting is undone by releasing its pins; a refused one leaves no trace in the claims.\<close>

lemma enable_view:
  assumes "pin_room (strict o1) (length (group_pins p1 (pc_hw s) (group (mux st))) + n) s"
    and "pinmux_enable_setting o1 p1 st s = (r, s')"
    and "\<And>f g h. fst (the (set_mux o1) f g h) \<le> 0" and "\<And>gr p h. fst (ask_driver o1 gr p h) \<le> 0"
  shows "r \<le> 0" and "r < 0 \<Longrightarrow> pin_claims s' = pin_claims s"
    and "r = 0 \<Longrightarrow> fold rel_mux (group_pins p1 (pc_hw s) (group (mux st))) (pin_claims s') = pin_claims s
      \<and> pin_room (strict o1) n s' \<and> (\<forall>p \<in> set (group_pins p1 (pc_hw s) (group (mux st))).
            map_option mux_setting (pin_desc_tree s' p) = Some (Some (addr st)))"
proof -
  let ?pins = "group_pins p1 (pc_hw s) (group (mux st))"
  have room: "pin_room (strict o1) (length ?pins) s"
    using assms(1) by (auto simp: pin_room_def intro: no_wrap_mono)
  show "r \<le> 0"
    using assms(2)
  proof (cases rule: enable_outcome)
    case (set_mux_failed taken s1 h)
    show ?thesis using assms(2) set_mux_failed(1) assms(3)
      by (auto simp: pinmux_enable_setting_def Let_def split: prod.splits if_splits) (metis fst_conv)
  qed (use request_pins_nonpos assms(4) in \<open>blast+\<close>)
  show "r < 0 \<Longrightarrow> pin_claims s' = pin_claims s"
    using assms(2)
  proof (cases rule: enable_outcome)
    case (refused taken s1)
    then show ?thesis using pins.rollback_view [OF room] by (simp add: request_pins_take_all release_pins_fold)
  next
    case (set_mux_failed taken s1 h)
    then show ?thesis using pins.rollback_view [OF room] by (simp add: request_pins_take_all release_pins_fold)
  qed simp
  assume r0: "r = 0"
  show "fold rel_mux ?pins (pin_claims s') = pin_claims s \<and> pin_room (strict o1) n s' \<and> (\<forall>p \<in> set ?pins.
            map_option mux_setting (pin_desc_tree s' p) = Some (Some (addr st)))"
    using assms(2)
  proof (cases rule: enable_outcome)
    case (enabled taken s1 h)
    have claims: "pin_claims s' = pin_claims s1" by (simp add: enabled(4))
    have "fold rel_mux (rev ?pins) = fold rel_mux ?pins" by (rule fold_rev) (simp add: fun_eq_iff rel_mux_commute)
    moreover have "taken = rev ?pins" "fold rel_mux taken (pin_claims s1) = pin_claims s"
      using pins.take_all_view [OF room enabled(1) [unfolded request_pins_take_all]] by auto
    ultimately have "fold rel_mux ?pins (pin_claims s') = pin_claims s" by (metis claims)
    moreover have "pin_room (strict o1) n s1" by (rule request_pins_room [OF enabled(1) assms(1)])
    then have "pin_room (strict o1) n s'"
      unfolding pin_room_def no_wrap_def enabled(4)
      by (auto simp: mark_pins_tree pin_ok_mark split: if_splits)
    moreover have "map_option mux_setting (pin_desc_tree s' p) = Some (Some (addr st))" if p: "p \<in> set ?pins" for p
    proof -
      obtain d where "pin_desc_tree s1 p = Some d"
        using request_pins_owned [OF room enabled(1) disjI1, OF p] by (auto simp: owned_def)
      then show ?thesis using p by (simp add: enabled(4) mark_pins_tree)
    qed
    ultimately show ?thesis by blast
  qed (use r0 in auto)
qed

section \<open>Settings on the controllers of the world\<close>

text \<open>What all operations on settings keep: the descriptors, and with them the assumptions.\<close>

definition same_descs :: "'h pinctrl_world \<Rightarrow> 'h pinctrl_world \<Rightarrow> bool" where
  "same_descs w w' \<longleftrightarrow> (\<forall>c. map_option desc (controllers w' c) = map_option desc (controllers w c))"

lemma same_descsD:
  assumes "same_descs w w'" and "controllers w' c = Some k'"
  obtains k where "controllers w c = Some k" and "desc k' = desc k"
proof -
  have "map_option desc (controllers w c) = Some (desc k')" using assms by (metis same_descs_def option.simps(9))
  then show thesis using that by (auto simp: map_option_eq_Some)
qed

lemma same_descs_refl [simp]: "same_descs w w"
  by (simp add: same_descs_def)

lemma same_descs_trans: "same_descs w w1 \<Longrightarrow> same_descs w1 w2 \<Longrightarrow> same_descs w w2"
  by (simp add: same_descs_def)

lemma same_descs_static: "same_descs w w' \<Longrightarrow> static_groups G w \<Longrightarrow> static_groups G w'"
  unfolding static_groups_def by (metis same_descsD)

lemma same_descs_drivers: "same_descs w w' \<Longrightarrow> drivers_ok w \<Longrightarrow> drivers_ok w'"
  unfolding drivers_ok_def mux_of_def by (metis same_descsD)

lemma run_ctl_descs: "same_descs w (snd (run_ctl c f w))"
  by (auto simp: same_descs_def run_ctl_def split: option.splits prod.splits)

lemma disable_mux_descs: "same_descs w (disable_mux x w)"
  by (simp add: disable_mux_def run_ctl_descs)

lemma disable_all_descs: "same_descs w (fold disable_mux xs w)"
  by (induction xs arbitrary: w) (auto intro: same_descs_trans [OF disable_mux_descs])

lemma run_ctl_some:
  assumes "controllers w c = Some k" and "f k = (r, s)"
  shows "run_ctl c f w = (r, w\<lparr>controllers := (controllers w)(c \<mapsto> k\<lparr>pctl := s\<rparr>)\<rparr>)"
  using assms by (simp add: run_ctl_def)

lemma pinctrl_link_descs [simp]: "same_descs w (pinctrl_link_add a c w)" "claims_of (pinctrl_link_add a c w) = claims_of w"
  "marked G x (pinctrl_link_add a c w) \<longleftrightarrow> marked G x w" "wroom n (pinctrl_link_add a c w) \<longleftrightarrow> wroom n w"
  by (simp_all add: same_descs_def claims_of_def marked_def wroom_def fun_eq_iff)

lemma disable_mux_spec:
  assumes "static_groups G w" and "distinct (pins_of G x)" and "marked G x w"
  shows "claims_of (disable_mux x w) = release_of G x (claims_of w)" and "same_descs w (disable_mux x w)"
    and "apart G x y \<Longrightarrow> marked G y w \<Longrightarrow> marked G y (disable_mux x w)"
proof -
  show "same_descs w (disable_mux x w)" by (rule disable_mux_descs)
  show "claims_of (disable_mux x w) = release_of G x (claims_of w)"
    and "apart G x y \<Longrightarrow> marked G y w \<Longrightarrow> marked G y (disable_mux x w)"
  proof -
    have "claims_of (disable_mux x w) = release_of G x (claims_of w) \<and> (apart G x y \<longrightarrow> marked G y w \<longrightarrow> marked G y (disable_mux x w))"
    proof (cases "is_mux x \<and> controllers w (set_ctl x) \<noteq> None")
      case False
      then have "disable_mux x w = w" by (auto simp: disable_mux_def is_mux_def run_ctl_def)
      moreover have "release_of G x (claims_of w) = claims_of w"
        using False by (auto simp: release_of_def pins_of_def claims_of_def fun_eq_iff option.map_id)
      ultimately show ?thesis by simp
    next
      case True
      then obtain k where k: "controllers w (set_ctl x) = Some k" by auto
      let ?p1 = "the (pctlops (desc k))" and ?st = "set_mux_data x"
      let ?s = "pinmux_disable_setting (mux_of k) ?p1 ?st (pctl k)"
      have pins: "pins_of G x = group_pins ?p1 (pc_hw (pctl k)) (group (mux ?st))"
        using True assms(1) k by (simp add: pins_of_def static_groups_def)
      have d: "disable_mux x w = w\<lparr>controllers := (controllers w)(set_ctl x \<mapsto> k\<lparr>pctl := ?s\<rparr>)\<rparr>"
        using True k by (simp add: disable_mux_def is_mux_def run_ctl_def)
      have "?s = fold (\<lambda>p s. snd (pin_free (mux_of k) p None s)) (pins_of G x) (pctl k)"
        unfolding pinmux_disable_setting_def pins [symmetric]
        by (rule disable_pins_release [OF assms(2)]) (use assms(3) k in \<open>auto simp: marked_def\<close>)
      then have "pin_claims ?s = fold rel_mux (pins_of G x) (pin_claims (pctl k))"
        using pins.release_list_view by metis
      then have "claims_of (disable_mux x w) = release_of G x (claims_of w)"
        by (simp add: d claims_of_def release_of_def k fun_eq_iff)
      moreover have "marked G y (disable_mux x w)" if "apart G x y" "marked G y w"
        unfolding marked_def
      proof (intro allI impI)
        fix k' p assume k': "controllers (disable_mux x w) (set_ctl y) = Some k'" and p: "p \<in> set (pins_of G y)"
        show "map_option mux_setting (pin_desc_tree (pctl k') p) = Some (Some (addr (set_mux_data y)))"
        proof (cases "set_ctl x = set_ctl y")
          case False
          then show ?thesis using k' p that(2) by (simp add: d marked_def)
        next
          case same: True
          then have "p \<notin> set (pins_of G x)" using that(1) p by (auto simp: apart_def)
          then have "pin_desc_tree ?s p = pin_desc_tree (pctl k) p" unfolding pins by (rule disable_other)
          moreover have "k' = k\<lparr>pctl := ?s\<rparr>" using k' same by (simp add: d)
          ultimately show ?thesis using that(2) p k same by (simp add: marked_def)
        qed
      qed
      ultimately show ?thesis by blast
    qed
    then show "claims_of (disable_mux x w) = release_of G x (claims_of w)"
      and "apart G x y \<Longrightarrow> marked G y w \<Longrightarrow> marked G y (disable_mux x w)" by blast+
  qed
qed

lemma wroom_claims:
  assumes "same_descs w0 w" and "claims_of w = claims_of w0" and "wroom n w0"
  shows "wroom n w"
  unfolding wroom_def
proof (intro allI impI)
  fix c k assume k: "controllers w c = Some k"
  obtain k0 where k0: "controllers w0 c = Some k0" "desc k = desc k0" using same_descsD [OF assms(1) k] .
  have "pin_claims (pctl k) = pin_claims (pctl k0)" using assms(2) k k0 by (auto simp: claims_of_def dest: fun_cong [of _ _ c])
  then have c: "map_option (\<lambda>d. (mux_usecount d, mux_owner d, gpio_owner d)) (pin_desc_tree (pctl k) q) =
      map_option (\<lambda>d. (mux_usecount d, mux_owner d, gpio_owner d)) (pin_desc_tree (pctl k0) q)" for q
    by (simp add: pin_claims_def fun_eq_iff)
  have r: "pin_room (strict (mux_of k0)) n (pctl k0)" using assms(3) k0 by (simp add: wroom_def)
  have "pin_ok (strict (mux_of k0)) d \<and> unat (mux_usecount d) + n < 2 ^ 32" if d: "pin_desc_tree (pctl k) q = Some d" for q d
  proof -
    obtain d0 where d0: "pin_desc_tree (pctl k0) q = Some d0" and eq: "mux_usecount d0 = mux_usecount d"
      "mux_owner d0 = mux_owner d" "gpio_owner d0 = gpio_owner d"
      using c [of q] d by (cases "pin_desc_tree (pctl k0) q") auto
    have "pin_ok (strict (mux_of k0)) d0" "unat (mux_usecount d0) + n < 2 ^ 32"
      using r d0 by (auto simp: pin_room_def no_wrap_def)
    then show ?thesis by (auto simp: pin_ok_def eq)
  qed
  then show "pin_room (strict (mux_of k)) n (pctl k)" using k0 by (auto simp: pin_room_def no_wrap_def mux_of_def)
qed

lemma apply_setting_spec:
  assumes "static_groups G w" and "drivers_ok w" and "wroom (length (pins_of G x) + n) w"
    and "apply_setting e x w = (r, w')"
  shows "same_descs w w'" and "r < 0 \<Longrightarrow> claims_of w' = claims_of w"
    and "\<not> r < 0 \<Longrightarrow> release_of G x (claims_of w') = claims_of w \<and> marked G x w' \<and> wroom n w'"
    and "apart G x y \<Longrightarrow> marked G y w \<Longrightarrow> marked G y w'"
proof -
  have "wroom n w" using assms(3) by (auto simp: wroom_def pin_room_def) (metis le_add2 no_wrap_mono)
  show sd: "same_descs w w'"
    using assms(4) by (auto simp: apply_setting_def run_ctl_descs split: pinctrl_map_type.splits dest!: arg_cong [of _ _ snd])
  have "(r < 0 \<longrightarrow> claims_of w' = claims_of w) \<and> (\<not> r < 0 \<longrightarrow> release_of G x (claims_of w') = claims_of w \<and> marked G x w' \<and> wroom n w')
    \<and> (apart G x y \<longrightarrow> marked G y w \<longrightarrow> marked G y w')"
  proof (cases "is_mux x \<and> controllers w (set_ctl x) \<noteq> None")
    case False
    have same: "claims_of w' = claims_of w" "\<And>z. marked G z w' \<longleftrightarrow> marked G z w"
    proof -
      have *: "controllers w' = controllers w \<or> (\<exists>k h. controllers w (set_ctl x) = Some k \<and>
          controllers w' = (controllers w)(set_ctl x \<mapsto> k\<lparr>pctl := (pctl k)\<lparr>pc_hw := h\<rparr>\<rparr>))"
        using False assms(4)
        by (auto simp: apply_setting_def is_mux_def run_ctl_def on_hw_def split: pinctrl_map_type.splits option.splits prod.splits)
      show "claims_of w' = claims_of w" using * by (auto simp: claims_of_def fun_eq_iff)
      show "marked G z w' \<longleftrightarrow> marked G z w" for z using * by (cases "set_ctl z = set_ctl x") (auto simp: marked_def)
    qed
    have "release_of G x (claims_of w) = claims_of w" "marked G x w"
      using False by (auto simp: release_of_def pins_of_def claims_of_def marked_def fun_eq_iff option.map_id)
    with same wroom_claims [OF sd same(1) \<open>wroom n w\<close>] show ?thesis by simp
  next
    case True
    then obtain k where k: "controllers w (set_ctl x) = Some k" by auto
    let ?p1 = "the (pctlops (desc k))" and ?st = "set_mux_data x"
    obtain r2 s where s: "pinmux_enable_setting (mux_of k) ?p1 ?st (pctl k) = (r2, s)" by force
    have pins: "pins_of G x = group_pins ?p1 (pc_hw (pctl k)) (group (mux ?st))"
      using True assms(1) k by (simp add: pins_of_def static_groups_def)
    have d: "r2 = r" "w' = w\<lparr>controllers := (controllers w)(set_ctl x \<mapsto> k\<lparr>pctl := s\<rparr>)\<rparr>"
      using True k s assms(4) by (simp_all add: apply_setting_def is_mux_def run_ctl_def)
    have "pin_room (strict (mux_of k)) (length (group_pins ?p1 (pc_hw (pctl k)) (group (mux ?st))) + n) (pctl k)"
      using assms(3) k by (simp add: wroom_def pins)
    note v = enable_view [OF this s [unfolded d(1)]]
    have drv: "fst (the (set_mux (mux_of k)) f g h) \<le> 0" "fst (ask_driver (mux_of k) gr p h) \<le> 0" for f g gr p h
      using assms(2) k by (simp_all add: drivers_ok_def)
    have "claims_of w' = claims_of w" if "r < 0"
      using v(2) [OF drv that] k by (simp add: d claims_of_def fun_eq_iff)
    moreover have "release_of G x (claims_of w') = claims_of w \<and> marked G x w' \<and> wroom n w'" if "\<not> r < 0"
    proof -
      have "r = 0" using that v(1) [OF drv] by simp
      note u = v(3) [OF drv this, folded pins]
      have "wroom n w'" using u \<open>wroom n w\<close> by (auto simp: d wroom_def mux_of_def)
      with u k show ?thesis by (auto simp: d claims_of_def release_of_def marked_def fun_eq_iff)
    qed
    moreover have "marked G y w'" if "apart G x y" "marked G y w"
      unfolding marked_def
    proof (intro allI impI)
      fix k' p assume k': "controllers w' (set_ctl y) = Some k'" and p: "p \<in> set (pins_of G y)"
      show "map_option mux_setting (pin_desc_tree (pctl k') p) = Some (Some (addr (set_mux_data y)))"
      proof (cases "set_ctl x = set_ctl y")
        case False
        then show ?thesis using k' p that(2) by (simp add: d marked_def)
      next
        case same: True
        then have "p \<notin> set (pins_of G x)" using that(1) p by (auto simp: apart_def)
        then have "pin_desc_tree s p = pin_desc_tree (pctl k) p" unfolding pins using enable_other [OF s] by blast
        moreover have "k' = k\<lparr>pctl := s\<rparr>" using k' same by (simp add: d)
        ultimately show ?thesis using that(2) p k same by (simp add: marked_def)
      qed
    qed
    ultimately show ?thesis by blast
  qed
  then show "r < 0 \<Longrightarrow> claims_of w' = claims_of w"
    and "\<not> r < 0 \<Longrightarrow> release_of G x (claims_of w') = claims_of w \<and> marked G x w' \<and> wroom n w'"
    and "apart G x y \<Longrightarrow> marked G y w \<Longrightarrow> marked G y w'" by blast+
qed

text \<open>Settings whose pins are disjoint.\<close>

definition disjoint_settings :: "(nat \<Rightarrow> nat \<Rightarrow> int list) \<Rightarrow> pc_setting list \<Rightarrow> bool" where
  "disjoint_settings G xs \<longleftrightarrow> sorted_wrt (apart G) xs \<and> (\<forall>x \<in> set xs. distinct (pins_of G x))"

lemma apart_sym: "apart G x y \<Longrightarrow> apart G y x"
  by (auto simp: apart_def)

lemma disable_all_spec:
  assumes "static_groups G w" and "disjoint_settings G xs" and "\<forall>x \<in> set xs. marked G x w"
  shows "claims_of (fold disable_mux xs w) = fold (release_of G) xs (claims_of w)"
  using assms
proof (induction xs arbitrary: w)
  case (Cons x xs)
  have x: "marked G x w" "distinct (pins_of G x)" using Cons.prems by (auto simp: disjoint_settings_def)
  note d = disable_mux_spec [OF Cons.prems(1) x(2,1)]
  have "static_groups G (disable_mux x w)" using same_descs_static [OF d(2) Cons.prems(1)] .
  moreover have "\<forall>y \<in> set xs. marked G y (disable_mux x w)"
    using d(3) Cons.prems(2,3) by (auto simp: disjoint_settings_def)
  moreover have "disjoint_settings G xs" using Cons.prems(2) by (simp add: disjoint_settings_def)
  ultimately show ?case using Cons.IH d(1) by simp
qed simp

lemma release_of_commute: "release_of G x (release_of G y v) = release_of G y (release_of G x v)"
proof -
  have "fold rel_mux ps (fold rel_mux qs v) = fold rel_mux qs (fold rel_mux ps v)" for ps qs v
  proof -
    have "fold rel_mux ps (rel_mux q v) = rel_mux q (fold rel_mux ps v)" for q v
      by (induction ps arbitrary: v) (simp_all, metis rel_mux_commute)
    then show ?thesis by (induction qs arbitrary: v) simp_all
  qed
  then show ?thesis
    by (cases "set_ctl x = set_ctl y"; cases "v (set_ctl x)"; cases "v (set_ctl y)") (auto simp: release_of_def fun_eq_iff)
qed

lemma fold_rel_commute: "fold (release_of G) xs (release_of G y v) = release_of G y (fold (release_of G) xs v)"
  by (induction xs arbitrary: v) (simp_all, metis release_of_commute)

text \<open>The loop over the settings: after success everything applied is marked and releasing it would
  restore the claims; after a failure this holds for the settings before the failing one.\<close>

lemma apply_settings_spec:
  assumes "apply_settings e a applied xs w = (r, applied', w')"
    and "static_groups G w" and "drivers_ok w" and "wroom (sum_list (map (\<lambda>x. length (pins_of G x)) xs)) w"
    and "disjoint_settings G (applied @ xs)" and "\<forall>x \<in> set applied. marked G x w"
    and "fold (release_of G) applied (claims_of w) = v"
  shows "same_descs w w' \<and> fold (release_of G) applied' (claims_of w') = v \<and> (\<forall>x \<in> set applied'. marked G x w')
    \<and> disjoint_settings G applied' \<and> (\<not> r < 0 \<longrightarrow> applied' = applied @ xs)"
  using assms
proof (induction e a applied xs w rule: apply_settings.induct)
  case (1 e a applied w)
  then show ?case by (simp add: same_descs_def)
next
  case (2 e a applied x xs w)
  obtain r1 w1 where ap: "apply_setting e x w = (r1, w1)" by force
  have room: "wroom (length (pins_of G x) + sum_list (map (\<lambda>x. length (pins_of G x)) xs)) w" using 2(5) by simp
  note sp = apply_setting_spec [OF 2(3,4) room ap]
  have keep: "\<forall>y \<in> set applied. marked G y w1"
    using 2(6,7) sp(4) apart_sym by (fastforce simp: disjoint_settings_def sorted_wrt_append)
  show ?case
  proof (cases "r1 < 0")
    case True
    then have "r = r1" "applied' = applied" "w' = w1" using 2(2) ap by auto
    moreover have "disjoint_settings G applied" using 2(6) by (auto simp: disjoint_settings_def sorted_wrt_append)
    ultimately show ?thesis using True sp(1) sp(2) [OF True] keep 2(8) by simp
  next
    case False
    let ?w2 = "pinctrl_link_add a (set_ctl x) w1"
    have s12: "same_descs w ?w2" using sp(1) by (rule same_descs_trans) simp
    have run: "apply_settings e a (applied @ [x]) xs ?w2 = (r, applied', w')" using 2(2) ap False by simp
    have "fold (release_of G) (applied @ [x]) (claims_of ?w2) = v"
      using sp(3) [OF False] 2(8) by (simp add: fold_rel_commute [symmetric])
    with 2(1) [OF ap [symmetric] False run same_descs_static [OF s12 2(3)] same_descs_drivers [OF s12 2(4)] _ _ _ this]
      keep sp(3) [OF False] 2(6) s12
    show ?thesis by (auto intro: same_descs_trans)
  qed
qed

section \<open>Switching states\<close>

text \<open>\<open>w0\<close> is the world without the claims of handle \<open>a\<close>: leaving the current state would give it back.\<close>

definition active :: "(nat \<Rightarrow> nat \<Rightarrow> int list) \<Rightarrow> nat \<Rightarrow> 'h pinctrl_world \<Rightarrow> 'h pinctrl_world \<Rightarrow> bool" where
  "active G a w0 w \<longleftrightarrow> same_descs w0 w \<and>
     (case p_state (handle_at w a) of
        None \<Rightarrow> claims_of w = claims_of w0
      | Some i \<Rightarrow> disjoint_settings G (settings_of w a i) \<and> (\<forall>x \<in> set (settings_of w a i). marked G x w)
          \<and> fold (release_of G) (settings_of w a i) (claims_of w) = claims_of w0)"

lemma active_leave:
  assumes "active G a w0 w" and "static_groups G w0"
  shows "claims_of (leave_state a w) = claims_of w0" and "same_descs w0 (leave_state a w)"
proof -
  have st: "static_groups G w" using assms same_descs_static by (auto simp: active_def)
  show "claims_of (leave_state a w) = claims_of w0"
    using assms(1) disable_all_spec [OF st] by (auto simp: active_def leave_state_def split: option.splits)
  show "same_descs w0 (leave_state a w)"
    using assms(1) same_descs_trans [OF _ disable_all_descs, of w0 w] by (auto simp: active_def leave_state_def split: option.splits)
qed

lemma set_state_keeps [simp]:
  "claims_of (set_state a st w) = claims_of w" "same_descs w1 (set_state a st w) \<longleftrightarrow> same_descs w1 w"
  "marked G x (set_state a st w) \<longleftrightarrow> marked G x w"
  by (simp_all add: set_state_def upd_handle_def claims_of_def same_descs_def marked_def fun_eq_iff)

text \<open>One round keeps this, whether it succeeds or not.\<close>

lemma round_active:
  assumes "apply_settings e a [] (settings_of w a st) (set_state a None (leave_state a w)) = (r, applied, w3)"
    and "active G a w0 w" and "static_groups G w0" and "drivers_ok w0" and "handles w a = Some p"
    and "disjoint_settings G (settings_of w a st)" and "wroom (sum_list (map (\<lambda>x. length (pins_of G x)) (settings_of w a st))) w0"
  shows "r < 0 \<Longrightarrow> active G a w0 (fold disable_mux applied w3)" and "\<not> r < 0 \<Longrightarrow> active G a w0 (set_state a (Some st) w3)"
proof -
  let ?w2 = "set_state a None (leave_state a w)"
  have l: "claims_of ?w2 = claims_of w0" "same_descs w0 ?w2" using active_leave [OF assms(2,3)] by simp_all
  have h3: "handles w3 = (handles w)(a \<mapsto> p\<lparr>p_state := None\<rparr>)"
    using apply_settings_handles [OF assms(1)] assms(5) by (auto simp: fun_eq_iff set_state_handle)
  note sp = apply_settings_spec [OF assms(1) same_descs_static [OF l(2) assms(3)] same_descs_drivers [OF l(2) assms(4)]
      wroom_claims [OF l(2,1) assms(7)] _ _ refl]
  have sp: "same_descs ?w2 w3" "fold (release_of G) applied (claims_of w3) = claims_of w0" "\<forall>x \<in> set applied. marked G x w3"
    "disjoint_settings G applied" "\<not> r < 0 \<longrightarrow> applied = settings_of w a st"
    using sp assms(6) l(1) by simp_all
  have d3: "same_descs w0 w3" using same_descs_trans [OF l(2) sp(1)] .
  show "active G a w0 (set_state a (Some st) w3)" if "\<not> r < 0"
  proof -
    have "settings_of (set_state a (Some st) w3) a st = settings_of w a st"
      by (simp add: settings_of_def handle_at_def set_state_handle h3 assms(5))
    then show ?thesis using sp that d3 by (simp add: active_def handle_at_def set_state_handle h3)
  qed
  show "active G a w0 (fold disable_mux applied w3)" if "r < 0"
  proof -
    have "same_descs w0 (fold disable_mux applied w3)" using same_descs_trans [OF d3 disable_all_descs] .
    moreover have "claims_of (fold disable_mux applied w3) = claims_of w0"
      using disable_all_spec [OF same_descs_static [OF d3 assms(3)] sp(4,3)] sp(2) by simp
    ultimately show ?thesis by (simp add: active_def handle_at_def h3)
  qed
qed

text \<open>What the states of a handle must satisfy.\<close>

definition states_ok :: "(nat \<Rightarrow> nat \<Rightarrow> int list) \<Rightarrow> 'h pinctrl_world \<Rightarrow> pinctrl \<Rightarrow> bool" where
  "states_ok G w0 p \<longleftrightarrow> (\<forall>i < length (states p). disjoint_settings G (settings (states p ! i))
     \<and> wroom (sum_list (map (\<lambda>x. length (pins_of G x)) (settings (states p ! i)))) w0)
     \<and> (\<forall>i. p_state p = Some i \<longrightarrow> i < length (states p))"

lemma commit_active:
  assumes "pinctrl_commit_state e a st w = (r, w')" and "handles w a = Some p" and "active G a w0 w"
    and "static_groups G w0" and "drivers_ok w0" and "states_ok G w0 p" and "st < length (states p)"
  shows "active G a w0 w'"
proof -
  have so: "settings_of w a i = settings (states p ! i)" for i by (simp add: settings_of_def handle_at_def assms(2))
  have ok: "disjoint_settings G (settings_of w a i)"
    "wroom (sum_list (map (\<lambda>x. length (pins_of G x)) (settings_of w a i))) w0" if "i < length (states p)" for i
    using assms(6) that by (simp_all add: states_ok_def so)
  show ?thesis
    using assms(1,2)
  proof (cases rule: commit_round)
    case (1 r1 applied w3)
    note act = round_active [OF 1(1) assms(3-5,2) ok [OF assms(7)]]
    show ?thesis
    proof (cases "r1 < 0 \<and> p_state p \<noteq> None")
      case False
      then show ?thesis using 1(3,4) act by (cases "r1 < 0") auto
    next
      case True
      then obtain old where old: "p_state p = Some old" by auto
      let ?w4 = "fold disable_mux applied w3"
      have h4: "handles ?w4 a = Some (p\<lparr>p_state := None\<rparr>)" using 1(2) by simp
      have a4: "active G a w0 ?w4" using act(1) True by simp
      have so4: "settings_of ?w4 a i = settings_of w a i" for i by (simp add: settings_of_def handle_at_def h4 assms(2) del: disable_all_handles)
      have lt: "old < length (states p)" using assms(6) old by (simp add: states_ok_def)
      have w': "w' = snd (pinctrl_commit_state e a old ?w4)" using 1(4) True old by simp
      from prod.collapse [symmetric, of "pinctrl_commit_state e a old ?w4"] h4 show ?thesis
      proof (cases rule: commit_round)
        case (1 r2 applied2 w5)
        note act2 = round_active [OF 1(1) a4 assms(4,5) h4, unfolded so4, OF ok [OF lt]]
        then show ?thesis using 1(3,4) w' by (cases "r2 < 0") auto
      qed
    qed
  qed
qed

section \<open>Releasing a handle\<close>

lemma free_states:
  assumes "\<And>i. st = Some i \<Longrightarrow> i < n"
  shows "fold (\<lambda>i. fold (pinctrl_free_setting (st = Some i)) (f i)) [0..<n] w =
    (case st of None \<Rightarrow> w | Some i \<Rightarrow> fold disable_mux (f i) w)"
proof -
  have skip: "fold (pinctrl_free_setting False) xs w = w" for xs and w :: "'a pinctrl_world"
    by (induction xs) (simp_all add: pinctrl_free_setting_def)
  have one: "fold (pinctrl_free_setting True) xs w = fold disable_mux xs w" for xs and w :: "'a pinctrl_world"
    by (induction xs arbitrary: w) (simp_all add: pinctrl_free_setting_def)
  have none: "(\<And>i. i \<in> set is \<Longrightarrow> st \<noteq> Some i) \<Longrightarrow> fold (\<lambda>i. fold (pinctrl_free_setting (st = Some i)) (f i)) is w = w"
    for "is" and w :: "'a pinctrl_world"
    by (induction "is") (simp_all add: skip)
  show ?thesis
  proof (cases st)
    case None
    then show ?thesis using none [of "[0..<n]" w] by simp
  next
    case (Some i)
    then have "i < n" using assms by simp
    then have "[0..<n] = [0..<i] @ i # [Suc i..<n]" by (metis le_add_same_cancel1 less_imp_le_nat upt_add_eq_append upt_conv_Cons zero_le le_add_diff_inverse)
    then show ?thesis using Some none [of "[0..<i]" w] none [of "[Suc i..<n]" "fold disable_mux (f i) w"] by (simp add: one)
  qed
qed

lemma put_last_claims:
  assumes "handles w a = Some p" and "users p = 1" and "\<And>d w. controllers (dt_free_maps e d w) = controllers w"
    and "\<And>i. p_state p = Some i \<Longrightarrow> i < length (states p)"
  shows "claims_of (pinctrl_put e a w) = claims_of (leave_state a w)"
proof -
  have "fold (\<lambda>i. fold (pinctrl_free_setting (p_state p = Some i)) (settings (states p ! i))) [0..<length (states p)] w = leave_state a w"
    using free_states [of "p_state p" "length (states p)" "\<lambda>i. settings (states p ! i)" w, OF assms(4)] assms(1)
    by (cases "p_state p") (simp_all add: leave_state_def handle_at_def settings_of_def)
  then show ?thesis
    by (simp add: pinctrl_put_def assms(1,2) pinctrl_free_def handle_at_def Let_def claims_of_def fun_eq_iff assms(3))
qed

section \<open>GPIO requests through ranges\<close>

lemma range_loop_cong:
  "(\<And>c. c \<in> set cs \<Longrightarrow> gpio_ranges (ctl_at w' c) = gpio_ranges (ctl_at w c)) \<Longrightarrow> gpio_range_loop cs gpio w' = gpio_range_loop cs gpio w"
  by (induction cs) (simp_all add: pinctrl_match_gpio_range_def split: option.split)

lemma run_ctl_ranges:
  "gpio_range_loop cs gpio (snd (run_ctl c f w)) = gpio_range_loop cs gpio w"
  by (rule range_loop_cong) (auto simp: run_ctl_def ctl_at_def split: option.splits prod.splits)

lemma gpio_claim_undone:
  assumes "pin_room (strict o1) 1 s" and "pin_request o1 p own (Some rng) s = (r, s')"
  shows "pin_claims (if r = 0 then pinmux_free_gpio o1 p rng s' else s') = pin_claims s"
proof -
  have "pin_room (strict o1) (Suc 0) s" using assms(1) by simp
  with assms(2) show ?thesis
  proof (cases rule: pin_request_cases)
    case (granted d h)
    then show ?thesis
      by (auto simp: pinmux_free_gpio_def pin_free_def pin_desc_get_def pin_claims_def fun_eq_iff Let_def)
  qed auto
qed

section \<open>Mapping tables\<close>

lemma maps_loop_append:
  assumes "maps_loop e dev c ms ret p w = (r1, p1, w1)" and "r1 \<noteq> - EPROBE_DEFER"
    and "map_option (\<lambda>c. dev_name (ctl_dev (ctl_at w1 c))) c = map_option (\<lambda>c. dev_name (ctl_dev (ctl_at w c))) c"
  shows "maps_loop e dev c (ms @ ns) ret p w = maps_loop e dev c ns r1 p1 w1"
  using assms(1,2) by (induction e dev c ms ret p w rule: maps_loop.induct) (auto split: prod.splits if_splits)

section \<open>Registering pins\<close>

lemma register_one_pin:
  assumes "mem w = []"
  shows "pinctrl_register_one_pin e d (s, w) =
    (if pin_desc_tree s (pin_number d) \<noteq> None then (- EINVAL, s, w)
     else (0, set_pin (pin_number d) \<lparr>name = (case pin_name d of Some n \<Rightarrow> n | None \<Rightarrow> pin_label e (pin_number d)),
        mux_usecount = 0, mux_owner = None, mux_setting = None, gpio_owner = None\<rparr> s, w))"
  using assms by (simp add: pinctrl_register_one_pin_def pin_desc_get_def kzalloc_def split: option.split)

lemma register_pins:
  assumes "mem w = []" and "pinctrl_register_pins e ds (s, w) = (r, s', w')"
    and "finite (dom (pin_desc_tree s))" and "\<forall>p d. pin_desc_tree s p = Some d \<longrightarrow> mux_usecount d = 0 \<and> mux_owner d = None \<and> gpio_owner d = None"
  shows "w' = w \<and> (r = 0 \<longleftrightarrow> distinct (map pin_number ds) \<and> (\<forall>d \<in> set ds. pin_desc_tree s (pin_number d) = None)) \<and>
    (r = 0 \<longrightarrow> pins_fresh s' \<and> dom (pin_desc_tree s') = dom (pin_desc_tree s) \<union> pin_number ` set ds)"
  using assms(2-4)
proof (induction ds arbitrary: s)
  case Nil
  then show ?case by (simp add: pins_fresh_def)
next
  case (Cons d ds)
  show ?case
  proof (cases "pin_desc_tree s (pin_number d)")
    case (Some y)
    then show ?thesis using Cons.prems(1) register_one_pin [OF assms(1), of e d s] by auto
  next
    case None
    define t where "t = set_pin (pin_number d) \<lparr>name = (case pin_name d of Some n \<Rightarrow> n | None \<Rightarrow> pin_label e (pin_number d)),
        mux_usecount = 0, mux_owner = None, mux_setting = None, gpio_owner = None\<rparr> s"
    have run: "pinctrl_register_pins e ds (t, w) = (r, s', w')"
      using Cons.prems(1) register_one_pin [OF assms(1), of e d s] None by (simp add: t_def)
    have "finite (dom (pin_desc_tree t))" "\<forall>q y. pin_desc_tree t q = Some y \<longrightarrow> mux_usecount y = 0 \<and> mux_owner y = None \<and> gpio_owner y = None"
      using Cons.prems(2,3) by (simp_all add: t_def)
    note IH = Cons.IH [OF run this]
    have dom: "dom (pin_desc_tree t) = insert (pin_number d) (dom (pin_desc_tree s))" by (simp add: t_def insert_absorb)
    have free: "(\<forall>x \<in> set ds. pin_desc_tree t (pin_number x) = None) \<longleftrightarrow>
        pin_number d \<notin> pin_number ` set ds \<and> (\<forall>x \<in> set ds. pin_desc_tree s (pin_number x) = None)"
      by (auto simp: t_def image_iff split: if_splits)
    show ?thesis using IH None unfolding dom free by auto
  qed
qed

text \<open>Taking the descriptors of a controller back leaves no pin behind, however many were registered.\<close>

lemma free_pindescs_dom: "dom (pin_desc_tree (pinctrl_free_pindescs ds s)) = dom (pin_desc_tree s) - pin_number ` set ds"
  by (induction ds arbitrary: s) (auto simp: pinctrl_free_pindescs_def)

section \<open>References to handles\<close>

text \<open>The device tree part, outside the repository, only adds and drops mapping tables.\<close>

definition dt_keeps :: "'h pinctrl_env \<Rightarrow> bool" where
  "dt_keeps e \<longleftrightarrow>
     (\<forall>d c w. handles (snd (dt_to_map e d c w)) = handles w \<and> pinctrl_list (snd (dt_to_map e d c w)) = pinctrl_list w
        \<and> next_addr w \<le> next_addr (snd (dt_to_map e d c w)))
   \<and> (\<forall>d w. handles (dt_free_maps e d w) = handles w \<and> pinctrl_list (dt_free_maps e d w) = pinctrl_list w
        \<and> next_addr w \<le> next_addr (dt_free_maps e d w) \<and> controllers (dt_free_maps e d w) = controllers w)"

definition frame :: "'h pinctrl_world \<Rightarrow> 'h pinctrl_world \<Rightarrow> bool" where
  "frame w w' \<longleftrightarrow> handles w' = handles w \<and> pinctrl_list w' = pinctrl_list w \<and> next_addr w \<le> next_addr w'"

lemma frame_refl [simp]: "frame w w"
  by (simp add: frame_def)

lemma frame_trans: "frame w w1 \<Longrightarrow> frame w1 w2 \<Longrightarrow> frame w w2"
  by (simp add: frame_def)

lemma frame_kzalloc: "kzalloc w = (ok, w') \<Longrightarrow> frame w w'"
  by (auto simp: kzalloc_def frame_def split: list.splits)

lemma frame_run: "frame w (snd (run_ctl c f w))"
  by (simp add: frame_def)

lemma frame_create_state: "create_state p nm w = (r, p', w') \<Longrightarrow> frame w w' \<and> p_state p' = p_state p"
  by (auto simp: create_state_def split: prod.splits if_splits dest: frame_kzalloc)

lemma frame_add_setting:
  assumes "add_setting e c m p w = (r, p', w')"
  shows "frame w w' \<and> p_state p' = p_state p"
proof -
  obtain r1 p1 w1 where s: "(case find_state p (the (map_name m)) of Some i \<Rightarrow> (Inr i, p, w)
            | None \<Rightarrow> create_state p (the (map_name m)) w) = (r1, p1, w1)" by (metis prod_cases3)
  then have 1: "frame w w1 \<and> p_state p1 = p_state p" using frame_create_state by (fastforce split: option.splits)
  show ?thesis
  proof (cases r1)
    case (Inl err)
    then show ?thesis using assms s 1 by (simp add: add_setting_def)
  next
    case (Inr i)
    obtain ok w2 where k: "kzalloc w1 = (ok, w2)" by force
    have f2: "frame w w2" using 1 frame_kzalloc [OF k] frame_trans by blast
    have f3: "frame w (w2\<lparr>next_addr := Suc (next_addr w2)\<rparr>)" using f2 by (simp add: frame_def)
    from assms s k Inr 1 f2 f3 show ?thesis
      by (auto simp: add_setting_def append_setting_def Let_def split: if_splits option.splits prod.splits)
  qed
qed

lemma frame_maps_loop:
  "maps_loop e d c ms ret p w = (r, p', w') \<Longrightarrow> frame w w' \<and> p_state p' = p_state p"
proof (induction e d c ms ret p w rule: maps_loop.induct)
  case (2 e dev c m ms ret p w)
  show ?case
  proof (cases "map_for dev (map_option (\<lambda>c. dev_name (ctl_dev (ctl_at w c))) c) m")
    case False
    then show ?thesis using 2(1,3) by simp
  next
    case True
    obtain r1 p1 w1 where a: "add_setting e c m p w = (r1, p1, w1)" by (metis prod_cases3)
    from frame_add_setting [OF a] have "frame w w1" "p_state p1 = p_state p" by auto
    then show ?thesis
      using 2(2) [OF _ a [symmetric] refl] 2(3) True a frame_trans by (cases "r1 = - EPROBE_DEFER") (auto split: if_splits)
  qed
qed simp

lemma dt_frames:
  assumes "dt_keeps e"
  shows "frame w (snd (dt_to_map e d c w))" and "frame w (dt_free_maps e d w)"
  using assms by (simp_all add: dt_keeps_def frame_def)

lemma create_frame:
  assumes "create_pinctrl e d c w = (r, w')" and "dt_keeps e"
  shows "(\<exists>err. r = Inl err \<and> frame w w') \<or>
    (\<exists>a p. r = Inr a \<and> next_addr w \<le> a \<and> a < next_addr w' \<and> handles w' = (handles w)(a \<mapsto> p) \<and> users p = 1 \<and> p_state p = None
       \<and> pinctrl_list w' = pinctrl_list w @ [a])"
proof -
  obtain ok w1 where k: "kzalloc w = (ok, w1)" by force
  obtain ret w2 where dt: "dt_to_map e d c w1 = (ret, w2)" by force
  obtain ret1 p w3 where lp: "maps_loop e d c (concat (map snd (pinctrl_maps w2))) ret
                 \<lparr>p_dev = d, states = [], p_state = None, users = 0\<rparr> w2 = (ret1, p, w3)" by (metis prod_cases3)
  have f1: "frame w w1" using frame_kzalloc [OF k] .
  have f2: "frame w w2" using frame_trans [OF f1 dt_frames(1) [OF assms(2)], of d c] dt by simp
  have f3: "frame w w3" "p_state p = None" using frame_trans [OF f2] frame_maps_loop [OF lp] by auto
  have f4: "frame w (dt_free_maps e d w3)" using frame_trans [OF f3(1) dt_frames(2) [OF assms(2)]] .
  have "(r, w') = (if \<not> ok then (Inl (- ENOMEM), w1) else if ret < 0 then (Inl ret, w2) else if ret1 < 0 then (Inl ret1, dt_free_maps e d w3)
     else (Inr (next_addr w3), w3\<lparr>next_addr := Suc (next_addr w3), handles := (handles w3)(next_addr w3 \<mapsto> p\<lparr>users := 1\<rparr>),
        pinctrl_list := pinctrl_list w3 @ [next_addr w3]\<rparr>))"
    using assms(1) k dt lp by (auto simp: create_pinctrl_def Let_def split: if_splits)
  then show ?thesis using f1 f2 f3 f4 by (auto simp: frame_def split: if_splits)
qed

text \<open>The calls of consumers, with the number \<open>g\<close> of references that callers hold to each handle.\<close>

inductive core_step ::
    "'h pinctrl_env \<Rightarrow> (nat \<Rightarrow> nat) \<times> 'h pinctrl_world \<Rightarrow> (nat \<Rightarrow> nat) \<times> 'h pinctrl_world \<Rightarrow> bool"
  for e :: "'h pinctrl_env" where
  got: "pinctrl_get e od w = (Inr a, w') \<Longrightarrow> core_step e (g, w) (g(a := Suc (g a)), w')"
| failed: "pinctrl_get e od w = (Inl err, w') \<Longrightarrow> core_step e (g, w) (g, w')"
| put: "0 < g a \<Longrightarrow> core_step e (g, w) (g(a := g a - 1), pinctrl_put e a w)"
| lookup: "0 < g a \<Longrightarrow> pinctrl_lookup_state a nm w = (r, w') \<Longrightarrow> core_step e (g, w) (g, w')"
| select: "0 < g a \<Longrightarrow> st < length (states (handle_at w a)) \<Longrightarrow> pinctrl_select_state e a st w = (r, w') \<Longrightarrow> core_step e (g, w) (g, w')"
| gpio_request: "pinctrl_gpio_request e gpio w = (r, w') \<Longrightarrow> core_step e (g, w) (g, w')"
| gpio_free: "core_step e (g, w) (g, pinctrl_gpio_free gpio w)"
| gpio_direction: "pinctrl_gpio_direction gpio input w = (r, w') \<Longrightarrow> core_step e (g, w) (g, w')"
| register_map: "pinctrl_register_map e tbl ms dup w = (r, w') \<Longrightarrow> core_step e (g, w) (g, w')"
| unregister_map: "core_step e (g, w) (g, pinctrl_unregister_map tbl w)"
| add_range: "core_step e (g, w) (g, pinctrl_add_gpio_range c rng w)"

definition refs_inv :: "(nat \<Rightarrow> nat) \<times> 'h pinctrl_world \<Rightarrow> bool" where
  "refs_inv gw \<longleftrightarrow> (case gw of (g, w) \<Rightarrow>
     distinct (pinctrl_list w) \<and> set (pinctrl_list w) = dom (handles w) \<and>
     (\<forall>a. handles w a = None \<longrightarrow> g a = 0) \<and>
     (\<forall>a p. handles w a = Some p \<longrightarrow>
        g a = users p \<and> 0 < users p \<and> a < next_addr w \<and> (\<forall>i. p_state p = Some i \<longrightarrow> i < length (states p))))"

lemma refs_inv_handle:
  assumes "refs_inv (g, w)" and "0 < g a"
  obtains p where "handles w a = Some p" "g a = users p" "0 < users p" "\<forall>i. p_state p = Some i \<longrightarrow> i < length (states p)"
proof (cases "handles w a")
  case (Some p)
  then show thesis using that [of p] assms(1) by (auto simp: refs_inv_def)
qed (use assms in \<open>simp add: refs_inv_def\<close>)

lemma refs_inv_frame: "refs_inv (g, w) \<Longrightarrow> frame w w' \<Longrightarrow> refs_inv (g, w')"
  unfolding refs_inv_def frame_def by (fastforce)

lemma refs_inv_upd:
  assumes "refs_inv (g, w)" and "handles w a = Some p" and "handles w' = (handles w)(a \<mapsto> p')" and "pinctrl_list w' = pinctrl_list w"
    and "next_addr w \<le> next_addr w'" and "0 < users p'" and "\<And>i. p_state p' = Some i \<Longrightarrow> i < length (states p')"
  shows "refs_inv (g(a := users p'), w')"
proof -
  have "a < next_addr w" using assms(1,2) by (auto simp: refs_inv_def)
  moreover have "b < next_addr w'" if "handles w b = Some q" for b q
    using assms(1,5) that by (auto simp: refs_inv_def) (metis less_le_trans)
  ultimately show ?thesis
    using assms by (auto simp: refs_inv_def insert_absorb)
qed

lemma gpio_frames:
  "frame w (snd (pinctrl_gpio_request e gpio w))" "frame w (pinctrl_gpio_free gpio w)" "frame w (snd (pinctrl_gpio_direction gpio input w))"
proof -
  show "frame w (snd (pinctrl_gpio_request e gpio w))"
    by (auto simp: pinctrl_gpio_request_def with_gpio_def split: sum.splits prod.splits
        intro: frame_trans [OF frame_kzalloc frame_run])
  show "frame w (pinctrl_gpio_free gpio w)" "frame w (snd (pinctrl_gpio_direction gpio input w))"
    by (auto simp: pinctrl_gpio_free_def pinctrl_gpio_direction_def with_gpio_def frame_run split: sum.splits)
qed

lemma register_map_frame: "frame w (snd (pinctrl_register_map e tbl ms dup w))"
  by (auto simp: pinctrl_register_map_def frame_def split: prod.splits if_splits dest!: frame_kzalloc)

lemma frame_disable: "frame w (disable_mux x w)"
  by (simp add: frame_def)

lemma pinctrl_free_effect:
  assumes "dt_keeps e"
  shows "handles (pinctrl_free e a w) = (handles w)(a := None)" "pinctrl_list (pinctrl_free e a w) = remove1 a (pinctrl_list w)"
    "next_addr w \<le> next_addr (pinctrl_free e a w)"
proof -
  have f: "frame w (fold (pinctrl_free_setting b) xs w)" for b xs w
  proof (induction xs arbitrary: w)
    case (Cons x xs)
    have "frame w (pinctrl_free_setting b x w)" by (simp add: pinctrl_free_setting_def frame_disable)
    from frame_trans [OF this Cons] show ?case by simp
  qed simp
  have "frame w (fold (\<lambda>i. fold (pinctrl_free_setting (st = Some i)) (h i)) is w)" for st h "is" w
    by (induction "is" arbitrary: w) (auto intro: frame_trans [OF f])
  from this [of w "p_state (handle_at w a)" "\<lambda>i. settings (states (handle_at w a) ! i)" "[0..<length (states (handle_at w a))]"]
    dt_frames(2) [OF assms]
  show "handles (pinctrl_free e a w) = (handles w)(a := None)" "pinctrl_list (pinctrl_free e a w) = remove1 a (pinctrl_list w)"
    "next_addr w \<le> next_addr (pinctrl_free e a w)"
    unfolding pinctrl_free_def Let_def frame_def by (auto intro: order_trans)
qed

lemma core_step_refs:
  assumes "core_step e gw gw'" and "refs_inv gw" and "dt_keeps e"
  shows "refs_inv gw'"
  using assms(1,2)
proof (induction rule: core_step.induct)
  case (got od w a w' g)
  then obtain dev where od: "od = Some dev" by (auto simp: pinctrl_get_def split: option.splits)
  show ?case
  proof (cases "find_pinctrl dev w")
    case (Some b)
    then have b: "b = a" "w' = upd_handle a (\<lambda>p. p\<lparr>users := Suc (users p)\<rparr>) w" "a \<in> set (pinctrl_list w)"
      using got(1) od by (auto simp: pinctrl_get_def find_pinctrl_def dest: find_Some_in)
    then obtain p where p: "handles w a = Some p" using got(2) by (auto simp: refs_inv_def)
    have "refs_inv (g(a := users (p\<lparr>users := Suc (users p)\<rparr>)), w')"
      by (rule refs_inv_upd [OF got(2) p]) (use got(2) p b in \<open>auto simp: upd_handle_def refs_inv_def\<close>)
    moreover have "g a = users p" using got(2) p by (auto simp: refs_inv_def)
    ultimately show ?thesis by simp
  next
    case None
    then have "create_pinctrl e dev None w = (Inr a, w')" using got(1) od by (simp add: pinctrl_get_def)
    from create_frame [OF this assms(3)] obtain p where p: "next_addr w \<le> a" "a < next_addr w'"
      "handles w' = (handles w)(a \<mapsto> p)" "users p = 1" "p_state p = None" "pinctrl_list w' = pinctrl_list w @ [a]" by auto
    have new: "handles w a = None" using got(2) p(1) by (cases "handles w a") (auto simp: refs_inv_def not_less [symmetric])
    have lt: "b < next_addr w'" if "handles w b = Some q" for b q
      using got(2) that p(1,2) by (auto simp: refs_inv_def) (metis less_trans less_le_trans)
    show ?thesis using got(2) p new lt by (auto simp: refs_inv_def)
  qed
next
  case (failed od w err w' g)
  show ?case
  proof (cases od)
    case None
    then show ?thesis using failed by (simp add: pinctrl_get_def)
  next
    case (Some dev)
    then have "create_pinctrl e dev None w = (Inl err, w')" using failed(1) by (simp add: pinctrl_get_def split: option.splits)
    from create_frame [OF this assms(3)] have "frame w w'" by auto
    then show ?thesis using refs_inv_frame [OF failed(2)] by blast
  qed
next
  case (put g a w)
  obtain p where p: "handles w a = Some p" "g a = users p" "0 < users p"
    using refs_inv_handle [OF put(2,1)] by metis
  show ?case
  proof (cases "users p = 1")
    case True
    note f = pinctrl_free_effect [OF assms(3), where w = w and a = a]
    have "b < next_addr (pinctrl_free e a w)" if "handles w b = Some q" for b q
      using put(2) that f(3) by (auto simp: refs_inv_def) (metis less_le_trans)
    then show ?thesis using put(2) p True
      by (auto simp: pinctrl_put_def refs_inv_def f(1,2) split: option.splits)
  next
    case False
    have "1 < users p" using p(3) False by simp
    have "refs_inv (g(a := users (p\<lparr>users := users p - 1\<rparr>)), pinctrl_put e a w)"
      by (rule refs_inv_upd [OF put(2) p(1)])
        (use put(2) p False \<open>1 < users p\<close> in \<open>auto simp: pinctrl_put_def upd_handle_def refs_inv_def split: option.splits\<close>)
    then show ?thesis using p by simp
  qed
next
  case (lookup g a nm w r w')
  obtain p where p: "handles w a = Some p" "g a = users p" "0 < users p" "\<forall>i. p_state p = Some i \<longrightarrow> i < length (states p)"
    using refs_inv_handle [OF lookup(3,1)] by metis
  show ?case
  proof (cases "find_state p nm = None \<and> pinctrl_dummy_state w")
    case False
    then show ?thesis using lookup p by (auto simp: pinctrl_lookup_state_def handle_at_def split: option.splits)
  next
    case True
    obtain r1 p1 w1 where c: "create_state p nm w = (r1, p1, w1)" by (metis prod_cases3)
    have w': "w' = upd_handle a (\<lambda>_. p1) w1" using lookup(2) True p c by (simp add: pinctrl_lookup_state_def handle_at_def)
    have p1: "p_state p1 = p_state p" "users p1 = users p" "length (states p) \<le> length (states p1)" "frame w w1"
      using c frame_create_state [OF c] by (auto simp: create_state_def split: prod.splits if_splits)
    have "refs_inv (g(a := users p1), w')"
      by (rule refs_inv_upd [OF lookup(3) p(1)])
        (use p p1 in \<open>auto simp: w' upd_handle_def frame_def intro: less_le_trans\<close>)
    then show ?thesis using p p1 by (simp add: fun_upd_idem)
  qed
next
  case (select g a st w r w')
  obtain p where p: "handles w a = Some p" "g a = users p" "0 < users p" "\<forall>i. p_state p = Some i \<longrightarrow> i < length (states p)"
    using refs_inv_handle [OF select(4,1)] by metis
  show ?case
  proof (cases "p_state p = Some st")
    case True
    then show ?thesis using select p by (simp add: pinctrl_select_state_def handle_at_def)
  next
    case False
    then have "pinctrl_commit_state e a st w = (r, w')" using select(3) p by (simp add: pinctrl_select_state_def handle_at_def)
    from commit_handles [OF this p(1)] commit_frame [OF this]
    obtain st' where st': "handles w' = (handles w)(a \<mapsto> p\<lparr>p_state := st'\<rparr>)" "st' = Some st \<or> st' = None \<or> st' = p_state p"
      and f: "pinctrl_list w' = pinctrl_list w" "next_addr w' = next_addr w" by auto
    have "refs_inv (g(a := users (p\<lparr>p_state := st'\<rparr>)), w')"
      by (rule refs_inv_upd [OF select(4) p(1) st'(1) f(1)]) (use p st' f select(2) in \<open>auto simp: handle_at_def\<close>)
    then show ?thesis using p by (simp add: fun_upd_idem)
  qed
next
  case (gpio_request gpio w r w' g)
  then show ?case using refs_inv_frame gpio_frames(1) [of w e gpio] by auto
next
  case (gpio_free g w gpio)
  then show ?case using refs_inv_frame gpio_frames(2) by blast
next
  case (gpio_direction gpio input w r w' g)
  then show ?case using refs_inv_frame gpio_frames(3) [of w gpio input] by auto
next
  case (register_map tbl ms dup w r w' g)
  then show ?case using refs_inv_frame register_map_frame [of w e tbl ms dup] by auto
next
  case (unregister_map g w tbl)
  then show ?case by (rule refs_inv_frame) (simp add: pinctrl_unregister_map_def frame_def)
next
  case (add_range g w c rng)
  then show ?case by (rule refs_inv_frame) (simp add: pinctrl_add_gpio_range_def upd_ctl_def frame_def)
qed

end
