(* ===== verification/Pinctrl_Results.thy ===== *)
theory Pinctrl_Results
  imports Pinctrl_States
begin

text \<open>
  The properties of the pin control core, and a small system to witness them: one strict controller
  with the groups \<open>a\<close> (pins 1 and 2) and \<open>b\<close> (pins 2 and 9, the last of which does not exist), a GPIO
  range over its pins, and a consumer \<open>uart0\<close> with a state for each group.
\<close>

section \<open>A system for the witnesses\<close>

definition demo_desc :: "unit pinctrl_desc" where
  "demo_desc = \<lparr>pcd_name = Some ''pinctrl'', pcd_pins = [\<lparr>pin_number = 0, pin_name = Some ''p''\<rparr>, \<lparr>pin_number = 1, pin_name = None\<rparr>],
     pctlops = Some demo_ctl_ops, pmxops = Some demo_mux_ops, confops = False, link_consumers = False\<rparr>"

definition demo_range :: pinctrl_gpio_range where
  "demo_range = \<lparr>range_name = ''gpio'', range_base = 10, range_npins = 3, range_pin_base = 0, range_pins = None\<rparr>"

definition demo_controller :: "unit controller" where
  "demo_controller = \<lparr>pctl = demo_ctl, ctl_dev = \<lparr>dev_id = 0, dev_name = ''pin''\<rparr>, desc = demo_desc, gpio_ranges = [demo_range],
     hog = None, hog_default = None, hog_sleep = None\<rparr>"

definition demo_uart :: device where
  "demo_uart = \<lparr>dev_id = 1, dev_name = ''uart0''\<rparr>"

definition demo_x :: "nat \<Rightarrow> pc_setting" where
  "demo_x g = \<lparr>set_type = PIN_MAP_TYPE_MUX_GROUP, set_ctl = 0, set_mux_data = demo_setting g, set_configs = (0, [])\<rparr>"

definition demo_handle :: pinctrl where
  "demo_handle = \<lparr>p_dev = demo_uart, states = [\<lparr>state_name = ''default'', settings = [demo_x 0]\<rparr>,
     \<lparr>state_name = ''idle'', settings = [demo_x 1]\<rparr>], p_state = None, users = 1\<rparr>"

definition demo_entry :: "string \<Rightarrow> pinctrl_map" where
  "demo_entry f = \<lparr>map_dev_name = Some ''uart0'', map_name = Some ''default'', map_type = PIN_MAP_TYPE_MUX_GROUP,
     ctrl_dev_name = Some ''pin'', map_mux = \<lparr>map_group = Some ''a'', map_function = Some f\<rparr>, map_configs = ([], [])\<rparr>"

definition demo_world :: "unit pinctrl_world" where
  "demo_world = \<lparr>controllers = [0 \<mapsto> demo_controller], pinctrldev_list = [0], handles = [5 \<mapsto> demo_handle], pinctrl_list = [5],
     pinctrl_maps = [(3, [demo_entry ''i2c'', demo_entry ''uart''])], pinctrl_dummy_state = False, links = [], next_addr = 200, mem = []\<rparr>"

definition demo_core_env :: "unit pinctrl_env" where
  "demo_core_env = \<lparr>dt_to_map = (\<lambda>d c w. (0, w)), dt_free_maps = (\<lambda>d w. w), pinconf_map_to_setting = (\<lambda>m k. (- EINVAL, 0, [])),
     pinconf_apply_setting = (\<lambda>t x h. (0, h)), pinconf_validate_map = (\<lambda>m. 0), pinconf_check_ops = (\<lambda>d. 0),
     pinconf_set_config = (\<lambda>p cs h. (0, h)), gpio_to_chip = (\<lambda>g. None), pin_label = (\<lambda>p. ''PIN''), gpio_label = (\<lambda>n g. n)\<rparr>"

definition demo_groups :: "nat \<Rightarrow> nat \<Rightarrow> int list" where
  "demo_groups c g = (if g = 0 then [1, 2] else [2, 9])"

lemmas demo_core_defs = demo_world_def demo_handle_def demo_x_def demo_controller_def demo_desc_def demo_range_def
  demo_uart_def demo_core_env_def

lemma demo_assumptions:
  "static_groups demo_groups demo_world" "drivers_ok demo_world" "n < 2 ^ 32 \<Longrightarrow> wroom n demo_world"
  "states_ok demo_groups demo_world demo_handle" "active demo_groups 5 demo_world demo_world" "dt_keeps demo_core_env"
proof -
  show wr: "wroom n demo_world" if "n < 2 ^ 32" for n
    using demo_room(1) [OF that] by (simp add: wroom_def demo_core_defs)
  show "static_groups demo_groups demo_world"
    by (simp add: static_groups_def demo_core_defs demo_groups_def demo_ctl_ops_def group_pins_def)
  show "drivers_ok demo_world"
    by (simp add: drivers_ok_def demo_core_defs mux_of_def demo_mux_ops_def ask_driver_def split: option.split)
  have "less_2": "i < 2 \<Longrightarrow> i = 0 \<or> i = 1" for i :: nat by auto
  show "states_ok demo_groups demo_world demo_handle"
    by (auto simp: states_ok_def demo_handle_def disjoint_settings_def pins_of_def demo_x_def is_mux_def demo_setting_def
        demo_groups_def wr less_Suc_eq)
  show "active demo_groups 5 demo_world demo_world"
    by (simp add: active_def handle_at_def demo_world_def demo_handle_def)
  show "dt_keeps demo_core_env" by (simp add: dt_keeps_def demo_core_env_def)
qed

section \<open>Selecting a state\<close>

text \<open>C15: Selecting a state of a handle is a transaction: on success the handle is in the new state; on an error,
  which is negative, it is in its old state or in none; no other handle changes; and in each case the
  last \<open>pinctrl_put\<close> afterwards gives back exactly the claims of the handle on all controllers,
  because what is claimed is always what the current state needs.\<close>

theorem select_state_transaction:
  assumes "pinctrl_select_state e a st w = (r, w')" and "handles w a = Some p" and "users p = 1"
    and "active G a w0 w" and "static_groups G w0" and "drivers_ok w0" and "states_ok G w0 p" and "st < length (states p)"
    and "dt_keeps e"
  shows "\<exists>st'. handles w' = (handles w)(a \<mapsto> p\<lparr>p_state := st'\<rparr>) \<and> (r = 0 \<longrightarrow> st' = Some st)
      \<and> (r \<noteq> 0 \<longrightarrow> r < 0 \<and> (st' = None \<or> st' = p_state p))
      \<and> active G a w0 w' \<and> claims_of (pinctrl_put e a w') = claims_of w0"
proof -
  obtain st' where st': "handles w' = (handles w)(a \<mapsto> p\<lparr>p_state := st'\<rparr>)" "r = 0 \<longrightarrow> st' = Some st"
    "r \<noteq> 0 \<longrightarrow> r < 0 \<and> (st' = None \<or> st' = p_state p)" and act: "active G a w0 w'"
  proof (cases "p_state p = Some st")
    case True
    then have "r = 0" "w' = w" using assms(1,2) by (simp_all add: pinctrl_select_state_def handle_at_def)
    then show ?thesis using that [of "Some st"] True assms(2,4) by (simp add: fun_upd_idem)
  next
    case False
    then have c: "pinctrl_commit_state e a st w = (r, w')" using assms(1,2) by (simp add: pinctrl_select_state_def handle_at_def)
    then show ?thesis using commit_handles [OF c assms(2)] commit_active [OF c assms(2,4-8)] that by blast
  qed
  have "\<And>i. st' = Some i \<Longrightarrow> i < length (states p)" using st'(2,3) assms(7,8) by (cases "r = 0") (auto simp: states_ok_def)
  then have "claims_of (pinctrl_put e a w') = claims_of (leave_state a w')"
    using put_last_claims [of w' a "p\<lparr>p_state := st'\<rparr>" e] st'(1) assms(3,9) by (simp add: dt_keeps_def)
  then have "claims_of (pinctrl_put e a w') = claims_of w0" using active_leave(1) [OF act assms(5)] by simp
  with st' act show ?thesis by (intro exI [of _ st']) simp
qed

lemma select_state_transaction_witness:
  "claims_of (pinctrl_put demo_core_env 5 (snd (pinctrl_select_state demo_core_env 5 1 demo_world))) = claims_of demo_world"
  using select_state_transaction [OF prod.collapse [symmetric] _ _ demo_assumptions(5,1,2,4) _ demo_assumptions(6), of 1]
  by (auto simp: demo_world_def [unfolded demo_handle_def]) (auto simp: demo_handle_def)

section \<open>Requesting GPIOs\<close>

text \<open>C17: A GPIO request that fails leaves all claims as they were, and freeing a GPIO whose request was granted
  restores them, whether the number belongs to a range of a controller or to none.\<close>

theorem gpio_request_free_claims:
  assumes "wroom 1 w" and "pinctrl_gpio_request e gpio w = (r, w')"
  shows "claims_of (if r = 0 then pinctrl_gpio_free gpio w' else w') = claims_of w"
proof (cases "gpio_range_loop (pinctrldev_list w) gpio w")
  case None
  then have "w' = w" using assms(2) by (auto simp: pinctrl_gpio_request_def with_gpio_def pinctrl_get_device_gpio_range_def)
  with None show ?thesis by (simp add: pinctrl_gpio_free_def with_gpio_def pinctrl_get_device_gpio_range_def)
next
  case (Some cr)
  obtain c rng where cr: "cr = (c, rng)" by force
  obtain ok w1 where k: "kzalloc w = (ok, w1)" by force
  have w1: "controllers w1 = controllers w" "pinctrldev_list w1 = pinctrldev_list w"
    using k by (auto simp: kzalloc_def split: list.splits)
  define req where "req = (\<lambda>k :: 'a controller. pinmux_request_gpio (mux_of k) (if ok then Some (gpio_label e (range_name rng) gpio) else None)
                           (range_name rng) (gpio_to_pin rng gpio) (pctl k))"
  have run: "run_ctl c req w1 = (r, w')" using assms(2) Some k
    by (simp add: pinctrl_gpio_request_def with_gpio_def pinctrl_get_device_gpio_range_def cr req_def)
  have same: "gpio_range_loop (pinctrldev_list w') gpio w' = Some (c, rng)"
    using run_ctl_ranges [of "pinctrldev_list w" gpio c req w1] range_loop_cong [of "pinctrldev_list w" w1 w gpio] Some run w1
      run_ctl_handles(3) [of c req w1] by (simp add: ctl_at_def cr)
  show ?thesis
  proof (cases "controllers w c")
    case None
    then have "w' = w1" using run w1 by (simp add: run_ctl_def)
    then show ?thesis using None w1 same
      by (simp add: pinctrl_gpio_free_def with_gpio_def pinctrl_get_device_gpio_range_def run_ctl_def claims_of_def fun_eq_iff)
  next
    case k: (Some k)
    obtain s where s: "req k = (r, s)" and w': "w' = w1\<lparr>controllers := (controllers w1)(c \<mapsto> k\<lparr>pctl := s\<rparr>)\<rparr>"
      using run k w1 by (auto simp: run_ctl_def split: prod.splits)
    have room: "pin_room (strict (mux_of k)) 1 (pctl k)" using assms(1) k by (simp add: wroom_def)
    have "pin_claims (if r = 0 then pinmux_free_gpio (mux_of k) (gpio_to_pin rng gpio) (range_name rng) s else s) = pin_claims (pctl k)"
    proof (cases ok)
      case False
      then show ?thesis using s by (auto simp: req_def pinmux_request_gpio_def)
    next
      case True
      then show ?thesis using s gpio_claim_undone [OF room] by (simp add: req_def pinmux_request_gpio_def)
    qed
    then show ?thesis using k w1 same
      by (auto simp: pinctrl_gpio_free_def with_gpio_def pinctrl_get_device_gpio_range_def run_ctl_def claims_of_def mux_of_def w' fun_eq_iff)
  qed
qed

lemma gpio_request_free_claims_witness:
  "fst (pinctrl_gpio_request demo_core_env 11 demo_world) = 0 \<and>
   claims_of (pinctrl_gpio_free 11 (snd (pinctrl_gpio_request demo_core_env 11 demo_world))) = claims_of demo_world"
proof -
  have "fst (pinctrl_gpio_request demo_core_env 11 demo_world) = 0"
    by (simp add: pinctrl_gpio_request_def with_gpio_def pinctrl_get_device_gpio_range_def demo_core_defs ctl_at_def
        pinctrl_match_gpio_range_def gpio_to_pin_def kzalloc_def run_ctl_def mux_of_def pinmux_request_gpio_def mux_run_defs demo_defs)
  then show ?thesis using gpio_request_free_claims [OF demo_assumptions(3) prod.collapse [symmetric], of demo_core_env 11] by simp
qed

section \<open>Creating a handle\<close>



section \<open>Registering a controller\<close>



section \<open>The life of a handle\<close>

text \<open>C16: Over every sequence of calls from consumers a handle exists exactly while someone holds a reference to
  it, its count is the number of references held, and the list of handles has each of them once.\<close>

theorem handle_lifetime:
  assumes "(core_step e)\<^sup>*\<^sup>* (\<lambda>_. 0, w0) (g, w)" and "handles w0 = Map.empty" and "pinctrl_list w0 = []" and "dt_keeps e"
  shows "(handles w a \<noteq> None \<longleftrightarrow> 0 < g a) \<and> (\<forall>p. handles w a = Some p \<longrightarrow> users p = g a)
    \<and> (a \<in> set (pinctrl_list w) \<longleftrightarrow> 0 < g a) \<and> distinct (pinctrl_list w)"
proof -
  have "refs_inv (\<lambda>_. 0 :: nat, w0)" using assms(2,3) by (simp add: refs_inv_def)
  with assms(1) have "refs_inv (g, w)"
    by (induction rule: rtranclp_induct) (use core_step_refs assms(4) in blast)+
  then show ?thesis by (cases "handles w a") (auto simp: refs_inv_def)
qed

definition demo_empty :: "unit pinctrl_world" where
  "demo_empty = demo_world\<lparr>handles := Map.empty, pinctrl_list := [], pinctrl_maps := []\<rparr>"

lemma handle_lifetime_witness:
  "\<exists>a w. pinctrl_get demo_core_env (Some demo_uart) demo_empty = (Inr a, w) \<and> handles w a \<noteq> None
     \<and> handles (pinctrl_put demo_core_env a w) a = None"
proof -
  obtain a w where g: "pinctrl_get demo_core_env (Some demo_uart) demo_empty = (Inr a, w)"
    by (simp add: pinctrl_get_def find_pinctrl_def create_pinctrl_def kzalloc_def Let_def demo_empty_def demo_core_env_def demo_world_def)
  have "core_step demo_core_env (\<lambda>_. 0, demo_empty) ((\<lambda>_. 0)(a := Suc 0), w)"
    using core_step.got [OF g, of "\<lambda>_. 0"] by simp
  then have 1: "(core_step demo_core_env)\<^sup>*\<^sup>* (\<lambda>_. 0, demo_empty) ((\<lambda>_. 0)(a := Suc 0), w)" by blast
  have "core_step demo_core_env ((\<lambda>_. 0)(a := Suc 0), w) (\<lambda>_. 0, pinctrl_put demo_core_env a w)"
    using core_step.put [of "(\<lambda>_. 0)(a := Suc 0)" a demo_core_env w] by (simp add: fun_upd_idem)
  with 1 have 2: "(core_step demo_core_env)\<^sup>*\<^sup>* (\<lambda>_. 0, demo_empty) (\<lambda>_. 0, pinctrl_put demo_core_env a w)"
    by (rule rtranclp.rtrancl_into_rtrancl)
  have e: "handles demo_empty = Map.empty" "pinctrl_list demo_empty = []" by (simp_all add: demo_empty_def)
  have "handles w a \<noteq> None"
    using handle_lifetime [OF 1 e demo_assumptions(6), of a] by simp
  moreover have "handles (pinctrl_put demo_core_env a w) a = None"
    using handle_lifetime [OF 2 e demo_assumptions(6), of a] by auto
  ultimately show ?thesis using g by blast
qed

end
