(* ===== verification/Pinctrl_Rts.thy ===== *)
theory Pinctrl_Rts
  imports Pinctrl_Rts_Tables Pinctrl_Results
begin

text \<open>
  The Realtek pin controller (\<open>drivers/pinctrl/pinctrl-rts3917.c\<close>): pad registers, GPIO values with
  their shadows, functions of groups, pin configuration, the pins in use, and GPIO interrupts; and the
  GPIO chip on top of the pin control core.

  The pad registers are the state of a port, read and written by functions of the address.  A pin
  without a register block leads to a null pointer in the code; \<open>rts_fault\<close> records it, and shifts by
  more than the width of the register.  A call that tries to take the interrupt lock while it holds
  it does not return: its result is \<open>None\<close>.
\<close>

section \<open>State\<close>

text \<open>The codes of pin configurations and their packing are library code (\<open>conf_of\<close>).\<close>

datatype rts_config = RTS_PINCONFIG_PULL_NONE | RTS_PINCONFIG_PULL_DOWN | RTS_PINCONFIG_PULL_UP
  | RTS_PIN_CONFIG_DRIVE_STRENGTH | RTS_PIN_CONFIG_SLEW_RATE | RTS_PINCONFIG_INPUT | RTS_PINCONFIG_OUTPUT | RTS_PINCONFIG_OTHER

datatype irq_flow = IRQ_TYPE_NONE | IRQ_TYPE_EDGE_RISING | IRQ_TYPE_EDGE_FALLING | IRQ_TYPE_EDGE_BOTH | IRQ_TYPE_LEVEL

record 'b pad_port =
  pad_rd :: "nat \<Rightarrow> 'b \<Rightarrow> u32"
  pad_wr :: "nat \<Rightarrow> u32 \<Rightarrow> 'b \<Rightarrow> 'b"
  conf_of :: "u32 \<Rightarrow> rts_config \<times> u32"

record 'b rts_pinctrl =
  pads :: 'b
  irq_flow_type :: "nat \<Rightarrow> irq_flow"
  irq_locked :: bool
  pinsmask :: "nat \<Rightarrow> u64"
  audio_adda_gpio_value :: u8
  usb0_gpio_value :: u8
  usb1_gpio_value :: u8
  rts_fault :: bool

section \<open>Register fields\<close>

definition RTS_GETFIELD :: "u32 \<Rightarrow> nat \<Rightarrow> nat \<Rightarrow> u32" where
  "RTS_GETFIELD val width offset = drop_bit offset val AND (push_bit width 1 - 1)"

definition RTS_SETFIELD :: "u32 \<Rightarrow> u32 \<Rightarrow> nat \<Rightarrow> nat \<Rightarrow> u32" where
  "RTS_SETFIELD reg field width offset =
     (reg AND NOT (push_bit offset (push_bit width 1 - 1))) OR push_bit offset (field AND (push_bit width 1 - 1))"

definition rts_writel :: "'b pad_port \<Rightarrow> u32 \<Rightarrow> nat \<Rightarrow> 'b rts_pinctrl \<Rightarrow> 'b rts_pinctrl" where
  "rts_writel P v a s = s\<lparr>pads := pad_wr P a v (pads s)\<rparr>"

definition rts_clr_reg_bit :: "'b pad_port \<Rightarrow> nat \<Rightarrow> nat \<Rightarrow> 'b rts_pinctrl \<Rightarrow> 'b rts_pinctrl" where
  "rts_clr_reg_bit P b a s = (if b < 32 then rts_writel P (pad_rd P a (pads s) AND NOT (BIT b)) a s else s\<lparr>rts_fault := True\<rparr>)"

definition rts_set_reg_bit :: "'b pad_port \<Rightarrow> nat \<Rightarrow> nat \<Rightarrow> 'b rts_pinctrl \<Rightarrow> 'b rts_pinctrl" where
  "rts_set_reg_bit P b a s = (if b < 32 then rts_writel P (pad_rd P a (pads s) OR BIT b) a s else s\<lparr>rts_fault := True\<rparr>)"

definition rts_get_pinaddr :: "int \<Rightarrow> sharepin_cfg_addr option" where
  "rts_get_pinaddr pin = find (\<lambda>c. pinl c \<le> pin \<and> pin \<le> pinh c) pincfgaddr"

definition rts_gpio_set_field :: "'b pad_port \<Rightarrow> nat \<Rightarrow> u32 \<Rightarrow> nat \<Rightarrow> nat \<Rightarrow> 'b rts_pinctrl \<Rightarrow> 'b rts_pinctrl" where
  "rts_gpio_set_field P a field width offset s = rts_writel P (RTS_SETFIELD (pad_rd P a (pads s)) field width offset) a s"

definition rts_gpio_get_field :: "'b pad_port \<Rightarrow> nat \<Rightarrow> nat \<Rightarrow> nat \<Rightarrow> 'b rts_pinctrl \<Rightarrow> u32" where
  "rts_gpio_get_field P a width offset s = RTS_GETFIELD (pad_rd P a (pads s)) width offset"

text \<open>The block of a pin, and the position of the pin in it.\<close>

definition with_block :: "int \<Rightarrow> (sharepin_cfg_addr \<Rightarrow> nat \<Rightarrow> 'b rts_pinctrl \<Rightarrow> 'b rts_pinctrl) \<Rightarrow> 'b rts_pinctrl \<Rightarrow> 'b rts_pinctrl" where
  "with_block pin f s = (case rts_get_pinaddr pin of
     None \<Rightarrow> s\<lparr>rts_fault := True\<rparr> | Some sc \<Rightarrow> f sc (nat (pin - pinl sc)) s)"

section \<open>GPIO function and values\<close>

definition rts_gpio_enable :: "'b pad_port \<Rightarrow> int \<Rightarrow> 'b rts_pinctrl \<Rightarrow> 'b rts_pinctrl" where
  "rts_gpio_enable P gpio s = with_block gpio (\<lambda>sc bf s.
     let cfg = pinaddr sc + pr_pad_cfg in
     case pint sc of
       GPIO_TYPE_GENERIC \<Rightarrow>
         if gpio = 0 then rts_gpio_set_field P GPIO_0_15_PAD_CFG 0 4 0 s
         else if gpio = 1 then rts_gpio_set_field P GPIO_0_15_PAD_CFG 0 4 4 s
         else if gpio = 8 then rts_gpio_set_field P GPIO_0_15_PAD_CFG 0 4 8 s
         else s
     | GPIO_TYPE_UART0 \<Rightarrow> rts_gpio_set_field P cfg 1 4 ((3 - bf) * 4) s
     | GPIO_TYPE_UART1 \<Rightarrow> rts_gpio_set_field P cfg 1 4 ((3 - bf) * 4) s
     | GPIO_TYPE_UART2 \<Rightarrow> rts_gpio_set_field P cfg 1 4 ((3 - bf) * 4) s
     | GPIO_TYPE_PWM \<Rightarrow> rts_gpio_set_field P cfg 1 4 (bf * 4) s
     | GPIO_TYPE_I2C \<Rightarrow> rts_gpio_set_field P cfg 1 4 (bf * 4) s
     | GPIO_TYPE_I2S \<Rightarrow> rts_gpio_set_field P cfg 1 4 (bf * 4) s
     | GPIO_TYPE_USB3 \<Rightarrow> rts_gpio_set_field P cfg 1 4 (bf * 4) s
     | GPIO_TYPE_SDIO0 \<Rightarrow> rts_gpio_set_field P cfg 1 2 (if gpio = 38 \<or> gpio = 46 then 4 else if gpio = 39 \<or> gpio = 47 then 2 else 0) s
     | GPIO_TYPE_SDIO1 \<Rightarrow> rts_gpio_set_field P cfg 1 2 (if gpio = 38 \<or> gpio = 46 then 4 else if gpio = 39 \<or> gpio = 47 then 2 else 0) s
     | GPIO_TYPE_SARADC \<Rightarrow> rts_gpio_set_field P cfg 2 4 (bf * 4) s
     | GPIO_TYPE_USBD \<Rightarrow> rts_gpio_set_field P cfg 2 4 (bf * 4) s
     | GPIO_TYPE_USBH \<Rightarrow> rts_gpio_set_field P cfg 2 4 (bf * 4) s
     | GPIO_TYPE_SSOR \<Rightarrow>
         let b1 = (if bf \<ge> 11 then 11 else bf) div 2; b2 = (if b1 \<ge> 3 then b1 + 1 else b1)
         in rts_gpio_set_field P cfg 1 4 (b2 * 4) s
     | GPIO_TYPE_DMIC \<Rightarrow> rts_gpio_set_field P cfg 1 4 (bf div 2 * 4) s
     | GPIO_TYPE_ADDA \<Rightarrow> rts_gpio_set_field P cfg 2 4 (bf div 2 * 4) s
     | GPIO_TYPE_SSORI2C \<Rightarrow> rts_gpio_set_field P cfg 1 2 0 s
     | GPIO_TYPE_SPI \<Rightarrow> rts_gpio_set_field P cfg 1 2 0 s) s"

text \<open>Three blocks read as 0 while they drive a pin, so their values are kept in the driver.\<close>

definition shadow :: "sharepin_cfg_addr \<Rightarrow> 'b rts_pinctrl \<Rightarrow> u8 option" where
  "shadow sc s =
     (if pinl sc = 65 then Some (audio_adda_gpio_value s)
      else if pinl sc = 78 then Some (usb0_gpio_value s)
      else if pinl sc = 80 then Some (usb1_gpio_value s) else None)"

definition rts_gpio_get :: "'b pad_port \<Rightarrow> int \<Rightarrow> 'b rts_pinctrl \<Rightarrow> u32 option" where
  "rts_gpio_get P gpio s = (case rts_get_pinaddr gpio of
     None \<Rightarrow> None
   | Some sc \<Rightarrow>
       let bf = nat (gpio - pinl sc) in
       Some (case shadow sc s of
         Some v \<Rightarrow> if rts_gpio_get_field P (pinaddr sc + pr_gpio_oe) 1 bf s \<noteq> 0 then ucast (drop_bit bf v AND 1)
                   else rts_gpio_get_field P (pinaddr sc + pr_gpio_value) 1 bf s
       | None \<Rightarrow> rts_gpio_get_field P (pinaddr sc + pr_gpio_value) 1 bf s))"

definition new_shadow :: "nat \<Rightarrow> bool \<Rightarrow> u8 \<Rightarrow> u8" where
  "new_shadow bf high v = (if high then v OR push_bit bf 1 else v AND NOT (push_bit bf 1))"

definition rts_gpio_set :: "'b pad_port \<Rightarrow> int \<Rightarrow> bool \<Rightarrow> 'b rts_pinctrl \<Rightarrow> 'b rts_pinctrl" where
  "rts_gpio_set P gpio high = with_block gpio (\<lambda>sc bf s.
     let reg = pinaddr sc + pr_gpio_value in
     if pinl sc = 65 then
       let v = new_shadow bf high (audio_adda_gpio_value s) in rts_writel P (ucast v) reg (s\<lparr>audio_adda_gpio_value := v\<rparr>)
     else if pinl sc = 78 then
       let v = new_shadow bf high (usb0_gpio_value s) in rts_writel P (ucast v) reg (s\<lparr>usb0_gpio_value := v\<rparr>)
     else if pinl sc = 80 then
       let v = new_shadow bf high (usb1_gpio_value s) in rts_writel P (ucast v) reg (s\<lparr>usb1_gpio_value := v\<rparr>)
     else if high then rts_set_reg_bit P bf reg s else rts_clr_reg_bit P bf reg s)"

section \<open>Groups and functions\<close>

definition rts_rtspctl_get_groups_count :: "'b rts_pinctrl \<Rightarrow> nat" where
  "rts_rtspctl_get_groups_count s = length rts_pin_groups"

definition rts_rtspctl_get_group_name :: "'b rts_pinctrl \<Rightarrow> nat \<Rightarrow> string option" where
  "rts_rtspctl_get_group_name s i = Some (grp_name (rts_pin_groups ! i))"

definition rts_rtspctl_get_group_pins :: "'b rts_pinctrl \<Rightarrow> nat \<Rightarrow> int \<times> int list" where
  "rts_rtspctl_get_group_pins s i = (0, grp_pins (rts_pin_groups ! i))"

definition rts_rtspctl_ops :: "'b rts_pinctrl pinctrl_ops" where
  "rts_rtspctl_ops = \<lparr>get_groups_count = rts_rtspctl_get_groups_count, get_group_name = rts_rtspctl_get_group_name,
     get_group_pins = Some rts_rtspctl_get_group_pins\<rparr>"

definition rts_pmx_get_functions_count :: "'b rts_pinctrl \<Rightarrow> nat" where
  "rts_pmx_get_functions_count s = length rts_functions"

definition rts_pmx_get_function_name :: "'b rts_pinctrl \<Rightarrow> nat \<Rightarrow> string option" where
  "rts_pmx_get_function_name s i = Some (fn_name (rts_functions ! i))"

definition rts_pmx_get_function_groups :: "'b rts_pinctrl \<Rightarrow> nat \<Rightarrow> int \<times> string list" where
  "rts_pmx_get_function_groups s i = (0, fn_groups (rts_functions ! i))"

text \<open>The pad fields that a function of a group sets, in order: register, value, width, position.\<close>

definition mux_fields :: "nat \<Rightarrow> nat \<Rightarrow> (nat \<times> u32 \<times> nat \<times> nat) list" where
  "mux_fields fn grp = (
     if fn = H265_UART_FUNC_SELECT then
       (if grp = H265_UART_GROUP_SELECT then [(GPIO_0_15_PAD_CFG, 2, 4, 0), (GPIO_0_15_PAD_CFG, 2, 4, 4)]
        else [])
     else if fn = I2C_FUNC_SELECT then
       (if grp = I2C0_GROUP_SELECT then [(XB2_I2C_PAD_CFG, 2, 2, 0), (XB2_I2C_PAD_CFG, 2, 2, 4)]
        else if grp = I2CPWM_GROUP_SELECT then [(PWM_PAD_CFG, 8, 4, 0), (PWM_PAD_CFG, 8, 4, 4)]
        else if grp = I2C1_GROUP_SELECT then [(SSOR_I2C_PAD_CFG, 2, 2, 0)]
        else [])
     else if fn = PWM_FUNC_SELECT then
       (if grp = PWM0_GROUP_SELECT then [(PWM_PAD_CFG, 2, 4, 0)]
        else if grp = PWM1_GROUP_SELECT then [(PWM_PAD_CFG, 2, 4, 4)]
        else if grp = PWM2_GROUP_SELECT then [(PWM_PAD_CFG, 2, 4, 8)]
        else if grp = PWM3_GROUP_SELECT then [(PWM_PAD_CFG, 2, 4, 12)]
        else if grp = PWMSD_GROUP_SELECT then [(SD1_PAD_CFG, 4, 4, 0)]
        else [])
     else if fn = UART_FUNC_SELECT then
       (if grp = UART0_GROUP_SELECT then [(UART0_PAD_CFG, 2, 4, 0), (UART0_PAD_CFG, 2, 4, 4), (UART0_PAD_CFG, 2, 4, 8), (UART0_PAD_CFG, 2, 4, 12)]
        else if grp = UART1_GROUP_SELECT then [(UART1_PAD_CFG, 2, 4, 8), (UART1_PAD_CFG, 2, 4, 12)]
        else if grp = UART2_GROUP_SELECT then [(UART2_PAD_CFG, 2, 4, 0), (UART2_PAD_CFG, 2, 4, 4), (UART2_PAD_CFG, 2, 4, 8), (UART2_PAD_CFG, 2, 4, 12)]
        else if grp = UART2_USB_GROUP_SELECT then [(USB1_PAD_CFG, 4, 4, 0), (USB1_PAD_CFG, 4, 4, 4)]
        else [])
     else if fn = AUDIO_FUNC_SELECT then
       (if grp = AMIC_GROUP_SELECT then [(AUDIO_ADDA_PAD_CFG, 1, 3, 4)]
        else []) @ (if grp = DMIC_GROUP_SELECT then [(AUDIO_ADDA_PAD_CFG, 4, 3, 4)]
        else if grp = LINEOUT_GROUP_SELECT then [(AUDIO_ADDA_PAD_CFG, 1, 2, 0)]
        else if grp = DMIC1_GROUP_SELECT then [(DMIC_PAD_CFG, 2, 2, 0)]
        else if grp = DMIC2_GROUP_SELECT then [(DMIC_PAD_CFG, 2, 2, 4)]
        else if grp = I2S_GROUP_SELECT then [(I2S_PAD_CFG, 2, 4, 0), (I2S_PAD_CFG, 2, 4, 4), (I2S_PAD_CFG, 2, 4, 8), (I2S_PAD_CFG, 2, 4, 12), (I2S_PAD_CFG, 2, 4, 16)]
        else if grp = PDM_GROUP_SELECT then [(I2S_PAD_CFG, 4, 4, 4), (I2S_PAD_CFG, 4, 4, 16)]
        else if grp = SPDIF_OUT_GROUP_SELECT then [(I2S_PAD_CFG, 4, 4, 0)]
        else if grp = I2SXB2_GROUP_SELECT then [(PWM_PAD_CFG, 8, 4, 12), (UART0_PAD_CFG, 8, 4, 0), (UART0_PAD_CFG, 8, 4, 4), (UART0_PAD_CFG, 8, 4, 8), (UART0_PAD_CFG, 8, 4, 12)]
        else if grp = I2SDVP_GROUP_SELECT then [(VIDEO_PAD_CFG, 8, 4, 0), (VIDEO_PAD_CFG, 8, 4, 24), (GPIO_0_15_PAD_CFG, 2, 4, 8)]
        else [])
     else if fn = USBD_FUNC_SELECT then
       [(USB1_PAD_CFG, 1, 3, 4), (USB1_PAD_CFG, 1, 3, 0), (USB2_PAD_CFG, 2, 2, 8)]
     else if fn = ETNLED_FUNC_SELECT then
       (if grp = ETNLED0_GROUP_SELECT then [(PWM_PAD_CFG, 4, 4, 0)]
        else if grp = ETNLED1_GROUP_SELECT then [(PWM_PAD_CFG, 4, 4, 4)]
        else if grp = ETNLED2_GROUP_SELECT then [(PWM_PAD_CFG, 4, 3, 8)]
        else [])
     else if fn = USBHST_FUNC_SELECT then
       [(USB0_PAD_CFG, 1, 2, 4), (USB0_PAD_CFG, 1, 2, 0), (USB2_PAD_CFG, 2, 2, 4), (USB2_PAD_CFG, 2, 2, 0)]
     else if fn = SARADC_FUNC_SELECT then
       (if grp = SARADC0_GROUP_SELECT then [(SARADC_PAD_CFG, 1, 2, 0)]
        else if grp = SARADC1_GROUP_SELECT then [(SARADC_PAD_CFG, 1, 2, 4)]
        else if grp = SARADC2_GROUP_SELECT then [(SARADC_PAD_CFG, 1, 2, 8)]
        else [(SARADC_PAD_CFG, 1, 2, 12)])
     else if fn = SSOR_FUNC_SELECT then
       (if grp = MIPI_GROUP_SELECT then [(VIDEO_PAD_CFG, 4, 4, 4), (VIDEO_PAD_CFG, 4, 4, 8), (VIDEO_PAD_CFG, 4, 4, 12), (VIDEO_PAD_CFG, 4, 4, 16), (VIDEO_PAD_CFG, 4, 4, 20)]
        else if grp = DVP_GROUP_SELECT then [(VIDEO_PAD_CFG, 2, 4, 0), (VIDEO_PAD_CFG, 2, 4, 4), (VIDEO_PAD_CFG, 2, 4, 8), (VIDEO_PAD_CFG, 2, 4, 12), (VIDEO_PAD_CFG, 2, 4, 16), (VIDEO_PAD_CFG, 2, 4, 20), (VIDEO_PAD_CFG, 2, 4, 24), (VIDEO_PAD_CFG, 2, 4, 28), (PAD_V18_EN, 0, 2, 0)]
        else [])
     else if fn = SSI_FUNC_SELECT then
       [(UART0_PAD_CFG, 4, 3, 0), (UART0_PAD_CFG, 4, 3, 4), (UART0_PAD_CFG, 4, 3, 8), (UART0_PAD_CFG, 4, 3, 12)]
     else if fn = SDIO0_FUNC_SELECT then
       [(SD0_PAD_CFG, 2, 2, 0)] @ (if grp = SDIO0WP_GROUP_SELECT then [(SD0_PAD_CFG, 2, 2, 4)]
        else if grp = SDIO0CD_GROUP_SELECT then [(SD0_PAD_CFG, 2, 2, 2)]
        else [])
     else if fn = SDIO1_FUNC_SELECT then
       (if grp = SDIO1_GROUP_SELECT then [(SD1_PAD_CFG, 2, 4, 0), (SD1_PAD_CFG, 0, 1, 12)]
        else if grp = SDIO1WP_GROUP_SELECT then [(SD1_PAD_CFG, 2, 4, 8)]
        else if grp = SDIO1CD_GROUP_SELECT then [(SD1_PAD_CFG, 2, 4, 4)]
        else if grp = SDIO1VIDEO_GROUP_SELECT then [(GPIO_0_15_PAD_CFG, 4, 4, 8), (SD1_PAD_CFG, 1, 1, 12), (VIDEO_PAD_CFG, 4, 4, 0), (VIDEO_PAD_CFG, 4, 4, 24), (VIDEO_PAD_CFG, 4, 4, 28), (PAD_V18_EN, 3, 2, 0)]
        else [])
     else if fn = SPI_FUNC_SELECT then
       [(SPI_PAD_CFG, 2, 4, 0)]
     else [])"

definition set_fields :: "'b pad_port \<Rightarrow> (nat \<times> u32 \<times> nat \<times> nat) list \<Rightarrow> 'b rts_pinctrl \<Rightarrow> 'b rts_pinctrl" where
  "set_fields P fs s = fold (\<lambda>(a, v, w, i). rts_gpio_set_field P a v w i) fs s"

definition rts_pmx_enable :: "'b pad_port \<Rightarrow> nat \<Rightarrow> nat \<Rightarrow> 'b rts_pinctrl \<Rightarrow> int \<times> 'b rts_pinctrl" where
  "rts_pmx_enable P fn grp s = (0, set_fields P (mux_fields fn grp) s)"

section \<open>Pin configuration\<close>

definition rts_gpio_config_set :: "'b pad_port \<Rightarrow> int \<Rightarrow> rts_config \<Rightarrow> u32 \<Rightarrow> 'b rts_pinctrl \<Rightarrow> int \<times> 'b rts_pinctrl" where
  "rts_gpio_config_set P pin config value s =
     (if config = RTS_PINCONFIG_OTHER \<and> rts_get_pinaddr pin \<noteq> None then (- EINVAL, s)
      else (0, with_block pin (\<lambda>sc bf s. case config of
          RTS_PINCONFIG_PULL_NONE \<Rightarrow> rts_gpio_set_field P (pinaddr sc + pr_pullctrl) 0 2 (bf * 2) s
        | RTS_PINCONFIG_PULL_DOWN \<Rightarrow> rts_gpio_set_field P (pinaddr sc + pr_pullctrl) 1 2 (bf * 2) s
        | RTS_PINCONFIG_PULL_UP \<Rightarrow> rts_gpio_set_field P (pinaddr sc + pr_pullctrl) 2 2 (bf * 2) s
        | RTS_PIN_CONFIG_DRIVE_STRENGTH \<Rightarrow> rts_gpio_set_field P (pinaddr sc + pr_drv_sel) (drop_bit 2 value - 1) 1 bf s
        | RTS_PIN_CONFIG_SLEW_RATE \<Rightarrow> rts_gpio_set_field P (pinaddr sc + pr_sr_ctrl) value 1 bf s
        | RTS_PINCONFIG_INPUT \<Rightarrow> if pin < RTS_MAX_NGPIO then rts_gpio_set_field P (pinaddr sc + pr_gpio_oe) 0 1 bf s else s
        | RTS_PINCONFIG_OUTPUT \<Rightarrow> if pin < RTS_MAX_NGPIO then rts_gpio_set_field P (pinaddr sc + pr_gpio_oe) 1 1 bf s else s
        | RTS_PINCONFIG_OTHER \<Rightarrow> s) s))"

definition rts_pmx_gpio_set_direction :: "'b pad_port \<Rightarrow> string \<Rightarrow> int \<Rightarrow> bool \<Rightarrow> 'b rts_pinctrl \<Rightarrow> int \<times> 'b rts_pinctrl" where
  "rts_pmx_gpio_set_direction P rng offset input s =
     (0, snd (rts_gpio_config_set P offset (if input then RTS_PINCONFIG_INPUT else RTS_PINCONFIG_OUTPUT) 0 s))"

definition rts_pin_config_set :: "'b pad_port \<Rightarrow> int \<Rightarrow> u32 \<Rightarrow> 'b rts_pinctrl \<Rightarrow> int \<times> 'b rts_pinctrl" where
  "rts_pin_config_set P pin param s = rts_gpio_config_set P pin (fst (conf_of P param)) (snd (conf_of P param)) s"

definition rts_pinconf_get :: "int \<Rightarrow> int" where
  "rts_pinconf_get pin = - ENOTSUPP"

fun rts_pinconf_set :: "'b pad_port \<Rightarrow> int \<Rightarrow> u32 list \<Rightarrow> 'b rts_pinctrl \<Rightarrow> int \<times> 'b rts_pinctrl" where
  "rts_pinconf_set P pin [] s = (0, s)"
| "rts_pinconf_set P pin (c # cs) s = (case rts_pin_config_set P pin c s of
     (ret, s1) \<Rightarrow> if ret \<noteq> 0 then (ret, s1) else rts_pinconf_set P pin cs s1)"

definition rts_pinconf_group_set :: "'b pad_port \<Rightarrow> nat \<Rightarrow> u32 list \<Rightarrow> 'b rts_pinctrl \<Rightarrow> int \<times> 'b rts_pinctrl" where
  "rts_pinconf_group_set P grp configs s =
     (0, fold (\<lambda>p t. snd (rts_pinconf_set P p configs t)) (grp_pins (rts_pin_groups ! grp)) s)"

section \<open>Pins in use\<close>

definition mask_word :: "int \<Rightarrow> nat" where
  "mask_word offset = (if offset > 63 then 1 else 0)"

definition mask_bit :: "int \<Rightarrow> u64" where
  "mask_bit offset = push_bit (nat (if offset > 63 then offset - 64 else offset)) 1"

definition rts_pmx_request :: "int \<Rightarrow> 'b rts_pinctrl \<Rightarrow> int \<times> 'b rts_pinctrl" where
  "rts_pmx_request offset s =
     (if offset < 0 \<or> 119 < offset then (- EINVAL, s)
      else if pinsmask s (mask_word offset) AND mask_bit offset \<noteq> 0 then (- EBUSY, s)
      else (0, s\<lparr>pinsmask := (pinsmask s)(mask_word offset := pinsmask s (mask_word offset) OR mask_bit offset)\<rparr>))"

definition rts_pmx_free :: "int \<Rightarrow> 'b rts_pinctrl \<Rightarrow> int \<times> 'b rts_pinctrl" where
  "rts_pmx_free offset s =
     (if offset < 0 \<or> 119 < offset then (- EINVAL, s)
      else if pinsmask s (mask_word offset) AND mask_bit offset \<noteq> 0
      then (0, s\<lparr>pinsmask := (pinsmask s)(mask_word offset := pinsmask s (mask_word offset) AND NOT (mask_bit offset))\<rparr>)
      else (- EINVAL, s))"

definition rts_pmx_ops :: "'b pad_port \<Rightarrow> 'b rts_pinctrl pinmux_ops" where
  "rts_pmx_ops P = \<lparr>pm_request = Some rts_pmx_request, pm_free = Some (\<lambda>p s. snd (rts_pmx_free p s)),
     get_functions_count = Some rts_pmx_get_functions_count, get_function_name = Some rts_pmx_get_function_name,
     get_function_groups = Some rts_pmx_get_function_groups, set_mux = Some (rts_pmx_enable P),
     gpio_request_enable = None, gpio_disable_free = None, gpio_set_direction = Some (rts_pmx_gpio_set_direction P),
     strict = False\<rparr>"

definition rts_pinctrl_desc :: "'b pad_port \<Rightarrow> 'b rts_pinctrl pinctrl_desc" where
  "rts_pinctrl_desc P = \<lparr>pcd_name = Some ''pinctrl-rts'', pcd_pins = map (\<lambda>(n, nm). \<lparr>pin_number = n, pin_name = Some nm\<rparr>) rts_gpio_pins,
     pctlops = Some rts_rtspctl_ops, pmxops = Some (rts_pmx_ops P), confops = True, link_consumers = False\<rparr>"

section \<open>GPIO interrupts\<close>

text \<open>The bits for falling edges come first, the bits for rising edges start at the block width.\<close>

definition block_width :: "sharepin_cfg_addr \<Rightarrow> nat" where
  "block_width sc = (let bs = pinh sc - pinl sc + 1 in if bs > 8 then 16 else if bs > 4 then 8 else 4)"

definition with_irq_lock :: "('b rts_pinctrl \<Rightarrow> 'b rts_pinctrl) \<Rightarrow> 'b rts_pinctrl \<Rightarrow> 'b rts_pinctrl option" where
  "with_irq_lock f s = (if irq_locked s then None else Some ((f (s\<lparr>irq_locked := True\<rparr>))\<lparr>irq_locked := False\<rparr>))"

definition rts_gpio_irq_enable :: "'b pad_port \<Rightarrow> nat \<Rightarrow> 'b rts_pinctrl \<Rightarrow> 'b rts_pinctrl option" where
  "rts_gpio_irq_enable P gpio s = (case rts_get_pinaddr (int gpio) of
     None \<Rightarrow> Some (s\<lparr>rts_fault := True\<rparr>)
   | Some sc \<Rightarrow>
       let bf = nat (int gpio - pinl sc); bs = block_width sc; reg = pinaddr sc + pr_gpio_int_en in
       with_irq_lock (\<lambda>s.
         if int gpio < RTS_MAX_NGPIO then
           let t = irq_flow_type s gpio;
               s1 = (if t = IRQ_TYPE_EDGE_RISING \<or> t = IRQ_TYPE_EDGE_BOTH then rts_set_reg_bit P (bf + bs) reg s else s)
           in if t = IRQ_TYPE_EDGE_FALLING \<or> t = IRQ_TYPE_EDGE_BOTH then rts_set_reg_bit P bf reg s1 else s1
         else s) s)"

definition rts_gpio_irq_disable :: "'b pad_port \<Rightarrow> nat \<Rightarrow> 'b rts_pinctrl \<Rightarrow> 'b rts_pinctrl option" where
  "rts_gpio_irq_disable P gpio s = (case rts_get_pinaddr (int gpio) of
     None \<Rightarrow> Some (s\<lparr>rts_fault := True\<rparr>)
   | Some sc \<Rightarrow>
       let bs = block_width sc; reg = pinaddr sc + pr_gpio_int_en in
       with_irq_lock (\<lambda>s.
         if int gpio < RTS_MAX_NGPIO then rts_clr_reg_bit P (gpio + bs) reg (rts_clr_reg_bit P gpio reg s)
         else s) s)"

definition rts_gpio_irq_set_type :: "nat \<Rightarrow> irq_flow \<Rightarrow> 'b rts_pinctrl \<Rightarrow> int \<times> 'b rts_pinctrl" where
  "rts_gpio_irq_set_type gpio t s =
     (if t = IRQ_TYPE_LEVEL then (- EINVAL, s) else (0, s\<lparr>irq_flow_type := (irq_flow_type s)(gpio := t)\<rparr>))"

definition rts_gpio_irq_set_wake :: "'b pad_port \<Rightarrow> nat \<Rightarrow> bool \<Rightarrow> 'b rts_pinctrl \<Rightarrow> (int \<times> 'b rts_pinctrl) option" where
  "rts_gpio_irq_set_wake P gpio on s =
     (if irq_locked s then None
      else case (if on then rts_gpio_irq_enable P gpio (s\<lparr>irq_locked := True\<rparr>)
                 else rts_gpio_irq_disable P gpio (s\<lparr>irq_locked := True\<rparr>)) of
        None \<Rightarrow> None
      | Some s1 \<Rightarrow> Some (0, s1\<lparr>irq_locked := False\<rparr>))"

text \<open>Per block the pending interrupts are acknowledged, then those that are enabled are dispatched.
  \<open>revmap\<close> is the interrupt number of a GPIO (0 if there is none), \<open>handle\<close> the handler installed for
  a number; the result lists the GPIOs whose handlers ran.\<close>

definition block_mask :: "sharepin_cfg_addr \<Rightarrow> u32" where
  "block_mask sc = (let m = mask (nat (pinh sc - pinl sc + 1)) in push_bit (block_width sc) m OR m)"

definition block_offsets :: "'b pad_port \<Rightarrow> sharepin_cfg_addr \<Rightarrow> 'b rts_pinctrl \<Rightarrow> nat list" where
  "block_offsets P sc s = filter (bit (pad_rd P (pinaddr sc + pr_gpio_int) (pads s) AND block_mask sc AND
      (pad_rd P (pinaddr sc + pr_gpio_int_en) (pads s) AND block_mask sc))) [0..<32]"

definition block_ack :: "'b pad_port \<Rightarrow> sharepin_cfg_addr \<Rightarrow> 'b rts_pinctrl \<Rightarrow> 'b rts_pinctrl" where
  "block_ack P sc s = rts_writel P (pad_rd P (pinaddr sc + pr_gpio_int) (pads s) AND block_mask sc) (pinaddr sc + pr_gpio_int) s"

definition offset_gpio :: "sharepin_cfg_addr \<Rightarrow> nat \<Rightarrow> nat" where
  "offset_gpio sc i = nat (pinl sc) + (if i \<ge> block_width sc then i - block_width sc else i)"

fun dispatch ::
    "(nat \<Rightarrow> nat) \<Rightarrow> (nat \<Rightarrow> 'b rts_pinctrl \<Rightarrow> 'b rts_pinctrl) \<Rightarrow> nat list \<Rightarrow> 'b rts_pinctrl \<Rightarrow> nat list \<times> 'b rts_pinctrl" where
  "dispatch revmap handle [] s = ([], s)"
| "dispatch revmap handle (g # gs) s =
     (if revmap g = 0 then dispatch revmap handle gs s
      else case dispatch revmap handle gs (handle (revmap g) s) of (tr, s1) \<Rightarrow> (g # tr, s1))"

fun irq_blocks ::
    "'b pad_port \<Rightarrow> (nat \<Rightarrow> nat) \<Rightarrow> (nat \<Rightarrow> 'b rts_pinctrl \<Rightarrow> 'b rts_pinctrl) \<Rightarrow> sharepin_cfg_addr list \<Rightarrow> 'b rts_pinctrl \<Rightarrow>
     nat list \<times> 'b rts_pinctrl" where
  "irq_blocks P revmap handle [] s = ([], s)"
| "irq_blocks P revmap handle (sc # scs) s =
     (case dispatch revmap handle (map (offset_gpio sc) (block_offsets P sc s)) (block_ack P sc s) of
        (tr, s1) \<Rightarrow> case irq_blocks P revmap handle scs s1 of (tr', s2) \<Rightarrow> (tr @ tr', s2))"

definition rts_irq_handler ::
    "'b pad_port \<Rightarrow> (nat \<Rightarrow> nat) \<Rightarrow> (nat \<Rightarrow> 'b rts_pinctrl \<Rightarrow> 'b rts_pinctrl) \<Rightarrow> 'b rts_pinctrl \<Rightarrow> bool \<times> nat list \<times> 'b rts_pinctrl" where
  "rts_irq_handler P revmap handle s = (case irq_blocks P revmap handle pincfgaddr s of (tr, s1) \<Rightarrow> (tr \<noteq> [], tr, s1))"

section \<open>The GPIO chip\<close>

text \<open>The driver data of controller \<open>c\<close> is its hardware state in the pin control core; the first GPIO
  number of the chip is 0.\<close>

definition chip_base :: nat where "chip_base = 0"

definition rts_at :: "nat \<Rightarrow> 'b rts_pinctrl pinctrl_world \<Rightarrow> 'b rts_pinctrl" where
  "rts_at c w = pc_hw (pctl (ctl_at w c))"

definition on_rts :: "nat \<Rightarrow> ('b rts_pinctrl \<Rightarrow> 'b rts_pinctrl) \<Rightarrow> 'b rts_pinctrl pinctrl_world \<Rightarrow> 'b rts_pinctrl pinctrl_world" where
  "on_rts c f w = upd_ctl c (\<lambda>k. k\<lparr>pctl := (pctl k)\<lparr>pc_hw := f (pc_hw (pctl k))\<rparr>\<rparr>) w"

definition rts_gpio_request ::
    "'b pad_port \<Rightarrow> 'b rts_pinctrl pinctrl_env \<Rightarrow> nat \<Rightarrow> nat \<Rightarrow> 'b rts_pinctrl pinctrl_world \<Rightarrow> int \<times> 'b rts_pinctrl pinctrl_world" where
  "rts_gpio_request P e c offset w = (case pinctrl_gpio_request e (of_nat (chip_base + offset)) w of
     (res, w1) \<Rightarrow> (res, if res = 0 then on_rts c (rts_gpio_enable P (int (chip_base + offset))) w1 else w1))"

definition rts_gpio_free :: "nat \<Rightarrow> 'b rts_pinctrl pinctrl_world \<Rightarrow> 'b rts_pinctrl pinctrl_world" where
  "rts_gpio_free offset w = pinctrl_gpio_free (of_nat (chip_base + offset)) w"

definition rts_gpio_direction_input :: "nat \<Rightarrow> 'b rts_pinctrl pinctrl_world \<Rightarrow> int \<times> 'b rts_pinctrl pinctrl_world" where
  "rts_gpio_direction_input offset w = pinctrl_gpio_direction_input (of_nat (chip_base + offset)) w"

definition rts_gpio_direction_output ::
    "'b pad_port \<Rightarrow> nat \<Rightarrow> nat \<Rightarrow> bool \<Rightarrow> 'b rts_pinctrl pinctrl_world \<Rightarrow> int \<times> 'b rts_pinctrl pinctrl_world" where
  "rts_gpio_direction_output P c offset high w =
     pinctrl_gpio_direction_output (of_nat (chip_base + offset)) (on_rts c (rts_gpio_set P (int (chip_base + offset)) high) w)"

definition rts_gpio_to_irq :: "(nat \<Rightarrow> nat) \<Rightarrow> nat \<Rightarrow> nat" where
  "rts_gpio_to_irq revmap offset = revmap offset"

section \<open>Probe and remove\<close>

text \<open>What the platform gives, and what the driver holds.  \<open>pinctrl_ret\<close> is the result of
  \<open>pinctrl_register\<close>, \<open>None\<close> the null pointer.\<close>

record rts_platform =
  alloc_rtspc :: bool
  gpio_numbers_prop :: "u32 option"
  alloc_irq_type :: bool
  mem_resource :: bool
  remap_ret :: int
  led_mapping :: "(u32 \<times> u32 \<times> u32 \<times> u32) option"
  get_irq_ret :: int
  domain_ok :: bool
  request_irq_ret :: int
  gpiochip_ret :: int
  pinctrl_ret :: "nat err_ptr option"
  pin_range_ret :: int

record rts_held =
  has_rtspc :: bool
  has_irq_type :: bool
  has_map :: bool
  has_irq :: bool
  has_gpiochip :: bool
  has_pinctrl :: "nat err_ptr option"

definition nothing_held :: rts_held where
  "nothing_held = \<lparr>has_rtspc = False, has_irq_type = False, has_map = False, has_irq = False, has_gpiochip = False, has_pinctrl = None\<rparr>"

definition led_map :: "u32 \<times> u32 \<times> u32 \<times> u32 \<Rightarrow> u32" where
  "led_map m = (case m of (m0, m1, m2, m3) \<Rightarrow> m0 OR push_bit 2 m1 OR push_bit 4 m2 OR push_bit 6 m3)"

definition free_rtspc :: "rts_held \<Rightarrow> rts_held" where
  "free_rtspc r = r\<lparr>has_rtspc := False\<rparr>"

definition free_irqtype :: "rts_held \<Rightarrow> rts_held" where
  "free_irqtype r = free_rtspc (r\<lparr>has_irq_type := False\<rparr>)"

definition unmap_res :: "rts_held \<Rightarrow> rts_held" where
  "unmap_res r = free_irqtype (r\<lparr>has_map := False\<rparr>)"

definition remove_gpiochip :: "rts_held \<Rightarrow> rts_held" where
  "remove_gpiochip r = unmap_res (r\<lparr>has_gpiochip := False\<rparr>)"

text \<open>The number of GPIOs that get an interrupt, and whether the hardware register is written.\<close>

definition probe_ngpio :: "rts_platform \<Rightarrow> u32" where
  "probe_ngpio pf = (case gpio_numbers_prop pf of None \<Rightarrow> 89 | Some n \<Rightarrow> if n > 89 then 89 else n)"

definition rts_pinctrl_probe :: "'b pad_port \<Rightarrow> rts_platform \<Rightarrow> 'b \<Rightarrow> int \<times> rts_held \<times> 'b" where
  "rts_pinctrl_probe P pf h =
     (let r1 = nothing_held\<lparr>has_rtspc := True\<rparr>; r2 = r1\<lparr>has_irq_type := True\<rparr>; r3 = r2\<lparr>has_map := True\<rparr>;
          h1 = (case led_mapping pf of None \<Rightarrow> h | Some m \<Rightarrow> pad_wr P PWM_LED_SEL (led_map m) h);
          r4 = r3\<lparr>has_irq := True\<rparr>; r5 = r4\<lparr>has_gpiochip := True\<rparr>; r6 = r5\<lparr>has_pinctrl := pinctrl_ret pf\<rparr>
      in if \<not> alloc_rtspc pf then (- ENOMEM, nothing_held, h)
         else if \<not> alloc_irq_type pf then (- ENOMEM, free_rtspc r1, h)
         else if \<not> mem_resource pf then (- ENOENT, free_irqtype r2, h)
         else if remap_ret pf < 0 then (remap_ret pf, free_irqtype r2, h)
         else if get_irq_ret pf < 0 then (get_irq_ret pf, unmap_res r3, h1)
         else if \<not> domain_ok pf then (- ENOMEM, unmap_res r3, h1)
         else if request_irq_ret pf \<noteq> 0 then (request_irq_ret pf, unmap_res r3, h1)
         else if gpiochip_ret pf \<noteq> 0 then (gpiochip_ret pf, unmap_res r4, h1)
         else if pinctrl_ret pf = None then (0, remove_gpiochip r5, h1)
         else if pin_range_ret pf \<noteq> 0 then (pin_range_ret pf, remove_gpiochip r6, h1)
         else (0, r6, h1))"

definition rts_pinctrl_remove :: "rts_held \<Rightarrow> rts_held" where
  "rts_pinctrl_remove r = remove_gpiochip (r\<lparr>has_irq := False, has_pinctrl := None\<rparr>)"

end
