(* ===== verification/Pinctrl_Rts_Results.thy ===== *)
theory Pinctrl_Rts_Results
  imports Pinctrl_Rts
begin

text \<open>
  The properties of the Realtek pin controller.  The hardware is assumed to keep what is written to
  its registers (\<open>pads_ok\<close>), except the value registers of the three blocks that the driver shadows.
\<close>

section \<open>Bits of fields\<close>

lemma bit_SETFIELD:
  "bit (RTS_SETFIELD r f w i) n \<longleftrightarrow> (if i \<le> n \<and> n < i + w \<and> n < 32 then bit f (n - i) else bit r n)"
proof -
  have m: "push_bit w 1 - 1 = (mask w :: u32)" by (simp add: mask_eq_exp_minus_1 push_bit_of_1)
  show ?thesis
    unfolding RTS_SETFIELD_def m
    by (auto simp: bit_or_iff bit_and_iff bit_not_iff bit_push_bit_iff bit_mask_iff not_le dest: bit_imp_le_length)
qed

lemma bit_GETFIELD: "bit (RTS_GETFIELD r w i) n \<longleftrightarrow> n < w \<and> bit r (i + n)"
proof -
  have m: "push_bit w 1 - 1 = (mask w :: u32)" by (simp add: mask_eq_exp_minus_1 push_bit_of_1)
  show ?thesis unfolding RTS_GETFIELD_def m
    by (auto simp: bit_and_iff bit_drop_bit_eq bit_mask_iff dest: bit_imp_le_length)
qed

lemma GETFIELD_1: "RTS_GETFIELD r (Suc 0) i = (if bit r i then 1 else 0)"
  by (rule bit_eqI) (auto simp: bit_GETFIELD bit_1_iff)

section \<open>A driver invariant over all calls of the pin control core\<close>

text \<open>What a driver owes to the core for an invariant of pins and hardware: every callback keeps it.\<close>

locale pin_driver_inv =
  fixes o1 :: "'h pinmux_ops" and p1 :: "'h pinctrl_ops" and inv :: "'h pinctrl_dev \<Rightarrow> bool"
  assumes request: "inv s \<Longrightarrow> pin_room (strict o1) (Suc n) s \<Longrightarrow> pin_request o1 p own gr s = (r, s') \<Longrightarrow> inv s'"
    and free: "inv s \<Longrightarrow> inv (snd (pin_free o1 p None s))"
    and free_gpio: "inv s \<Longrightarrow> pin_desc_tree s p = Some d \<Longrightarrow> gpio_owner d \<noteq> None \<Longrightarrow> inv (snd (pin_free o1 p (Some rng) s))"
    and mark: "inv s \<Longrightarrow> inv (mark_pin m p s)"
    and muxed: "inv s \<Longrightarrow> inv (s\<lparr>pc_hw := snd (the (set_mux o1) f g (pc_hw s))\<rparr>)"
    and directed: "inv s \<Longrightarrow> gpio_set_direction o1 = Some dirf \<Longrightarrow> inv (s\<lparr>pc_hw := snd (dirf rng p input (pc_hw s))\<rparr>)"
begin

lemma requested:
  "request_pins o1 own taken ps s = (r, taken', s') \<Longrightarrow> inv s \<Longrightarrow> pin_room (strict o1) (length ps) s \<Longrightarrow> inv s'"
proof (induction ps arbitrary: taken s)
  case (Cons p ps)
  obtain e s1 where e: "pin_request o1 p own None s = (e, s1)" by force
  have w: "pin_room (strict o1) (Suc (length ps)) s" using Cons.prems(3) by simp
  have i1: "inv s1" using request [OF Cons.prems(2) w e] .
  show ?case
  proof (cases "e = 0")
    case True
    have "pin_room (strict o1) (length ps) s1" by (rule request_mux_granted(2) [OF w]) (use e True in simp)
    with Cons.IH [OF _ i1] Cons.prems(1) e True show ?thesis by simp
  qed (use Cons.prems(1) e i1 in simp)
qed simp

lemma released: "inv s \<Longrightarrow> inv (release_pins o1 ps s)"
  unfolding release_pins_def by (induction ps arbitrary: s) (simp_all add: free)

lemma marked_all: "inv s \<Longrightarrow> inv (fold (mark_pin m) ps s)"
  by (induction ps arbitrary: s) (simp_all add: mark)

lemma marked_hw [simp]: "pc_hw (fold (mark_pin m) ps s) = pc_hw s"
  by (induction ps arbitrary: s) (simp_all add: mark_pin_def split: option.split)

lemma step_keeps:
  assumes "pin_step o1 p1 s s'" and "inv s" and "pin_room (strict o1) 0 s"
  shows "inv s'"
  using assms(1)
proof cases
  case (request_gpio own rng pin r)
  have "pin_room (strict o1) (Suc 0) s" using assms(3) request_gpio(1) by (simp add: pin_room_def)
  then show ?thesis using request_gpio(2) assms(2) request by (auto simp: pinmux_request_gpio_def split: option.splits)
next
  case (free_gpio pin d rng)
  then show ?thesis using pin_driver_inv.free_gpio [OF pin_driver_inv_axioms assms(2)] by (simp add: pinmux_free_gpio_def)
next
  case (direction rng pin input r)
  then show ?thesis using assms(2) directed
    by (auto simp: pinmux_gpio_direction_def split: option.splits prod.splits) (metis snd_conv)
next
  case (enable st r)
  let ?pins = "group_pins p1 (pc_hw s) (group (mux st))"
  obtain e taken s1 where q: "request_pins o1 (set_dev_name st) [] ?pins s = (e, taken, s1)" by (metis prod_cases3)
  have i1: "inv s1" using requested [OF q assms(2)] enable(1) assms(3) by (simp add: pin_room_def)
  let ?t = "fold (mark_pin (Some (addr st))) ?pins s1"
  obtain x h where h: "the (set_mux o1) (func (mux st)) (group (mux st)) (pc_hw s1) = (x, h)" by force
  have "inv ?t" using marked_all [OF i1] .
  from muxed [OF this, of "func (mux st)" "group (mux st)"] have i2: "inv (?t\<lparr>pc_hw := h\<rparr>)" by (simp add: h)
  then show ?thesis using enable(2) i1 released marked_all q h
    by (auto simp: pinmux_enable_setting_def Let_def split: if_splits)
next
  case (disable st)
  have "inv t \<Longrightarrow> inv (fold (disable_pin o1 a) ps t)" for a ps t
    by (induction ps arbitrary: t) (auto simp: disable_pin_def free split: option.split)
  then show ?thesis using disable assms(2) by (simp add: pinmux_disable_setting_def)
qed

lemma steps_keep:
  assumes "(pin_step o1 p1)\<^sup>*\<^sup>* s s'" and "inv s" and "pins_inv (strict o1) r0 s"
  shows "inv s'"
proof -
  have "inv s' \<and> pins_inv (strict o1) r0 s'"
    using assms
  proof (induction rule: rtranclp_induct)
    case (step t u)
    then have i: "inv t" "pins_inv (strict o1) r0 t" by simp_all
    then have "pin_room (strict o1) 0 t" by (auto simp: pins_inv_def pin_room_def no_wrap_def unat_lt_32 [simplified])
    then show ?case using step_keeps [OF step.hyps(2) i(1)] pin_step_inv [OF step.hyps(2) i(2)] by simp
  qed simp
  then show ?thesis ..
qed

end

section \<open>Pins in use\<close>

definition mask_pos :: "int \<Rightarrow> nat" where
  "mask_pos p = nat (if p > 63 then p - 64 else p)"

definition held :: "'b rts_pinctrl \<Rightarrow> int \<Rightarrow> bool" where
  "held s p \<longleftrightarrow> bit (pinsmask s (mask_word p)) (mask_pos p)"

lemma mask_bit_pos: "mask_bit p = push_bit (mask_pos p) 1"
  by (simp add: mask_bit_def mask_pos_def)

lemma bit_mask_bit: "0 \<le> p \<Longrightarrow> p \<le> 119 \<Longrightarrow> bit (mask_bit p) n \<longleftrightarrow> n = mask_pos p"
  unfolding mask_bit_pos bit_push_bit_iff bit_1_iff mask_pos_def by auto

lemma held_and: "0 \<le> p \<Longrightarrow> p \<le> 119 \<Longrightarrow> pinsmask s (mask_word p) AND mask_bit p \<noteq> 0 \<longleftrightarrow> held s p"
proof -
  assume p: "0 \<le> p" "p \<le> 119"
  have "pinsmask s (mask_word p) AND mask_bit p = 0 \<longleftrightarrow> \<not> bit (pinsmask s (mask_word p)) (mask_pos p)"
  proof -
    have "mask_pos p < 64" using p by (auto simp: mask_pos_def)
    then show ?thesis unfolding bit_eq_iff by (auto simp: bit_and_iff bit_mask_bit [OF p])
  qed
  then show "pinsmask s (mask_word p) AND mask_bit p \<noteq> 0 \<longleftrightarrow> held s p" by (simp add: held_def)
qed

lemma mask_pos_inj: "0 \<le> p \<Longrightarrow> p \<le> 119 \<Longrightarrow> 0 \<le> q \<Longrightarrow> q \<le> 119 \<Longrightarrow> mask_word p = mask_word q \<Longrightarrow> mask_pos p = mask_pos q \<longleftrightarrow> p = q"
  by (auto simp: mask_word_def mask_pos_def split: if_splits)

lemma rts_request_held:
  assumes "0 \<le> p" and "p \<le> 119" and "rts_pmx_request p s = (r, s')"
  shows "r = 0 \<longleftrightarrow> \<not> held s p" and "r \<noteq> 0 \<Longrightarrow> s' = s"
    and "r = 0 \<Longrightarrow> 0 \<le> q \<Longrightarrow> q \<le> 119 \<Longrightarrow> held s' q \<longleftrightarrow> q = p \<or> held s q"
proof -
  have run: "rts_pmx_request p s = (if held s p then (- EBUSY, s)
      else (0, s\<lparr>pinsmask := (pinsmask s)(mask_word p := pinsmask s (mask_word p) OR mask_bit p)\<rparr>))"
    using assms(1,2) held_and [OF assms(1,2), of s] by (simp add: rts_pmx_request_def)
  show "r = 0 \<longleftrightarrow> \<not> held s p" "r \<noteq> 0 \<Longrightarrow> s' = s" using run assms(3) by (auto split: if_splits)
  assume r: "r = 0" and q: "0 \<le> q" "q \<le> 119"
  have "s' = s\<lparr>pinsmask := (pinsmask s)(mask_word p := pinsmask s (mask_word p) OR mask_bit p)\<rparr>"
    using run assms(3) r by (auto split: if_splits)
  then show "held s' q \<longleftrightarrow> q = p \<or> held s q"
    using mask_pos_inj [OF assms(1,2) q] bit_mask_bit [OF assms(1,2)]
    by (cases "mask_word p = mask_word q") (auto simp: held_def bit_or_iff)
qed

lemma rts_free_held:
  assumes "0 \<le> p" and "p \<le> 119" and "0 \<le> q" and "q \<le> 119"
  shows "held (snd (rts_pmx_free p s)) q \<longleftrightarrow> q \<noteq> p \<and> held s q"
proof -
  have run: "snd (rts_pmx_free p s) = (if held s p
      then s\<lparr>pinsmask := (pinsmask s)(mask_word p := pinsmask s (mask_word p) AND NOT (mask_bit p))\<rparr> else s)"
    using assms(1,2) held_and [OF assms(1,2), of s] by (simp add: rts_pmx_free_def)
  have "mask_pos q < 64" using assms by (auto simp: mask_pos_def)
  then show ?thesis
    using run mask_pos_inj [OF assms] bit_mask_bit [OF assms(1,2)]
    by (cases "mask_word p = mask_word q") (auto simp: held_def bit_and_iff bit_not_iff)
qed

text \<open>A pin is in the mask exactly while it has a user, and it has at most one kind of user.\<close>

definition mask_inv :: "'b rts_pinctrl pinctrl_dev \<Rightarrow> bool" where
  "mask_inv s \<longleftrightarrow> (\<forall>p d. pin_desc_tree s p = Some d \<longrightarrow> 0 \<le> p \<and> p \<le> 119 \<and>
     (held (pc_hw s) p \<longleftrightarrow> mux_usecount d \<noteq> 0 \<or> gpio_owner d \<noteq> None) \<and> (mux_usecount d = 0 \<or> gpio_owner d = None))"

lemma set_fields_mask [simp]: "pinsmask (set_fields P fs s) = pinsmask s"
  unfolding set_fields_def
  by (induction fs arbitrary: s) (auto simp: rts_gpio_set_field_def rts_writel_def)

lemma config_set_mask [simp]: "pinsmask (snd (rts_gpio_config_set P p c v s)) = pinsmask s"
  by (auto simp: rts_gpio_config_set_def with_block_def rts_gpio_set_field_def rts_writel_def split: option.split rts_config.split)

lemma mask_inv_hw: "pinsmask h = pinsmask (pc_hw s) \<Longrightarrow> mask_inv (s\<lparr>pc_hw := h\<rparr>) \<longleftrightarrow> mask_inv s"
  by (simp add: mask_inv_def held_def)

lemma rts_ops_simps [simp]:
  "pm_request (rts_pmx_ops P) = Some rts_pmx_request" "pm_free (rts_pmx_ops P) = Some (\<lambda>p s. snd (rts_pmx_free p s))"
  "set_mux (rts_pmx_ops P) = Some (rts_pmx_enable P)" "gpio_request_enable (rts_pmx_ops P) = None"
  "gpio_disable_free (rts_pmx_ops P) = None" "gpio_set_direction (rts_pmx_ops P) = Some (rts_pmx_gpio_set_direction P)"
  "strict (rts_pmx_ops P) = False"
  by (simp_all add: rts_pmx_ops_def)

lemma mask_inv_set:
  assumes "mask_inv s" and "pin_desc_tree s p = Some d"
    and "\<And>q. 0 \<le> q \<Longrightarrow> q \<le> 119 \<Longrightarrow> held h q \<longleftrightarrow> (if q = p then mux_usecount d' \<noteq> 0 \<or> gpio_owner d' \<noteq> None else held (pc_hw s) q)"
    and "mux_usecount d' = 0 \<or> gpio_owner d' = None"
  shows "mask_inv ((set_pin p d' s)\<lparr>pc_refs := n, pc_hw := h\<rparr>)"
  using assms by (auto simp: mask_inv_def)

interpretation rts_driver: pin_driver_inv "rts_pmx_ops P" rts_rtspctl_ops mask_inv for P
proof
  fix s :: "'a rts_pinctrl pinctrl_dev" and n p own gr r s'
  assume inv: "mask_inv s" and room: "pin_room (strict (rts_pmx_ops P)) (Suc n) s" and req: "pin_request (rts_pmx_ops P) p own gr s = (r, s')"
  have "pin_room False (Suc n) s" using room by simp
  from req this show "mask_inv s'"
  proof (cases rule: pin_request_cases)
    case (shared d)
    have "unat (mux_usecount d) + Suc n < 2 ^ 32" using room shared(1) by (auto simp: pin_room_def no_wrap_def)
    note u = unat_plus_1(2) [OF this]
    show ?thesis unfolding shared(7) using inv shared u by (auto simp: mask_inv_def)
  next
    case (refused d h)
    then have "h = pc_hw s" using inv rts_request_held(2) by (fastforce simp: ask_driver_def mask_inv_def split: option.splits)
    then show ?thesis using refused(5) inv by simp
  next
    case (granted d h)
    have b: "0 \<le> p" "p \<le> 119" using inv granted(1) by (auto simp: mask_inv_def)
    have rq: "rts_pmx_request p (pc_hw s) = (0, h)" using granted(3) by (simp add: ask_driver_def split: option.splits)
    have free: "mux_usecount d = 0" "gpio_owner d = None"
      using inv granted(1) rts_request_held(1) [OF b rq] by (auto simp: mask_inv_def)
    show ?thesis unfolding granted(8)
      by (rule mask_inv_set [OF inv granted(1)]) (use rts_request_held(3) [OF b rq] free in auto)
  qed (use inv in simp_all)
next
  fix s :: "'a rts_pinctrl pinctrl_dev" and p
  assume inv: "mask_inv s"
  show "mask_inv (snd (pin_free (rts_pmx_ops P) p None s))"
  proof (cases "pin_desc_tree s p")
    case (Some d)
    have b: "0 \<le> p" "p \<le> 119" using inv Some by (auto simp: mask_inv_def)
    have f: "held (snd (rts_pmx_free p (pc_hw s))) q \<longleftrightarrow> q \<noteq> p \<and> held (pc_hw s) q" if "0 \<le> q" "q \<le> 119" for q
      using rts_free_held [OF b that] .
    have inv1: "mask_inv (set_pin p (d\<lparr>mux_usecount := mux_usecount d - 1\<rparr>) s)" if "mux_usecount d \<noteq> 0" "mux_usecount d - 1 \<noteq> 0"
      using inv Some that by (auto simp: mask_inv_def)
    have inv2: "mask_inv ((set_pin p (d\<lparr>mux_usecount := 0, mux_owner := None, mux_setting := None\<rparr>) s)
        \<lparr>pc_refs := n, pc_hw := snd (rts_pmx_free p (pc_hw s))\<rparr>)" if "mux_usecount d \<noteq> 0" for n
      by (rule mask_inv_set [OF inv Some]) (use f inv Some that in \<open>auto simp: mask_inv_def\<close>)
    show ?thesis using inv inv1 inv2 Some
      by (auto simp: pin_free_def pin_desc_get_def tell_driver_def Let_def hw_refs_order)
  qed (use inv in \<open>simp add: pin_free_def pin_desc_get_def\<close>)
next
  fix s :: "'a rts_pinctrl pinctrl_dev" and p d rng
  assume inv: "mask_inv s" and d: "pin_desc_tree s p = Some d" "gpio_owner d \<noteq> None"
  have b: "0 \<le> p" "p \<le> 119" "mux_usecount d = 0"
    using inv [unfolded mask_inv_def, rule_format, OF d(1)] d(2) by auto
  have "mask_inv ((set_pin p (d\<lparr>gpio_owner := None\<rparr>) s)\<lparr>pc_refs := n, pc_hw := snd (rts_pmx_free p (pc_hw s))\<rparr>)" for n
    by (rule mask_inv_set [OF inv d(1)]) (use rts_free_held [OF b(1,2)] b(3) inv d in \<open>auto simp: mask_inv_def\<close>)
  then show "mask_inv (snd (pin_free (rts_pmx_ops P) p (Some rng) s))"
    using d by (simp add: pin_free_def pin_desc_get_def tell_driver_def Let_def hw_refs_order)
next
  fix s :: "'a rts_pinctrl pinctrl_dev" and m p
  show "mask_inv s \<Longrightarrow> mask_inv (mark_pin m p s)"
    by (auto simp: mark_pin_def pin_desc_get_def mask_inv_def split: option.split)
next
  fix s :: "'a rts_pinctrl pinctrl_dev" and f g
  show "mask_inv s \<Longrightarrow> mask_inv (s\<lparr>pc_hw := snd (the (set_mux (rts_pmx_ops P)) f g (pc_hw s))\<rparr>)"
    by (subst mask_inv_hw) (simp_all add: rts_pmx_enable_def)
next
  fix s :: "'a rts_pinctrl pinctrl_dev" and d rng p input
  show "mask_inv s \<Longrightarrow> gpio_set_direction (rts_pmx_ops P) = Some d \<Longrightarrow> mask_inv (s\<lparr>pc_hw := snd (d rng p input (pc_hw s))\<rparr>)"
    by (subst mask_inv_hw) (auto simp: rts_pmx_gpio_set_direction_def)
qed

section \<open>Register blocks\<close>

lemma blocks_apart:
  "list_all (\<lambda>x. list_all (\<lambda>y. x = y \<or> (pinaddr x + 32 \<le> pinaddr y \<or> pinaddr y + 32 \<le> pinaddr x) \<and> (pinh x < pinl y \<or> pinh y < pinl x)) pincfgaddr) pincfgaddr"
  by (simp add: pincfgaddr_def rts_addrs)

lemma blocks_shape:
  "list_all (\<lambda>x. 0 \<le> pinl x \<and> pinl x \<le> pinh x \<and> pinh x < 89 \<and> pinh x - pinl x < int (block_width x) \<and> block_width x \<le> 16
     \<and> pinaddr x + 32 \<le> 656) pincfgaddr"
  by (simp add: pincfgaddr_def rts_addrs block_width_def)

lemma block_apart:
  assumes "x \<in> set pincfgaddr" and "y \<in> set pincfgaddr" and "x \<noteq> y"
  shows "pinaddr x + 32 \<le> pinaddr y \<or> pinaddr y + 32 \<le> pinaddr x" and "pinh x < pinl y \<or> pinh y < pinl x"
  using blocks_apart assms by (auto simp only: list_all_iff)

lemma block_shape:
  assumes "x \<in> set pincfgaddr"
  shows "0 \<le> pinl x" "pinl x \<le> pinh x" "pinh x < 89" "pinh x - pinl x < int (block_width x)" "block_width x \<le> 16"
  using blocks_shape assms by (auto simp only: list_all_iff)

lemma get_pinaddr_iff: "rts_get_pinaddr p = Some x \<longleftrightarrow> x \<in> set pincfgaddr \<and> pinl x \<le> p \<and> p \<le> pinh x"
proof
  assume "rts_get_pinaddr p = Some x"
  then show "x \<in> set pincfgaddr \<and> pinl x \<le> p \<and> p \<le> pinh x" by (auto simp: rts_get_pinaddr_def dest: find_Some_in)
next
  assume x: "x \<in> set pincfgaddr \<and> pinl x \<le> p \<and> p \<le> pinh x"
  show "rts_get_pinaddr p = Some x"
    unfolding rts_get_pinaddr_def by (rule find_unique) (use x block_apart(2) in \<open>force+\<close>)
qed

text \<open>Registers of different blocks, or at different offsets of one block, are different.\<close>

lemma reg_apart:
  assumes "x \<in> set pincfgaddr" and "y \<in> set pincfgaddr" and "i < 32" and "j < 32"
  shows "pinaddr x + i = pinaddr y + j \<longleftrightarrow> x = y \<and> i = j"
  using block_apart(1) [OF assms(1,2)] assms(3,4) by (cases "x = y") auto

text \<open>Every pin below 89 has a block, and no other.\<close>

lemma has_block: "rts_get_pinaddr p \<noteq> None \<longleftrightarrow> 0 \<le> p \<and> p < 89"
proof
  show "rts_get_pinaddr p \<noteq> None \<Longrightarrow> 0 \<le> p \<and> p < 89"
    using block_shape(1,3) by (fastforce simp: get_pinaddr_iff)
  assume "0 \<le> p \<and> p < 89"
  then show "rts_get_pinaddr p \<noteq> None"
    by (simp add: rts_get_pinaddr_def pincfgaddr_def)
qed

section \<open>The hardware\<close>

text \<open>A write changes its register only.  Registers keep what is written, except the value registers of
  the shadowed blocks and the interrupt status registers.\<close>

definition special_regs :: "nat set" where
  "special_regs = {AUDIO_ADDA_GPIO_OE + 4, USB0_GPIO_OE + 4, USB1_GPIO_OE + 4} \<union> (\<lambda>sc. pinaddr sc + pr_gpio_int) ` set pincfgaddr"

definition pads_ok :: "'b pad_port \<Rightarrow> bool" where
  "pads_ok P \<longleftrightarrow> (\<forall>a b v h. a \<noteq> b \<longrightarrow> pad_rd P a (pad_wr P b v h) = pad_rd P a h)
     \<and> (\<forall>a v h. a \<notin> special_regs \<longrightarrow> pad_rd P a (pad_wr P a v h) = v)"

lemma writel_simps [simp]:
  "irq_flow_type (rts_writel P v a s) = irq_flow_type s" "irq_locked (rts_writel P v a s) = irq_locked s"
  "pinsmask (rts_writel P v a s) = pinsmask s" "audio_adda_gpio_value (rts_writel P v a s) = audio_adda_gpio_value s"
  "usb0_gpio_value (rts_writel P v a s) = usb0_gpio_value s" "usb1_gpio_value (rts_writel P v a s) = usb1_gpio_value s"
  "rts_fault (rts_writel P v a s) = rts_fault s"
  by (simp_all add: rts_writel_def)

lemma rd_writel_other: "pads_ok P \<Longrightarrow> a \<noteq> b \<Longrightarrow> pad_rd P a (pads (rts_writel P v b s)) = pad_rd P a (pads s)"
  by (simp add: pads_ok_def rts_writel_def)

lemma rd_writel_same: "pads_ok P \<Longrightarrow> a \<notin> special_regs \<Longrightarrow> pad_rd P a (pads (rts_writel P v a s)) = v"
  by (simp add: pads_ok_def rts_writel_def)

lemma rd_writel: "pads_ok P \<Longrightarrow> a \<notin> special_regs \<Longrightarrow> pad_rd P a (pads (rts_writel P v b s)) = (if a = b then v else pad_rd P a (pads s))"
  using rd_writel_other rd_writel_same by metis

text \<open>The registers of a block that are plain memory.\<close>

lemma plain_reg:
  assumes "x \<in> set pincfgaddr" and "i \<in> {pr_gpio_oe, pr_pullctrl, pr_gpio_int_en, pr_drv_sel, pr_sr_ctrl, pr_pad_cfg}"
  shows "pinaddr x + i \<notin> special_regs"
proof -
  have special: "\<exists>y \<in> set pincfgaddr. \<exists>j \<in> {pr_gpio_value, pr_gpio_int}. a = pinaddr y + j" if "a \<in> special_regs" for a
    using that unfolding special_regs_def
    by (auto simp: pincfgaddr_def pinregs_defs rts_addrs)
  show ?thesis
  proof
    assume "pinaddr x + i \<in> special_regs"
    then obtain y j where y: "y \<in> set pincfgaddr" "j \<in> {pr_gpio_value, pr_gpio_int}" "pinaddr x + i = pinaddr y + j"
      using special by blast
    have "i < 32" "j < 32" using assms(2) y(2) by (auto simp: pinregs_defs)
    then have "i = j" using reg_apart [OF assms(1) y(1)] y(3) by blast
    then show False using assms(2) y(2) by (auto simp: pinregs_defs)
  qed
qed

lemma plain_value:
  assumes "x \<in> set pincfgaddr" and "pinl x \<notin> {65, 78, 80}"
  shows "pinaddr x + pr_gpio_value \<notin> special_regs"
proof -
  have "list_all (\<lambda>x. pinl x \<in> {65, 78, 80} \<or> list_all (\<lambda>y. pinaddr x + 4 \<noteq> pinaddr y + 16) pincfgaddr
      \<and> pinaddr x \<notin> {AUDIO_ADDA_GPIO_OE, USB0_GPIO_OE, USB1_GPIO_OE}) pincfgaddr"
    by (simp add: pincfgaddr_def rts_addrs)
  then show ?thesis using assms by (auto simp: list_all_iff special_regs_def pinregs_defs)
qed

section \<open>A system for the witnesses\<close>

text \<open>Registers as memory, all 0 at the start.\<close>

definition mem_port :: "(nat \<Rightarrow> u32) pad_port" where
  "mem_port = \<lparr>pad_rd = (\<lambda>a h. h a), pad_wr = (\<lambda>a v h. h(a := v)), conf_of = (\<lambda>c. (RTS_PINCONFIG_PULL_UP, 0))\<rparr>"

definition mem_rts :: "(nat \<Rightarrow> u32) rts_pinctrl" where
  "mem_rts = \<lparr>pads = (\<lambda>_. 0), irq_flow_type = (\<lambda>_. IRQ_TYPE_EDGE_BOTH), irq_locked = False, pinsmask = (\<lambda>_. 0),
     audio_adda_gpio_value = 0, usb0_gpio_value = 0, usb1_gpio_value = 0, rts_fault = False\<rparr>"

definition mem_ctl :: "(nat \<Rightarrow> u32) rts_pinctrl pinctrl_dev" where
  "mem_ctl = \<lparr>pin_desc_tree = (\<lambda>p. if 0 \<le> p \<and> p < 93 then Some demo_pin else None), pc_live = True, pc_refs = 0, pc_hw = mem_rts\<rparr>"

lemma mem_port_ok: "pads_ok mem_port"
  by (simp add: pads_ok_def mem_port_def)

lemma mem_ctl_fresh: "pins_fresh mem_ctl" "mask_inv mem_ctl"
proof -
  have "dom (pin_desc_tree mem_ctl) \<subseteq> {0..<93}" by (auto simp: mem_ctl_def split: if_splits)
  then have "finite (dom (pin_desc_tree mem_ctl))" by (rule finite_subset) simp
  then show "pins_fresh mem_ctl" by (auto simp: pins_fresh_def mem_ctl_def demo_pin_def split: if_splits)
  show "mask_inv mem_ctl" by (auto simp: mask_inv_def mem_ctl_def mem_rts_def demo_pin_def held_def split: if_splits)
qed

section \<open>The tables\<close>


section \<open>Exclusive use of pins\<close>

text \<open>C21: The controller is not strict, so the core would let a GPIO and a function share a pin; the mask of the
  driver makes its pins exclusive: in every reachable state a pin has a function or a GPIO owner but
  not both, and it is in the mask exactly while it has one of them.\<close>

theorem rts_pins_exclusive:
  assumes "pins_fresh s0" and "mask_inv s0" and "(pin_step (rts_pmx_ops P) rts_rtspctl_ops)\<^sup>*\<^sup>* s0 s" and "pin_desc_tree s p = Some d"
  shows "(mux_usecount d = 0 \<or> gpio_owner d = None)
     \<and> (pinsmask (pc_hw s) (mask_word p) AND mask_bit p \<noteq> 0 \<longleftrightarrow> mux_usecount d \<noteq> 0 \<or> gpio_owner d \<noteq> None)"
proof -
  have "mask_inv s" using rts_driver.steps_keep [OF assms(3,2) pins_fresh_inv [OF assms(1)]] .
  then show ?thesis using assms(4) held_and by (auto simp: mask_inv_def)
qed

lemma rts_pins_exclusive_witness:
  "fst (pinmux_request_gpio (rts_pmx_ops mem_port) (Some ''led'') ''gpio'' 8 mem_ctl) = 0
   \<and> pinsmask (pc_hw (snd (pinmux_request_gpio (rts_pmx_ops mem_port) (Some ''led'') ''gpio'' 8 mem_ctl))) (mask_word 8) AND mask_bit 8 \<noteq> 0"
proof -
  let ?s = "snd (pinmux_request_gpio (rts_pmx_ops mem_port) (Some ''led'') ''gpio'' 8 mem_ctl)"
  have r: "pinmux_request_gpio (rts_pmx_ops mem_port) (Some ''led'') ''gpio'' 8 mem_ctl = (0, ?s)"
    and d: "pin_desc_tree ?s 8 = Some (demo_pin\<lparr>gpio_owner := Some ''led''\<rparr>)"
    by (simp_all add: pinmux_request_gpio_def pin_request_def pin_desc_get_def mem_ctl_def demo_pin_def claim_def set_pin_def
        ask_driver_def rts_pmx_request_def mem_rts_def Let_def)
  have "no_wrap 1 mem_ctl" by (auto simp: no_wrap_def mem_ctl_def demo_pin_def split: if_splits)
  then have "(pin_step (rts_pmx_ops mem_port) rts_rtspctl_ops)\<^sup>*\<^sup>* mem_ctl ?s" using pin_step.request_gpio [OF _ r] by blast
  from rts_pins_exclusive [OF mem_ctl_fresh this d] show ?thesis using arg_cong [OF r, of fst] by simp
qed

section \<open>GPIO values\<close>

text \<open>A GPIO can be read back unless it belongs to a shadowed block and is an input.\<close>

definition readable :: "'b pad_port \<Rightarrow> int \<Rightarrow> 'b rts_pinctrl \<Rightarrow> bool" where
  "readable P g s = (case rts_get_pinaddr g of None \<Rightarrow> False
     | Some sc \<Rightarrow> pinl sc \<notin> {65, 78, 80} \<or> bit (pad_rd P (pinaddr sc + pr_gpio_oe) (pads s)) (nat (g - pinl sc)))"

text \<open>The value of a readable GPIO.\<close>

definition gpio_bit :: "'b pad_port \<Rightarrow> int \<Rightarrow> 'b rts_pinctrl \<Rightarrow> bool" where
  "gpio_bit P g s = (case rts_get_pinaddr g of None \<Rightarrow> False
     | Some sc \<Rightarrow> (let bf = nat (g - pinl sc) in
         case shadow sc s of Some v \<Rightarrow> bit v bf | None \<Rightarrow> bit (pad_rd P (pinaddr sc + pr_gpio_value) (pads s)) bf))"

lemma shadow_bit: "ucast (drop_bit n (v :: u8) AND 1) = (if bit v n then 1 else 0 :: u32)"
  by (simp add: and_one_eq bit_iff_odd_drop_bit mod_2_eq_odd)

lemma gpio_get_readable:
  assumes "readable P g s"
  shows "rts_gpio_get P g s = Some (if gpio_bit P g s then 1 else 0)"
proof -
  obtain sc where "rts_get_pinaddr g = Some sc" using assms by (auto simp: readable_def split: option.splits)
  then show ?thesis using assms
    by (auto simp: rts_gpio_get_def readable_def gpio_bit_def shadow_def rts_gpio_get_field_def GETFIELD_1 shadow_bit Let_def)
qed

lemma bit_new_shadow: "n < 8 \<Longrightarrow> bit (new_shadow b high v) n \<longleftrightarrow> (if n = b then high else bit v n)"
  unfolding new_shadow_def bit_push_bit_iff
  by (cases "b < 8") (auto simp: bit_or_iff bit_and_iff bit_not_iff bit_push_bit_iff bit_1_iff simp del: push_bit_of_1)

lemma set_keeps_oe:
  assumes "pads_ok P" and "x \<in> set pincfgaddr"
  shows "pad_rd P (pinaddr x + pr_gpio_oe) (pads (rts_gpio_set P g high s)) = pad_rd P (pinaddr x + pr_gpio_oe) (pads s)"
proof (cases "rts_get_pinaddr g")
  case (Some y)
  then have "y \<in> set pincfgaddr" by (simp add: get_pinaddr_iff)
  then have "pinaddr x + pr_gpio_oe \<noteq> pinaddr y + pr_gpio_value"
    using reg_apart [OF assms(2), of y pr_gpio_oe pr_gpio_value] by (simp add: pinregs_defs)
  then show ?thesis using assms(1) Some
    by (simp add: rts_gpio_set_def with_block_def rd_writel_other rts_set_reg_bit_def rts_clr_reg_bit_def Let_def)
qed (simp add: rts_gpio_set_def with_block_def)

lemma set_shadow:
  assumes "rts_get_pinaddr g = Some y"
  shows "shadow x (rts_gpio_set P g high s) =
    (if pinl x = pinl y then map_option (new_shadow (nat (g - pinl y)) high) (shadow y s) else shadow x s)"
  using assms by (simp add: shadow_def rts_gpio_set_def with_block_def rts_set_reg_bit_def rts_clr_reg_bit_def Let_def)

lemma shadow_None: "shadow x s = None \<longleftrightarrow> pinl x \<notin> {65, 78, 80}"
  by (simp add: shadow_def)

lemma set_gpio_bit:
  assumes "pads_ok P" and "rts_get_pinaddr g \<noteq> None" and "rts_get_pinaddr q = Some x"
  shows "gpio_bit P q (rts_gpio_set P g high s) = (if q = g then high else gpio_bit P q s)"
proof -
  obtain y where y: "rts_get_pinaddr g = Some y" using assms(2) by auto
  have xy: "x \<in> set pincfgaddr" "y \<in> set pincfgaddr" using y assms(3) by (simp_all add: get_pinaddr_iff)
  let ?n = "nat (q - pinl x)" and ?b = "nat (g - pinl y)"
  have lt: "?n < 16" "?b < 16" "pinl x \<le> q" "pinl y \<le> g"
    using block_shape(4,5) [OF xy(1)] block_shape(4,5) [OF xy(2)] assms(3) y by (auto simp: get_pinaddr_iff)
  have same: "x = y \<Longrightarrow> ?n = ?b \<longleftrightarrow> q = g" using lt by auto
  have other: "q = g \<Longrightarrow> x = y" using assms(3) y by simp
  have pl: "x \<noteq> y \<Longrightarrow> pinl x \<noteq> pinl y" using block_apart(2) [OF xy] block_shape(2) [OF xy(1)] block_shape(2) [OF xy(2)] by auto
  have regs: "pinaddr x + pr_gpio_value = pinaddr y + pr_gpio_value \<longleftrightarrow> x = y" 
    using reg_apart [OF xy, of pr_gpio_value pr_gpio_value] by (simp add: pinregs_defs)
  show ?thesis
  proof (cases "pinl y \<in> {65, 78, 80}")
    case True
    then obtain v where v: "shadow y s = Some v" using shadow_None [of y s] by auto
    have "pinh y - pinl y < 8" using True xy(2) by (auto simp: pincfgaddr_def)
    then have b: "?b < 8" using y by (auto simp: get_pinaddr_iff)
    show ?thesis
    proof (cases "x = y")
      case True
      then have "?n < 8" using \<open>pinh y - pinl y < 8\<close> assms(3) by (auto simp: get_pinaddr_iff)
      then show ?thesis using True assms(3) same v by (simp add: gpio_bit_def set_shadow [OF y] bit_new_shadow)
    next
      case ne: False
      have "shadow x (rts_gpio_set P g high s) = shadow x s" using pl [OF ne] by (simp add: set_shadow [OF y])
      moreover have "pad_rd P (pinaddr x + pr_gpio_value) (pads (rts_gpio_set P g high s)) = pad_rd P (pinaddr x + pr_gpio_value) (pads s)"
        using True regs ne assms(1) y by (simp add: rts_gpio_set_def with_block_def Let_def) (auto simp: rd_writel_other)
      moreover have "q \<noteq> g" using ne other by blast
      ultimately show ?thesis using assms(3) by (simp add: gpio_bit_def Let_def split: option.split)
    qed
  next
    case False
    note v = plain_value [OF xy(2) False]
    show ?thesis
    proof (cases "x = y")
      case True
      then show ?thesis using False assms(1,3) y same lt v
        by (simp add: gpio_bit_def rts_gpio_set_def with_block_def shadow_def Let_def rts_set_reg_bit_def rts_clr_reg_bit_def
            rd_writel_same bit_or_iff bit_and_iff bit_not_iff regs_simps)
    next
      case ne: False
      then show ?thesis using False assms(1,3) y other regs
        by (auto simp: gpio_bit_def rts_gpio_set_def with_block_def shadow_def Let_def rts_set_reg_bit_def rts_clr_reg_bit_def
            rd_writel_other split: option.split)
    qed
  qed
qed



section \<open>Functions of groups\<close>

definition covers :: "nat \<Rightarrow> nat \<Rightarrow> nat \<times> u32 \<times> nat \<times> nat \<Rightarrow> bool" where
  "covers a n f = (case f of (b, v, w, i) \<Rightarrow> b = a \<and> i \<le> n \<and> n < i + w)"

definition fields_apart :: "nat \<times> u32 \<times> nat \<times> nat \<Rightarrow> nat \<times> u32 \<times> nat \<times> nat \<Rightarrow> bool" where
  "fields_apart f f' = (case f of (b, v, w, i) \<Rightarrow> case f' of (b', v', w', i') \<Rightarrow> b \<noteq> b' \<or> i + w \<le> i' \<or> i' + w' \<le> i)"

lemma set_fields_bits:
  assumes "pads_ok P" and "a \<notin> special_regs" and "n < 32" and "sorted_wrt fields_apart fs"
  shows "bit (pad_rd P a (pads (set_fields P fs s))) n =
    (case find (covers a n) fs of None \<Rightarrow> bit (pad_rd P a (pads s)) n | Some (b, v, w, i) \<Rightarrow> bit v (n - i))"
  using assms(4)
proof (induction fs arbitrary: s)
  case Nil
  then show ?case by (simp add: set_fields_def)
next
  case (Cons f fs)
  obtain b v w i where f: "f = (b, v, w, i)" by (metis prod_cases4)
  let ?s1 = "rts_gpio_set_field P b v w i s"
  have step: "set_fields P (f # fs) s = set_fields P fs ?s1" by (simp add: set_fields_def f)
  have one: "bit (pad_rd P a (pads ?s1)) n = (if covers a n f then bit v (n - i) else bit (pad_rd P a (pads s)) n)"
    using assms(1-3) by (auto simp: rts_gpio_set_field_def rd_writel bit_SETFIELD covers_def f)
  have "find (covers a n) fs = None" if "covers a n f"
    using that Cons.prems by (fastforce simp: find_None_all covers_def fields_apart_def f)
  then show ?case using Cons one unfolding step by (auto simp: f split: option.splits)
qed

text \<open>The pad configuration registers, and the register for the voltage of the pads.\<close>

definition cfg_regs :: "nat list" where
  "cfg_regs = PAD_V18_EN # map (\<lambda>sc. pinaddr sc + pr_pad_cfg) pincfgaddr"

definition fields_ok :: "(nat \<times> u32 \<times> nat \<times> nat) list \<Rightarrow> bool" where
  "fields_ok fs \<longleftrightarrow> sorted_wrt fields_apart fs \<and> list_all (\<lambda>(b, v, w, i). i + w \<le> 32 \<and> v < push_bit w 1 \<and> b \<in> set cfg_regs) fs"

lemma fields_ok_if:
  "fields_ok x \<Longrightarrow> fields_ok y \<Longrightarrow> fields_ok (if c then x else y)"
  "fields_ok (x @ z) \<Longrightarrow> fields_ok (y @ z) \<Longrightarrow> fields_ok ((if c then x else y) @ z)"
  "fields_ok (z @ x) \<Longrightarrow> fields_ok (z @ y) \<Longrightarrow> fields_ok (z @ (if c then x else y))"
  by simp_all

lemma cfg_regs_eval: "cfg_regs = [664, 28, 60, 92, 124, 156, 188, 220, 252, 284, 332, 364, 396, 428, 524, 556, 588, 652, 620]"
  by (simp add: cfg_regs_def pincfgaddr_def rts_addrs pr_pad_cfg_def)

lemma mux_fields_ok: "fields_ok (mux_fields fn grp)"
proof (cases "grp = AMIC_GROUP_SELECT")
  case True
  show ?thesis unfolding mux_fields_def True
    by (simp add: rts_selectors; intro conjI impI; simp add: fields_ok_def fields_apart_def cfg_regs_eval rts_addrs)
next
  case False
  show ?thesis unfolding mux_fields_def if_not_P [OF False] append_Nil
    by (intro fields_ok_if) (simp_all add: fields_ok_def fields_apart_def cfg_regs_eval rts_addrs)
qed



section \<open>Interrupts\<close>

text \<open>A GPIO has a pending interrupt that is enabled.\<close>

definition irq_due :: "'b pad_port \<Rightarrow> 'b rts_pinctrl \<Rightarrow> nat \<Rightarrow> bool" where
  "irq_due P s g = (case rts_get_pinaddr (int g) of None \<Rightarrow> False
     | Some sc \<Rightarrow> (let v = pad_rd P (pinaddr sc + pr_gpio_int) (pads s) AND pad_rd P (pinaddr sc + pr_gpio_int_en) (pads s);
                        bf = nat (int g - pinl sc)
                    in bit v bf \<or> bit v (bf + block_width sc)))"

definition irq_regs :: "sharepin_cfg_addr \<Rightarrow> nat set" where
  "irq_regs sc = {pinaddr sc + pr_gpio_int, pinaddr sc + pr_gpio_int_en}"

lemma bit_block_mask:
  assumes "sc \<in> set pincfgaddr"
  shows "bit (block_mask sc) i \<longleftrightarrow> i < nat (pinh sc - pinl sc + 1) \<or> block_width sc \<le> i \<and> i < block_width sc + nat (pinh sc - pinl sc + 1)"
proof -
  have "block_width sc + nat (pinh sc - pinl sc + 1) \<le> 32" using block_shape(2,4,5) [OF assms] by auto
  then show ?thesis
    unfolding block_mask_def by (auto simp: Let_def bit_or_iff bit_push_bit_iff bit_mask_iff)
qed

text \<open>The GPIOs found in a block.\<close>

lemma block_gpios:
  assumes "sc \<in> set pincfgaddr"
  shows "set (map (offset_gpio sc) (block_offsets P sc s)) = {g. rts_get_pinaddr (int g) = Some sc \<and> irq_due P s g}"
proof -
  let ?v = "pad_rd P (pinaddr sc + pr_gpio_int) (pads s) AND pad_rd P (pinaddr sc + pr_gpio_int_en) (pads s)"
  let ?n = "nat (pinh sc - pinl sc + 1)" and ?b = "block_width sc"
  note shape = block_shape [OF assms]
  have n: "?n \<le> ?b" "?b \<le> 16" using shape by auto
  have off: "i \<in> set (block_offsets P sc s) \<longleftrightarrow> bit ?v i \<and> (i < ?n \<or> ?b \<le> i \<and> i < ?b + ?n)" for i
    using n by (auto simp: block_offsets_def bit_and_iff bit_block_mask [OF assms])
  have due: "irq_due P s (nat (pinl sc) + j) \<longleftrightarrow> bit ?v j \<or> bit ?v (j + ?b)" and own: "rts_get_pinaddr (int (nat (pinl sc) + j)) = Some sc" if "j < ?n" for j
  proof -
    show own: "rts_get_pinaddr (int (nat (pinl sc) + j)) = Some sc" using assms that shape by (auto simp: get_pinaddr_iff)
    show "irq_due P s (nat (pinl sc) + j) \<longleftrightarrow> bit ?v j \<or> bit ?v (j + ?b)"
      using shape(1) unfolding irq_due_def own by (simp add: Let_def)
  qed
  show ?thesis
  proof (intro set_eqI iffI)
    fix g assume "g \<in> set (map (offset_gpio sc) (block_offsets P sc s))"
    then obtain i where i: "g = offset_gpio sc i" "bit ?v i" "i < ?n \<or> ?b \<le> i \<and> i < ?b + ?n" using off by auto
    define j where "j = (if i \<ge> ?b then i - ?b else i)"
    have "j < ?n" "g = nat (pinl sc) + j" "bit ?v j \<or> bit ?v (j + ?b)"
      using i n by (auto simp: j_def offset_gpio_def)
    then show "g \<in> {g. rts_get_pinaddr (int g) = Some sc \<and> irq_due P s g}" using due own by simp
  next
    fix g assume g: "g \<in> {g. rts_get_pinaddr (int g) = Some sc \<and> irq_due P s g}"
    define j where "j = nat (int g - pinl sc)"
    have j: "j < ?n" "g = nat (pinl sc) + j" using g shape by (auto simp: get_pinaddr_iff j_def)
    then have "bit ?v j \<or> bit ?v (j + ?b)" using g due by simp
    then show "g \<in> set (map (offset_gpio sc) (block_offsets P sc s))"
    proof
      assume "bit ?v j"
      then have "j \<in> set (block_offsets P sc s)" using off j by simp
      moreover have "offset_gpio sc j = g" using j n by (simp add: offset_gpio_def)
      ultimately show ?thesis by force
    next
      assume "bit ?v (j + ?b)"
      then have "j + ?b \<in> set (block_offsets P sc s)" using off j by simp
      moreover have "offset_gpio sc (j + ?b) = g" using j by (simp add: offset_gpio_def)
      ultimately show ?thesis by (metis (no_types, lifting) image_eqI list.set_map)
    qed
  qed
qed

lemma dispatch_trace:
  assumes "\<And>i t. pad_rd P a (pads (handle i t)) = pad_rd P a (pads t)"
  shows "set (fst (dispatch revmap handle gs s)) = {g \<in> set gs. revmap g \<noteq> 0}
    \<and> pad_rd P a (pads (snd (dispatch revmap handle gs s))) = pad_rd P a (pads s)"
  using assms by (induction gs arbitrary: s) (auto simp: case_prod_beta)

lemma irq_blocks_trace:
  assumes "pads_ok P" and keep: "\<And>sc a i t. sc \<in> set pincfgaddr \<Longrightarrow> a \<in> irq_regs sc \<Longrightarrow> pad_rd P a (pads (handle i t)) = pad_rd P a (pads t)"
    and "set scs \<subseteq> set pincfgaddr" and "distinct scs"
  shows "set (fst (irq_blocks P revmap handle scs s)) =
    {g. revmap g \<noteq> 0 \<and> irq_due P s g \<and> (\<exists>sc \<in> set scs. rts_get_pinaddr (int g) = Some sc)}"
  using assms(3,4)
proof (induction scs arbitrary: s)
  case (Cons sc scs)
  have sc: "sc \<in> set pincfgaddr" using Cons.prems by simp
  let ?gs = "map (offset_gpio sc) (block_offsets P sc s)"
  obtain tr s1 where d: "dispatch revmap handle ?gs (block_ack P sc s) = (tr, s1)" by force
  have regs: "pad_rd P a (pads s1) = pad_rd P a (pads s)" if x: "x \<in> set scs" "a \<in> irq_regs x" for x a
  proof -
    have xs: "x \<in> set pincfgaddr" "x \<noteq> sc" using Cons.prems x by auto
    have "a \<noteq> pinaddr sc + pr_gpio_int"
      using x(2) xs(2) reg_apart [OF xs(1) sc, of 12 16] reg_apart [OF xs(1) sc, of 16 16] by (auto simp: irq_regs_def pinregs_defs)
    then have "pad_rd P a (pads (block_ack P sc s)) = pad_rd P a (pads s)"
      by (simp add: block_ack_def rd_writel_other [OF assms(1)])
    then show ?thesis using dispatch_trace [of P a handle revmap ?gs "block_ack P sc s", OF keep [OF xs(1) x(2)]] d by simp
  qed
  have due: "irq_due P s1 g \<longleftrightarrow> irq_due P s g" if "x \<in> set scs" "rts_get_pinaddr (int g) = Some x" for g x
    using regs [OF that(1)] that(2) by (simp add: irq_due_def irq_regs_def)
  have "set tr = {g \<in> set ?gs. revmap g \<noteq> 0}"
    using dispatch_trace [of P "pinaddr sc + pr_gpio_int" handle revmap ?gs "block_ack P sc s", OF keep [OF sc]] d
    by (simp add: irq_regs_def)
  then have tr: "set tr = {g. revmap g \<noteq> 0 \<and> irq_due P s g \<and> rts_get_pinaddr (int g) = Some sc}"
    unfolding block_gpios [OF sc] by auto
  have rest: "set (fst (irq_blocks P revmap handle scs s1)) =
      {g. revmap g \<noteq> 0 \<and> irq_due P s g \<and> (\<exists>x \<in> set scs. rts_get_pinaddr (int g) = Some x)}"
    using Cons.IH [of s1] Cons.prems due by auto
  have "fst (irq_blocks P revmap handle (sc # scs) s) = tr @ fst (irq_blocks P revmap handle scs s1)"
    by (simp add: d split: prod.split)
  then show ?case using tr rest by auto
qed simp

text \<open>C23: One run of the interrupt handler serves exactly the GPIOs whose interrupt is pending, enabled and mapped
  to a number, whatever their handlers do to anything but the interrupt registers, and it claims the
  interrupt exactly if it has served one.\<close>

theorem rts_irq_handler_serves:
  assumes "pads_ok P" and "\<And>sc a i t. sc \<in> set pincfgaddr \<Longrightarrow> a \<in> irq_regs sc \<Longrightarrow> pad_rd P a (pads (handle i t)) = pad_rd P a (pads t)"
    and "rts_irq_handler P revmap handle s = (handled, tr, s')"
  shows "set tr = {g. revmap g \<noteq> 0 \<and> irq_due P s g} \<and> (handled \<longleftrightarrow> (\<exists>g. revmap g \<noteq> 0 \<and> irq_due P s g))"
proof -
  have "distinct pincfgaddr" by (simp add: pincfgaddr_def)
  then have "set (fst (irq_blocks P revmap handle pincfgaddr s)) =
      {g. revmap g \<noteq> 0 \<and> irq_due P s g \<and> (\<exists>sc \<in> set pincfgaddr. rts_get_pinaddr (int g) = Some sc)}"
    using irq_blocks_trace [OF assms(1), of handle pincfgaddr revmap s] assms(2) by blast
  moreover have "irq_due P s g \<Longrightarrow> \<exists>sc \<in> set pincfgaddr. rts_get_pinaddr (int g) = Some sc" for g
    by (auto simp: irq_due_def get_pinaddr_iff split: option.splits)
  moreover have h: "fst (irq_blocks P revmap handle pincfgaddr s) = tr" "handled \<longleftrightarrow> tr \<noteq> []"
    using assms(3) by (auto simp: rts_irq_handler_def split: prod.splits)
  ultimately have "set tr = {g. revmap g \<noteq> 0 \<and> irq_due P s g}" by blast
  moreover have "handled \<longleftrightarrow> set tr \<noteq> {}" using h(2) by simp
  ultimately show ?thesis by auto
qed

text \<open>GPIO 20 is bit 0 of its block.\<close>

lemma rts_irq_handler_serves_witness:
  "20 \<in> set (fst (snd (rts_irq_handler mem_port Suc (\<lambda>i s. s) (mem_rts\<lparr>pads := (\<lambda>_. 1)\<rparr>))))"
proof -
  let ?s = "mem_rts\<lparr>pads := (\<lambda>_. 1)\<rparr>"
  obtain handled tr s' where "rts_irq_handler mem_port Suc (\<lambda>i s. s) ?s = (handled, tr, s')" by (metis prod_cases3)
  moreover have "irq_due mem_port ?s 20"
    by (simp add: irq_due_def rts_get_pinaddr_def pincfgaddr_def mem_port_def)
  ultimately show ?thesis using rts_irq_handler_serves [OF mem_port_ok, of "\<lambda>i s. s" Suc ?s handled tr s'] by simp
qed

text \<open>C25: Disabling the interrupt of a GPIO clears the wrong bits: it uses the GPIO number in place of the
  position in the block.  Only GPIOs below 16 are disabled; for those from 16 to 27 both enable bits
  stay as they are, and from 28 on the code shifts by more than the width of the register.  Setting
  the wake mode of a GPIO interrupt never returns, because the lock is taken twice.\<close>

theorem rts_irq_disable_wrong_bits:
  assumes "pads_ok P" and "rts_get_pinaddr (int g) = Some sc" and "\<not> irq_locked s" and "rts_gpio_irq_disable P g s = Some s'"
  defines "en t \<equiv> pad_rd P (pinaddr sc + pr_gpio_int_en) (pads t)" and "bf \<equiv> nat (int g - pinl sc)"
  shows "(g < 16 \<longrightarrow> \<not> bit (en s') bf \<and> \<not> bit (en s') (bf + block_width sc))
    \<and> (16 \<le> g \<and> g < 28 \<longrightarrow> bit (en s') bf = bit (en s) bf \<and> bit (en s') (bf + block_width sc) = bit (en s) (bf + block_width sc))
    \<and> (28 \<le> g \<longrightarrow> rts_fault s')
    \<and> rts_gpio_irq_set_wake P g on s = None"
proof -
  have sc: "sc \<in> set pincfgaddr" "pinl sc \<le> int g" "int g \<le> pinh sc" using assms(2) by (simp_all add: get_pinaddr_iff)
  have plain: "pinaddr sc + pr_gpio_int_en \<notin> special_regs" using plain_reg [OF sc(1)] by simp
  have g89: "int g < RTS_MAX_NGPIO" using block_shape(3) [OF sc(1)] sc(3) by (simp add: RTS_MAX_NGPIO_def)
  have s': "s' = (rts_clr_reg_bit P (g + block_width sc) (pinaddr sc + pr_gpio_int_en)
      (rts_clr_reg_bit P g (pinaddr sc + pr_gpio_int_en) (s\<lparr>irq_locked := True\<rparr>)))\<lparr>irq_locked := False\<rparr>"
    using assms(3,4) g89 by (simp add: rts_gpio_irq_disable_def assms(2) with_irq_lock_def Let_def)
  have low: "bit (en s') n \<longleftrightarrow> bit (en s) n \<and> n \<noteq> g \<and> n \<noteq> g + block_width sc" if "g + block_width sc < 32" "n < 32" for n
    using that plain assms(1)
    by (simp add: s' en_def rts_clr_reg_bit_def rd_writel_same bit_and_iff bit_not_iff regs_simps)
  have shape: "list_all (\<lambda>sc. (pinl sc = 0 \<and> pinh sc = 15 \<and> block_width sc = 16 \<or> 16 \<le> pinl sc) \<and> (pinh sc \<le> 31 \<longrightarrow> pinl sc = 0 \<or> block_width sc = 4))
      pincfgaddr" by (simp add: pincfgaddr_def block_width_def)
  have w: "pinl sc = 0 \<and> pinh sc = 15 \<and> block_width sc = 16 \<or> 16 \<le> pinl sc" "pinh sc \<le> 31 \<Longrightarrow> pinl sc = 0 \<or> block_width sc = 4"
    using shape sc(1) by (auto simp only: list_all_iff)
  have w4: "4 \<le> block_width sc" by (simp add: block_width_def Let_def)
  have mid: "block_width sc = 4 \<and> bf < 4" if "16 \<le> g" "g < 28"
  proof -
    have "list_all (\<lambda>sc. 28 \<le> pinl sc \<or> pinh sc \<le> 31) pincfgaddr" by (simp add: pincfgaddr_def)
    then have "pinh sc \<le> 31" using sc that by (auto simp: list_all_iff)
    then have "block_width sc = 4" using w that sc by auto
    then show ?thesis using block_shape(4) [OF sc(1)] sc(3) by (auto simp: bf_def)
  qed
  have "rts_gpio_irq_set_wake P g on s = None"
    using assms(3) by (simp add: rts_gpio_irq_set_wake_def rts_gpio_irq_enable_def rts_gpio_irq_disable_def assms(2) with_irq_lock_def Let_def)
  moreover have "\<not> bit (en s') bf \<and> \<not> bit (en s') (bf + block_width sc)" if "g < 16"
    using low [of bf] low [of "bf + block_width sc"] w(1) that sc by (auto simp: bf_def)
  moreover have "bit (en s') bf = bit (en s) bf \<and> bit (en s') (bf + block_width sc) = bit (en s) (bf + block_width sc)" if "16 \<le> g" "g < 28"
    using mid [OF that] that low [of bf] low [of "bf + block_width sc"] by auto
  moreover have "rts_fault s'" if "28 \<le> g"
    using that w4 by (simp add: s' rts_clr_reg_bit_def)
  ultimately show ?thesis by blast
qed

lemma rts_irq_disable_wrong_bits_witness:
  "case rts_gpio_irq_disable mem_port 20 (mem_rts\<lparr>pads := (\<lambda>_. 1)\<rparr>) of
     None \<Rightarrow> False
   | Some s' \<Rightarrow> bit (pad_rd mem_port (UART1_GPIO_OE + pr_gpio_int_en) (pads s')) 0"
proof -
  let ?s = "mem_rts\<lparr>pads := (\<lambda>_. 1)\<rparr>"
  have b: "rts_get_pinaddr (int 20) = Some \<lparr>pinl = 20, pinh = 21, pint = GPIO_TYPE_UART1, pinaddr = UART1_GPIO_OE\<rparr>"
    by (simp add: rts_get_pinaddr_def pincfgaddr_def)
  obtain s' where s': "rts_gpio_irq_disable mem_port 20 ?s = Some s'"
    by (simp add: rts_gpio_irq_disable_def b [simplified] with_irq_lock_def mem_rts_def Let_def)
  have "\<not> irq_locked ?s" by (simp add: mem_rts_def)
  from rts_irq_disable_wrong_bits [OF mem_port_ok b this s'] s' show ?thesis by (simp add: mem_port_def)
qed

section \<open>Probe and remove\<close>

text \<open>C0: A probe that fails gives back its memory, mapping and GPIO chip, but an interrupt handler that it has
  installed, and a pin controller that it has registered, stay, with freed data; a probe that is
  told an error by \<open>pinctrl_register\<close> succeeds and keeps the error pointer as its controller; and
  removing the device after a successful probe gives everything back.\<close>

theorem rts_pinctrl_probe_resources:
  assumes "rts_pinctrl_probe P pf h = (err, r, h')"
  shows "(err \<noteq> 0 \<longrightarrow> \<not> has_rtspc r \<and> \<not> has_irq_type r \<and> \<not> has_map r \<and> \<not> has_gpiochip r)
    \<and> (err \<noteq> 0 \<and> alloc_rtspc pf \<and> alloc_irq_type pf \<and> mem_resource pf \<and> \<not> remap_ret pf < 0 \<and> \<not> get_irq_ret pf < 0 \<and> domain_ok pf
         \<and> request_irq_ret pf = 0 \<longrightarrow> has_irq r)
    \<and> (err \<noteq> 0 \<and> gpiochip_ret pf = 0 \<and> has_irq r \<longrightarrow> has_pinctrl r = pinctrl_ret pf \<and> pin_range_ret pf = err)
    \<and> (err = 0 \<and> pinctrl_ret pf \<noteq> None \<longrightarrow> has_pinctrl r = pinctrl_ret pf \<and> has_irq r \<and> has_gpiochip r \<and> rts_pinctrl_remove r = nothing_held)"
  using assms
  by (auto simp: rts_pinctrl_probe_def Let_def nothing_held_def free_rtspc_def free_irqtype_def unmap_res_def remove_gpiochip_def
      rts_pinctrl_remove_def split: if_splits)

lemma rts_pinctrl_probe_resources_witness:
  "has_irq (fst (snd (rts_pinctrl_probe mem_port
     \<lparr>alloc_rtspc = True, gpio_numbers_prop = None, alloc_irq_type = True, mem_resource = True, remap_ret = 0, led_mapping = None,
      get_irq_ret = 7, domain_ok = True, request_irq_ret = 0, gpiochip_ret = - EBUSY, pinctrl_ret = None, pin_range_ret = 0\<rparr> (\<lambda>_. 0))))"
proof -
  let ?pf = "\<lparr>alloc_rtspc = True, gpio_numbers_prop = None, alloc_irq_type = True, mem_resource = True, remap_ret = 0, led_mapping = None,
      get_irq_ret = 7, domain_ok = True, request_irq_ret = 0, gpiochip_ret = - EBUSY, pinctrl_ret = None, pin_range_ret = 0\<rparr>"
  obtain err r h' where p: "rts_pinctrl_probe mem_port ?pf (\<lambda>_. 0) = (err, r, h')" by (metis prod_cases3)
  have "err = - EBUSY" using p by (simp add: rts_pinctrl_probe_def Let_def)
  with rts_pinctrl_probe_resources [OF p] p show ?thesis by simp
qed

section \<open>A GPIO from the request to the pad\<close>

text \<open>Controller \<open>c\<close> runs this driver, and the GPIO number belongs to its range over all pins.\<close>

definition rts_range :: "string \<Rightarrow> pinctrl_gpio_range" where
  "rts_range nm = \<lparr>range_name = nm, range_base = 0, range_npins = 89, range_pin_base = 0, range_pins = None\<rparr>"

definition serves :: "'b pad_port \<Rightarrow> nat \<Rightarrow> nat \<Rightarrow> 'b rts_pinctrl pinctrl_world \<Rightarrow> bool" where
  "serves P c g w \<longleftrightarrow> (\<exists>k nm. controllers w c = Some k \<and> desc k = rts_pinctrl_desc P \<and> g < 89
     \<and> gpio_range_loop (pinctrldev_list w) (of_nat g) w = Some (c, rts_range nm))"

lemma range_pin: "g < 89 \<Longrightarrow> gpio_to_pin (rts_range nm) (of_nat g) = int g"
  by (simp add: gpio_to_pin_def rts_range_def Let_def signed_of_nat signed_take_bit_int_eq_self)

lemma rts_range_name [simp]: "range_name (rts_range nm) = nm"
  by (simp add: rts_range_def)

lemma on_rts_serves [simp]: "serves P c g (on_rts c f w) = serves P c g w"
proof -
  have "gpio_range_loop cs x (on_rts c f w) = gpio_range_loop cs x w" for cs x
    by (rule range_loop_cong) (auto simp: on_rts_def upd_ctl_def ctl_at_def map_option_case split: option.split)
  then show ?thesis by (auto simp: serves_def on_rts_def upd_ctl_def)
qed

lemma on_rts_at [simp]: "serves P c g w \<Longrightarrow> rts_at c (on_rts c f w) = f (rts_at c w)"
  by (auto simp: serves_def rts_at_def on_rts_def upd_ctl_def ctl_at_def)

text \<open>A granted request marks the pin in the mask; a direction sets the output enable bit.\<close>

lemma rts_request_granted:
  assumes "serves P c g w" and "pinctrl_gpio_request e (of_nat g) w = (0, w')" and "wroom 1 w"
  shows "serves P c g w'" and "rts_pmx_request (int g) (rts_at c w) = (0, rts_at c w')"
proof -
  obtain k nm where k: "controllers w c = Some k" "desc k = rts_pinctrl_desc P" "g < 89"
    "gpio_range_loop (pinctrldev_list w) (of_nat g) w = Some (c, rts_range nm)"
    using assms(1) by (auto simp: serves_def)
  obtain ok w1 where kz: "kzalloc w = (ok, w1)" by force
  have w1: "controllers w1 = controllers w" "pinctrldev_list w1 = pinctrldev_list w"
    using kz by (auto simp: kzalloc_def split: list.splits)
  let ?req = "\<lambda>k :: 'a rts_pinctrl controller. pinmux_request_gpio (mux_of k) (if ok then Some (gpio_label e nm (of_nat g)) else None)
                           nm (int g) (pctl k)"
  have run: "run_ctl c ?req w1 = (0, w')" using assms(2) k kz
    by (cases ok) (simp_all add: pinctrl_gpio_request_def with_gpio_def pinctrl_get_device_gpio_range_def range_pin)
  then obtain s where s: "?req k = (0, s)" and w': "w' = w1\<lparr>controllers := (controllers w1)(c \<mapsto> k\<lparr>pctl := s\<rparr>)\<rparr>"
    using k w1 by (auto simp: run_ctl_def split: prod.splits)
  have "gpio_range_loop cs x w' = gpio_range_loop cs x w" for cs x
    using run_ctl_ranges [of cs x c ?req w1] run range_loop_cong [of cs w1 w x] w1 by (simp add: ctl_at_def)
  then show "serves P c g w'" using k w1 by (auto simp: serves_def w')
  have ops: "mux_of k = rts_pmx_ops P" by (simp add: mux_of_def k(2) rts_pinctrl_desc_def)
  have "pin_room (strict (mux_of k)) (Suc 0) (pctl k)" using assms(3) k(1) by (simp add: wroom_def)
  moreover obtain own where "pin_request (rts_pmx_ops P) (int g) own (Some nm) (pctl k) = (0, s)"
    using s by (auto simp: pinmux_request_gpio_def ops split: if_splits)
  ultimately show "rts_pmx_request (int g) (rts_at c w) = (0, rts_at c w')"
    using k(1) w1 unfolding ops
    by (elim pin_request_cases [rotated]) (auto simp: rts_at_def ctl_at_def w' ask_driver_def)
qed

lemma rts_direction:
  assumes "serves P c g w" and "pinctrl_gpio_direction_output (of_nat g) w = (r, w')"
  shows "r = 0" and "rts_at c w' = snd (rts_gpio_config_set P (int g) RTS_PINCONFIG_OUTPUT 0 (rts_at c w))"
  using assms
  by (auto simp: serves_def pinctrl_gpio_direction_output_def pinctrl_gpio_direction_def with_gpio_def pinctrl_get_device_gpio_range_def
      range_pin run_ctl_def pinmux_gpio_direction_def mux_of_def rts_pinctrl_desc_def rts_pmx_gpio_set_direction_def rts_at_def ctl_at_def
      split: prod.splits)

lemma output_config:
  assumes "pads_ok P" and "rts_get_pinaddr (int g) = Some sc" and "q \<in> set pincfgaddr"
  shows "pad_rd P (pinaddr q + pr_gpio_value) (pads (snd (rts_gpio_config_set P (int g) RTS_PINCONFIG_OUTPUT 0 s))) =
      pad_rd P (pinaddr q + pr_gpio_value) (pads s)"
    and "bit (pad_rd P (pinaddr sc + pr_gpio_oe) (pads (snd (rts_gpio_config_set P (int g) RTS_PINCONFIG_OUTPUT 0 s)))) (nat (int g - pinl sc))"
    and "shadow x (snd (rts_gpio_config_set P (int g) RTS_PINCONFIG_OUTPUT 0 s)) = shadow x s"
proof -
  have sc: "sc \<in> set pincfgaddr" "pinl sc \<le> int g" "int g \<le> pinh sc" using assms(2) by (simp_all add: get_pinaddr_iff)
  have "int g < RTS_MAX_NGPIO" using block_shape(3) [OF sc(1)] sc(3) by (simp add: RTS_MAX_NGPIO_def)
  then have run: "snd (rts_gpio_config_set P (int g) RTS_PINCONFIG_OUTPUT 0 s) =
      rts_gpio_set_field P (pinaddr sc + pr_gpio_oe) 1 1 (nat (int g - pinl sc)) s"
    by (simp add: rts_gpio_config_set_def with_block_def assms(2))
  have "pinaddr q + pr_gpio_value \<noteq> pinaddr sc + pr_gpio_oe"
    using reg_apart [OF assms(3) sc(1), of pr_gpio_value pr_gpio_oe] by (simp add: pinregs_defs)
  then show "pad_rd P (pinaddr q + pr_gpio_value) (pads (snd (rts_gpio_config_set P (int g) RTS_PINCONFIG_OUTPUT 0 s))) =
      pad_rd P (pinaddr q + pr_gpio_value) (pads s)" unfolding run rts_gpio_set_field_def by (rule rd_writel_other [OF assms(1)])
  have "nat (int g - pinl sc) < 32" using block_shape(4,5) [OF sc(1)] sc(3) by auto
  then show "bit (pad_rd P (pinaddr sc + pr_gpio_oe) (pads (snd (rts_gpio_config_set P (int g) RTS_PINCONFIG_OUTPUT 0 s)))) (nat (int g - pinl sc))"
    unfolding run rts_gpio_set_field_def
    using plain_reg [OF sc(1), of pr_gpio_oe] by (simp add: rd_writel_same [OF assms(1)] bit_SETFIELD)
  show "shadow x (snd (rts_gpio_config_set P (int g) RTS_PINCONFIG_OUTPUT 0 s)) = shadow x s"
    unfolding run by (simp add: shadow_def rts_gpio_set_field_def)
qed

lemma gpio_masks [simp]:
  "pinsmask (rts_gpio_set P q high s) = pinsmask s" "pinsmask (rts_gpio_enable P q s) = pinsmask s"
proof -
  show "pinsmask (rts_gpio_set P q high s) = pinsmask s"
    by (simp add: rts_gpio_set_def with_block_def rts_set_reg_bit_def rts_clr_reg_bit_def Let_def split: option.split)
  show "pinsmask (rts_gpio_enable P q s) = pinsmask s"
  proof (cases "rts_get_pinaddr q")
    case (Some sc)
    then show ?thesis by (cases "pint sc") (simp_all add: rts_gpio_enable_def with_block_def rts_gpio_set_field_def Let_def)
  qed (simp add: rts_gpio_enable_def with_block_def)
qed

text \<open>C20: Requesting a GPIO and making it an output, through the GPIO chip, the pin control core and the driver:
  once the request is granted the direction call succeeds, the pin drives the value asked for, which
  reads back, it is an output, and its bit in the mask of used pins, which was clear, is set.\<close>

theorem rts_gpio_output:
  assumes "pads_ok P" and "serves P c g w" and "wroom 1 w"
    and "rts_gpio_request P e c g w = (0, w1)" and "rts_gpio_direction_output P c g high w1 = (r, w2)"
  shows "r = 0 \<and> rts_gpio_get P (int g) (rts_at c w2) = Some (if high then 1 else 0) \<and> readable P (int g) (rts_at c w2)
     \<and> \<not> held (rts_at c w) (int g) \<and> held (rts_at c w2) (int g)"
proof -
  obtain w0 where rq: "pinctrl_gpio_request e (of_nat g) w = (0, w0)"
    and w1: "w1 = on_rts c (rts_gpio_enable P (int g)) w0"
    using assms(4) by (auto simp: rts_gpio_request_def chip_base_def split: prod.splits if_splits)
  note s0 = rts_request_granted [OF assms(2) rq assms(3)]
  have g: "int g < 89" using assms(2) by (auto simp: serves_def)
  obtain sc where sc: "rts_get_pinaddr (int g) = Some sc" using has_block [of "int g"] g by auto
  let ?t = "rts_gpio_set P (int g) high (rts_gpio_enable P (int g) (rts_at c w0))"
  have "serves P c g (on_rts c (rts_gpio_set P (int g) high) w1)" using s0(1) by (simp add: w1)
  note dir = rts_direction [OF this assms(5) [unfolded rts_gpio_direction_output_def chip_base_def add_0]]
  have at2: "rts_at c w2 = snd (rts_gpio_config_set P (int g) RTS_PINCONFIG_OUTPUT 0 ?t)"
    using dir(2) s0(1) by (simp add: w1)
  have "sc \<in> set pincfgaddr" using sc by (simp add: get_pinaddr_iff)
  note oc = output_config [OF assms(1) sc this, where s = ?t]
  have "gpio_bit P (int g) ?t = high" using set_gpio_bit [OF assms(1) _ sc] sc by simp
  then have bit: "gpio_bit P (int g) (rts_at c w2) = high"
    unfolding at2 by (simp add: gpio_bit_def sc oc(1,3) Let_def split: option.splits)
  have readable: "readable P (int g) (rts_at c w2)" unfolding at2 readable_def using oc(2) by (simp add: sc)
  have "pinsmask (rts_at c w2) = pinsmask (rts_at c w0)"
    unfolding at2 by simp
  then have "held (rts_at c w2) (int g) \<longleftrightarrow> held (rts_at c w0) (int g)" by (simp add: held_def)
  then show ?thesis
    using dir(1) gpio_get_readable [OF readable] bit readable rts_request_held [OF _ _ s0(2)] g by simp
qed

definition mem_world :: "(nat \<Rightarrow> u32) rts_pinctrl pinctrl_world" where
  "mem_world = \<lparr>controllers = [0 \<mapsto> \<lparr>pctl = mem_ctl, ctl_dev = demo_uart, desc = rts_pinctrl_desc mem_port,
       gpio_ranges = [rts_range ''gpio''], hog = None, hog_default = None, hog_sleep = None\<rparr>],
     pinctrldev_list = [0], handles = Map.empty, pinctrl_list = [], pinctrl_maps = [], pinctrl_dummy_state = False, links = [],
     next_addr = 200, mem = []\<rparr>"

definition mem_env :: "(nat \<Rightarrow> u32) rts_pinctrl pinctrl_env" where
  "mem_env = \<lparr>dt_to_map = (\<lambda>d c w. (0, w)), dt_free_maps = (\<lambda>d w. w), pinconf_map_to_setting = (\<lambda>m k. (- EINVAL, 0, [])),
     pinconf_apply_setting = (\<lambda>t x h. (0, h)), pinconf_validate_map = (\<lambda>m. 0), pinconf_check_ops = (\<lambda>d. 0),
     pinconf_set_config = (\<lambda>p cs h. (0, h)), gpio_to_chip = (\<lambda>g. None), pin_label = (\<lambda>p. ''PIN''), gpio_label = (\<lambda>n g. n)\<rparr>"

text \<open>GPIO 66 lies in a shadowed block.\<close>

lemma rts_gpio_output_witness:
  "\<exists>w1 w2. rts_gpio_request mem_port mem_env 0 66 mem_world = (0, w1) \<and> rts_gpio_direction_output mem_port 0 66 True w1 = (0, w2)
     \<and> rts_gpio_get mem_port 66 (rts_at 0 w2) = Some 1"
proof -
  have serves: "serves mem_port 0 66 mem_world"
    by (simp add: serves_def mem_world_def ctl_at_def pinctrl_match_gpio_range_def rts_range_def)
  have room: "wroom 1 mem_world"
    by (auto simp: wroom_def mem_world_def pin_room_def no_wrap_def mem_ctl_def demo_pin_def pin_ok_def split: if_splits)
  have "fst (pinctrl_gpio_request mem_env 66 mem_world) = 0"
    by (simp add: pinctrl_gpio_request_def with_gpio_def pinctrl_get_device_gpio_range_def mem_world_def ctl_at_def
        pinctrl_match_gpio_range_def rts_range_def gpio_to_pin_def kzalloc_def run_ctl_def mux_of_def rts_pinctrl_desc_def
        pinmux_request_gpio_def mux_run_defs mem_ctl_def demo_pin_def rts_pmx_request_def mem_rts_def mem_env_def)
  then obtain w0 where "pinctrl_gpio_request mem_env 66 mem_world = (0, w0)" by (metis prod.collapse)
  then obtain w1 where w1: "rts_gpio_request mem_port mem_env 0 66 mem_world = (0, w1)"
    by (simp add: rts_gpio_request_def chip_base_def)
  obtain r w2 where w2: "rts_gpio_direction_output mem_port 0 66 True w1 = (r, w2)" by force
  from rts_gpio_output [OF mem_port_ok serves room w1 w2] show ?thesis using w1 w2 by auto
qed

end
