(* ===== verification/Rtc_Types.thy ===== *)
theory Rtc_Types
  imports Prelude "HOL-Library.Multiset"
begin

text \<open>
  Data of the RTC subsystem (\<open>include/linux/rtc.h\<close>): times, alarms, timers, the table of driver
  callbacks and the class device.

  Seconds and nanoseconds are \<open>time64_t\<close> and \<open>ktime_t\<close> values: integers on which the wrap-around
  of 64-bit arithmetic and the conversions between signed and unsigned are written out
  (\<open>s64\<close>, \<open>u64_of\<close>).  Calendar arithmetic (\<open>drivers/rtc/lib.c\<close>) and the timer queue
  (\<open>lib/timerqueue.c\<close>) are not part of the repository: they are the fields of \<open>rtc_env\<close>, and what
  is relied on is stated in \<open>rtc_lib_ok\<close> and \<open>timerqueue_ok\<close>.  The queue itself is the list of
  the timers in the order in which it is traversed.  The emulation of update interrupts
  (\<open>CONFIG_RTC_INTF_DEV_UIE_EMUL\<close>) is not configured.
\<close>

section \<open>64-bit arithmetic\<close>

definition s64 :: "int \<Rightarrow> int" where
  "s64 x = (x + 2 ^ 63) mod 2 ^ 64 - 2 ^ 63"

definition u64_of :: "int \<Rightarrow> int" where
  "u64_of x = x mod 2 ^ 64"

lemma s64_id [simp]: "- (2 ^ 63) \<le> x \<Longrightarrow> x < 2 ^ 63 \<Longrightarrow> s64 x = x"
  by (simp add: s64_def)

lemma u64_of_id [simp]: "0 \<le> x \<Longrightarrow> x < 2 ^ 64 \<Longrightarrow> u64_of x = x"
  by (simp add: u64_of_def)

lemma s64_range: "- (2 ^ 63) \<le> s64 x" "s64 x < 2 ^ 63"
  using pos_mod_bound [of "2 ^ 64" "x + 2 ^ 63"] pos_mod_sign [of "2 ^ 64" "x + 2 ^ 63"]
  by (simp_all add: s64_def)

lemma u64_of_neg: "- (2 ^ 63) \<le> x \<Longrightarrow> x < 0 \<Longrightarrow> u64_of x = x + 2 ^ 64"
  unfolding u64_of_def by (simp add: mod_pos_neg_trivial mod_add_self2 [symmetric, of x] del: mod_add_self2)

abbreviation (input) NSEC_PER_SEC :: int where "NSEC_PER_SEC \<equiv> 1000000000"

section \<open>Times, alarms and timers\<close>

record rtc_time =
  tm_sec :: int
  tm_min :: int
  tm_hour :: int
  tm_mday :: int
  tm_mon :: int
  tm_year :: int
  tm_wday :: int
  tm_yday :: int
  tm_isdst :: int

definition const_tm :: "int \<Rightarrow> rtc_time" where
  "const_tm v = \<lparr>tm_sec = v, tm_min = v, tm_hour = v, tm_mday = v, tm_mon = v, tm_year = v, tm_wday = v,
     tm_yday = v, tm_isdst = v\<rparr>"

record rtc_wkalrm =
  wk_enabled :: int
  wk_pending :: int
  wk_time :: rtc_time

text \<open>The callback of a timer: the two of the subsystem, or one of another part of the kernel.\<close>

datatype timer_func = Aie_update_irq | Uie_update_irq | Other_func nat

record rtc_timer =
  expires :: int
  period :: int
  tfunc :: "timer_func option"
  enabled :: int

record 'h rtc_class_ops =
  read_time :: "('h \<Rightarrow> rtc_time \<Rightarrow> int \<times> rtc_time \<times> 'h) option"
  set_time :: "('h \<Rightarrow> rtc_time \<Rightarrow> int \<times> 'h) option"
  read_alarm :: "('h \<Rightarrow> rtc_wkalrm \<Rightarrow> int \<times> rtc_wkalrm \<times> 'h) option"
  set_alarm :: "('h \<Rightarrow> rtc_wkalrm \<Rightarrow> int \<times> 'h) option"
  alarm_irq_enable :: "('h \<Rightarrow> int \<Rightarrow> int \<times> 'h) option"
  read_offset :: "('h \<Rightarrow> int \<Rightarrow> int \<times> int \<times> 'h) option"
  set_offset :: "('h \<Rightarrow> int \<Rightarrow> int \<times> 'h) option"

text \<open>The class device.  \<open>timers\<close> holds every timer by an identifier (the alarm timer and the
  update timer are two of them), \<open>irqwork\<close> and \<open>awake\<close> are the pending work and the wake-up
  source, \<open>intr\<close> are the outcomes of the coming interruptible lock acquisitions (a signal makes
  one fail; when the list is exhausted they succeed), \<open>fired\<close> is the trace of the timer callbacks
  into other parts of the kernel, and \<open>dev\<close> is the state of the driver and its hardware.\<close>

record 'h rtc_device =
  ops :: "'h rtc_class_ops option"
  irq_data :: u32
  irq_freq :: int
  max_user_freq :: int
  timerqueue :: "nat list"
  timers :: "nat \<Rightarrow> rtc_timer"
  pie_timer :: "int option"
  pie_enabled :: int
  irqwork :: bool
  awake :: bool
  uie_unsupported :: bool
  set_offset_nsec :: int
  registered :: bool
  range_min :: int
  range_max :: int
  start_secs :: int
  offset_secs :: int
  set_start_time :: bool
  intr :: "int list"
  fired :: "nat list"
  dev :: 'h

definition aie_timer :: nat where "aie_timer = 0"
definition uie_rtctimer :: nat where "uie_rtctimer = 1"

definition set_timer :: "nat \<Rightarrow> rtc_timer \<Rightarrow> 'h rtc_device \<Rightarrow> 'h rtc_device" where
  "set_timer t x r = r\<lparr>timers := (timers r)(t := x)\<rparr>"

section \<open>Code outside the repository\<close>

record rtc_env =
  rtc_tm_to_time64 :: "rtc_time \<Rightarrow> int"
  rtc_time64_to_tm :: "int \<Rightarrow> rtc_time"
  rtc_valid_tm :: "rtc_time \<Rightarrow> int"
  rtc_month_days :: "int \<Rightarrow> int \<Rightarrow> int"
  rtc_tm_to_ktime :: "rtc_time \<Rightarrow> int"
  rtc_ktime_to_tm :: "int \<Rightarrow> rtc_time"
  timerqueue_add :: "(nat \<Rightarrow> int) \<Rightarrow> nat \<Rightarrow> nat list \<Rightarrow> nat list"
  stack_tm :: rtc_time

text \<open>Conversions between calendar time and seconds are inverse from 1970 on (the bound is beyond the
  year 30000), times in nanoseconds are the seconds times \<open>10 ^ 9\<close> while they fit, and a time in
  nanoseconds is rounded up to a calendar time.\<close>

definition rtc_lib_ok :: "rtc_env \<Rightarrow> bool" where
  "rtc_lib_ok e \<longleftrightarrow>
     (\<forall>t. 0 \<le> t \<and> t < 2 ^ 40 \<longrightarrow> rtc_tm_to_time64 e (rtc_time64_to_tm e t) = t \<and> rtc_valid_tm e (rtc_time64_to_tm e t) = 0) \<and>
     (\<forall>t. 0 \<le> t \<and> t < 2 ^ 33 \<longrightarrow> rtc_tm_to_ktime e (rtc_time64_to_tm e t) = t * NSEC_PER_SEC) \<and>
     (\<forall>k. 0 \<le> k \<and> k < 2 ^ 63 \<longrightarrow> rtc_ktime_to_tm e k = rtc_time64_to_tm e ((k + 999999999) div NSEC_PER_SEC))"

text \<open>Adding a timer keeps the queue ordered by expiry.\<close>

definition timerqueue_ok :: "rtc_env \<Rightarrow> bool" where
  "timerqueue_ok e \<longleftrightarrow> (\<forall>key t q. sorted (map key q) \<longrightarrow>
     sorted (map key (timerqueue_add e key t q)) \<and> mset (timerqueue_add e key t q) = add_mset t (mset q))"

end
