(* ===== verification/Rtc_Time.thy ===== *)
theory Rtc_Time
  imports Rtc_Types
begin

text \<open>
  Reading and setting time and alarm through the driver callbacks (\<open>drivers/rtc/interface.c\<close>) and
  the range expansion: \<open>rtc_device_get_offset\<close> of \<open>drivers/rtc/class.c\<close> chooses the offset, and
  \<open>rtc_add_offset\<close>, \<open>rtc_subtract_offset\<close> and \<open>rtc_valid_range\<close> apply it.
\<close>

section \<open>The range expansion\<close>

definition rtc_add_offset :: "rtc_env \<Rightarrow> 'h rtc_device \<Rightarrow> rtc_time \<Rightarrow> rtc_time" where
  "rtc_add_offset e r tm =
     (if offset_secs r = 0 then tm
      else let secs = rtc_tm_to_time64 e tm in
        if (start_secs r > range_min r \<and> secs \<ge> start_secs r) \<or>
           (start_secs r < range_min r \<and> u64_of secs \<le> u64_of (start_secs r + range_max r - range_min r))
        then tm else rtc_time64_to_tm e (s64 (secs + offset_secs r)))"

definition rtc_subtract_offset :: "rtc_env \<Rightarrow> 'h rtc_device \<Rightarrow> rtc_time \<Rightarrow> rtc_time" where
  "rtc_subtract_offset e r tm =
     (if offset_secs r = 0 then tm
      else let secs = rtc_tm_to_time64 e tm in
        if secs \<ge> range_min r \<and> u64_of secs \<le> range_max r then tm
        else rtc_time64_to_tm e (s64 (secs - offset_secs r)))"

definition rtc_valid_range :: "rtc_env \<Rightarrow> 'h rtc_device \<Rightarrow> rtc_time \<Rightarrow> int" where
  "rtc_valid_range e r tm =
     (if u64_of (range_min r) \<noteq> range_max r then
        let time = rtc_tm_to_time64 e tm;
            rmin = (if set_start_time r then start_secs r else range_min r);
            rmax = (if set_start_time r then s64 (start_secs r + range_max r - range_min r) else s64 (range_max r))
        in if time < rmin \<or> time > rmax then - ERANGE else 0
      else 0)"

text \<open>\<open>start_year\<close> is the result of reading the device property, \<open>mktime64\<close> the library function.\<close>

definition rtc_device_get_offset :: "(int \<Rightarrow> int) \<Rightarrow> int option \<Rightarrow> 'h rtc_device \<Rightarrow> 'h rtc_device" where
  "rtc_device_get_offset mktime64 start_year r =
     (if u64_of (range_min r) = range_max r then r
      else let r1 = (case start_year of None \<Rightarrow> r | Some y \<Rightarrow> r\<lparr>start_secs := mktime64 y, set_start_time := True\<rparr>)
        in if \<not> set_start_time r1 then r1
           else let range_secs = s64 (range_max r1 - range_min r1 + 1) in
             if u64_of (start_secs r1) > range_max r1 \<or> s64 (start_secs r1 + range_secs - 1) < range_min r1
             then r1\<lparr>offset_secs := s64 (start_secs r1 - range_min r1)\<rparr>
             else if start_secs r1 > range_min r1 then r1\<lparr>offset_secs := range_secs\<rparr>
             else if start_secs r1 < range_min r1 then r1\<lparr>offset_secs := s64 (- range_secs)\<rparr>
             else r1\<lparr>offset_secs := 0\<rparr>)"

section \<open>Locking\<close>

definition mutex_lock_interruptible :: "'h rtc_device \<Rightarrow> int \<times> 'h rtc_device" where
  "mutex_lock_interruptible r = (case intr r of [] \<Rightarrow> (0, r) | x # xs \<Rightarrow> (x, r\<lparr>intr := xs\<rparr>))"

section \<open>Reading the time\<close>

definition do_rtc_read_time :: "rtc_env \<Rightarrow> rtc_time \<Rightarrow> 'h rtc_device \<Rightarrow> int \<times> rtc_time \<times> 'h rtc_device" where
  "do_rtc_read_time e tm r = (case ops r of None \<Rightarrow> (- ENODEV, tm, r)
   | Some o1 \<Rightarrow> (case read_time o1 of None \<Rightarrow> (- EINVAL, tm, r)
     | Some f \<Rightarrow> (case f (dev r) (const_tm 0) of (err, tm1, h) \<Rightarrow>
         if err < 0 then (err, tm1, r\<lparr>dev := h\<rparr>)
         else let tm2 = rtc_add_offset e r tm1 in (rtc_valid_tm e tm2, tm2, r\<lparr>dev := h\<rparr>))))"

definition rtc_read_time :: "rtc_env \<Rightarrow> rtc_time \<Rightarrow> 'h rtc_device \<Rightarrow> int \<times> rtc_time \<times> 'h rtc_device" where
  "rtc_read_time e tm r = (case mutex_lock_interruptible r of (err, r1) \<Rightarrow>
     if err \<noteq> 0 then (err, tm, r1) else do_rtc_read_time e tm r1)"

section \<open>Reading the alarm of the hardware\<close>

definition rtc_read_alarm_internal ::
    "rtc_env \<Rightarrow> rtc_wkalrm \<Rightarrow> 'h rtc_device \<Rightarrow> int \<times> rtc_wkalrm \<times> 'h rtc_device" where
  "rtc_read_alarm_internal e alarm r = (case mutex_lock_interruptible r of (err, r1) \<Rightarrow>
     if err \<noteq> 0 then (err, alarm, r1)
     else (case ops r1 of None \<Rightarrow> (- ENODEV, alarm, r1)
       | Some o1 \<Rightarrow> (case read_alarm o1 of None \<Rightarrow> (- EINVAL, alarm, r1)
         | Some f \<Rightarrow> (case f (dev r1) (alarm\<lparr>wk_enabled := 0, wk_pending := 0, wk_time := const_tm (- 1)\<rparr>) of
             (err, al, h) \<Rightarrow> (err, al, r1\<lparr>dev := h\<rparr>)))))"

definition same_minute :: "rtc_time \<Rightarrow> rtc_time \<Rightarrow> bool" where
  "same_minute a b \<longleftrightarrow> tm_min a = tm_min b \<and> tm_hour a = tm_hour b \<and> tm_mon a = tm_mon b \<and> tm_year a = tm_year b"

text \<open>The loop that reads the alarm between two equal time stamps.  The result says whether the
  function has returned (\<open>Inl\<close>) or goes on with the second time stamp (\<open>Inr\<close>).\<close>

fun read_alarm_loop :: "nat \<Rightarrow> rtc_env \<Rightarrow> rtc_time \<Rightarrow> rtc_wkalrm \<Rightarrow> 'h rtc_device \<Rightarrow>
    ((int + rtc_time) \<times> rtc_wkalrm \<times> 'h rtc_device) option" where
  "read_alarm_loop 0 e before alarm r = None"
| "read_alarm_loop (Suc n) e before alarm r = (case rtc_read_alarm_internal e alarm r of (err, al, r1) \<Rightarrow>
     if err \<noteq> 0 then Some (Inl err, al, r1)
     else if rtc_valid_tm e (wk_time al) = 0
     then Some (Inl 0, al\<lparr>wk_time := rtc_add_offset e r1 (wk_time al)\<rparr>, r1)
     else (case rtc_read_time e (stack_tm e) r1 of (err, now, r2) \<Rightarrow>
       if err < 0 then Some (Inl err, al, r2)
       else if same_minute before now then Some (Inr now, al, r2)
       else read_alarm_loop n e now al r2))"

datatype missing_field = Missing_none | Missing_day | Missing_month | Missing_year

text \<open>Filling the fields that the hardware does not have.\<close>

definition fill_missing :: "rtc_time \<Rightarrow> rtc_time \<Rightarrow> missing_field \<times> rtc_time" where
  "fill_missing now a =
     (let a1 = (if tm_sec a = - 1 then a\<lparr>tm_sec := tm_sec now\<rparr> else a);
          a2 = (if tm_min a1 = - 1 then a1\<lparr>tm_min := tm_min now\<rparr> else a1);
          a3 = (if tm_hour a2 = - 1 then a2\<lparr>tm_hour := tm_hour now\<rparr> else a2);
          (m3, a4) = (if tm_mday a3 < 1 \<or> tm_mday a3 > 31 then (Missing_day, a3\<lparr>tm_mday := tm_mday now\<rparr>) else (Missing_none, a3));
          (m4, a5) = (if tm_mon a4 < 0 \<or> tm_mon a4 \<ge> 12
                      then (if m3 = Missing_none then Missing_month else m3, a4\<lparr>tm_mon := tm_mon now\<rparr>) else (m3, a4));
          (m5, a6) = (if tm_year a5 = - 1
                      then (if m4 = Missing_none then Missing_year else m4, a5\<lparr>tm_year := tm_year now\<rparr>) else (m4, a5))
      in (m5, a6))"

fun month_loop :: "nat \<Rightarrow> rtc_env \<Rightarrow> rtc_time \<Rightarrow> rtc_time option" where
  "month_loop 0 e a = None"
| "month_loop (Suc n) e a =
     (let a1 = (if tm_mon a < 11 then a\<lparr>tm_mon := tm_mon a + 1\<rparr> else a\<lparr>tm_mon := 0, tm_year := tm_year a + 1\<rparr>)
      in if rtc_month_days e (tm_mon a1) (tm_year a1) < tm_mday a1 then month_loop n e a1 else Some a1)"

definition is_leap_year :: "int \<Rightarrow> bool" where
  "is_leap_year year \<longleftrightarrow> (year mod 4 = 0 \<and> year mod 100 \<noteq> 0) \<or> year mod 400 = 0"

fun year_loop :: "nat \<Rightarrow> rtc_env \<Rightarrow> rtc_time \<Rightarrow> rtc_time option" where
  "year_loop 0 e a = None"
| "year_loop (Suc n) e a =
     (let a1 = a\<lparr>tm_year := tm_year a + 1\<rparr>
      in if \<not> is_leap_year (tm_year a1 + 1900) \<and> rtc_valid_tm e a1 \<noteq> 0 then year_loop n e a1 else Some a1)"

definition rollover :: "nat \<Rightarrow> rtc_env \<Rightarrow> missing_field \<Rightarrow> rtc_time \<Rightarrow> rtc_time option" where
  "rollover n e mf a = (case mf of
     Missing_day \<Rightarrow> Some (rtc_time64_to_tm e (s64 (rtc_tm_to_time64 e a + 24 * 60 * 60)))
   | Missing_month \<Rightarrow> month_loop n e a
   | Missing_year \<Rightarrow> year_loop n e a
   | Missing_none \<Rightarrow> Some a)"

definition do_rtc_read_alarm :: "nat \<Rightarrow> rtc_env \<Rightarrow> rtc_wkalrm \<Rightarrow> 'h rtc_device \<Rightarrow>
    (int \<times> rtc_wkalrm \<times> 'h rtc_device) option" where
  "do_rtc_read_alarm n e alarm r = (case rtc_read_time e (stack_tm e) r of (err, before, r1) \<Rightarrow>
     if err < 0 then Some (err, alarm, r1)
     else (case read_alarm_loop n e before alarm r1 of
       None \<Rightarrow> None
     | Some (Inl err, al, r2) \<Rightarrow> Some (err, al, r2)
     | Some (Inr now, al, r2) \<Rightarrow>
         (case fill_missing now (wk_time al) of (mf, a) \<Rightarrow>
            let err = rtc_valid_tm e a in
            if err \<noteq> 0 \<or> rtc_tm_to_time64 e now < rtc_tm_to_time64 e a then Some (err, al\<lparr>wk_time := a\<rparr>, r2)
            else (case rollover n e mf a of None \<Rightarrow> None
              | Some a1 \<Rightarrow> Some (rtc_valid_tm e a1, al\<lparr>wk_time := a1\<rparr>, r2)))))"

section \<open>Programming the alarm of the hardware\<close>

definition do_rtc_set_alarm :: "rtc_env \<Rightarrow> rtc_wkalrm \<Rightarrow> 'h rtc_device \<Rightarrow> int \<times> rtc_wkalrm \<times> 'h rtc_device" where
  "do_rtc_set_alarm e alarm r =
     (let err = rtc_valid_tm e (wk_time alarm) in
      if err \<noteq> 0 then (err, alarm, r)
      else let scheduled = rtc_tm_to_time64 e (wk_time alarm) in
        (case do_rtc_read_time e (stack_tm e) r of (err, tm, r1) \<Rightarrow>
           if err \<noteq> 0 then (err, alarm, r1)
           else if scheduled \<le> rtc_tm_to_time64 e tm then (- ETIME, alarm, r1)
           else let al = alarm\<lparr>wk_time := rtc_subtract_offset e r1 (wk_time alarm)\<rparr> in
             (case ops r1 of None \<Rightarrow> (- ENODEV, al, r1)
              | Some o1 \<Rightarrow> (case set_alarm o1 of None \<Rightarrow> (- EINVAL, al, r1)
                | Some f \<Rightarrow> (case f (dev r1) al of (err, h) \<Rightarrow> (err, al, r1\<lparr>dev := h\<rparr>))))))"

section \<open>The clock adjustment in parts per billion\<close>

definition rtc_read_offset :: "int \<Rightarrow> 'h rtc_device \<Rightarrow> int \<times> int \<times> 'h rtc_device" where
  "rtc_read_offset off r = (case ops r of None \<Rightarrow> (- ENODEV, off, r)
   | Some o1 \<Rightarrow> (case read_offset o1 of None \<Rightarrow> (- EINVAL, off, r)
     | Some f \<Rightarrow> (case f (dev r) off of (ret, v, h) \<Rightarrow> (ret, v, r\<lparr>dev := h\<rparr>))))"

definition rtc_set_offset :: "int \<Rightarrow> 'h rtc_device \<Rightarrow> int \<times> 'h rtc_device" where
  "rtc_set_offset off r = (case ops r of None \<Rightarrow> (- ENODEV, r)
   | Some o1 \<Rightarrow> (case set_offset o1 of None \<Rightarrow> (- EINVAL, r)
     | Some f \<Rightarrow> (case f (dev r) off of (ret, h) \<Rightarrow> (ret, r\<lparr>dev := h\<rparr>))))"

section \<open>Facts about the library\<close>

lemma lib_time64:
  assumes "rtc_lib_ok e" and "0 \<le> t" and "t < 2 ^ 40"
  shows "rtc_tm_to_time64 e (rtc_time64_to_tm e t) = t" "rtc_valid_tm e (rtc_time64_to_tm e t) = 0"
  using assms unfolding rtc_lib_ok_def by blast+

lemma lib_ktime:
  assumes "rtc_lib_ok e"
  shows "0 \<le> t \<Longrightarrow> t < 2 ^ 33 \<Longrightarrow> rtc_tm_to_ktime e (rtc_time64_to_tm e t) = t * NSEC_PER_SEC"
    "0 \<le> k \<Longrightarrow> k < 2 ^ 63 \<Longrightarrow> rtc_ktime_to_tm e k = rtc_time64_to_tm e ((k + 999999999) div NSEC_PER_SEC)"
  using assms unfolding rtc_lib_ok_def by blast+

section \<open>The expanded range\<close>

text \<open>A device whose start time is set, with non-negative bounds far from the limits of 64 bits.\<close>

definition range_ok :: "'h rtc_device \<Rightarrow> bool" where
  "range_ok r \<longleftrightarrow> 0 \<le> range_min r \<and> range_min r < range_max r \<and> range_max r < 2 ^ 38 \<and>
     set_start_time r \<and> 0 \<le> start_secs r \<and> start_secs r < 2 ^ 38"

definition range_secs_of :: "'h rtc_device \<Rightarrow> int" where
  "range_secs_of r = range_max r - range_min r + 1"

lemma get_offset_frame [simp]:
  "range_min (rtc_device_get_offset mk sy r) = range_min r" "range_max (rtc_device_get_offset mk sy r) = range_max r"
  "ops (rtc_device_get_offset mk sy r) = ops r" "dev (rtc_device_get_offset mk sy r) = dev r"
  "timerqueue (rtc_device_get_offset mk sy r) = timerqueue r" "timers (rtc_device_get_offset mk sy r) = timers r"
  by (simp_all add: rtc_device_get_offset_def Let_def split: option.split)

text \<open>The three ways to choose the offset.\<close>

lemma get_offset_cases:
  assumes "r = rtc_device_get_offset mk sy r0" and "range_ok r"
  obtains (apart) "offset_secs r = start_secs r - range_min r" "start_secs r > range_max r \<or> start_secs r + range_secs_of r - 1 < range_min r"
  | (above) "offset_secs r = range_secs_of r" "range_min r < start_secs r" "start_secs r \<le> range_max r"
  | (below) "offset_secs r = - range_secs_of r" "start_secs r < range_min r" "range_min r \<le> start_secs r + range_secs_of r - 1"
  | (same) "offset_secs r = 0" "start_secs r = range_min r"
proof -
  define r1 where "r1 = (case sy of None \<Rightarrow> r0 | Some y \<Rightarrow> r0\<lparr>start_secs := mk y, set_start_time := True\<rparr>)"
  have ne: "u64_of (range_min r0) \<noteq> range_max r0" using assms by (simp add: range_ok_def)
  have r: "r = (if \<not> set_start_time r1 then r1
           else let range_secs = s64 (range_max r1 - range_min r1 + 1) in
             if u64_of (start_secs r1) > range_max r1 \<or> s64 (start_secs r1 + range_secs - 1) < range_min r1
             then r1\<lparr>offset_secs := s64 (start_secs r1 - range_min r1)\<rparr>
             else if start_secs r1 > range_min r1 then r1\<lparr>offset_secs := range_secs\<rparr>
             else if start_secs r1 < range_min r1 then r1\<lparr>offset_secs := s64 (- range_secs)\<rparr>
             else r1\<lparr>offset_secs := 0\<rparr>)"
    using assms(1) ne by (simp add: rtc_device_get_offset_def r1_def Let_def)
  have eq: "set_start_time r = set_start_time r1" "start_secs r = start_secs r1" "range_min r = range_min r1" "range_max r = range_max r1"
    by (simp_all add: r Let_def)
  have b: "0 \<le> range_min r1" "range_min r1 < range_max r1" "range_max r1 < 2 ^ 38" "set_start_time r1"
    "0 \<le> start_secs r1" "start_secs r1 < 2 ^ 38" using assms(2) by (simp_all add: range_ok_def eq)
  have rs: "s64 (range_max r1 - range_min r1 + 1) = range_secs_of r1" "u64_of (start_secs r1) = start_secs r1"
    "s64 (start_secs r1 + range_secs_of r1 - 1) = start_secs r1 + range_secs_of r1 - 1"
    "s64 (start_secs r1 - range_min r1) = start_secs r1 - range_min r1" "s64 (- range_secs_of r1) = - range_secs_of r1"
    using b by (simp_all add: range_secs_of_def)
  have rsr: "range_secs_of r = range_secs_of r1" by (simp add: range_secs_of_def eq)
  note r' = r [unfolded Let_def rs]
  show thesis
  proof (cases "start_secs r1 > range_max r1 \<or> start_secs r1 + range_secs_of r1 - 1 < range_min r1")
    case True
    then have "offset_secs r = start_secs r1 - range_min r1" using r' b(4) rs by auto
    with True apart show thesis by (simp add: eq rsr)
  next
    case False
    then have "offset_secs r = (if start_secs r1 > range_min r1 then range_secs_of r1
       else if start_secs r1 < range_min r1 then - range_secs_of r1 else 0)" using r' b(4) rs by auto
    with False above below same show thesis by (cases "start_secs r1" "range_min r1" rule: linorder_cases) (simp_all add: eq rsr)
  qed
qed

lemma subtract_then_add:
  assumes lib: "rtc_lib_ok e" and r: "r = rtc_device_get_offset mk sy r0" and ok: "range_ok r"
    and t: "start_secs r \<le> rtc_tm_to_time64 e tm" "rtc_tm_to_time64 e tm \<le> start_secs r + range_max r - range_min r"
  shows "range_min r \<le> rtc_tm_to_time64 e (rtc_subtract_offset e r tm)"
    "rtc_tm_to_time64 e (rtc_subtract_offset e r tm) \<le> range_max r"
    "rtc_tm_to_time64 e (rtc_add_offset e r (rtc_subtract_offset e r tm)) = rtc_tm_to_time64 e tm"
proof -
  have b: "0 \<le> range_min r" "range_min r < range_max r" "range_max r < 2 ^ 38" "0 \<le> start_secs r" "start_secs r < 2 ^ 38"
    using ok by (simp_all add: range_ok_def)
  have "range_min r \<le> rtc_tm_to_time64 e (rtc_subtract_offset e r tm) \<and>
    rtc_tm_to_time64 e (rtc_subtract_offset e r tm) \<le> range_max r \<and>
    rtc_tm_to_time64 e (rtc_add_offset e r (rtc_subtract_offset e r tm)) = rtc_tm_to_time64 e tm"
    using r ok
    by (cases rule: get_offset_cases)
      (use t b in \<open>auto simp: rtc_subtract_offset_def rtc_add_offset_def Let_def range_secs_of_def lib_time64 [OF lib]\<close>)
  then show "range_min r \<le> rtc_tm_to_time64 e (rtc_subtract_offset e r tm)"
    "rtc_tm_to_time64 e (rtc_subtract_offset e r tm) \<le> range_max r"
    "rtc_tm_to_time64 e (rtc_add_offset e r (rtc_subtract_offset e r tm)) = rtc_tm_to_time64 e tm" by blast+
qed

lemma add_then_subtract:
  assumes lib: "rtc_lib_ok e" and r: "r = rtc_device_get_offset mk sy r0" and ok: "range_ok r"
    and t: "range_min r \<le> rtc_tm_to_time64 e tm" "rtc_tm_to_time64 e tm \<le> range_max r"
  shows "start_secs r \<le> rtc_tm_to_time64 e (rtc_add_offset e r tm)"
    "rtc_tm_to_time64 e (rtc_add_offset e r tm) \<le> start_secs r + range_max r - range_min r"
    "rtc_tm_to_time64 e (rtc_subtract_offset e r (rtc_add_offset e r tm)) = rtc_tm_to_time64 e tm"
proof -
  have b: "0 \<le> range_min r" "range_min r < range_max r" "range_max r < 2 ^ 38" "0 \<le> start_secs r" "start_secs r < 2 ^ 38"
    using ok by (simp_all add: range_ok_def)
  have "start_secs r \<le> rtc_tm_to_time64 e (rtc_add_offset e r tm) \<and>
    rtc_tm_to_time64 e (rtc_add_offset e r tm) \<le> start_secs r + range_max r - range_min r \<and>
    rtc_tm_to_time64 e (rtc_subtract_offset e r (rtc_add_offset e r tm)) = rtc_tm_to_time64 e tm"
    using r ok
    by (cases rule: get_offset_cases)
      (use t b in \<open>auto simp: rtc_subtract_offset_def rtc_add_offset_def Let_def range_secs_of_def lib_time64 [OF lib]\<close>)
  then show "start_secs r \<le> rtc_tm_to_time64 e (rtc_add_offset e r tm)"
    "rtc_tm_to_time64 e (rtc_add_offset e r tm) \<le> start_secs r + range_max r - range_min r"
    "rtc_tm_to_time64 e (rtc_subtract_offset e r (rtc_add_offset e r tm)) = rtc_tm_to_time64 e tm" by blast+
qed

section \<open>The rollover loops\<close>

text \<open>The months of 31 days, as the library counts them.\<close>

definition long_months_ok :: "rtc_env \<Rightarrow> bool" where
  "long_months_ok e \<longleftrightarrow> (\<forall>m \<in> {0, 2, 4, 6, 7, 9, 11}. \<forall>y. rtc_month_days e m y = 31)"

lemma month_loop_ends:
  assumes "long_months_ok e" and "tm_mday a \<le> 31" and "0 \<le> tm_mon a" and "tm_mon a \<le> 11"
  shows "\<exists>a'. month_loop 2 e a = Some a' \<and> tm_mday a' = tm_mday a \<and> tm_mday a' \<le> rtc_month_days e (tm_mon a') (tm_year a') \<and>
    0 \<le> tm_mon a' \<and> tm_mon a' \<le> 11"
proof -
  define b where "b = (if tm_mon a < 11 then a\<lparr>tm_mon := tm_mon a + 1\<rparr> else a\<lparr>tm_mon := 0, tm_year := tm_year a + 1\<rparr>)"
  define c where "c = (if tm_mon b < 11 then b\<lparr>tm_mon := tm_mon b + 1\<rparr> else b\<lparr>tm_mon := 0, tm_year := tm_year b + 1\<rparr>)"
  have run: "month_loop 2 e a = (if rtc_month_days e (tm_mon b) (tm_year b) < tm_mday b
      then if rtc_month_days e (tm_mon c) (tm_year c) < tm_mday c then None else Some c else Some b)"
    by (simp add: numeral_2_eq_2 b_def [symmetric] c_def [symmetric] Let_def)
  have bc: "tm_mday b = tm_mday a" "tm_mday c = tm_mday a" "0 \<le> tm_mon b" "tm_mon b \<le> 11" "0 \<le> tm_mon c" "tm_mon c \<le> 11"
    using assms(3,4) by (simp_all add: b_def c_def)
  have cb: "tm_mon c = (if tm_mon b < 11 then tm_mon b + 1 else 0)" by (simp add: c_def)
  have "tm_mon b \<in> {0, 2, 4, 6, 7, 9, 11} \<or> tm_mon c \<in> {0, 2, 4, 6, 7, 9, 11}"
    using bc(3,4) unfolding cb by (simp split: if_split) presburger
  then have "rtc_month_days e (tm_mon b) (tm_year b) = 31 \<or> rtc_month_days e (tm_mon c) (tm_year c) = 31"
    using assms(1) unfolding long_months_ok_def by blast
  then show ?thesis using assms(2) bc run by auto
qed

lemma leap_within_8: "\<exists>k. 1 \<le> k \<and> k \<le> 8 \<and> is_leap_year (y + int k)"
proof -
  define k where "k = nat (4 - y mod 4)"
  have k: "1 \<le> k" "k \<le> 4" "(y + int k) mod 4 = 0" unfolding k_def by (simp_all add: mod_simps) presburger+
  show ?thesis
  proof (cases "(y + int k) mod 100 = 0")
    case True
    have z: "y + int (k + 4) = (y + int k) + 4" by simp
    have "((y + int k) + 4) mod 100 = 4" using mod_add_left_eq [of "y + int k" 100 4] True by simp
    then have "(y + int (k + 4)) mod 100 \<noteq> 0" "(y + int (k + 4)) mod 4 = 0" using k(3) unfolding z by simp_all
    then show ?thesis using k by (intro exI [of _ "k + 4"]) (simp add: is_leap_year_def)
  next
    case False
    then show ?thesis using k by (intro exI [of _ k]) (simp add: is_leap_year_def)
  qed
qed

lemma year_loop_ends:
  "is_leap_year (tm_year a + int k + 1900) \<Longrightarrow> 1 \<le> k \<Longrightarrow> k \<le> n \<Longrightarrow> \<exists>j. 1 \<le> j \<and> j \<le> k \<and> year_loop n e a = Some (a\<lparr>tm_year := tm_year a + int j\<rparr>)"
proof (induction n arbitrary: a k)
  case (Suc n)
  let ?a = "a\<lparr>tm_year := tm_year a + 1\<rparr>"
  show ?case
  proof (cases "\<not> is_leap_year (tm_year ?a + 1900) \<and> rtc_valid_tm e ?a \<noteq> 0")
    case True
    then have k: "1 < k" using Suc.prems by (cases "k = 1") auto
    have "is_leap_year (tm_year ?a + int (k - 1) + 1900)" using Suc.prems(1) k by (simp add: of_nat_diff algebra_simps)
    moreover have "1 \<le> k - 1" "k - 1 \<le> n" using k Suc.prems(3) by auto
    ultimately obtain j where "1 \<le> j" "j \<le> k - 1"
      "year_loop n e ?a = Some (?a\<lparr>tm_year := tm_year ?a + int j\<rparr>)" using Suc.IH by blast
    then show ?thesis using True k by (intro exI [of _ "Suc j"]) (auto simp: algebra_simps)
  next
    case False
    then show ?thesis using Suc.prems(2) by (intro exI [of _ 1]) auto
  qed
qed simp

section \<open>A library for the witnesses\<close>

text \<open>Times that keep their seconds in one field, and a queue ordered by insertion.\<close>

definition demo_env :: rtc_env where
  "demo_env = \<lparr>rtc_tm_to_time64 = tm_sec, rtc_time64_to_tm = (\<lambda>t. (const_tm 0)\<lparr>tm_sec := t\<rparr>),
     rtc_valid_tm = (\<lambda>tm. if 0 \<le> tm_sec tm \<and> tm_sec tm < 2 ^ 40 then 0 else - EINVAL),
     rtc_month_days = (\<lambda>m y. if m = 1 then if is_leap_year (y + 1900) then 29 else 28
        else if m \<in> {3, 5, 8, 10} then 30 else 31),
     rtc_tm_to_ktime = (\<lambda>tm. tm_sec tm * NSEC_PER_SEC),
     rtc_ktime_to_tm = (\<lambda>k. (const_tm 0)\<lparr>tm_sec := (k + 999999999) div NSEC_PER_SEC\<rparr>),
     timerqueue_add = insort_key, stack_tm = const_tm 0\<rparr>"

lemma demo_env_ok: "rtc_lib_ok demo_env" "timerqueue_ok demo_env" "long_months_ok demo_env"
  by (auto simp: rtc_lib_ok_def timerqueue_ok_def long_months_ok_def demo_env_def sorted_insort_key)

definition demo_tm :: "int \<Rightarrow> rtc_time" where
  "demo_tm t = (const_tm 0)\<lparr>tm_sec := t\<rparr>"

definition demo_timer :: rtc_timer where
  "demo_timer = \<lparr>expires = 0, period = 0, tfunc = None, enabled = 0\<rparr>"

definition demo_rtc :: "'h rtc_class_ops option \<Rightarrow> 'h \<Rightarrow> 'h rtc_device" where
  "demo_rtc oo h = \<lparr>ops = oo, irq_data = 0, irq_freq = 1, max_user_freq = 64, timerqueue = [], timers = (\<lambda>_. demo_timer),
     pie_timer = None, pie_enabled = 0, irqwork = False, awake = False, uie_unsupported = False, set_offset_nsec = 500000000,
     registered = False, range_min = 0, range_max = 0, start_secs = 0, offset_secs = 0, set_start_time = False,
     intr = [], fired = [], dev = h\<rparr>"

section \<open>Properties\<close>

text \<open>C29: The range expansion is a bijection.  For a device with a start time and non-negative bounds, the
  times of the range that begins at the start time are accepted and mapped into the range of the
  hardware, reading adds back exactly what setting took away, and conversely every time of the
  hardware is read as a time of the expanded range that is set as the same hardware time.\<close>

theorem range_expansion_bijective:
  assumes "rtc_lib_ok e" and "r = rtc_device_get_offset mktime64 start_year r0" and "range_ok r"
  shows "(\<forall>tm. start_secs r \<le> rtc_tm_to_time64 e tm \<and> rtc_tm_to_time64 e tm \<le> start_secs r + range_max r - range_min r \<longrightarrow>
      rtc_valid_range e r tm = 0 \<and>
      rtc_tm_to_time64 e (rtc_subtract_offset e r tm) \<in> {range_min r..range_max r} \<and>
      rtc_tm_to_time64 e (rtc_add_offset e r (rtc_subtract_offset e r tm)) = rtc_tm_to_time64 e tm) \<and>
    (\<forall>tm. range_min r \<le> rtc_tm_to_time64 e tm \<and> rtc_tm_to_time64 e tm \<le> range_max r \<longrightarrow>
      rtc_valid_range e r (rtc_add_offset e r tm) = 0 \<and>
      rtc_tm_to_time64 e (rtc_subtract_offset e r (rtc_add_offset e r tm)) = rtc_tm_to_time64 e tm)"
proof -
  have valid: "rtc_valid_range e r tm = 0"
    if "start_secs r \<le> rtc_tm_to_time64 e tm" "rtc_tm_to_time64 e tm \<le> start_secs r + range_max r - range_min r" for tm
    using that assms(3) by (simp add: rtc_valid_range_def range_ok_def Let_def)
  from subtract_then_add [OF assms] add_then_subtract [OF assms] valid show ?thesis by simp
qed

theorem range_expansion_bijective_witness:
  "rtc_tm_to_time64 demo_env (rtc_add_offset demo_env
     (rtc_device_get_offset (\<lambda>y. 50) (Some 2020) ((demo_rtc None ())\<lparr>range_min := 0, range_max := 99\<rparr>)) (demo_tm 20)) = 120 \<and>
   rtc_tm_to_time64 demo_env (rtc_subtract_offset demo_env
     (rtc_device_get_offset (\<lambda>y. 50) (Some 2020) ((demo_rtc None ())\<lparr>range_min := 0, range_max := 99\<rparr>)) (demo_tm 120)) = 20"
proof -
  let ?r = "rtc_device_get_offset (\<lambda>y. 50) (Some 2020) ((demo_rtc None ())\<lparr>range_min := 0, range_max := 99\<rparr>)"
  have r: "range_ok ?r" "range_min ?r = 0" "range_max ?r = 99" by (simp_all add: range_ok_def rtc_device_get_offset_def demo_rtc_def Let_def)
  have a: "rtc_add_offset demo_env ?r (demo_tm 20) = demo_tm 120"
    by (simp add: rtc_add_offset_def rtc_device_get_offset_def demo_rtc_def demo_env_def demo_tm_def Let_def)
  have "rtc_tm_to_time64 demo_env (rtc_subtract_offset demo_env ?r (rtc_add_offset demo_env ?r (demo_tm 20))) =
      rtc_tm_to_time64 demo_env (demo_tm 20)"
    using range_expansion_bijective [OF demo_env_ok(1) refl r(1)] r(2,3) by (simp add: demo_env_def demo_tm_def)
  then show ?thesis unfolding a by (simp add: demo_env_def demo_tm_def)
qed

text \<open>A start time before 1970 breaks the expansion: the comparison of the negative start time with the
  unsigned upper bound picks the offset for disjoint ranges, so that two different times of the
  hardware, the largest and one inside the overlap, are read as the same time.\<close>

theorem negative_start_ambiguous:
  assumes "rtc_lib_ok e" and "r = rtc_device_get_offset mktime64 (Some y) r0" and "range_min r0 = 0"
    and "0 < range_max r0" and "range_max r0 < 2 ^ 38" and "- range_max r0 \<le> mktime64 y" and "mktime64 y < 0"
  shows "offset_secs r = mktime64 y \<and> rtc_valid_range e r (rtc_time64_to_tm e (range_max r0 + mktime64 y)) = 0 \<and>
    rtc_tm_to_time64 e (rtc_add_offset e r (rtc_time64_to_tm e (range_max r0))) =
    rtc_tm_to_time64 e (rtc_add_offset e r (rtc_time64_to_tm e (range_max r0 + mktime64 y)))"
proof -
  have u: "u64_of (mktime64 y) = mktime64 y + 2 ^ 64" using assms(5-7) by (intro u64_of_neg) simp_all
  have off: "offset_secs r = mktime64 y" and st: "start_secs r = mktime64 y" "set_start_time r" and
    mm: "range_min r = 0" "range_max r = range_max r0"
    using assms(3-7) u by (simp_all add: assms(2)) (simp_all add: rtc_device_get_offset_def Let_def)
  show ?thesis using assms(4-7) off st mm
    by (simp add: rtc_add_offset_def rtc_valid_range_def Let_def lib_time64 [OF assms(1)])
qed

theorem negative_start_ambiguous_witness:
  "rtc_tm_to_time64 demo_env (rtc_add_offset demo_env
     (rtc_device_get_offset (\<lambda>y. - 1000) (Some 1969) ((demo_rtc None ())\<lparr>range_max := 4294967295\<rparr>)) (demo_tm 4294967295)) =
   rtc_tm_to_time64 demo_env (rtc_add_offset demo_env
     (rtc_device_get_offset (\<lambda>y. - 1000) (Some 1969) ((demo_rtc None ())\<lparr>range_max := 4294967295\<rparr>)) (demo_tm 4294966295))"
  using negative_start_ambiguous [OF demo_env_ok(1) refl,
      of "(demo_rtc None ())\<lparr>range_max := 4294967295\<rparr>" "\<lambda>y. - 1000" 1969]
  by (simp add: demo_rtc_def) (simp add: demo_env_def demo_tm_def)



end
