(* ===== verification/Rtc_Timer.thy ===== *)
theory Rtc_Timer
  imports Rtc_Time
begin

text \<open>
  The timer queue of an RTC and everything that works on it (\<open>drivers/rtc/interface.c\<close>): enqueueing,
  removing and expiring timers, the alarm and the update interrupt as timers, setting the time, and
  the periodic interrupt.
\<close>

section \<open>Small operations\<close>

definition schedule_work :: "'h rtc_device \<Rightarrow> 'h rtc_device" where
  "schedule_work r = r\<lparr>awake := True, irqwork := True\<rparr>"

definition key :: "'h rtc_device \<Rightarrow> nat \<Rightarrow> int" where
  "key r t = expires (timers r t)"

definition queue_add :: "rtc_env \<Rightarrow> nat \<Rightarrow> 'h rtc_device \<Rightarrow> 'h rtc_device" where
  "queue_add e t r = r\<lparr>timerqueue := timerqueue_add e (key r) t (timerqueue r)\<rparr>"

definition queue_del :: "nat \<Rightarrow> 'h rtc_device \<Rightarrow> 'h rtc_device" where
  "queue_del t r = r\<lparr>timerqueue := remove1 t (timerqueue r)\<rparr>"

definition set_enabled :: "nat \<Rightarrow> int \<Rightarrow> 'h rtc_device \<Rightarrow> 'h rtc_device" where
  "set_enabled t v r = set_timer t ((timers r t)\<lparr>enabled := v\<rparr>) r"

text \<open>The alarm that the core programs for a timer; the field \<open>pending\<close> is not initialised.\<close>

definition alarm_for :: "rtc_env \<Rightarrow> int \<Rightarrow> rtc_wkalrm" where
  "alarm_for e k = \<lparr>wk_enabled = 1, wk_pending = 0, wk_time = rtc_ktime_to_tm e k\<rparr>"

definition rtc_alarm_disable :: "'h rtc_device \<Rightarrow> 'h rtc_device" where
  "rtc_alarm_disable r = (case ops r of None \<Rightarrow> r
     | Some o1 \<Rightarrow> (case alarm_irq_enable o1 of None \<Rightarrow> r | Some f \<Rightarrow> r\<lparr>dev := snd (f (dev r) 0)\<rparr>))"

section \<open>Enqueueing and removing\<close>

definition rtc_timer_enqueue :: "rtc_env \<Rightarrow> nat \<Rightarrow> 'h rtc_device \<Rightarrow> int \<times> 'h rtc_device" where
  "rtc_timer_enqueue e t r = (case do_rtc_read_time e (stack_tm e) r of (err, tm, r1) \<Rightarrow>
     if err \<noteq> 0 then (err, r1)
     else let now = rtc_tm_to_ktime e tm;
              next = dropWhile (\<lambda>x. key r1 x < now) (timerqueue r1);
              r2 = queue_add e t (set_enabled t 1 r1)
          in if next = [] \<or> key r2 t < key r2 (hd next)
             then (case do_rtc_set_alarm e (alarm_for e (key r2 t)) r2 of (err, _, r3) \<Rightarrow>
                     if err = - ETIME then (0, schedule_work r3)
                     else if err \<noteq> 0 then (err, set_enabled t 0 (queue_del t r3))
                     else (0, r3))
             else (0, r2))"

definition rtc_timer_remove :: "rtc_env \<Rightarrow> nat \<Rightarrow> 'h rtc_device \<Rightarrow> 'h rtc_device" where
  "rtc_timer_remove e t r =
     (let r1 = set_enabled t 0 (queue_del t r) in
      if timerqueue r \<noteq> [] \<and> hd (timerqueue r) = t
      then (case timerqueue r1 of [] \<Rightarrow> rtc_alarm_disable r1
            | n # _ \<Rightarrow> (case do_rtc_set_alarm e (alarm_for e (key r1 n)) r1 of (err, _, r2) \<Rightarrow>
                         if err = - ETIME then schedule_work r2 else r2))
      else r1)"

section \<open>Interrupt data\<close>

definition RTC_IRQF :: u32 where "RTC_IRQF = 0x80"
definition RTC_PF :: u32 where "RTC_PF = 0x40"
definition RTC_AF :: u32 where "RTC_AF = 0x20"
definition RTC_UF :: u32 where "RTC_UF = 0x10"

definition rtc_handle_legacy_irq :: "int \<Rightarrow> u32 \<Rightarrow> 'h rtc_device \<Rightarrow> 'h rtc_device" where
  "rtc_handle_legacy_irq num mode r =
     r\<lparr>irq_data := (irq_data r + push_bit 8 (word_of_int num)) OR (RTC_IRQF OR mode)\<rparr>"

definition rtc_aie_update_irq :: "'h rtc_device \<Rightarrow> 'h rtc_device" where
  "rtc_aie_update_irq r = rtc_handle_legacy_irq 1 RTC_AF r"

definition rtc_uie_update_irq :: "'h rtc_device \<Rightarrow> 'h rtc_device" where
  "rtc_uie_update_irq r = rtc_handle_legacy_irq 1 RTC_UF r"

definition rtc_update_irq :: "'h rtc_device \<Rightarrow> 'h rtc_device" where
  "rtc_update_irq r = schedule_work r"

section \<open>Expiring timers\<close>

definition call_func :: "timer_func option \<Rightarrow> 'h rtc_device \<Rightarrow> 'h rtc_device" where
  "call_func f r = (case f of None \<Rightarrow> r
     | Some Aie_update_irq \<Rightarrow> rtc_aie_update_irq r
     | Some Uie_update_irq \<Rightarrow> rtc_uie_update_irq r
     | Some (Other_func i) \<Rightarrow> r\<lparr>fired := fired r @ [i]\<rparr>)"

definition expire_timer :: "rtc_env \<Rightarrow> nat \<Rightarrow> 'h rtc_device \<Rightarrow> 'h rtc_device" where
  "expire_timer e t r =
     (let r1 = set_enabled t 0 (queue_del t r);
          r2 = call_func (tfunc (timers r1 t)) r1
      in if period (timers r2 t) \<noteq> 0
         then queue_add e t (set_timer t ((timers r2 t)\<lparr>expires := s64 (expires (timers r2 t) + period (timers r2 t)), enabled := 1\<rparr>) r2)
         else r2)"

fun expire_loop :: "nat \<Rightarrow> rtc_env \<Rightarrow> int \<Rightarrow> 'h rtc_device \<Rightarrow> 'h rtc_device option" where
  "expire_loop 0 e now r = None"
| "expire_loop (Suc n) e now r = (case timerqueue r of [] \<Rightarrow> Some r
     | t # _ \<Rightarrow> if key r t > now then Some r else expire_loop n e now (expire_timer e t r))"

text \<open>The label \<open>reprogram\<close> with its retries.  A retry uses the alarm that the failed attempt has left.\<close>

fun reprogram :: "nat \<Rightarrow> rtc_env \<Rightarrow> rtc_wkalrm \<Rightarrow> 'h rtc_device \<Rightarrow> int \<times> 'h rtc_device" where
  "reprogram 0 e al r = (case do_rtc_set_alarm e al r of (err, _, r1) \<Rightarrow> (err, r1))"
| "reprogram (Suc retry) e al r = (case do_rtc_set_alarm e al r of (err, al1, r1) \<Rightarrow>
     if err = - ETIME then (err, r1) else if err \<noteq> 0 then reprogram retry e al1 r1 else (0, r1))"

fun do_work_loop :: "nat \<Rightarrow> rtc_env \<Rightarrow> 'h rtc_device \<Rightarrow> 'h rtc_device option" where
  "do_work_loop 0 e r = None"
| "do_work_loop (Suc n) e r = (case do_rtc_read_time e (stack_tm e) r of (_, tm, r1) \<Rightarrow>
     (case expire_loop n e (rtc_tm_to_ktime e tm) r1 of None \<Rightarrow> None
      | Some r2 \<Rightarrow> (case timerqueue r2 of [] \<Rightarrow> Some (rtc_alarm_disable r2)
        | t # _ \<Rightarrow> (case reprogram 3 e (alarm_for e (key r2 t)) r2 of (err, r3) \<Rightarrow>
            if err = - ETIME then do_work_loop n e r3
            else if err \<noteq> 0 then do_work_loop n e (set_enabled t 0 (queue_del t r3))
            else Some r3))))"

text \<open>The work item is no longer pending when its function starts.\<close>

definition rtc_timer_do_work :: "nat \<Rightarrow> rtc_env \<Rightarrow> 'h rtc_device \<Rightarrow> 'h rtc_device option" where
  "rtc_timer_do_work n e r = map_option (\<lambda>r'. r'\<lparr>awake := False\<rparr>) (do_work_loop n e (r\<lparr>irqwork := False\<rparr>))"

section \<open>The kernel interface to timers\<close>

definition rtc_timer_init :: "nat \<Rightarrow> timer_func option \<Rightarrow> 'h rtc_device \<Rightarrow> 'h rtc_device" where
  "rtc_timer_init t f r = set_timer t ((timers r t)\<lparr>tfunc := f, enabled := 0\<rparr>) r"

definition rtc_timer_start :: "rtc_env \<Rightarrow> nat \<Rightarrow> int \<Rightarrow> int \<Rightarrow> 'h rtc_device \<Rightarrow> int \<times> 'h rtc_device" where
  "rtc_timer_start e t ex per r =
     (let r1 = (if enabled (timers r t) \<noteq> 0 then rtc_timer_remove e t r else r)
      in rtc_timer_enqueue e t (set_timer t ((timers r1 t)\<lparr>expires := ex, period := per\<rparr>) r1))"

definition rtc_timer_cancel :: "rtc_env \<Rightarrow> nat \<Rightarrow> 'h rtc_device \<Rightarrow> 'h rtc_device" where
  "rtc_timer_cancel e t r = (if enabled (timers r t) \<noteq> 0 then rtc_timer_remove e t r else r)"

section \<open>Alarms\<close>

definition rtc_read_alarm :: "rtc_env \<Rightarrow> rtc_wkalrm \<Rightarrow> 'h rtc_device \<Rightarrow> int \<times> rtc_wkalrm \<times> 'h rtc_device" where
  "rtc_read_alarm e alarm r = (case mutex_lock_interruptible r of (err, r1) \<Rightarrow>
     if err \<noteq> 0 then (err, alarm, r1)
     else (case ops r1 of None \<Rightarrow> (- ENODEV, alarm, r1)
       | Some o1 \<Rightarrow> if read_alarm o1 = None then (- EINVAL, alarm, r1)
           else (0, \<lparr>wk_enabled = enabled (timers r1 aie_timer), wk_pending = 0,
                     wk_time = rtc_ktime_to_tm e (expires (timers r1 aie_timer))\<rparr>, r1)))"

definition rtc_set_alarm :: "rtc_env \<Rightarrow> rtc_wkalrm \<Rightarrow> 'h rtc_device \<Rightarrow> int \<times> 'h rtc_device" where
  "rtc_set_alarm e alarm r = (case ops r of None \<Rightarrow> (- ENODEV, r)
   | Some o1 \<Rightarrow>
       if set_alarm o1 = None then (- EINVAL, r)
       else if rtc_valid_tm e (wk_time alarm) \<noteq> 0 then (rtc_valid_tm e (wk_time alarm), r)
       else if rtc_valid_range e r (wk_time alarm) \<noteq> 0 then (rtc_valid_range e r (wk_time alarm), r)
       else (case mutex_lock_interruptible r of (err, r1) \<Rightarrow>
         if err \<noteq> 0 then (err, r1)
         else let r2 = (if enabled (timers r1 aie_timer) \<noteq> 0 then rtc_timer_remove e aie_timer r1 else r1);
                  r3 = set_timer aie_timer ((timers r2 aie_timer)\<lparr>expires := rtc_tm_to_ktime e (wk_time alarm), period := 0\<rparr>) r2
              in if wk_enabled alarm \<noteq> 0 then rtc_timer_enqueue e aie_timer r3 else (0, r3)))"

definition rtc_initialize_alarm :: "rtc_env \<Rightarrow> rtc_wkalrm \<Rightarrow> 'h rtc_device \<Rightarrow> int \<times> 'h rtc_device" where
  "rtc_initialize_alarm e alarm r =
     (if rtc_valid_tm e (wk_time alarm) \<noteq> 0 then (rtc_valid_tm e (wk_time alarm), r)
      else (case rtc_read_time e (stack_tm e) r of (err, now, r1) \<Rightarrow>
        if err \<noteq> 0 then (err, r1)
        else (case mutex_lock_interruptible r1 of (err, r2) \<Rightarrow>
          if err \<noteq> 0 then (err, r2)
          else let ex = rtc_tm_to_ktime e (wk_time alarm);
                   r3 = set_timer aie_timer ((timers r2 aie_timer)\<lparr>expires := ex, period := 0\<rparr>) r2
               in if wk_enabled alarm \<noteq> 0 \<and> rtc_tm_to_ktime e now < ex
                  then (0, queue_add e aie_timer (set_enabled aie_timer 1 r3)) else (0, r3))))"

definition rtc_alarm_irq_enable :: "rtc_env \<Rightarrow> int \<Rightarrow> 'h rtc_device \<Rightarrow> int \<times> 'h rtc_device" where
  "rtc_alarm_irq_enable e en r = (case mutex_lock_interruptible r of (err, r1) \<Rightarrow>
     if err \<noteq> 0 then (err, r1)
     else (case (if enabled (timers r1 aie_timer) \<noteq> en
                 then (if en \<noteq> 0 then rtc_timer_enqueue e aie_timer r1 else (0, rtc_timer_remove e aie_timer r1))
                 else (0, r1)) of (err, r2) \<Rightarrow>
       if err \<noteq> 0 then (err, r2)
       else (case ops r2 of None \<Rightarrow> (- ENODEV, r2)
         | Some o1 \<Rightarrow> (case alarm_irq_enable o1 of None \<Rightarrow> (- EINVAL, r2)
           | Some f \<Rightarrow> (case f (dev r2) en of (err, h) \<Rightarrow> (err, r2\<lparr>dev := h\<rparr>))))))"

definition rtc_update_irq_enable :: "rtc_env \<Rightarrow> int \<Rightarrow> 'h rtc_device \<Rightarrow> int \<times> 'h rtc_device" where
  "rtc_update_irq_enable e en r = (case mutex_lock_interruptible r of (err, r1) \<Rightarrow>
     if err \<noteq> 0 then (err, r1)
     else if enabled (timers r1 uie_rtctimer) = en then (0, r1)
     else if uie_unsupported r1 then (- EINVAL, r1)
     else if en \<noteq> 0
     then (case do_rtc_read_time e (stack_tm e) r1 of (_, tm, r2) \<Rightarrow>
        rtc_timer_enqueue e uie_rtctimer (set_timer uie_rtctimer ((timers r2 uie_rtctimer)
           \<lparr>expires := s64 (rtc_tm_to_ktime e tm + NSEC_PER_SEC), period := NSEC_PER_SEC\<rparr>) r2))
     else (0, rtc_timer_remove e uie_rtctimer r1))"

section \<open>Setting the time\<close>

definition set_time_call :: "rtc_time \<Rightarrow> 'h rtc_device \<Rightarrow> int \<times> 'h rtc_device" where
  "set_time_call tm r = (case ops r of None \<Rightarrow> (- ENODEV, r)
     | Some o1 \<Rightarrow> (case set_time o1 of None \<Rightarrow> (- EINVAL, r)
       | Some f \<Rightarrow> (case f (dev r) tm of (err, h) \<Rightarrow> (err, r\<lparr>dev := h\<rparr>))))"

definition rtc_set_time :: "rtc_env \<Rightarrow> rtc_time \<Rightarrow> 'h rtc_device \<Rightarrow> int \<times> 'h rtc_device" where
  "rtc_set_time e tm0 r =
     (if rtc_valid_tm e tm0 \<noteq> 0 then (rtc_valid_tm e tm0, r)
      else if rtc_valid_range e r tm0 \<noteq> 0 then (rtc_valid_range e r tm0, r)
      else let tm = rtc_subtract_offset e r tm0;
               uie = (enabled (timers r uie_rtctimer) \<noteq> 0)
           in (case (if uie then rtc_update_irq_enable e 0 r else (0, r)) of (err, r1) \<Rightarrow>
             if err \<noteq> 0 then (err, r1)
             else (case mutex_lock_interruptible r1 of (err, r2) \<Rightarrow>
               if err \<noteq> 0 then (err, r2)
               else (case set_time_call tm r2 of (err, r3) \<Rightarrow>
                 if uie then rtc_update_irq_enable e 1 (schedule_work r3) else (err, schedule_work r3)))))"

section \<open>The periodic interrupt\<close>

definition RTC_MAX_FREQ :: int where "RTC_MAX_FREQ = 8192"

text \<open>\<open>cancel\<close> is the result of \<open>hrtimer_try_to_cancel\<close> (negative while the callback is running).  The
  loops that spin on it take the successive results; the result \<open>None\<close> means that they are still
  spinning.\<close>

definition rtc_update_hrtimer :: "int \<Rightarrow> int \<Rightarrow> 'h rtc_device \<Rightarrow> int \<times> 'h rtc_device" where
  "rtc_update_hrtimer cancel en r =
     (if cancel < 0 then (- 1, r)
      else (0, r\<lparr>pie_timer := (if en \<noteq> 0 then Some (NSEC_PER_SEC div irq_freq r) else None)\<rparr>))"

fun hrtimer_spin :: "int list \<Rightarrow> int \<Rightarrow> 'h rtc_device \<Rightarrow> 'h rtc_device option" where
  "hrtimer_spin [] en r = None"
| "hrtimer_spin (c # cs) en r = (case rtc_update_hrtimer c en r of (ret, r1) \<Rightarrow>
     if ret < 0 then hrtimer_spin cs en r1 else Some r1)"

definition rtc_irq_set_state :: "int list \<Rightarrow> int \<Rightarrow> 'h rtc_device \<Rightarrow> (int \<times> 'h rtc_device) option" where
  "rtc_irq_set_state cancels en r = map_option (\<lambda>r1. (0, r1\<lparr>pie_enabled := en\<rparr>)) (hrtimer_spin cancels en r)"

definition rtc_irq_set_freq :: "int list \<Rightarrow> int \<Rightarrow> 'h rtc_device \<Rightarrow> (int \<times> 'h rtc_device) option" where
  "rtc_irq_set_freq cancels freq r =
     (if freq \<le> 0 \<or> freq > RTC_MAX_FREQ then Some (- EINVAL, r)
      else let r1 = r\<lparr>irq_freq := freq\<rparr> in
        if pie_enabled r1 \<noteq> 0 then map_option (\<lambda>r2. (0, r2)) (hrtimer_spin cancels 1 r1) else Some (0, r1))"

text \<open>\<open>cnt\<close> is the number of periods that \<open>hrtimer_forward_now\<close> has skipped.\<close>

definition rtc_pie_update_irq :: "int \<Rightarrow> 'h rtc_device \<Rightarrow> 'h rtc_device" where
  "rtc_pie_update_irq cnt r =
     rtc_handle_legacy_irq cnt RTC_PF (r\<lparr>pie_timer := Some (NSEC_PER_SEC div irq_freq r)\<rparr>)"

section \<open>What the driver calls leave alone\<close>

lemma read_time_frame: "do_rtc_read_time e tm r = (err, tm', r') \<Longrightarrow> \<exists>h. r' = r\<lparr>dev := h\<rparr>"
proof -
  have "\<exists>h. r = r\<lparr>dev := h\<rparr>" by (rule exI [of _ "dev r"]) simp
  then show "do_rtc_read_time e tm r = (err, tm', r') \<Longrightarrow> \<exists>h. r' = r\<lparr>dev := h\<rparr>"
    by (auto simp: do_rtc_read_time_def Let_def split: option.splits prod.splits if_splits)
qed

lemma set_alarm_frame:
  assumes "do_rtc_set_alarm e al r = (err, al', r')"
  shows "\<exists>h. r' = r\<lparr>dev := h\<rparr>"
proof -
  obtain e1 tm r1 where q: "do_rtc_read_time e (stack_tm e) r = (e1, tm, r1)" by (metis prod_cases3)
  then obtain h where h: "r1 = r\<lparr>dev := h\<rparr>" using read_time_frame by blast
  have "\<exists>h. r = r\<lparr>dev := h\<rparr>" by (rule exI [of _ "dev r"]) simp
  then show ?thesis using assms q unfolding h
    by (auto simp: do_rtc_set_alarm_def Let_def split: option.splits prod.splits if_splits)
qed

lemma lock_frame: "mutex_lock_interruptible r = (err, r') \<Longrightarrow> \<exists>xs. r' = r\<lparr>intr := xs\<rparr>"
proof -
  have "\<exists>xs. r = r\<lparr>intr := xs\<rparr>" by (rule exI [of _ "intr r"]) simp
  then show "mutex_lock_interruptible r = (err, r') \<Longrightarrow> \<exists>xs. r' = r\<lparr>intr := xs\<rparr>"
    by (auto simp: mutex_lock_interruptible_def split: list.splits)
qed

section \<open>The queue and the enabled timers agree\<close>

definition queue_inv :: "'h rtc_device \<Rightarrow> bool" where
  "queue_inv r \<longleftrightarrow> distinct (timerqueue r) \<and> sorted (map (key r) (timerqueue r)) \<and>
     (\<forall>t. enabled (timers r t) = (if t \<in> set (timerqueue r) then 1 else 0))"

text \<open>Fields that do not matter for the queue.\<close>

lemma key_simps [simp]:
  "key (r\<lparr>dev := h\<rparr>) = key r" "key (r\<lparr>intr := xs\<rparr>) = key r" "key (r\<lparr>timerqueue := q\<rparr>) = key r"
  "key (r\<lparr>awake := a\<rparr>) = key r" "key (r\<lparr>irqwork := w\<rparr>) = key r" "key (r\<lparr>irq_data := d\<rparr>) = key r" "key (r\<lparr>fired := fs\<rparr>) = key r"
  "key (set_timer t x r) = (key r)(t := expires x)" "key (set_enabled t v r) = key r" "key (queue_del t r) = key r"
  by (auto simp: key_def set_timer_def set_enabled_def queue_del_def)

lemma queue_simps [simp]:
  "timerqueue (set_timer t x r) = timerqueue r" "timers (set_timer t x r) = (timers r)(t := x)"
  "timerqueue (set_enabled t v r) = timerqueue r" "timers (set_enabled t v r) = (timers r)(t := (timers r t)\<lparr>enabled := v\<rparr>)"
  "timerqueue (queue_del t r) = remove1 t (timerqueue r)" "timers (queue_del t r) = timers r"
  "timers (queue_add e t r) = timers r" "key (queue_add e t r) = key r"
  "timerqueue (queue_add e t r) = timerqueue_add e (key r) t (timerqueue r)"
  "dev (set_timer t x r) = dev r" "dev (set_enabled t v r) = dev r" "dev (queue_del t r) = dev r" "dev (queue_add e t r) = dev r"
  "ops (set_timer t x r) = ops r" "ops (set_enabled t v r) = ops r" "ops (queue_del t r) = ops r" "ops (queue_add e t r) = ops r"
  by (simp_all add: set_timer_def set_enabled_def queue_del_def queue_add_def key_def fun_eq_iff)

definition same_queue :: "'h rtc_device \<Rightarrow> 'h rtc_device \<Rightarrow> bool" where
  "same_queue r r' \<longleftrightarrow> timerqueue r' = timerqueue r \<and> timers r' = timers r"

lemma same_queue_inv: "same_queue r r' \<Longrightarrow> queue_inv r' \<longleftrightarrow> queue_inv r"
  by (simp add: same_queue_def queue_inv_def key_def cong: map_cong)

lemma same_queue_trans: "same_queue a b \<Longrightarrow> same_queue b c \<Longrightarrow> same_queue a c"
  by (simp add: same_queue_def)

lemma same_queue_simps [simp]:
  "same_queue r r" "same_queue r (r\<lparr>dev := h\<rparr>)" "same_queue r (r\<lparr>intr := xs\<rparr>)" "same_queue r (schedule_work r)"
  "same_queue r (rtc_alarm_disable r)" "same_queue r (call_func f r)"
  by (auto simp: same_queue_def schedule_work_def rtc_alarm_disable_def call_func_def rtc_aie_update_irq_def
      rtc_uie_update_irq_def rtc_handle_legacy_irq_def split: option.split timer_func.split)

lemma calls_same_queue:
  "do_rtc_read_time e tm r = (err, tm', r') \<Longrightarrow> same_queue r r'"
  "do_rtc_set_alarm e al r = (err, al', r') \<Longrightarrow> same_queue r r'"
  "mutex_lock_interruptible r = (err, r') \<Longrightarrow> same_queue r r'"
  using read_time_frame set_alarm_frame lock_frame by fastforce+

lemma queue_inv_del:
  assumes "queue_inv r" shows "queue_inv (set_enabled t 0 (queue_del t r))"
proof -
  have "set (remove1 t (timerqueue r)) = set (timerqueue r) - {t}"
    using assms by (simp add: queue_inv_def set_remove1_eq)
  then show ?thesis using assms
    by (auto simp: queue_inv_def sorted_map_remove1)
qed

lemma queue_inv_key:
  assumes "queue_inv r" and "enabled (timers r t) = 0" and "enabled x = 0"
  shows "queue_inv (set_timer t x r)"
proof -
  have "t \<notin> set (timerqueue r)" using assms(1,2) by (auto simp: queue_inv_def)
  then show ?thesis using assms by (simp add: queue_inv_def map_fun_upd)
qed

lemma queue_inv_add:
  assumes "timerqueue_ok e" and "queue_inv r" and "enabled (timers r t) = 0" and "enabled x = 1"
  shows "queue_inv (queue_add e t (set_timer t x r))"
proof -
  let ?k = "(key r)(t := expires x)"
  have t: "t \<notin> set (timerqueue r)" using assms(2,3) by (auto simp: queue_inv_def)
  then have s: "sorted (map ?k (timerqueue r))" using assms(2) by (simp add: queue_inv_def map_fun_upd)
  from assms(1) s have a: "sorted (map ?k (timerqueue_add e ?k t (timerqueue r)))"
    "mset (timerqueue_add e ?k t (timerqueue r)) = add_mset t (mset (timerqueue r))"
    unfolding timerqueue_ok_def by blast+
  have "set (timerqueue_add e ?k t (timerqueue r)) = insert t (set (timerqueue r))"
    using arg_cong [OF a(2), of set_mset] by simp
  moreover have "distinct (timerqueue_add e ?k t (timerqueue r))"
    using mset_eq_imp_distinct_iff [of _ "t # timerqueue r"] a(2) t assms(2) by (simp add: queue_inv_def)
  ultimately show ?thesis using assms(2,4) a(1) by (auto simp: queue_inv_def)
qed

lemma queue_inv_enabled: "queue_inv r \<Longrightarrow> enabled (timers r t) = 0 \<or> enabled (timers r t) = 1"
  by (simp add: queue_inv_def)

lemma enqueue_inv [inv_intros]:
  assumes tq: "timerqueue_ok e" and inv: "queue_inv r" and t: "enabled (timers r t) = 0"
    and q: "rtc_timer_enqueue e t r = (err, r')"
  shows "queue_inv r'" and "enabled (timers r' t) = (if err = 0 then 1 else 0)"
proof -
  obtain e1 tm r1 where rd: "do_rtc_read_time e (stack_tm e) r = (e1, tm, r1)" by (metis prod_cases3)
  have sq: "same_queue r r1" using calls_same_queue(1) [OF rd] .
  then have i1: "queue_inv r1" and t1: "enabled (timers r1 t) = 0" using inv t same_queue_inv [OF sq] by (auto simp: same_queue_def)
  let ?r2 = "queue_add e t (set_enabled t 1 r1)"
  have i2: "queue_inv ?r2" unfolding set_enabled_def by (rule queue_inv_add [OF tq i1 t1]) simp
  obtain e2 al r3 where sa: "do_rtc_set_alarm e (alarm_for e (key r1 t)) ?r2 = (e2, al, r3)" by (metis prod_cases3)
  have sq3: "same_queue ?r2 r3" using calls_same_queue(2) [OF sa] .
  have i3: "queue_inv r3" "queue_inv (schedule_work r3)" "enabled (timers r3 t) = 1" "enabled (timers (schedule_work r3) t) = 1"
    using i2 same_queue_inv [OF sq3] same_queue_inv [of r3 "schedule_work r3"] sq3
    by (auto simp: same_queue_def schedule_work_def)
  have "queue_inv r' \<and> enabled (timers r' t) = (if err = 0 then 1 else 0)"
    using q i1 t1 i2 i3 queue_inv_del [OF i3(1), of t]
    by (auto simp: rtc_timer_enqueue_def rd sa Let_def split: if_splits)
  then show "queue_inv r'" "enabled (timers r' t) = (if err = 0 then 1 else 0)" by blast+
qed

lemma remove_inv [inv_intros]:
  assumes inv: "queue_inv r"
  shows "queue_inv (rtc_timer_remove e t r)" and "timers (rtc_timer_remove e t r) = (timers r)(t := (timers r t)\<lparr>enabled := 0\<rparr>)"
    and "timerqueue (rtc_timer_remove e t r) = remove1 t (timerqueue r)"
proof -
  let ?r1 = "set_enabled t 0 (queue_del t r)"
  have "same_queue ?r1 (rtc_timer_remove e t r)"
    by (auto simp: rtc_timer_remove_def Let_def split: list.split prod.split
        intro: same_queue_trans [OF _ same_queue_simps(4)] calls_same_queue(2))
  then show "queue_inv (rtc_timer_remove e t r)"
    "timers (rtc_timer_remove e t r) = (timers r)(t := (timers r t)\<lparr>enabled := 0\<rparr>)"
    "timerqueue (rtc_timer_remove e t r) = remove1 t (timerqueue r)"
    using queue_inv_del [OF inv, of t] by (auto simp: same_queue_inv, auto simp: same_queue_def)
qed

lemma expire_timer_inv [inv_intros]:
  assumes tq: "timerqueue_ok e" and inv: "queue_inv r"
  shows "queue_inv (expire_timer e t r)"
proof -
  let ?r1 = "set_enabled t 0 (queue_del t r)"
  let ?r2 = "call_func (tfunc (timers ?r1 t)) ?r1"
  have sq: "same_queue ?r1 ?r2" by (rule same_queue_simps(6))
  have i2: "queue_inv ?r2" using queue_inv_del [OF inv, of t] same_queue_inv [OF sq] by simp
  have "enabled (timers ?r2 t) = 0" using sq by (simp add: same_queue_def)
  then show ?thesis using i2 queue_inv_add [OF tq i2] by (simp add: expire_timer_def Let_def del: queue_simps)
qed

lemma expire_loop_inv [inv_intros]:
  assumes "timerqueue_ok e" and "queue_inv r" and "expire_loop n e now r = Some r'"
  shows "queue_inv r'" and "timerqueue r' = [] \<or> key r' (hd (timerqueue r')) > now"
proof -
  have "queue_inv r' \<and> (timerqueue r' = [] \<or> key r' (hd (timerqueue r')) > now)"
    using assms(2,3)
    by (induction n arbitrary: r) (auto split: list.splits if_splits intro: expire_timer_inv [OF assms(1)])
  then show "queue_inv r'" "timerqueue r' = [] \<or> key r' (hd (timerqueue r')) > now" by blast+
qed

lemma reprogram_frame: "reprogram n e al r = (err, r') \<Longrightarrow> \<exists>h. r' = r\<lparr>dev := h\<rparr>"
proof (induction n arbitrary: al r)
  case 0
  then show ?case using set_alarm_frame by (auto split: prod.splits)
next
  case (Suc n)
  obtain e1 al1 r1 where sa: "do_rtc_set_alarm e al r = (e1, al1, r1)" by (metis prod_cases3)
  then obtain h where h: "r1 = r\<lparr>dev := h\<rparr>" using set_alarm_frame by blast
  from Suc.IH [of al1 r1] Suc.prems sa show ?case unfolding h by (auto split: if_splits)
qed

lemma do_work_loop_inv [inv_intros]:
  assumes "timerqueue_ok e"
  shows "queue_inv r \<Longrightarrow> do_work_loop n e r = Some r' \<Longrightarrow> queue_inv r'"
proof (induction n arbitrary: r)
  case (Suc n)
  obtain e1 tm r1 where rd: "do_rtc_read_time e (stack_tm e) r = (e1, tm, r1)" by (metis prod_cases3)
  have i1: "queue_inv r1" using Suc.prems(1) same_queue_inv [OF calls_same_queue(1) [OF rd]] by simp
  obtain r2 where x: "expire_loop n e (rtc_tm_to_ktime e tm) r1 = Some r2" using Suc.prems(2) rd by (auto split: option.splits)
  have i2: "queue_inv r2" by (rule expire_loop_inv(1) [OF assms i1 x])
  show ?case
  proof (cases "timerqueue r2")
    case Nil
    then have "r' = rtc_alarm_disable r2" using Suc.prems(2) rd x by simp
    then show ?thesis using i2 same_queue_inv [OF same_queue_simps(5), of r2] by simp
  next
    case (Cons t q)
    obtain e3 r3 where p: "reprogram 3 e (alarm_for e (key r2 t)) r2 = (e3, r3)" by force
    have "same_queue r2 r3" using reprogram_frame [OF p] by auto
    then have i3: "queue_inv r3" using i2 same_queue_inv by blast
    show ?thesis using Suc.prems(2) rd x Cons p i3 queue_inv_del [OF i3, of t] Suc.IH
      by (auto split: if_splits)
  qed
qed simp

lemma do_work_inv [inv_intros]:
  assumes "timerqueue_ok e" and "queue_inv r" and "rtc_timer_do_work n e r = Some r'"
  shows "queue_inv r'"
proof -
  have "queue_inv (r\<lparr>irqwork := False\<rparr>)" using assms(2) by (simp add: queue_inv_def)
  moreover obtain z where z: "do_work_loop n e (r\<lparr>irqwork := False\<rparr>) = Some z" "r' = z\<lparr>awake := False\<rparr>"
    using assms(3) by (auto simp: rtc_timer_do_work_def)
  ultimately have "queue_inv z" using do_work_loop_inv [OF assms(1)] by blast
  then show ?thesis by (simp add: z(2) queue_inv_def)
qed

lemma timer_start_inv [inv_intros]:
  assumes "timerqueue_ok e" and "queue_inv r" and "rtc_timer_start e t ex per r = (err, r')"
  shows "queue_inv r'"
proof -
  define r1 where "r1 = (if enabled (timers r t) \<noteq> 0 then rtc_timer_remove e t r else r)"
  have i1: "queue_inv r1" "enabled (timers r1 t) = 0"
    using assms(2) remove_inv [OF assms(2)] by (simp_all add: r1_def)
  have "queue_inv (set_timer t ((timers r1 t)\<lparr>expires := ex, period := per\<rparr>) r1)"
    by (rule queue_inv_key [OF i1]) (simp add: i1)
  from enqueue_inv(1) [OF assms(1) this, of t] assms(3) i1(2) show ?thesis
    by (simp add: rtc_timer_start_def r1_def [symmetric] Let_def)
qed

lemma set_alarm_inv [inv_intros]:
  assumes tq: "timerqueue_ok e" and inv: "queue_inv r" and q: "rtc_set_alarm e alarm r = (err, r')"
  shows "queue_inv r'"
proof -
  obtain e1 r1 where l: "mutex_lock_interruptible r = (e1, r1)" by force
  have i1: "queue_inv r1" using inv same_queue_inv [OF calls_same_queue(3) [OF l]] by simp
  define r2 where "r2 = (if enabled (timers r1 aie_timer) \<noteq> 0 then rtc_timer_remove e aie_timer r1 else r1)"
  have i2: "queue_inv r2" "enabled (timers r2 aie_timer) = 0"
    using i1 remove_inv [OF i1] by (simp_all add: r2_def)
  let ?r3 = "set_timer aie_timer ((timers r2 aie_timer)\<lparr>expires := rtc_tm_to_ktime e (wk_time alarm), period := 0\<rparr>) r2"
  have i3: "queue_inv ?r3" "enabled (timers ?r3 aie_timer) = 0" using i2 by (simp_all add: queue_inv_key)
  show ?thesis using q inv i1 i3 enqueue_inv(1) [OF tq i3]
    by (auto simp: rtc_set_alarm_def l r2_def [symmetric] Let_def split: option.splits if_splits)
qed

lemma alarm_irq_enable_inv [inv_intros]:
  assumes tq: "timerqueue_ok e" and inv: "queue_inv r" and en: "en = 0 \<or> en = 1" and q: "rtc_alarm_irq_enable e en r = (err, r')"
  shows "queue_inv r'"
proof -
  obtain e1 r1 where l: "mutex_lock_interruptible r = (e1, r1)" by force
  have i1: "queue_inv r1" using inv same_queue_inv [OF calls_same_queue(3) [OF l]] by simp
  define x where "x = (if enabled (timers r1 aie_timer) \<noteq> en
     then (if en \<noteq> 0 then rtc_timer_enqueue e aie_timer r1 else (0, rtc_timer_remove e aie_timer r1)) else (0, r1))"
  obtain e2 r2 where x: "x = (e2, r2)" by force
  have i2: "queue_inv r2"
    using x i1 en queue_inv_enabled [OF i1, of aie_timer] enqueue_inv(1) [OF tq i1] remove_inv(1) [OF i1]
    by (auto simp: x_def split: if_splits)
  have "queue_inv (r2\<lparr>dev := h\<rparr>)" for h using i2 same_queue_inv [of r2 "r2\<lparr>dev := h\<rparr>"] by simp
  then show ?thesis using q i1 i2
    by (auto simp: rtc_alarm_irq_enable_def l x_def [symmetric] x split: option.splits if_splits prod.splits)
qed

lemma update_irq_enable_inv [inv_intros]:
  assumes tq: "timerqueue_ok e" and inv: "queue_inv r" and en: "en = 0 \<or> en = 1" and q: "rtc_update_irq_enable e en r = (err, r')"
  shows "queue_inv r'"
proof -
  obtain e1 r1 where l: "mutex_lock_interruptible r = (e1, r1)" by force
  have i1: "queue_inv r1" using inv same_queue_inv [OF calls_same_queue(3) [OF l]] by simp
  obtain e2 tm r2 where rd: "do_rtc_read_time e (stack_tm e) r1 = (e2, tm, r2)" by (metis prod_cases3)
  have sq: "same_queue r1 r2" using calls_same_queue(1) [OF rd] .
  let ?r3 = "set_timer uie_rtctimer ((timers r2 uie_rtctimer)\<lparr>expires := s64 (rtc_tm_to_ktime e tm + NSEC_PER_SEC), period := NSEC_PER_SEC\<rparr>) r2"
  have "queue_inv ?r3 \<and> enabled (timers ?r3 uie_rtctimer) = 0" if "enabled (timers r1 uie_rtctimer) = 0"
    using that i1 sq same_queue_inv [OF sq] by (auto simp: same_queue_def intro!: queue_inv_key)
  then show ?thesis
    using q i1 en queue_inv_enabled [OF i1, of uie_rtctimer] enqueue_inv(1) [OF tq, of ?r3 uie_rtctimer] remove_inv(1) [OF i1]
    by (auto simp: rtc_update_irq_enable_def l rd simp del: queue_simps split: if_splits)
qed

lemma set_time_call_same_queue: "set_time_call tm r = (err, r') \<Longrightarrow> same_queue r r'"
  by (auto simp: set_time_call_def split: option.splits prod.splits)

lemma set_time_inv [inv_intros]:
  assumes tq: "timerqueue_ok e" and inv: "queue_inv r" and q: "rtc_set_time e tm r = (err, r')"
  shows "queue_inv r'"
proof -
  define x where "x = (if enabled (timers r uie_rtctimer) \<noteq> 0 then rtc_update_irq_enable e 0 r else (0, r))"
  obtain e1 r1 where x: "x = (e1, r1)" by force
  have i1: "queue_inv r1" using x inv update_irq_enable_inv [OF tq inv, of 0] by (auto simp: x_def split: if_splits)
  obtain e2 r2 where l: "mutex_lock_interruptible r1 = (e2, r2)" by force
  have i2: "queue_inv r2" using i1 same_queue_inv [OF calls_same_queue(3) [OF l]] by simp
  obtain e3 r3 where c: "set_time_call (rtc_subtract_offset e r tm) r2 = (e3, r3)" by force
  have i3: "queue_inv (schedule_work r3)"
    using i2 same_queue_inv [OF set_time_call_same_queue [OF c]] same_queue_inv [of r3 "schedule_work r3"] by simp
  show ?thesis using q inv i1 i2 i3 update_irq_enable_inv [OF tq i3, of 1]
    by (auto simp: rtc_set_time_def Let_def x_def [symmetric] x l c split: if_splits)
qed

lemma initialize_alarm_inv [inv_intros]:
  assumes tq: "timerqueue_ok e" and inv: "queue_inv r" and aie: "enabled (timers r aie_timer) = 0"
    and q: "rtc_initialize_alarm e alarm r = (err, r')"
  shows "queue_inv r'"
proof -
  obtain e1 now r1 where rd: "rtc_read_time e (stack_tm e) r = (e1, now, r1)" by (metis prod_cases3)
  have s1: "same_queue r r1"
  proof -
    obtain e0 r0 where l: "mutex_lock_interruptible r = (e0, r0)" by force
    show ?thesis using rd calls_same_queue(3) [OF l] calls_same_queue(1) [of e "stack_tm e" r0] same_queue_trans
      by (fastforce simp: rtc_read_time_def l split: if_splits)
  qed
  obtain e2 r2 where l: "mutex_lock_interruptible r1 = (e2, r2)" by force
  have s2: "same_queue r r2" using s1 calls_same_queue(3) [OF l] same_queue_trans by blast
  have i: "queue_inv r1" "queue_inv r2" "enabled (timers r2 aie_timer) = 0"
    using inv aie s1 s2 same_queue_inv by (auto simp: same_queue_def)
  let ?x = "(timers r2 aie_timer)\<lparr>expires := rtc_tm_to_ktime e (wk_time alarm), period := 0\<rparr>"
  have i3: "queue_inv (set_timer aie_timer ?x r2)" by (rule queue_inv_key [OF i(2,3)]) (simp add: i(3))
  have "queue_inv (queue_add e aie_timer (set_enabled aie_timer 1 (set_timer aie_timer ?x r2)))"
    unfolding set_enabled_def by (rule queue_inv_add [OF tq i3]) (simp_all add: i(3))
  then show ?thesis using q inv i i3
    by (auto simp: rtc_initialize_alarm_def rd l Let_def simp del: queue_simps split: if_splits)
qed

section \<open>Reachable states of an RTC\<close>

text \<open>The calls of the character device, of other parts of the kernel and of the work queue, in any
  order.  The enable arguments are 0 or 1, a timer is initialised only while it is not queued, and
  the alarm found in the hardware is taken over while the alarm timer is not queued.\<close>

inductive rtc_step :: "rtc_env \<Rightarrow> 'h rtc_device \<Rightarrow> 'h rtc_device \<Rightarrow> bool" for e :: rtc_env where
  set_time: "rtc_set_time e tm r = (err, r') \<Longrightarrow> rtc_step e r r'"
| set_alarm: "rtc_set_alarm e al r = (err, r') \<Longrightarrow> rtc_step e r r'"
| init_alarm: "enabled (timers r aie_timer) = 0 \<Longrightarrow> rtc_initialize_alarm e al r = (err, r') \<Longrightarrow> rtc_step e r r'"
| alarm_irq: "en = 0 \<or> en = 1 \<Longrightarrow> rtc_alarm_irq_enable e en r = (err, r') \<Longrightarrow> rtc_step e r r'"
| update_irq: "en = 0 \<or> en = 1 \<Longrightarrow> rtc_update_irq_enable e en r = (err, r') \<Longrightarrow> rtc_step e r r'"
| timer_init: "enabled (timers r t) = 0 \<Longrightarrow> rtc_step e r (rtc_timer_init t f r)"
| timer_start: "rtc_timer_start e t ex per r = (err, r') \<Longrightarrow> rtc_step e r r'"
| timer_cancel: "rtc_step e r (rtc_timer_cancel e t r)"
| work: "rtc_timer_do_work n e r = Some r' \<Longrightarrow> rtc_step e r r'"
| irq: "rtc_step e r (rtc_update_irq r)"

lemma rtc_step_inv:
  assumes "timerqueue_ok e" and "rtc_step e r r'" and "queue_inv r"
  shows "queue_inv r'"
  using assms(2)
proof cases
  case (timer_init t f)
  then show ?thesis using queue_inv_key [OF assms(3)] by (simp add: rtc_timer_init_def)
next
  case (timer_cancel t)
  then show ?thesis using assms(3) remove_inv(1) [OF assms(3)] by (simp add: rtc_timer_cancel_def)
next
  case irq
  then show ?thesis using assms(3) same_queue_inv [of r "schedule_work r"] by (simp add: rtc_update_irq_def)
qed (use assms(1,3) in \<open>auto intro: inv_intros\<close>)

lemma rtc_steps_inv:
  assumes "timerqueue_ok e" and "(rtc_step e)\<^sup>*\<^sup>* r r'" and "queue_inv r"
  shows "queue_inv r'"
  using assms(2,3) by (induction rule: rtranclp_induct) (auto intro: rtc_step_inv [OF assms(1)])

end
