(* ===== verification/Rtc_Work.thy ===== *)
theory Rtc_Work
  imports Rtc_Timer
begin

text \<open>
  The worker of the timer queue (\<open>rtc_timer_do_work\<close> of \<open>drivers/rtc/interface.c\<close>) always ends and
  serves what is due, for every driver whose clock neither runs backwards nor past a bound.  What
  the driver has to promise is the locale \<open>rtc_clock\<close>.  The loops of the model have fuel; how much is
  enough is counted by \<open>work_left\<close>.
\<close>

section \<open>Callbacks that have been delivered\<close>

definition delivered :: "timer_func \<Rightarrow> 'h rtc_device \<Rightarrow> bool" where
  "delivered f r = (case f of Aie_update_irq \<Rightarrow> bit (irq_data r) 5 | Uie_update_irq \<Rightarrow> bit (irq_data r) 4
     | Other_func i \<Rightarrow> i \<in> set (fired r))"

lemma bit_plus_shifted:
  assumes "n < 8"
  shows "bit (d + push_bit 8 w :: u32) n \<longleftrightarrow> bit d n"
proof -
  let ?x = "uint d + uint (push_bit 8 w)"
  have z: "take_bit 8 (uint (push_bit 8 w)) = 0" by (simp add: unsigned_push_bit_eq take_bit_push_bit)
  have "take_bit 8 ?x = take_bit 8 (take_bit 8 (uint d) + take_bit 8 (uint (push_bit 8 w)))" by (simp add: take_bit_add)
  then have t: "take_bit 8 ?x = take_bit 8 (uint d)" unfolding z by simp
  have "bit (d + push_bit 8 w) n \<longleftrightarrow> bit (take_bit 32 ?x) n"
    using assms bit_uint_iff [of "d + push_bit 8 w" n] by (simp add: uint_word_ariths take_bit_eq_mod)
  also have "\<dots> \<longleftrightarrow> bit (take_bit 8 ?x) n" using assms by (simp add: bit_take_bit_iff)
  also have "\<dots> \<longleftrightarrow> bit d n" unfolding t using assms by (simp add: bit_take_bit_iff bit_uint_iff)
  finally show ?thesis .
qed

lemma legacy_irq_bits:
  "n < 8 \<Longrightarrow> bit (irq_data (rtc_handle_legacy_irq num mode r)) n \<longleftrightarrow> bit (irq_data r) n \<or> bit (RTC_IRQF OR mode) n"
  by (simp add: rtc_handle_legacy_irq_def bit_or_iff bit_plus_shifted)

lemma mode_bits: "bit RTC_AF 5" "bit RTC_UF 4"
  by (simp_all add: RTC_AF_def RTC_UF_def bit_numeral_rec)

lemma delivered_mono: "delivered f r \<Longrightarrow> delivered f (call_func g r)"
  by (auto simp: delivered_def call_func_def rtc_aie_update_irq_def rtc_uie_update_irq_def legacy_irq_bits
      split: timer_func.splits option.split) (auto simp: rtc_handle_legacy_irq_def)

lemma call_delivers: "delivered f (call_func (Some f) r)"
  by (auto simp: delivered_def call_func_def rtc_aie_update_irq_def rtc_uie_update_irq_def legacy_irq_bits
      mode_bits bit_or_iff split: timer_func.splits)

lemma delivered_frame [simp]:
  "delivered f (r\<lparr>dev := h\<rparr>) = delivered f r" "delivered f (set_timer t x r) = delivered f r"
  "delivered f (set_enabled t v r) = delivered f r" "delivered f (queue_del t r) = delivered f r"
  "delivered f (queue_add e t r) = delivered f r" "delivered f (rtc_alarm_disable r) = delivered f r"
  "delivered f (r\<lparr>irqwork := w\<rparr>) = delivered f r" "delivered f (r\<lparr>awake := w\<rparr>) = delivered f r"
  by (auto simp: delivered_def set_timer_def set_enabled_def queue_del_def queue_add_def rtc_alarm_disable_def
      split: timer_func.split option.split)

lemma expire_delivers:
  "tfunc (timers r t) = Some f \<Longrightarrow> delivered f (expire_timer e t r)"
  "delivered g r \<Longrightarrow> delivered g (expire_timer e t r)"
  by (auto simp: expire_timer_def Let_def intro: call_delivers delivered_mono)

section \<open>One expiry\<close>

lemma call_func_frame [simp]:
  "timerqueue (call_func f r) = timerqueue r" "timers (call_func f r) = timers r" "ops (call_func f r) = ops r"
  "dev (call_func f r) = dev r" "offset_secs (call_func f r) = offset_secs r" "key (call_func f r) = key r"
  by (auto simp: call_func_def rtc_aie_update_irq_def rtc_uie_update_irq_def rtc_handle_legacy_irq_def key_def
      split: option.split timer_func.split)

lemma expire_timer_frame [simp]:
  "ops (expire_timer e t r) = ops r" "dev (expire_timer e t r) = dev r" "offset_secs (expire_timer e t r) = offset_secs r"
  by (simp_all add: expire_timer_def Let_def queue_add_def set_timer_def set_enabled_def queue_del_def)

text \<open>What becomes of the timers.\<close>

lemma expire_timer_timers:
  "timers (expire_timer e t r) = (timers r)(t := (if period (timers r t) \<noteq> 0
     then (timers r t)\<lparr>expires := s64 (key r t + period (timers r t)), enabled := 1\<rparr> else (timers r t)\<lparr>enabled := 0\<rparr>))"
  by (simp add: expire_timer_def Let_def key_def)

lemma queue_add_set:
  assumes "timerqueue_ok e" and "sorted (map k q)"
  shows "set (timerqueue_add e k t q) = insert t (set q)"
proof -
  have "mset (timerqueue_add e k t q) = add_mset t (mset q)" using assms unfolding timerqueue_ok_def by blast
  from arg_cong [OF this, of set_mset] show ?thesis by simp
qed

lemma expire_timer_set:
  assumes "timerqueue_ok e" and "queue_inv r" and "t \<in> set (timerqueue r)"
  shows "set (timerqueue (expire_timer e t r)) = (if period (timers r t) \<noteq> 0 then set (timerqueue r) else set (timerqueue r) - {t})"
proof -
  have s: "set (remove1 t (timerqueue r)) = set (timerqueue r) - {t}" using assms(2) by (simp add: queue_inv_def set_remove1_eq)
  then have "sorted (map ((key r)(t := x)) (remove1 t (timerqueue r)))" for x
    using assms(2) by (simp add: queue_inv_def map_fun_upd sorted_map_remove1)
  then show ?thesis using s assms(3) by (auto simp: expire_timer_def Let_def queue_add_set [OF assms(1)])
qed

text \<open>Timers on which 64-bit arithmetic does not wrap for the next round.\<close>

definition timers_ok :: "'h rtc_device \<Rightarrow> bool" where
  "timers_ok r \<longleftrightarrow> (\<forall>t \<in> set (timerqueue r). - (2 ^ 63) \<le> key r t \<and> key r t < 2 ^ 63 \<and>
     0 \<le> period (timers r t) \<and> period (timers r t) \<le> 2 ^ 59)"

definition left :: "int \<Rightarrow> 'h rtc_device \<Rightarrow> nat \<Rightarrow> nat" where
  "left lim r t = Suc (nat (lim + 1 - key r t))"

definition work_left :: "int \<Rightarrow> 'h rtc_device \<Rightarrow> nat" where
  "work_left lim r = (\<Sum>t \<in> set (timerqueue r). left lim r t)"

lemma expire_timer_progress:
  assumes "timerqueue_ok e" and inv: "queue_inv r" and ok: "timers_ok r" and t: "t \<in> set (timerqueue r)"
    and due: "key r t \<le> lim" and lim: "lim \<le> 2 ^ 33 * NSEC_PER_SEC"
  shows "timers_ok (expire_timer e t r)" and "work_left lim (expire_timer e t r) < work_left lim r"
proof -
  let ?r = "expire_timer e t r" and ?Q = "set (timerqueue r)"
  have b: "- (2 ^ 63) \<le> key r t" "0 \<le> period (timers r t)" "period (timers r t) \<le> 2 ^ 59"
    using ok t by (auto simp: timers_ok_def)
  have k: "key ?r t = (if period (timers r t) \<noteq> 0 then key r t + period (timers r t) else key r t)"
    using b due lim by (simp add: key_def expire_timer_timers)
  have ko: "key ?r x = key r x" "period (timers ?r x) = period (timers r x)" if "x \<noteq> t" for x
    using that by (simp_all add: key_def expire_timer_timers)
  have pt: "period (timers ?r t) = period (timers r t)" by (simp add: expire_timer_timers)
  note Q = expire_timer_set [OF assms(1) inv t]
  show "timers_ok ?r" unfolding timers_ok_def
  proof
    fix x assume "x \<in> set (timerqueue ?r)"
    then have "x \<in> ?Q" using Q by (auto split: if_splits)
    then show "- (2 ^ 63) \<le> key ?r x \<and> key ?r x < 2 ^ 63 \<and> 0 \<le> period (timers ?r x) \<and> period (timers ?r x) \<le> 2 ^ 59"
      using ok ko b k pt due lim by (cases "x = t") (auto simp: timers_ok_def)
  qed
  have rest: "(\<Sum>x \<in> ?Q - {t}. left lim ?r x) = (\<Sum>x \<in> ?Q - {t}. left lim r x)"
    by (rule sum.cong) (auto simp: left_def ko)
  have W: "work_left lim r = left lim r t + (\<Sum>x \<in> ?Q - {t}. left lim r x)"
    using t by (simp add: work_left_def sum.remove)
  show "work_left lim ?r < work_left lim r"
  proof (cases "period (timers r t) = 0")
    case True
    then show ?thesis using W rest Q by (simp add: work_left_def left_def)
  next
    case False
    then have "left lim ?r t < left lim r t" using k b due by (simp add: left_def)
    moreover have "work_left lim ?r = left lim ?r t + (\<Sum>x \<in> ?Q - {t}. left lim ?r x)"
      using t False Q by (simp add: work_left_def sum.remove)
    ultimately show ?thesis using W rest by simp
  qed
qed

section \<open>The loop over the due timers\<close>

lemma expire_loop_total:
  assumes tq: "timerqueue_ok e" and now: "now \<le> lim" and lim: "lim \<le> 2 ^ 33 * NSEC_PER_SEC"
  shows "queue_inv r \<Longrightarrow> timers_ok r \<Longrightarrow> work_left lim r < n \<Longrightarrow>
    \<exists>r'. expire_loop n e now r = Some r' \<and> timers_ok r' \<and> work_left lim r' \<le> work_left lim r \<and>
      (timerqueue r \<noteq> [] \<and> key r (hd (timerqueue r)) \<le> now \<longrightarrow> work_left lim r' < work_left lim r) \<and>
      ops r' = ops r \<and> dev r' = dev r \<and> offset_secs r' = offset_secs r"
proof (induction n arbitrary: r)
  case (Suc n)
  show ?case
  proof (cases "timerqueue r = [] \<or> key r (hd (timerqueue r)) > now")
    case True
    then have "expire_loop (Suc n) e now r = Some r" by (cases "timerqueue r") auto
    with True Suc.prems show ?thesis by auto
  next
    case False
    then obtain t q where q: "timerqueue r = t # q" "key r t \<le> now" by (cases "timerqueue r") auto
    let ?r = "expire_timer e t r"
    have "t \<in> set (timerqueue r)" "key r t \<le> lim" using q now by auto
    note p = expire_timer_progress [OF tq Suc.prems(1,2) this lim]
    have i: "queue_inv ?r" by (rule expire_timer_inv [OF tq Suc.prems(1)])
    have "work_left lim ?r < n" using p(2) Suc.prems(3) by simp
    from Suc.IH [OF i p(1) this] p(2) q show ?thesis by (auto simp: not_less)
  qed
qed simp

lemma expire_loop_delivers:
  assumes tq: "timerqueue_ok e"
  shows "queue_inv r \<Longrightarrow> expire_loop n e now r = Some r' \<Longrightarrow>
    (\<forall>f. delivered f r \<longrightarrow> delivered f r') \<and>
    (\<forall>t f. t \<in> set (timerqueue r) \<and> key r t \<le> now \<and> tfunc (timers r t) = Some f \<longrightarrow> delivered f r')"
proof (induction n arbitrary: r)
  case (Suc n)
  show ?case
  proof (cases "timerqueue r = [] \<or> key r (hd (timerqueue r)) > now")
    case True
    then have "r' = r" using Suc.prems(2) by (cases "timerqueue r") auto
    moreover have "\<not> key r t \<le> now" if "t \<in> set (timerqueue r)" for t
      using True that Suc.prems(1) by (cases "timerqueue r") (auto simp: queue_inv_def)
    ultimately show ?thesis by blast
  next
    case False
    then obtain u q where q: "timerqueue r = u # q" "key r u \<le> now" by (cases "timerqueue r") auto
    let ?r = "expire_timer e u r"
    have "expire_loop n e now ?r = Some r'" using Suc.prems(2) q by simp
    note ih = Suc.IH [OF expire_timer_inv [OF tq Suc.prems(1)] this]
    have u: "u \<in> set (timerqueue r)" using q by simp
    have "delivered f r'" if "t \<in> set (timerqueue r)" "key r t \<le> now" "tfunc (timers r t) = Some f" for t f
    proof (cases "t = u")
      case True
      then show ?thesis using ih expire_delivers(1) that(3) by blast
    next
      case False
      then have "t \<in> set (timerqueue ?r)" "key ?r t = key r t" "tfunc (timers ?r t) = Some f"
        using that(1,3) expire_timer_set [OF tq Suc.prems(1) u] by (simp_all add: key_def expire_timer_timers)
      then show ?thesis using ih that(2) by (metis order_refl)
    qed
    then show ?thesis using ih expire_delivers(2) by blast
  qed
qed simp

section \<open>What a driver promises about its clock\<close>

text \<open>\<open>clk\<close> is the time the hardware shows, in seconds.\<close>

locale rtc_clock =
  fixes e :: rtc_env and o1 :: "'h rtc_class_ops" and clk :: "'h \<Rightarrow> int" and T :: int
  assumes bound: "T < 2 ^ 33"
    and clock_read: "\<exists>f. read_time o1 = Some f \<and> (\<forall>h tm. \<exists>err h'. f h tm = (err, rtc_time64_to_tm e (clk h'), h') \<and>
      clk h \<le> clk h' \<and> 0 \<le> clk h' \<and> clk h' \<le> T \<and> (rtc_valid_tm e (rtc_time64_to_tm e (clk h')) = 0 \<longrightarrow> \<not> err < 0))"
    and clock_alarm: "\<exists>f. set_alarm o1 = Some f \<and> (\<forall>h al. clk h \<le> clk (snd (f h al)) \<and> fst (f h al) \<noteq> - ETIME)"
begin

text \<open>A device with this driver and no range expansion.\<close>

definition runs :: "'h rtc_device \<Rightarrow> bool" where
  "runs r \<longleftrightarrow> rtc_lib_ok e \<and> ops r = Some o1 \<and> offset_secs r = 0"

definition alarm_set :: "int \<Rightarrow> 'h rtc_device \<Rightarrow> bool" where
  "alarm_set k r \<longleftrightarrow> (\<exists>f h. set_alarm o1 = Some f \<and> f h (alarm_for e k) = (0, dev r))"

lemma read_clock:
  assumes "runs r"
  shows "\<exists>h. do_rtc_read_time e tm r = (0, rtc_time64_to_tm e (clk h), r\<lparr>dev := h\<rparr>) \<and>
    clk (dev r) \<le> clk h \<and> 0 \<le> clk h \<and> clk h \<le> T"
proof -
  obtain f where f: "read_time o1 = Some f" "\<And>h tm. \<exists>err h'. f h tm = (err, rtc_time64_to_tm e (clk h'), h') \<and>
      clk h \<le> clk h' \<and> 0 \<le> clk h' \<and> clk h' \<le> T \<and> (rtc_valid_tm e (rtc_time64_to_tm e (clk h')) = 0 \<longrightarrow> \<not> err < 0)"
    using clock_read by blast
  obtain err h where h: "f (dev r) (const_tm 0) = (err, rtc_time64_to_tm e (clk h), h)" "clk (dev r) \<le> clk h" "0 \<le> clk h" "clk h \<le> T"
    "rtc_valid_tm e (rtc_time64_to_tm e (clk h)) = 0 \<longrightarrow> \<not> err < 0" using f(2) by blast
  have "rtc_valid_tm e (rtc_time64_to_tm e (clk h)) = 0"
    using lib_time64(2) [of e "clk h"] assms h(3,4) bound by (simp add: runs_def)
  then show ?thesis using assms h f(1)
    by (intro exI [of _ h]) (simp add: do_rtc_read_time_def runs_def rtc_add_offset_def)
qed

text \<open>Programming the alarm for a time in nanoseconds.\<close>

lemma program_alarm:
  assumes "runs r" and "0 \<le> k" and "k < 2 ^ 63"
  shows "\<exists>err h. do_rtc_set_alarm e (alarm_for e k) r = (err, alarm_for e k, r\<lparr>dev := h\<rparr>) \<and> clk (dev r) \<le> clk h \<and>
    (err = - ETIME \<longrightarrow> k \<le> clk h * NSEC_PER_SEC) \<and> (err = 0 \<longrightarrow> alarm_set k (r\<lparr>dev := h\<rparr>))"
proof -
  define s where "s = (k + 999999999) div NSEC_PER_SEC"
  have s: "0 \<le> s" "s < 2 ^ 40" using assms(2,3) by (simp_all add: s_def)
  have lib: "rtc_lib_ok e" using assms(1) by (simp add: runs_def)
  have tm: "wk_time (alarm_for e k) = rtc_time64_to_tm e s" using lib_ktime(2) [OF lib assms(2,3)] by (simp add: alarm_for_def s_def)
  obtain h where h: "do_rtc_read_time e (stack_tm e) r = (0, rtc_time64_to_tm e (clk h), r\<lparr>dev := h\<rparr>)"
    "clk (dev r) \<le> clk h" "0 \<le> clk h" "clk h \<le> T" using read_clock [OF assms(1)] by blast
  have c: "rtc_tm_to_time64 e (rtc_time64_to_tm e (clk h)) = clk h" using lib_time64(1) [OF lib h(3)] h(4) bound by simp
  note l = lib_time64 [OF lib s] tm c h(1)
  show ?thesis
  proof (cases "s \<le> clk h")
    case True
    then have "do_rtc_set_alarm e (alarm_for e k) r = (- ETIME, alarm_for e k, r\<lparr>dev := h\<rparr>)"
      using l by (simp add: do_rtc_set_alarm_def)
    moreover have "k \<le> clk h * NSEC_PER_SEC" using True unfolding s_def by linarith
    ultimately show ?thesis using h(2) by auto
  next
    case False
    obtain f where f: "set_alarm o1 = Some f" "\<And>h al. clk h \<le> clk (snd (f h al)) \<and> fst (f h al) \<noteq> - ETIME" using clock_alarm by blast
    obtain err g where g: "f h (alarm_for e k) = (err, g)" by force
    have "clk h \<le> clk g" "err \<noteq> - ETIME" using f(2) [of h "alarm_for e k"] by (simp_all add: g)
    moreover have same: "(alarm_for e k)\<lparr>wk_time := rtc_time64_to_tm e s\<rparr> = alarm_for e k" using tm by (simp add: alarm_for_def)
    have "do_rtc_set_alarm e (alarm_for e k) r = (err, alarm_for e k, r\<lparr>dev := g\<rparr>)"
      using l False f(1) g assms(1) by (simp add: do_rtc_set_alarm_def runs_def rtc_subtract_offset_def Let_def same)
    ultimately show ?thesis using h(2) f(1) g by (auto simp: alarm_set_def)
  qed
qed

lemma reprogram_alarm:
  assumes "runs r" and "0 \<le> k" and "k < 2 ^ 63" and "reprogram n e (alarm_for e k) r = (err, r')"
  shows "\<exists>h. r' = r\<lparr>dev := h\<rparr> \<and> clk (dev r) \<le> clk h \<and>
    (err = - ETIME \<longrightarrow> k \<le> clk h * NSEC_PER_SEC) \<and> (err = 0 \<longrightarrow> alarm_set k r')"
  using assms
proof (induction n arbitrary: r)
  case 0
  then show ?case using program_alarm [OF 0(1-3)] by (auto split: prod.splits)
next
  case (Suc n)
  obtain x h where x: "do_rtc_set_alarm e (alarm_for e k) r = (x, alarm_for e k, r\<lparr>dev := h\<rparr>)" "clk (dev r) \<le> clk h"
    "x = - ETIME \<longrightarrow> k \<le> clk h * NSEC_PER_SEC" "x = 0 \<longrightarrow> alarm_set k (r\<lparr>dev := h\<rparr>)"
    using program_alarm [OF Suc.prems(1-3)] by blast
  show ?case
  proof (cases "x = - ETIME \<or> x = 0")
    case True
    then have "err = x" "r' = r\<lparr>dev := h\<rparr>" using Suc.prems(4) x(1) by auto
    then show ?thesis using x by auto
  next
    case False
    then have "reprogram n e (alarm_for e k) (r\<lparr>dev := h\<rparr>) = (err, r')" using Suc.prems(4) x(1) by auto
    moreover have "runs (r\<lparr>dev := h\<rparr>)" using Suc.prems(1) by (simp add: runs_def)
    ultimately obtain g where "r' = r\<lparr>dev := h\<rparr>\<lparr>dev := g\<rparr>" "clk h \<le> clk g" "err = - ETIME \<longrightarrow> k \<le> clk g * NSEC_PER_SEC"
      "err = 0 \<longrightarrow> alarm_set k r'" using Suc.IH [OF _ Suc.prems(2,3)] by fastforce
    then show ?thesis using x(2) by (intro exI [of _ g]) auto
  qed
qed

text \<open>The state that the worker leaves: nothing that was due at the start is still queued, the callbacks
  of what was due have been made, and the alarm is programmed for the first queued timer.\<close>

definition lim :: int where "lim = T * NSEC_PER_SEC"

definition ready :: "'h rtc_device \<Rightarrow> bool" where
  "ready r \<longleftrightarrow> runs r \<and> queue_inv r \<and> timers_ok r"

definition due :: "'h rtc_device \<Rightarrow> nat \<Rightarrow> bool" where
  "due r t \<longleftrightarrow> t \<in> set (timerqueue r) \<and> key r t \<le> clk (dev r) * NSEC_PER_SEC"

definition served :: "'h rtc_device \<Rightarrow> 'h rtc_device \<Rightarrow> bool" where
  "served r r' \<longleftrightarrow> queue_inv r' \<and> (\<forall>t \<in> set (timerqueue r'). key r' t > clk (dev r) * NSEC_PER_SEC) \<and>
     (\<forall>f. delivered f r \<longrightarrow> delivered f r') \<and>
     (\<forall>t f. due r t \<and> tfunc (timers r t) = Some f \<longrightarrow> delivered f r') \<and>
     (timerqueue r' = [] \<or> alarm_set (key r' (hd (timerqueue r'))) r')"

lemma lim_bound: "lim \<le> 2 ^ 33 * NSEC_PER_SEC"
  using bound by (simp add: lim_def)

lemma secs_less: "clk h \<le> clk g \<Longrightarrow> clk g * NSEC_PER_SEC < k \<Longrightarrow> clk h * NSEC_PER_SEC < k"
  by simp

text \<open>One round up to the reprogramming.\<close>

lemma expire_round:
  assumes tq: "timerqueue_ok e" and r: "ready r" and n: "work_left lim r < n"
    and rd: "do_rtc_read_time e (stack_tm e) r = (err, tm, r1)"
  shows "\<exists>r2. expire_loop n e (rtc_tm_to_ktime e tm) r1 = Some r2 \<and> ready r2 \<and> clk (dev r) \<le> clk (dev r2) \<and> 0 \<le> clk (dev r2) \<and>
    work_left lim r2 \<le> work_left lim r \<and> (timerqueue r \<noteq> [] \<and> due r (hd (timerqueue r)) \<longrightarrow> work_left lim r2 < work_left lim r) \<and>
    (\<forall>t \<in> set (timerqueue r2). key r2 t > clk (dev r2) * NSEC_PER_SEC) \<and>
    (\<forall>f. delivered f r \<longrightarrow> delivered f r2) \<and> (\<forall>t f. due r t \<and> tfunc (timers r t) = Some f \<longrightarrow> delivered f r2)"
proof -
  obtain h where h: "tm = rtc_time64_to_tm e (clk h)" "r1 = r\<lparr>dev := h\<rparr>" "clk (dev r) \<le> clk h" "0 \<le> clk h" "clk h \<le> T"
    using read_clock [of r "stack_tm e"] rd r by (auto simp: ready_def)
  have now: "rtc_tm_to_ktime e tm = clk h * NSEC_PER_SEC"
    using lib_ktime(1) [of e "clk h"] r h(1,4,5) bound by (simp add: ready_def runs_def)
  have le: "clk h * NSEC_PER_SEC \<le> lim" using h(5) by (simp add: lim_def)
  have q: "queue_inv r1" "timers_ok r1" "work_left lim r1 = work_left lim r" "timerqueue r1 = timerqueue r" "timers r1 = timers r" "key r1 = key r"
    using r by (simp_all add: h(2) ready_def queue_inv_def timers_ok_def work_left_def left_def)
  have "work_left lim r1 < n" using n q(3) by simp
  from expire_loop_total [OF tq le lim_bound q(1,2) this] obtain r2 where
    x: "expire_loop n e (clk h * NSEC_PER_SEC) r1 = Some r2" "timers_ok r2" "work_left lim r2 \<le> work_left lim r1"
      "timerqueue r1 \<noteq> [] \<and> key r1 (hd (timerqueue r1)) \<le> clk h * NSEC_PER_SEC \<longrightarrow> work_left lim r2 < work_left lim r1"
      "ops r2 = ops r1" "dev r2 = dev r1" "offset_secs r2 = offset_secs r1" by blast
  note i = expire_loop_inv [OF tq q(1) x(1)] and d = expire_loop_delivers [OF tq q(1) x(1)]
  have later: "key r2 t > clk h * NSEC_PER_SEC" if "t \<in> set (timerqueue r2)" for t
    using that i by (cases "timerqueue r2") (auto simp: queue_inv_def)
  have dr: "delivered f r1 = delivered f r" for f by (simp add: h(2))
  have mono: "clk (dev r) * NSEC_PER_SEC \<le> clk h * NSEC_PER_SEC" using h(3) by simp
  have ready2: "ready r2" using r i(1) x by (simp add: ready_def runs_def h(2))
  have del: "delivered f r2" if "due r t" "tfunc (timers r t) = Some f" for t f
    using d that mono q(4-6) unfolding due_def by fastforce
  have prog: "timerqueue r \<noteq> [] \<and> due r (hd (timerqueue r)) \<longrightarrow> work_left lim r2 < work_left lim r"
    using x(4) mono q(3-6) by (auto simp: due_def)
  show ?thesis unfolding now
    using x(1,3,6) h(3,4) ready2 later d del prog q(3) dr by (intro exI [of _ r2]) (auto simp: h(2))
qed

lemma do_work_loop_total:
  assumes tq: "timerqueue_ok e"
  shows "ready r \<Longrightarrow> work_left lim r + 3 \<le> n \<or> work_left lim r + 2 \<le> n \<and> timerqueue r \<noteq> [] \<and> due r (hd (timerqueue r)) \<Longrightarrow>
    \<exists>r'. do_work_loop n e r = Some r' \<and> served r r'"
proof (induction n arbitrary: r)
  case (Suc n)
  obtain err tm r1 where rd: "do_rtc_read_time e (stack_tm e) r = (err, tm, r1)" by (metis prod_cases3)
  have "work_left lim r < n" using Suc.prems(2) by auto
  from expire_round [OF tq Suc.prems(1) this rd] obtain r2 where
    x: "expire_loop n e (rtc_tm_to_ktime e tm) r1 = Some r2" "ready r2" "clk (dev r) \<le> clk (dev r2)" "0 \<le> clk (dev r2)"
      "work_left lim r2 \<le> work_left lim r" "timerqueue r \<noteq> [] \<and> due r (hd (timerqueue r)) \<longrightarrow> work_left lim r2 < work_left lim r"
      "\<forall>t \<in> set (timerqueue r2). key r2 t > clk (dev r2) * NSEC_PER_SEC"
      "\<forall>f. delivered f r \<longrightarrow> delivered f r2" "\<forall>t f. due r t \<and> tfunc (timers r t) = Some f \<longrightarrow> delivered f r2" by blast
  have fuel: "work_left lim r2 + 2 \<le> n" using Suc.prems(2) x(5,6) by auto
  show ?case
  proof (cases "timerqueue r2")
    case Nil
    have "queue_inv (rtc_alarm_disable r2)" using x(2) same_queue_inv [OF same_queue_simps(5), of r2] by (simp add: ready_def)
    moreover have "timerqueue (rtc_alarm_disable r2) = []" using Nil same_queue_simps(5) [of r2] by (simp add: same_queue_def)
    ultimately have "served r (rtc_alarm_disable r2)" using x(8,9) by (simp add: served_def)
    then show ?thesis using rd x(1) Nil by auto
  next
    case (Cons t q)
    have k: "key r2 t > clk (dev r2) * NSEC_PER_SEC" "0 \<le> key r2 t" "key r2 t < 2 ^ 63"
      using x(2,4,7) Cons by (auto simp: ready_def timers_ok_def intro: order_trans [OF _ less_imp_le])
    obtain e3 r3 where p: "reprogram 3 e (alarm_for e (key r2 t)) r2 = (e3, r3)" by force
    have "runs r2" using x(2) by (simp add: ready_def)
    from reprogram_alarm [OF this k(2,3) p] obtain h where h: "r3 = r2\<lparr>dev := h\<rparr>" "clk (dev r2) \<le> clk h"
      "e3 = - ETIME \<longrightarrow> key r2 t \<le> clk h * NSEC_PER_SEC" "e3 = 0 \<longrightarrow> alarm_set (key r2 t) r3" by blast
    have r3: "ready r3" "work_left lim r3 = work_left lim r2" "timerqueue r3 = t # q" "key r3 = key r2" "timers r3 = timers r2"
      using x(2) Cons by (simp_all add: h(1) ready_def runs_def queue_inv_def timers_ok_def work_left_def left_def)
    have later: "served r r'" if "served r'' r'" "clk (dev r) \<le> clk (dev r'')" "\<And>f. delivered f r2 \<Longrightarrow> delivered f r''" for r' r''
      using that x(8,9) secs_less [OF that(2)] unfolding served_def by blast
    consider (again) "e3 = - ETIME" | (failed) "e3 \<noteq> - ETIME" "e3 \<noteq> 0" | (set) "e3 = 0" by blast
    then show ?thesis
    proof cases
      case again
      then have "due r3 t" using h(1,3) r3(3,4) by (simp add: due_def)
      then obtain r' where "do_work_loop n e r3 = Some r'" "served r3 r'" using Suc.IH [OF r3(1)] fuel r3(2,3) by auto
      then show ?thesis using rd x(1) Cons p again later [of r3 r'] h x(3) by auto
    next
      case failed
      let ?r4 = "set_enabled t 0 (queue_del t r3)"
      have tq4: "timerqueue ?r4 = q" using r3(3) by simp
      have r4: "ready ?r4" using r3(1) queue_inv_del [of r3 t] tq4 r3(3)
        by (auto simp: ready_def runs_def timers_ok_def) (simp_all add: set_enabled_def set_timer_def queue_del_def)
      have "t \<notin> set q" using r3(1,3) by (simp add: ready_def queue_inv_def)
      then have "work_left lim ?r4 < work_left lim r3" using r3(3) by (simp add: work_left_def left_def)
      then obtain r' where "do_work_loop n e ?r4 = Some r'" "served ?r4 r'" using Suc.IH [OF r4] fuel r3(2) by auto
      then show ?thesis using rd x(1) Cons p failed later [of ?r4 r'] h x(3) by auto
    next
      case set
      have "served r r3" unfolding served_def
        using r3 x(3,7,8,9) Cons h(1,4) set by (auto simp: ready_def intro: secs_less [OF x(3)])
      then show ?thesis using rd x(1) Cons p set by auto
    qed
  qed
qed simp

end

section \<open>Fields that enqueueing and removing keep\<close>

definition same_times :: "'h rtc_device \<Rightarrow> 'h rtc_device \<Rightarrow> bool" where
  "same_times r r' \<longleftrightarrow> ops r' = ops r \<and> intr r' = intr r \<and> (\<forall>t. key r' t = key r t)"

lemma same_times_simps [simp]:
  "same_times r r" "same_times r (r\<lparr>dev := h\<rparr>)" "same_times r (set_enabled t v r')= same_times r r'"
  "same_times r (queue_del t r') = same_times r r'" "same_times r (queue_add e t r') = same_times r r'"
  "same_times r (schedule_work r') = same_times r r'" "same_times r (rtc_alarm_disable r') = same_times r r'"
  by (auto simp: same_times_def key_def schedule_work_def rtc_alarm_disable_def set_enabled_def set_timer_def queue_del_def
      queue_add_def split: option.split)

lemma same_times_trans: "same_times a b \<Longrightarrow> same_times b c \<Longrightarrow> same_times a c"
  by (simp add: same_times_def)

lemma calls_same_times:
  "do_rtc_read_time e tm r = (err, tm', r') \<Longrightarrow> same_times r r'"
  "do_rtc_set_alarm e al r = (err, al', r') \<Longrightarrow> same_times r r'"
  using read_time_frame set_alarm_frame by fastforce+

lemma enqueue_same_times:
  assumes "rtc_timer_enqueue e t r = (err, r')"
  shows "same_times r r'"
proof -
  obtain e1 tm r1 where rd: "do_rtc_read_time e (stack_tm e) r = (e1, tm, r1)" by (metis prod_cases3)
  let ?r2 = "queue_add e t (set_enabled t 1 r1)"
  obtain e2 al r3 where sa: "do_rtc_set_alarm e (alarm_for e (key r1 t)) ?r2 = (e2, al, r3)" by (metis prod_cases3)
  have s1: "same_times r r1" by (rule calls_same_times(1) [OF rd])
  have "same_times r r3" using same_times_trans [OF _ calls_same_times(2) [OF sa], of r] s1 by simp
  with s1 show ?thesis using assms by (auto simp: rtc_timer_enqueue_def rd sa Let_def split: if_splits)
qed

lemma remove_same_times: "same_times r (rtc_timer_remove e t r)"
proof -
  let ?r1 = "set_enabled t 0 (queue_del t r)"
  have "same_times r r2" if "do_rtc_set_alarm e al ?r1 = (err, al', r2)" for al err al' r2
    using same_times_trans [OF _ calls_same_times(2) [OF that], of r] by simp
  then show ?thesis by (auto simp: rtc_timer_remove_def Let_def split: list.split prod.split)
qed

section \<open>A ticking clock for the witnesses\<close>

text \<open>Every reading lets a second pass, up to a bound.\<close>

definition tick_ops :: "int rtc_class_ops" where
  "tick_ops = \<lparr>read_time = Some (\<lambda>h tm. (0, rtc_time64_to_tm demo_env (max 0 (min (h + 1) 1000)), max 0 (min (h + 1) 1000))), set_time = None,
     read_alarm = Some (\<lambda>h al. (0, al, h)), set_alarm = Some (\<lambda>h al. (0, h)), alarm_irq_enable = None, read_offset = None, set_offset = None\<rparr>"

interpretation tick: rtc_clock demo_env tick_ops "\<lambda>h. max 0 (min h 1000)" 1000
  by unfold_locales (auto simp: tick_ops_def demo_env_def min_def max_def)

definition tick_rtc :: "int rtc_device" where
  "tick_rtc = (demo_rtc (Some tick_ops) 10)\<lparr>timerqueue := [0],
     timers := (\<lambda>_. demo_timer)(0 := \<lparr>expires = 5000000000, period = 0, tfunc = Some Aie_update_irq, enabled = 1\<rparr>)\<rparr>"

lemmas tick_defs = tick_rtc_def tick_ops_def demo_rtc_def demo_timer_def

lemma tick_rtc_ok: "queue_inv tick_rtc" "timers_ok tick_rtc" "ops tick_rtc = Some tick_ops" "offset_secs tick_rtc = 0"
  by (auto simp: tick_defs queue_inv_def timers_ok_def key_def)

section \<open>Properties\<close>

text \<open>C28: In every state that calls of the RTC core reach in any order from a device without timers, the timer
  queue holds every enabled timer exactly once and no other, it is ordered by expiry, and the flag
  of a timer is 0 or 1.\<close>

theorem timer_queue_consistent:
  assumes "timerqueue_ok e" and "timerqueue r0 = []" and "\<forall>t. enabled (timers r0 t) = 0" and "(rtc_step e)\<^sup>*\<^sup>* r0 r"
  shows "distinct (timerqueue r) \<and> sorted (map (key r) (timerqueue r)) \<and>
    (\<forall>t. enabled (timers r t) = (if t \<in> set (timerqueue r) then 1 else 0))"
proof -
  have "queue_inv r0" using assms(2,3) by (simp add: queue_inv_def)
  from rtc_steps_inv [OF assms(1,4) this] show ?thesis by (simp add: queue_inv_def)
qed

theorem timer_queue_consistent_witness:
  "enabled (timers (snd (rtc_timer_start demo_env 3 50000000000 0 (demo_rtc (Some tick_ops) 10))) 3) =
     (if 3 \<in> set (timerqueue (snd (rtc_timer_start demo_env 3 50000000000 0 (demo_rtc (Some tick_ops) 10)))) then 1 else 0)"
proof -
  let ?r = "snd (rtc_timer_start demo_env 3 50000000000 0 (demo_rtc (Some tick_ops) 10))"
  have "(rtc_step demo_env)\<^sup>*\<^sup>* (demo_rtc (Some tick_ops) 10) ?r"
    by (rule r_into_rtranclp, rule rtc_step.timer_start, rule prod.collapse [symmetric])
  from timer_queue_consistent [OF demo_env_ok(2) _ _ this] show ?thesis by (simp add: demo_rtc_def demo_timer_def)
qed




definition stuck_ops :: "unit rtc_class_ops" where
  "stuck_ops = \<lparr>read_time = Some (\<lambda>h tm. (0, rtc_time64_to_tm demo_env 5, h)), set_time = None, read_alarm = None,
     set_alarm = Some (\<lambda>h al. (- EIO, h)), alarm_irq_enable = None, read_offset = None, set_offset = None\<rparr>"

definition stuck_rtc :: "unit rtc_device" where
  "stuck_rtc = (rtc_device_get_offset (\<lambda>y. 1000) (Some 2020) ((demo_rtc (Some stuck_ops) ())\<lparr>range_max := 999\<rparr>))
     \<lparr>timerqueue := [0], timers := (\<lambda>_. demo_timer)(0 := demo_timer\<lparr>expires := 1010000000000, enabled := 1\<rparr>)\<rparr>"


text \<open>C32: An alarm that has been set is read back: same time, enabled exactly if it was requested enabled.\<close>

theorem alarm_roundtrip:
  assumes "rtc_lib_ok e" and "timerqueue_ok e" and "queue_inv r" and "intr r = []" and "ops r = Some o1" and "read_alarm o1 \<noteq> None"
    and "wk_time al = rtc_time64_to_tm e t" and "0 \<le> t" and "t < 2 ^ 33" and "rtc_set_alarm e al r = (0, r')"
  shows "rtc_read_alarm e al0 r' =
    (0, \<lparr>wk_enabled = of_bool (wk_enabled al \<noteq> 0), wk_pending = 0, wk_time = wk_time al\<rparr>, r')"
proof -
  define r2 where "r2 = (if enabled (timers r aie_timer) \<noteq> 0 then rtc_timer_remove e aie_timer r else r)"
  have i2: "queue_inv r2" "enabled (timers r2 aie_timer) = 0" "same_times r r2"
    using assms(3) remove_inv [OF assms(3)] by (simp_all add: r2_def remove_same_times)
  let ?r3 = "set_timer aie_timer ((timers r2 aie_timer)\<lparr>expires := rtc_tm_to_ktime e (wk_time al), period := 0\<rparr>) r2"
  have i3: "queue_inv ?r3" "enabled (timers ?r3 aie_timer) = 0" using i2 by (simp_all add: queue_inv_key)
  have st: "(if wk_enabled al \<noteq> 0 then rtc_timer_enqueue e aie_timer ?r3 else (0, ?r3)) = (0, r')"
    using assms(4,5,10) by (auto simp: rtc_set_alarm_def mutex_lock_interruptible_def r2_def [symmetric] Let_def split: if_splits)
  have "same_times ?r3 r'" and en: "enabled (timers r' aie_timer) = of_bool (wk_enabled al \<noteq> 0)"
    using st i3(2) enqueue_same_times [of e aie_timer ?r3] enqueue_inv(2) [OF assms(2) i3, of 0 r'] by (auto split: if_splits)
  then have "ops r' = Some o1" "intr r' = []" "expires (timers r' aie_timer) = rtc_tm_to_ktime e (wk_time al)"
    using i2(3) assms(4,5) by (auto simp: same_times_def key_def set_timer_def)
  moreover have "rtc_ktime_to_tm e (rtc_tm_to_ktime e (wk_time al)) = wk_time al"
  proof -
    have "(t * NSEC_PER_SEC + 999999999) div NSEC_PER_SEC = t" by simp
    then show ?thesis using lib_ktime [OF assms(1)] assms(7-9) by simp
  qed
  ultimately show ?thesis using assms(6) en by (auto simp: rtc_read_alarm_def mutex_lock_interruptible_def)
qed

theorem alarm_roundtrip_witness:
  "wk_time (fst (snd (rtc_read_alarm demo_env (alarm_for demo_env 0)
     (snd (rtc_set_alarm demo_env (alarm_for demo_env 77000000000) tick_rtc))))) = rtc_time64_to_tm demo_env 77"
proof -
  let ?al = "alarm_for demo_env 77000000000"
  have tm: "wk_time ?al = rtc_time64_to_tm demo_env 77" by (simp add: alarm_for_def demo_env_def)
  have s: "rtc_set_alarm demo_env ?al tick_rtc = (0, snd (rtc_set_alarm demo_env ?al tick_rtc))"
    by (simp add: tick_defs demo_env_def alarm_for_def rtc_set_alarm_def rtc_valid_range_def mutex_lock_interruptible_def aie_timer_def
        rtc_timer_remove_def rtc_timer_enqueue_def do_rtc_read_time_def do_rtc_set_alarm_def rtc_add_offset_def rtc_subtract_offset_def
        queue_add_def queue_del_def set_enabled_def set_timer_def key_def rtc_alarm_disable_def const_tm_def Let_def)
  have "intr tick_rtc = []" "read_alarm tick_ops \<noteq> None" by (simp_all add: tick_defs)
  from alarm_roundtrip [OF demo_env_ok(1,2) tick_rtc_ok(1) this(1) tick_rtc_ok(3) this(2) tm _ _ s, of "alarm_for demo_env 0"]
  show ?thesis by (simp add: tm)
qed

end
