(* ===== verification/Rtc_Class.thy ===== *)
theory Rtc_Class
  imports Rtc_Timer
begin

text \<open>
  The RTC class (\<open>drivers/rtc/class.c\<close>): allocating and registering a device, unregistering it, and the
  suspend and resume callbacks that keep the wall clock and the RTC in step.

  A \<open>struct timespec64\<close> is the number of nanoseconds it stands for (its \<open>tv_sec\<close> is the quotient, its
  \<open>tv_nsec\<close> the remainder); all of them are normalised in the code.  The allocator of device numbers
  (\<open>lib/idr.c\<close>), the results of memory allocation and the name comparison are arguments.
\<close>

section \<open>Device numbers and allocation\<close>

record 'i ida_fns =
  ida_simple_get :: "'i \<Rightarrow> int \<Rightarrow> int \<Rightarrow> int \<times> 'i"
  ida_simple_remove :: "'i \<Rightarrow> int \<Rightarrow> 'i"

text \<open>\<open>of_id\<close> is the alias of the device tree, or negative.\<close>

definition rtc_device_get_id :: "'i ida_fns \<Rightarrow> int \<Rightarrow> 'i \<Rightarrow> int \<times> 'i" where
  "rtc_device_get_id fn of_id i =
     (case (if of_id \<ge> 0 then ida_simple_get fn i of_id (of_id + 1) else (- 1, i)) of (k, i1) \<Rightarrow>
        if k < 0 then ida_simple_get fn i1 0 0 else (k, i1))"

definition zero_timer :: rtc_timer where
  "zero_timer = \<lparr>expires = 0, period = 0, tfunc = None, enabled = 0\<rparr>"

definition rtc_allocate_device :: "bool \<Rightarrow> 'h \<Rightarrow> 'h rtc_device option" where
  "rtc_allocate_device mem h = (if \<not> mem then None else
     Some (rtc_timer_init uie_rtctimer (Some Uie_update_irq) (rtc_timer_init aie_timer (Some Aie_update_irq)
       \<lparr>ops = None, irq_data = 0, irq_freq = 1, max_user_freq = 64, timerqueue = [], timers = (\<lambda>_. zero_timer), pie_timer = None,
        pie_enabled = 0, irqwork = False, awake = False, uie_unsupported = False, set_offset_nsec = NSEC_PER_SEC div 2,
        registered = False, range_min = 0, range_max = 0, start_secs = 0, offset_secs = 0, set_start_time = False,
        intr = [], fired = [], dev = h\<rparr>)))"

definition devm_rtc_allocate_device ::
    "'i ida_fns \<Rightarrow> int \<Rightarrow> bool \<Rightarrow> bool \<Rightarrow> 'h \<Rightarrow> 'i \<Rightarrow> (int + int \<times> 'h rtc_device) \<times> 'i" where
  "devm_rtc_allocate_device fn of_id ptr_mem rtc_mem h i = (case rtc_device_get_id fn of_id i of (k, i1) \<Rightarrow>
     if k < 0 then (Inl k, i1)
     else if \<not> ptr_mem then (Inl (- ENOMEM), ida_simple_remove fn i1 k)
     else (case rtc_allocate_device rtc_mem h of
       None \<Rightarrow> (Inl (- ENOMEM), ida_simple_remove fn i1 k)
     | Some r \<Rightarrow> (Inr (k, r), i1)))"

section \<open>Registration\<close>

text \<open>An alarm found in the hardware is taken over.  The character device is added whatever the result
  of that; \<open>n\<close> is the fuel of reading the alarm.\<close>

definition do_rtc_register_device :: "nat \<Rightarrow> rtc_env \<Rightarrow> (int \<Rightarrow> int) \<Rightarrow> int option \<Rightarrow> rtc_wkalrm \<Rightarrow>
    'h rtc_device \<Rightarrow> (int \<times> 'h rtc_device) option" where
  "do_rtc_register_device n e mktime64 start_year garbage r =
     (if ops r = None then Some (- EINVAL, r)
      else (case do_rtc_read_alarm n e garbage (rtc_device_get_offset mktime64 start_year r) of
        None \<Rightarrow> None
      | Some (err, alrm, r1) \<Rightarrow>
          let r2 = (if err = 0 \<and> rtc_valid_tm e (wk_time alrm) = 0 then snd (rtc_initialize_alarm e alrm r1) else r1)
          in Some (0, r2\<lparr>registered := True\<rparr>)))"

definition devm_rtc_device_register :: "nat \<Rightarrow> rtc_env \<Rightarrow> (int \<Rightarrow> int) \<Rightarrow> int option \<Rightarrow> rtc_wkalrm \<Rightarrow>
    'i ida_fns \<Rightarrow> int \<Rightarrow> bool \<Rightarrow> bool \<Rightarrow> 'h rtc_class_ops \<Rightarrow> 'h \<Rightarrow> 'i \<Rightarrow> ((int + int \<times> 'h rtc_device) \<times> 'i) option" where
  "devm_rtc_device_register n e mktime64 start_year garbage fn of_id ptr_mem rtc_mem o1 h i =
     (case devm_rtc_allocate_device fn of_id ptr_mem rtc_mem h i of
        (Inl err, i1) \<Rightarrow> Some (Inl err, i1)
      | (Inr (k, r), i1) \<Rightarrow>
          map_option (\<lambda>(err, r1). (if err \<noteq> 0 then Inl err else Inr (k, r1), i1))
            (do_rtc_register_device n e mktime64 start_year garbage (r\<lparr>ops := Some o1\<rparr>)))"

definition rtc_device_unregister :: "'h rtc_device \<Rightarrow> 'h rtc_device" where
  "rtc_device_unregister r = r\<lparr>ops := None\<rparr>"

definition devm_rtc_release_device :: "'h rtc_device \<Rightarrow> 'h rtc_device" where
  "devm_rtc_release_device r = (if registered r then rtc_device_unregister r else r)"

text \<open>When the last reference is gone the number is free again.\<close>

definition rtc_device_release :: "'i ida_fns \<Rightarrow> int \<Rightarrow> 'i \<Rightarrow> 'i" where
  "rtc_device_release fn k i = ida_simple_remove fn i k"

text \<open>Opening by name: \<open>found\<close> is the result of the search, which takes a reference to the device. The state
  are the references to the device and to the module of its driver.\<close>

definition rtc_class_open :: "bool \<Rightarrow> bool \<Rightarrow> int \<times> int \<Rightarrow> bool \<times> int \<times> int" where
  "rtc_class_open found module_live refs = (case refs of (dev_refs, mod_refs) \<Rightarrow>
     if \<not> found then (False, dev_refs, mod_refs)
     else if \<not> module_live then (False, dev_refs + 1 - 1, mod_refs)
     else (True, dev_refs + 1, mod_refs + 1))"

definition rtc_class_close :: "int \<times> int \<Rightarrow> int \<times> int" where
  "rtc_class_close refs = (case refs of (dev_refs, mod_refs) \<Rightarrow> (dev_refs - 1, mod_refs - 1))"

section \<open>Suspend and resume\<close>

record rtc_pm =
  old_rtc :: int
  old_system :: int
  old_delta :: int
  rtc_hctosys_ret :: int

definition tv_sec :: "int \<Rightarrow> int" where
  "tv_sec ns = ns div NSEC_PER_SEC"

text \<open>\<open>mine\<close> says that the device is the one that sets the system time, \<open>skip\<close> that the timekeeping core
  does not want its help, \<open>sys\<close> is the wall clock.\<close>

definition rtc_suspend :: "rtc_env \<Rightarrow> bool \<Rightarrow> bool \<Rightarrow> int \<Rightarrow> 'h rtc_device \<Rightarrow> rtc_pm \<Rightarrow> int \<times> 'h rtc_device \<times> rtc_pm" where
  "rtc_suspend e skip mine sys r p =
     (if skip then (0, r, p)
      else if \<not> mine then (0, r, p)
      else (case rtc_read_time e (stack_tm e) r of (err, tm, r1) \<Rightarrow>
        if err < 0 then (0, r1, p)
        else let p1 = p\<lparr>old_system := sys, old_rtc := rtc_tm_to_time64 e tm * NSEC_PER_SEC + old_rtc p mod NSEC_PER_SEC\<rparr>;
                 delta = old_system p1 - old_rtc p1;
                 delta_delta = delta - old_delta p1
             in if tv_sec delta_delta < - 2 \<or> tv_sec delta_delta \<ge> 2
                then (0, r1, p1\<lparr>old_delta := delta\<rparr>)
                else (0, r1, p1\<lparr>old_system := old_system p1 - delta_delta\<rparr>)))"

text \<open>The last result is the sleep time that is injected into the wall clock, if any.\<close>

definition rtc_resume :: "rtc_env \<Rightarrow> bool \<Rightarrow> bool \<Rightarrow> int \<Rightarrow> 'h rtc_device \<Rightarrow> rtc_pm \<Rightarrow>
    int \<times> 'h rtc_device \<times> rtc_pm \<times> int option" where
  "rtc_resume e skip mine sys r p =
     (if skip then (0, r, p, None)
      else let p1 = p\<lparr>rtc_hctosys_ret := - ENODEV\<rparr> in
        if \<not> mine then (0, r, p1, None)
        else (case rtc_read_time e (stack_tm e) r of (err, tm, r1) \<Rightarrow>
          if err < 0 then (0, r1, p1, None)
          else let new_rtc = rtc_tm_to_time64 e tm * NSEC_PER_SEC in
            if tv_sec new_rtc < tv_sec (old_rtc p1) then (0, r1, p1, None)
            else let sleep_time = (new_rtc - old_rtc p1) - (sys - old_system p1)
                 in (0, r1, p1\<lparr>rtc_hctosys_ret := 0\<rparr>, if tv_sec sleep_time \<ge> 0 then Some sleep_time else None)))"

section \<open>Properties\<close>

lemma suspend_delta:
  assumes "rtc_suspend e False True sys r p = (ret, r', p')" and "rtc_read_time e (stack_tm e) r = (err, tm, r1)" and "\<not> err < 0"
  shows "old_system p' - old_rtc p' = old_delta p'" and "old_rtc p' = rtc_tm_to_time64 e tm * NSEC_PER_SEC + old_rtc p mod NSEC_PER_SEC"
  using assms by (auto simp: rtc_suspend_def Let_def split: if_splits)

text \<open>C33: Suspending and resuming do not let the wall clock drift away from the RTC: when the resume injects a
  sleep time, the wall clock is exactly as far ahead of the RTC as was recorded at the suspend,
  however long the machine ran on either side of the sleep; that recorded distance changes at a
  suspend only when it is off by two seconds or more.\<close>

theorem suspend_resume_keeps_distance:
  assumes "rtc_suspend e False True sys r p = (ret, r', p')" and "rtc_read_time e (stack_tm e) r = (err, tm, r1)" and "\<not> err < 0"
    and "rtc_resume e False True sys2 r2 p' = (ret2, r3, p'', Some sleep)" and "rtc_read_time e (stack_tm e) r2 = (err2, tm2, r4)"
  shows "(sys2 + sleep) - rtc_tm_to_time64 e tm2 * NSEC_PER_SEC = old_delta p' \<and>
    (old_delta p' \<noteq> old_delta p \<longrightarrow> \<bar>sys - old_rtc p' - old_delta p\<bar> \<ge> 2 * NSEC_PER_SEC) \<and> rtc_hctosys_ret p'' = 0"
proof -
  have sl: "sleep = (rtc_tm_to_time64 e tm2 * NSEC_PER_SEC - old_rtc p') - (sys2 - old_system p')" "rtc_hctosys_ret p'' = 0"
    using assms(4,5) by (auto simp: rtc_resume_def Let_def split: if_splits)
  have "old_delta p' \<noteq> old_delta p \<longrightarrow> tv_sec (sys - old_rtc p' - old_delta p) < - 2 \<or> tv_sec (sys - old_rtc p' - old_delta p) \<ge> 2"
    using assms(1-3) by (auto simp: rtc_suspend_def Let_def split: if_splits)
  moreover have "tv_sec x < - 2 \<or> tv_sec x \<ge> 2 \<Longrightarrow> \<bar>x\<bar> \<ge> 2 * NSEC_PER_SEC" for x
    unfolding tv_sec_def by auto
  ultimately show ?thesis using sl suspend_delta [OF assms(1-3)] by auto
qed

definition still_ops :: "int rtc_class_ops" where
  "still_ops = \<lparr>read_time = Some (\<lambda>h tm. (0, rtc_time64_to_tm demo_env h, h)), set_time = None, read_alarm = None,
     set_alarm = None, alarm_irq_enable = None, read_offset = None, set_offset = None\<rparr>"

definition pm0 :: rtc_pm where
  "pm0 = \<lparr>old_rtc = 0, old_system = 0, old_delta = 7000000000, rtc_hctosys_ret = 0\<rparr>"

theorem suspend_resume_keeps_distance_witness:
  "snd (snd (snd (rtc_resume demo_env False True 108500000000 (demo_rtc (Some still_ops) 160)
     (snd (snd (rtc_suspend demo_env False True 108000000000 (demo_rtc (Some still_ops) 100) pm0)))))) = Some 58500000000"
proof -
  let ?r = "demo_rtc (Some still_ops) 100" and ?r2 = "demo_rtc (Some still_ops) 160"
  let ?p = "snd (snd (rtc_suspend demo_env False True 108000000000 ?r pm0))"
  let ?q = "rtc_resume demo_env False True 108500000000 ?r2 ?p"
  have rd: "rtc_read_time demo_env (stack_tm demo_env) (demo_rtc (Some still_ops) h) = (0, rtc_time64_to_tm demo_env h, demo_rtc (Some still_ops) h)"
    if "0 \<le> h" "h < 2 ^ 40" for h
    using that by (simp add: rtc_read_time_def mutex_lock_interruptible_def do_rtc_read_time_def demo_rtc_def still_ops_def
        rtc_add_offset_def demo_env_def)
  have rd0: "rtc_read_time demo_env (stack_tm demo_env) ?r = (0, rtc_time64_to_tm demo_env 100, ?r)" by (rule rd) simp_all
  have rd2: "rtc_read_time demo_env (stack_tm demo_env) ?r2 = (0, rtc_time64_to_tm demo_env 160, ?r2)" by (rule rd) simp_all
  have p: "?p = pm0\<lparr>old_rtc := 100000000000, old_system := 107000000000\<rparr>"
    by (simp add: rtc_suspend_def rd0 Let_def pm0_def tv_sec_def lib_time64 [OF demo_env_ok(1)])
  have q: "?q = (0, ?r2, ?p\<lparr>rtc_hctosys_ret := 0\<rparr>, Some 58500000000)"
    unfolding p by (simp add: rtc_resume_def rd2 Let_def pm0_def tv_sec_def lib_time64 [OF demo_env_ok(1)])
  have s: "rtc_suspend demo_env False True 108000000000 ?r pm0 = (0, ?r, ?p)"
    unfolding p by (simp add: rtc_suspend_def rd0 Let_def pm0_def tv_sec_def lib_time64 [OF demo_env_ok(1)])
  from suspend_resume_keeps_distance [OF s rd0 _ q rd2] show ?thesis unfolding q by simp
qed

end
