(* ===== verification/Rtc_Rts.thy ===== *)
theory Rtc_Rts
  imports Rtc_Work Rtc_Class
begin

text \<open>
  The Realtek RTC driver (\<open>drivers/rtc/rtc-rts.c\<close>) and its composition with the RTC core.

  The registers are a map from offsets to 32-bit words.  What the hardware makes of a write and of
  the passing of time is a parameter (\<open>rts_regs\<close>); \<open>rts_hw\<close> states what the clock contract of the core
  needs, \<open>loads_counter\<close> that the write sequence for the time loads the counter.  \<open>ext_xtal\<close> is the
  configuration option \<open>CONFIG_RTC_EXTERN_XTAL\<close>.  \<open>unsigned long\<close> has 32 bits.
\<close>

section \<open>Registers\<close>

definition XB2_RTC_CFG_EN :: nat where "XB2_RTC_CFG_EN = 0x00"
definition XB2_RTC_CNT_RST :: nat where "XB2_RTC_CNT_RST = 0x04"
definition XB2_RTC_CNT_SET :: nat where "XB2_RTC_CNT_SET = 0x08"
definition XB2_RTC_CLK32K_SEL :: nat where "XB2_RTC_CLK32K_SEL = 0x0C"
definition XB2_RTC_C_CNT :: nat where "XB2_RTC_C_CNT = 0x18"
definition XB2_RTC_S_CNT :: nat where "XB2_RTC_S_CNT = 0x20"
definition XB2_RTC_ALARM_EN :: nat where "XB2_RTC_ALARM_EN = 0x40"
definition XB2_RTC_ALARM3_SECOND :: nat where "XB2_RTC_ALARM3_SECOND = 0x50"
definition XB2_RTC_ALARM_INT_EN :: nat where "XB2_RTC_ALARM_INT_EN = 0x54"
definition XB2_RTC_ALARM_INT_FLAG :: nat where "XB2_RTC_ALARM_INT_FLAG = 0x58"
definition ALARM3_ENABLE :: nat where "ALARM3_ENABLE = 3"

lemmas rts_reg_defs = XB2_RTC_CFG_EN_def XB2_RTC_CNT_RST_def XB2_RTC_CNT_SET_def XB2_RTC_CLK32K_SEL_def XB2_RTC_C_CNT_def
  XB2_RTC_S_CNT_def XB2_RTC_ALARM_EN_def XB2_RTC_ALARM3_SECOND_def XB2_RTC_ALARM_INT_EN_def XB2_RTC_ALARM_INT_FLAG_def

record rts_regs =
  hw_write :: "nat \<Rightarrow> u32 \<Rightarrow> (nat \<Rightarrow> u32) \<Rightarrow> nat \<Rightarrow> u32"
  hw_sleep :: "nat \<Rightarrow> (nat \<Rightarrow> u32) \<Rightarrow> nat \<Rightarrow> u32"

text \<open>The cookie of an interrupt handler, by which it is freed again.\<close>

datatype dev_id = Dev_pdev | Dev_rtc

text \<open>The driver structure with the resources that it holds.\<close>

record rts_rtc =
  rtc_regs :: "nat \<Rightarrow> u32"
  rtc_irq :: int
  xtal_flag :: int
  allocated :: bool
  mem_region :: bool
  mapped :: bool
  irq_action :: "dev_id option"
  drvdata :: bool
  rtc_data :: bool

definition rts_rtc_reg_read :: "nat \<Rightarrow> rts_rtc \<Rightarrow> u32" where
  "rts_rtc_reg_read reg h = rtc_regs h reg"

definition rts_rtc_reg_write :: "rts_regs \<Rightarrow> nat \<Rightarrow> u32 \<Rightarrow> rts_rtc \<Rightarrow> rts_rtc" where
  "rts_rtc_reg_write hw reg v h = h\<lparr>rtc_regs := hw_write hw reg v (rtc_regs h)\<rparr>"

definition rts_rtc_reg_setbit :: "rts_regs \<Rightarrow> nat \<Rightarrow> nat \<Rightarrow> rts_rtc \<Rightarrow> rts_rtc" where
  "rts_rtc_reg_setbit hw reg b h = rts_rtc_reg_write hw reg (rts_rtc_reg_read reg h OR BIT b) h"

definition rts_rtc_reg_clearbit :: "rts_regs \<Rightarrow> nat \<Rightarrow> nat \<Rightarrow> rts_rtc \<Rightarrow> rts_rtc" where
  "rts_rtc_reg_clearbit hw reg b h = rts_rtc_reg_write hw reg (rts_rtc_reg_read reg h AND NOT (BIT b)) h"

definition msleep :: "rts_regs \<Rightarrow> nat \<Rightarrow> rts_rtc \<Rightarrow> rts_rtc" where
  "msleep hw ms h = h\<lparr>rtc_regs := hw_sleep hw ms (rtc_regs h)\<rparr>"

section \<open>Time\<close>

definition rts_set_time_xtal :: "rts_regs \<Rightarrow> u32 \<Rightarrow> rts_rtc \<Rightarrow> int \<times> rts_rtc" where
  "rts_set_time_xtal hw sec h =
     (let h1 = msleep hw 500 (rts_rtc_reg_write hw XB2_RTC_CFG_EN 1 h);
          h2 = rts_rtc_reg_write hw XB2_RTC_CLK32K_SEL 1 h1;
          h3 = rts_rtc_reg_write hw XB2_RTC_CNT_RST 1 h2;
          h4 = rts_rtc_reg_write hw XB2_RTC_CNT_RST 0 h3;
          h5 = rts_rtc_reg_write hw XB2_RTC_CNT_SET sec h4;
          h6 = rts_rtc_reg_write hw XB2_RTC_CNT_SET 0 h5;
          h7 = rts_rtc_reg_write hw XB2_RTC_CLK32K_SEL 0 h6
      in (0, rts_rtc_reg_write hw XB2_RTC_CFG_EN 0 h7))"

definition rts_set_time_nonxtal :: "rts_regs \<Rightarrow> u32 \<Rightarrow> rts_rtc \<Rightarrow> int \<times> rts_rtc" where
  "rts_set_time_nonxtal hw sec h =
     (let h1 = msleep hw 500 (rts_rtc_reg_write hw XB2_RTC_CFG_EN 1 h);
          h2 = rts_rtc_reg_write hw XB2_RTC_CLK32K_SEL 0 h1;
          h3 = rts_rtc_reg_write hw XB2_RTC_CNT_RST 1 h2;
          h4 = rts_rtc_reg_write hw XB2_RTC_CNT_RST 0 h3;
          h5 = rts_rtc_reg_write hw XB2_RTC_CNT_SET sec h4;
          h6 = rts_rtc_reg_write hw XB2_RTC_CNT_SET 0 h5;
          h7 = rts_rtc_reg_write hw XB2_RTC_CLK32K_SEL 1 h6
      in (0, rts_rtc_reg_write hw XB2_RTC_CFG_EN 0 h7))"

definition rts_set_time :: "rts_regs \<Rightarrow> u32 \<Rightarrow> int \<Rightarrow> rts_rtc \<Rightarrow> int \<times> rts_rtc" where
  "rts_set_time hw sec xtal h = (if xtal \<noteq> 0 then rts_set_time_xtal hw sec h else rts_set_time_nonxtal hw sec h)"

text \<open>The conversions of the header, with their \<open>unsigned long\<close> seconds.\<close>

definition rtc_time_to_tm :: "rtc_env \<Rightarrow> u32 \<Rightarrow> rtc_time" where
  "rtc_time_to_tm e time = rtc_time64_to_tm e (uint time)"

definition rtc_tm_to_time :: "rtc_env \<Rightarrow> rtc_time \<Rightarrow> u32" where
  "rtc_tm_to_time e tm = word_of_int (rtc_tm_to_time64 e tm)"

definition rts_rtc_read_time :: "rtc_env \<Rightarrow> rts_rtc \<Rightarrow> rtc_time \<Rightarrow> int \<times> rtc_time \<times> rts_rtc" where
  "rts_rtc_read_time e h tm =
     (let tm1 = rtc_time_to_tm e (rts_rtc_reg_read XB2_RTC_C_CNT h) in (rtc_valid_tm e tm1, tm1, h))"

definition rts_rtc_set_time :: "rts_regs \<Rightarrow> bool \<Rightarrow> rtc_env \<Rightarrow> rts_rtc \<Rightarrow> rtc_time \<Rightarrow> int \<times> rts_rtc" where
  "rts_rtc_set_time hw ext_xtal e h tm =
     (let sec = rtc_tm_to_time e tm in
      (0, snd (if ext_xtal then (if xtal_flag h = 1 then rts_set_time hw sec 1 h else rts_set_time hw sec 0 h)
               else rts_set_time hw sec 0 h)))"

section \<open>Alarm\<close>

definition rts_rtc_set_alarm :: "rts_regs \<Rightarrow> rtc_env \<Rightarrow> rts_rtc \<Rightarrow> rtc_wkalrm \<Rightarrow> int \<times> rts_rtc" where
  "rts_rtc_set_alarm hw e h alrm = (0, rts_rtc_reg_write hw XB2_RTC_ALARM3_SECOND (rtc_tm_to_time e (wk_time alrm)) h)"

definition rts_rtc_get_alarm :: "rtc_env \<Rightarrow> rts_rtc \<Rightarrow> rtc_wkalrm \<Rightarrow> int \<times> rtc_wkalrm \<times> rts_rtc" where
  "rts_rtc_get_alarm e h alrm =
     (0, alrm\<lparr>wk_enabled := uint (rts_rtc_reg_read XB2_RTC_ALARM_EN h AND BIT ALARM3_ENABLE), wk_pending := 0,
              wk_time := rtc_time_to_tm e (rts_rtc_reg_read XB2_RTC_ALARM3_SECOND h)\<rparr>, h)"

definition rts_rtc_alarm_irq_enable :: "rts_regs \<Rightarrow> rts_rtc \<Rightarrow> int \<Rightarrow> int \<times> rts_rtc" where
  "rts_rtc_alarm_irq_enable hw h en =
     (if rtc_irq h \<le> 0 then (- EINVAL, h) else (0, rts_rtc_reg_setbit hw XB2_RTC_ALARM_EN ALARM3_ENABLE h))"

text \<open>The interrupt handler.  The statement after the test of \<open>pdata->rtc\<close> is an expression without a
  call, so nothing else happens.  The result says whether the interrupt was handled.\<close>

definition rts_rtc_interrupt :: "rts_regs \<Rightarrow> rts_rtc rtc_device \<Rightarrow> bool \<times> rts_rtc rtc_device" where
  "rts_rtc_interrupt hw r =
     (if rts_rtc_reg_read XB2_RTC_ALARM_INT_FLAG (dev r) AND BIT ALARM3_ENABLE = 0 then (False, r)
      else let events = RTC_IRQF OR RTC_AF
           in (events \<noteq> 0, r\<lparr>dev := rts_rtc_reg_setbit hw XB2_RTC_ALARM_INT_FLAG ALARM3_ENABLE (dev r)\<rparr>))"

definition rts_rtc_ops :: "rts_regs \<Rightarrow> bool \<Rightarrow> rtc_env \<Rightarrow> rts_rtc rtc_class_ops" where
  "rts_rtc_ops hw ext_xtal e = \<lparr>read_time = Some (rts_rtc_read_time e), set_time = Some (rts_rtc_set_time hw ext_xtal e),
     read_alarm = Some (rts_rtc_get_alarm e), set_alarm = Some (rts_rtc_set_alarm hw e),
     alarm_irq_enable = Some (rts_rtc_alarm_irq_enable hw), read_offset = None, set_offset = None\<rparr>"

definition rtc_cs_read :: "rts_rtc \<Rightarrow> u64" where
  "rtc_cs_read h = ucast (rts_rtc_reg_read XB2_RTC_C_CNT h)"

section \<open>Probe and remove\<close>

text \<open>The arguments are the results of the platform calls in the order of the code; \<open>register\<close> is
  \<open>devm_rtc_device_register\<close> applied to the driver data.  A successful probe yields the class
  device.\<close>

definition err_free :: "rts_rtc \<Rightarrow> rts_rtc" where
  "err_free h = h\<lparr>allocated := False\<rparr>"

definition err_release_mem_region :: "rts_rtc \<Rightarrow> rts_rtc" where
  "err_release_mem_region h = err_free (h\<lparr>mem_region := False\<rparr>)"

definition err_iounmap :: "rts_rtc \<Rightarrow> rts_rtc" where
  "err_iounmap h = err_release_mem_region (h\<lparr>drvdata := False, mapped := False\<rparr>)"

definition rts_rtc_probe :: "rts_regs \<Rightarrow> bool \<Rightarrow> rtc_env \<Rightarrow> bool \<Rightarrow> int \<Rightarrow> bool \<Rightarrow> bool \<Rightarrow> bool \<Rightarrow> int \<Rightarrow>
    (rts_rtc \<Rightarrow> int + rts_rtc rtc_device) \<Rightarrow> rts_rtc \<Rightarrow> (int \<times> rts_rtc) + rts_rtc rtc_device" where
  "rts_rtc_probe hw ext_xtal e mem irq res region remap irq_ret register h0 =
     (if \<not> mem then Inl (- ENOMEM, h0)
      else let h = h0\<lparr>allocated := True, rtc_irq := irq, xtal_flag := 0\<rparr> in
        if irq < 0 then Inl (- ENOENT, err_free h)
        else if \<not> res then Inl (- ENOENT, err_free h)
        else if \<not> region then Inl (- EBUSY, err_free h)
        else let h1 = h\<lparr>mem_region := True\<rparr> in
        if \<not> remap then Inl (- EBUSY, err_release_mem_region h1)
        else let h2 = h1\<lparr>mapped := True, drvdata := True\<rparr> in
        if irq_ret \<noteq> 0 then Inl (irq_ret, err_iounmap h2)
        else let h3 = rts_rtc_reg_setbit hw XB2_RTC_ALARM_INT_EN ALARM3_ENABLE (h2\<lparr>irq_action := Some Dev_pdev\<rparr>) in
        (case register h3 of
           Inl ret \<Rightarrow> Inl (ret, err_iounmap h3)
         | Inr r \<Rightarrow>
             let counter_o = rts_rtc_reg_read XB2_RTC_S_CNT (dev r);
                 h4 = msleep hw 20 (dev r);
                 counter_t = rts_rtc_reg_read XB2_RTC_S_CNT h4;
                 h5 = h4\<lparr>xtal_flag := (if counter_o \<noteq> counter_t then 1 else 0)\<rparr>;
                 tm = rtc_time_to_tm e (rts_rtc_reg_read XB2_RTC_C_CNT h5);
                 h6 = snd (rts_rtc_set_time hw ext_xtal e h5 tm)
             in Inr (r\<lparr>dev := h6\<lparr>rtc_data := True\<rparr>\<rparr>)))"

text \<open>\<open>free_irq\<close> removes the handler whose cookie it is given.\<close>

definition free_irq :: "dev_id \<Rightarrow> rts_rtc \<Rightarrow> rts_rtc" where
  "free_irq d h = (if irq_action h = Some d then h\<lparr>irq_action := None\<rparr> else h)"

definition rts_rtc_remove :: "rts_rtc \<Rightarrow> int \<times> rts_rtc" where
  "rts_rtc_remove h = (0, (free_irq Dev_rtc h)\<lparr>mapped := False, mem_region := False, allocated := False, drvdata := False\<rparr>)"

section \<open>The clock contract\<close>

locale rts_hw =
  fixes hw :: rts_regs and ext_xtal :: bool and e :: rtc_env
  assumes alarm_keeps_clock: "hw_write hw XB2_RTC_ALARM3_SECOND v g XB2_RTC_C_CNT = g XB2_RTC_C_CNT"
begin

lemma rts_clock: "rtc_clock e (rts_rtc_ops hw ext_xtal e) (\<lambda>h. uint (rtc_regs h XB2_RTC_C_CNT)) (2 ^ 32 - 1)"
proof (unfold_locales, goal_cases)
  case 2
  have "uint (g XB2_RTC_C_CNT) \<le> 2 ^ 32 - 1" for g :: "nat \<Rightarrow> u32" using uint_lt2p [of "g XB2_RTC_C_CNT"] by simp
  then show ?case
    by (simp add: rts_rtc_ops_def rts_rtc_read_time_def rtc_time_to_tm_def rts_rtc_reg_read_def Let_def)
qed (simp_all add: rts_rtc_ops_def rts_rtc_set_alarm_def rts_rtc_reg_write_def alarm_keeps_clock)

end

sublocale rts_hw \<subseteq> rts: rtc_clock e "rts_rtc_ops hw ext_xtal e" "\<lambda>h. uint (rtc_regs h XB2_RTC_C_CNT)" "2 ^ 32 - 1"
  by (rule rts_clock)

text \<open>A register file that stores what is written.\<close>

definition plain_regs :: rts_regs where
  "plain_regs = \<lparr>hw_write = (\<lambda>reg v g. g(reg := v)), hw_sleep = (\<lambda>ms g. g)\<rparr>"

interpretation plain: rts_hw plain_regs ext_xtal e for ext_xtal :: bool and e :: rtc_env
  by unfold_locales (simp add: plain_regs_def rts_reg_defs)

section \<open>Properties\<close>

text \<open>What the hardware does with the write sequence for the time.\<close>

definition loads_counter :: "rts_regs \<Rightarrow> bool" where
  "loads_counter hw \<longleftrightarrow> (\<forall>sec xtal h. rtc_regs (snd (rts_set_time hw sec xtal h)) XB2_RTC_C_CNT = sec)"

definition loading_regs :: rts_regs where
  "loading_regs = \<lparr>hw_write = (\<lambda>reg v g. if reg = XB2_RTC_CNT_SET \<and> v \<noteq> 0 then g(reg := v, XB2_RTC_C_CNT := v)
      else if reg = XB2_RTC_CNT_RST \<and> v = 1 then g(reg := v, XB2_RTC_C_CNT := 0) else g(reg := v)), hw_sleep = (\<lambda>ms g. g)\<rparr>"

lemma loading_regs_ok: "loads_counter loading_regs"
  by (simp add: loads_counter_def rts_set_time_def rts_set_time_xtal_def rts_set_time_nonxtal_def rts_rtc_reg_write_def
      msleep_def loading_regs_def rts_reg_defs Let_def)

definition rts0 :: rts_rtc where
  "rts0 = \<lparr>rtc_regs = (\<lambda>_. 0), rtc_irq = 5, xtal_flag = 0, allocated = True, mem_region = True, mapped = True,
     irq_action = Some Dev_pdev, drvdata = True, rtc_data = True\<rparr>"

lemma rts_set_time_call:
  "loads_counter hw \<Longrightarrow> rtc_regs (snd (rts_rtc_set_time hw x e h tm)) XB2_RTC_C_CNT = rtc_tm_to_time e tm"
  by (simp add: loads_counter_def rts_rtc_set_time_def Let_def)



text \<open>Alarms of this driver are neither announced nor switched off.  The interrupt handler touches one
  register of the hardware and nothing else, so no expiry of a timer is ever processed on its
  behalf; and switching the alarm interrupt off through the core succeeds with the enable bit of
  the hardware set.\<close>

theorem rts_alarm_not_delivered:
  assumes "ops r = Some (rts_rtc_ops plain_regs ext_xtal e)" and "intr r = []" and "0 < rtc_irq (dev r)" and "enabled (timers r aie_timer) = 0"
  shows "snd (rts_rtc_interrupt hw r) = r\<lparr>dev := dev (snd (rts_rtc_interrupt hw r))\<rparr> \<and>
    fst (rtc_alarm_irq_enable e 0 r) = 0 \<and>
    bit (rtc_regs (dev (snd (rtc_alarm_irq_enable e 0 r))) XB2_RTC_ALARM_EN) 3"
  using assms
  by (simp add: rts_rtc_interrupt_def rtc_alarm_irq_enable_def mutex_lock_interruptible_def rts_rtc_ops_def
      rts_rtc_alarm_irq_enable_def rts_rtc_reg_setbit_def rts_rtc_reg_write_def plain_regs_def bit_or_iff bit_BIT ALARM3_ENABLE_def Let_def)

theorem rts_alarm_not_delivered_witness:
  "bit (rtc_regs (dev (snd (rtc_alarm_irq_enable demo_env 0 (demo_rtc (Some (rts_rtc_ops plain_regs False demo_env)) rts0)))) XB2_RTC_ALARM_EN) 3"
proof -
  let ?r = "demo_rtc (Some (rts_rtc_ops plain_regs False demo_env)) rts0"
  have f: "ops ?r = Some (rts_rtc_ops plain_regs False demo_env)" "intr ?r = []" "0 < rtc_irq (dev ?r)"
    "enabled (timers ?r aie_timer) = 0"
    by (simp_all add: demo_rtc_def rts0_def demo_timer_def)
  from rts_alarm_not_delivered [OF f] show ?thesis by blast
qed



end
