(* ===== verification/Spec2Isabelle.thy ===== *)
theory Spec2Isabelle
  imports Sbi_Trap I2c_Dw_Plat Pwm_Rts Pinctrl_Rts_Results Rtc_Rts
begin

text \<open>
  A verification library for the platform code of the Realtek RTS39xx systems on chip: firmware
  (OpenSBI, 32-bit RISC-V), Linux 5.4 subsystems with the Realtek drivers below them, and U-Boot.

  \<^bold>\<open>Parts and theories.\<close>

  \<^item> \<open>Prelude\<close>: fixed-width integers, error numbers, \<open>ERR_PTR\<close> results, single-bit masks, searches.

  \<^item> \<open>Sbi_Redirect\<close>, \<open>Sbi_Ecall\<close>, \<open>Sbi_Trap\<close>: \<open>opensbi/lib/sbi/sbi_trap.c\<close>, \<open>sbi_ecall.c\<close> and
    \<open>sbi_ecall_base.c\<close>.  Control and status registers and the saved registers are records; the list of
    extensions is a list of addresses into a store.  Shown: what a redirected trap leaves in every
    register bit, exactly when the handler stops the hart, that registering extensions is a map
    update on disjoint ranges, and what an ecall returns.

  \<^item> \<open>I2c_Slave_Eeprom\<close>: \<open>drivers/i2c/i2c-slave-eeprom.c\<close>.  The bus events are an explicit sequence.
    Shown: no access outside the buffer, and that data written over the bus is read back.

  \<^item> \<open>I2c_Dw_Regs\<close>, \<open>I2c_Dw_Common\<close>, \<open>I2c_Dw_Slave\<close>, \<open>I2c_Dw_Master\<close>, \<open>I2c_Dw_Plat\<close>:
    \<open>drivers/i2c/busses/i2c-designware-core.h\<close>, \<open>-common.c\<close>, \<open>-slave.c\<close>, \<open>-master.c\<close> and \<open>-platdrv.c\<close>.
    The hardware is a type parameter behind functions that read and write registers; an access to a
    message outside its bounds, or of a backend outside its buffer, is \<open>None\<close>.  The interrupts of a
    transfer are a list of moves of the world.  Shown: the events and the byte of one slave interrupt,
    the roundtrip through controller and EEPROM, that a transfer returns within bounds and without
    overrunning the FIFO, that its commands are those of the messages, and what resuming programs.

  \<^item> \<open>Pwm_Types\<close>, \<open>Pwm_Core\<close>, \<open>Pwm_Sysfs\<close>, \<open>Pwm_Registry\<close>, \<open>Pwm_Rts\<close>: \<open>include/linux/pwm.h\<close>,
    \<open>drivers/pwm/core.c\<close>, \<open>sysfs.c\<close> and \<open>pwm-rts.c\<close>.  The framework state (chips, channel bitmap, channel
    tree, lookup table, module references, sysfs devices) is one record; the hardware of a driver is
    its type parameter.  Shown: the registry invariant over all sequences of calls, requests and
    releases balance, the contract of \<open>pwm_apply_state\<close>, suspend and resume, the table search, and
    the composition of framework and Realtek driver down to the registers.

  \<^item> \<open>Pinmux\<close>: \<open>drivers/pinctrl/pinmux.c\<close>.  The pin descriptors are a map; claiming a group of pins is
    an instance of a contract for all-or-nothing claims (locale \<open>claims\<close>).  Shown: ownership and
    reference counts over all sequences of calls, rollback of a failed setting, and that disabling
    undoes enabling.

  \<^item> \<open>Pinctrl_Core\<close>, \<open>Pinctrl_States\<close>, \<open>Pinctrl_Results\<close>: \<open>drivers/pinctrl/core.c\<close>.  Controllers and
    the handles of consumers are objects by address, with the global lists of controllers, handles
    and mapping tables; the outcomes of memory allocations are a list.  Shown: selecting a state is a
    transaction on the claims of all controllers, handles live as long as they are referenced, GPIO
    requests and frees balance, when a controller is registered, and when a handle is created.

  \<^item> \<open>Pinctrl_Rts_Tables\<close>, \<open>Pinctrl_Rts\<close>, \<open>Pinctrl_Rts_Results\<close>: \<open>drivers/pinctrl/pinctrl-rts3917.c\<close>,
    its tables, the pad and GPIO registers with the shadows of GPIO values, the pins in use, and GPIO
    interrupts.  Shown: the tables fit each other, a pin has one owner, a function programs exactly
    its fields, GPIO values are read back, interrupts are served, and which interrupt calls are wrong.

  \<^item> \<open>Rtc_Types\<close>, \<open>Rtc_Time\<close>, \<open>Rtc_Timer\<close>, \<open>Rtc_Work\<close>, \<open>Rtc_Class\<close>, \<open>Rtc_Rts\<close>: \<open>include/linux/rtc.h\<close>,
    \<open>drivers/rtc/interface.c\<close>, \<open>class.c\<close> and \<open>rtc-rts.c\<close>.  Shown: the range expansion is a bijection,
    the timer queue holds exactly the enabled timers in order, the worker ends and serves what is
    due for every driver with a monotone clock (locale \<open>rtc_clock\<close>, which the Realtek driver meets),
    alarms are read back, the wall clock keeps its distance from the RTC over suspend, and what the
    Realtek driver makes of time, alarm and resources.

  \<^bold>\<open>How the parts interact.\<close>  A framework calls its driver through a table of callbacks: the
  tables are records of functions on the state of the driver, so that a framework theorem is
  instantiated with the tables of \<open>Pwm_Rts\<close> and \<open>Rtc_Rts\<close>.  The trap handler calls the ecall
  dispatcher, which calls registered extensions and, on request of one, the trap redirection.  The
  I2C controller in slave mode hands events to the EEPROM backend.  The GPIO chip of the Realtek pin
  controller calls the pin control core, which finds the range of the number and calls \<open>Pinmux\<close>,
  which calls back the multiplexing table of the same driver; \<open>Pinctrl_Rts_Results\<close> has the property
  of the whole chain.

  \<^bold>\<open>Interfaces.\<close>  Each contract between a client and a provider is a locale whose laws are proved
  for the model of the code by an interpretation in the theory of the provider: the extension
  registry, the address counter of the EEPROM, the backend of an I2C slave (\<open>slave_backend\<close>), the
  channel allocation and the claims of PWM channels, all-or-nothing claims of pins, the invariant of
  a pin controller driver (\<open>pin_driver_inv\<close>), and the clock of an RTC driver.  The locale \<open>rts_hw\<close>
  states what is needed of the RTC hardware; a sublocale derives the clock contract from it.

  \<^bold>\<open>Reading the models.\<close>  Functions that return \<open>int\<close> keep their code as an \<open>int\<close>, pointers with encoded
  errors are sums.  State is passed explicitly; whatever the environment decides (memory
  allocation, module liveness, results of platform calls, an interrupted lock) is an argument or a
  field of the state.  Code outside the repository is a parameter with its documented behaviour as
  a named hypothesis: \<open>find_area_ok\<close> (bitmap search), \<open>rtc_lib_ok\<close> and \<open>long_months_ok\<close> (calendar),
  \<open>timerqueue_ok\<close> (timer queue), \<open>loads_counter\<close> (the RTC counter), \<open>slave_port\<close> and \<open>cmd_port\<close>
  (registers and FIFOs of the I2C controller), \<open>reg_file\<close> and \<open>clocks_keep\<close> (its registers over clock
  calls), \<open>pads_ok\<close> (pad registers), \<open>static_groups\<close>, \<open>drivers_ok\<close> and \<open>dt_keeps\<close> (pin controller
  drivers and device tree), other SBI extensions, driver callbacks.  Every property with such a
  hypothesis has a witness with concrete functions.

  \<^bold>\<open>Loops, fuel and bounds.\<close>  Loops over lists and indices are recursive functions.  The RTC worker, the
  loop that reads an alarm and the calendar rollovers have fuel: for the worker it is enough to have
  three more than \<open>work_left\<close>, the number of nanoseconds that the queued timers are behind the
  last time of the clock, plus the number of timers; for the rollovers it is 8, because there is a
  leap year in eight years and a month of 31 days in two.  The loop that empties the I2C receive FIFO
  needs as much fuel as there are queued bytes.  Committing a pin state goes through the settings once
  forward and once back.  Reference counts of pins must stay below
  \<open>2 ^ 32\<close> (\<open>no_wrap\<close>, \<open>wroom\<close>); RTC times are below \<open>2 ^ 33\<close> seconds, where nanoseconds still fit 64 bits.

  \<^bold>\<open>Not modelled.\<close>  Logging, tracing and debugfs output; memory barriers and lock contention (every
  operation runs as a whole, its order with the others is arbitrary); device-managed wrappers;
  optional code that the configuration leaves out (ACPI, update interrupt emulation, generic
  pin function and group tables); the code that reads device trees.  Assembly, device trees and build
  files.  Not reached: the SPI controller, hardware monitoring, serial ports, USB, timers, the bus
  driver and most of U-Boot; their logic is register sequences around calls of code outside the
  repository or follows the patterns of the parts above.
\<close>

end
